(* ===== verification/Go_Prelude.thy ===== *)
theory Go_Prelude
  imports Complex_Main "HOL-Library.Monad_Syntax" "HOL-Library.AList" "HOL-Library.Multiset"
begin

section \<open>Shared vocabulary of the development\<close>

text \<open>
  What every component uses: the Go values the sources compute with (fixed-width integers with their
  wrap-around, strings, decimal rendering, maps), loops that return early with an error, and the
  lemma collections that carry the component proofs.

  \<^item> An \<open>int32\<close> or \<open>int64\<close> is an \<open>int\<close>; \<open>wrap32\<close> and \<open>wrap64\<close> are applied wherever the source does
    arithmetic or a conversion that can leave the range.
  \<^item> A Go map is an association list. The order of the list is the order in which one particular run
    enumerates the map in a \<open>range\<close> loop; Go leaves this order open, so every theorem is stated for an
    arbitrary list. A map that the source compares with \<open>nil\<close> is an \<open>option\<close> of such a list.
  \<^item> A \<open>for\<close> loop whose body may return an error is \<open>fold_r\<close>: it threads the loop state and stops at the
    first \<open>Inl\<close>.
\<close>

named_theorems map_simps \<open>rewriting of Go map reads after writes\<close>
named_theorems loop_intros \<open>invariant rules for early-return loops\<close>

type_synonym int32 = int
type_synonym int64 = int
type_synonym ('k, 'v) gomap = "('k \<times> 'v) list"

subsection \<open>Fixed-width integers\<close>

definition wrap32 :: "int \<Rightarrow> int32" where
  "wrap32 i = (i + 2 ^ 31) mod 2 ^ 32 - 2 ^ 31"

definition wrap64 :: "int \<Rightarrow> int64" where
  "wrap64 i = (i + 2 ^ 63) mod 2 ^ 64 - 2 ^ 63"

definition in_int32 :: "int \<Rightarrow> bool" where
  "in_int32 i \<longleftrightarrow> - (2 ^ 31) \<le> i \<and> i < 2 ^ 31"

definition in_int64 :: "int \<Rightarrow> bool" where
  "in_int64 i \<longleftrightarrow> - (2 ^ 63) \<le> i \<and> i < 2 ^ 63"

lemma wrap32_id [simp]: "in_int32 i \<Longrightarrow> wrap32 i = i"
  by (simp add: wrap32_def in_int32_def)

lemma wrap64_id [simp]: "in_int64 i \<Longrightarrow> wrap64 i = i"
  by (simp add: wrap64_def in_int64_def)

lemma in_int64_nonneg: "0 \<le> i \<Longrightarrow> i < 2 ^ 63 \<Longrightarrow> in_int64 i"
  by (simp add: in_int64_def)

lemma wrap32_range: "in_int32 (wrap32 i)"
proof -
  have "0 \<le> (i + 2 ^ 31) mod 2 ^ 32" and "(i + 2 ^ 31) mod 2 ^ 32 < (2::int) ^ 32"
    by simp_all
  then show ?thesis by (simp add: wrap32_def in_int32_def)
qed

lemma wrap64_range: "in_int64 (wrap64 i)"
proof -
  have "0 \<le> (i + 2 ^ 63) mod 2 ^ 64" and "(i + 2 ^ 63) mod 2 ^ 64 < (2::int) ^ 64"
    by simp_all
  then show ?thesis by (simp add: wrap64_def in_int64_def)
qed

subsection \<open>Go maps\<close>

abbreviation mget :: "('k, 'v) gomap \<Rightarrow> 'k \<Rightarrow> 'v option" where
  "mget \<equiv> map_of"

abbreviation mput :: "'k \<Rightarrow> 'v \<Rightarrow> ('k, 'v) gomap \<Rightarrow> ('k, 'v) gomap" where
  "mput \<equiv> AList.update"

abbreviation mkeys :: "('k, 'v) gomap \<Rightarrow> 'k set" where
  "mkeys m \<equiv> fst ` set m"

definition wf_map :: "('k, 'v) gomap \<Rightarrow> bool" where
  "wf_map m \<longleftrightarrow> distinct (map fst m)"

text \<open>\<open>m[k]\<close> read as a value: the zero value of the element type when the key is absent.\<close>

definition mget0 :: "'v \<Rightarrow> ('k, 'v) gomap \<Rightarrow> 'k \<Rightarrow> 'v" where
  "mget0 z m k = (case mget m k of None \<Rightarrow> z | Some v \<Rightarrow> v)"

text \<open>\<open>delete(m, k)\<close>.\<close>

definition mdel :: "'k \<Rightarrow> ('k, 'v) gomap \<Rightarrow> ('k, 'v) gomap" where
  "mdel k m = filter (\<lambda>(k', _). k' \<noteq> k) m"

lemma mget_mput [map_simps, simp]: "mget (mput k v m) k' = (if k' = k then Some v else mget m k')"
  by (simp add: update_conv)

lemma mget_mdel [map_simps, simp]: "mget (mdel k m) k' = (if k' = k then None else mget m k')"
  by (induction m) (auto simp: mdel_def)

lemma mget0_mput [map_simps, simp]: "mget0 z (mput k v m) k' = (if k' = k then v else mget0 z m k')"
  by (simp add: mget0_def)

lemma mget0_Nil [simp]: "mget0 z [] k = z"
  by (simp add: mget0_def)

lemma wf_map_Nil [simp]: "wf_map []"
  by (simp add: wf_map_def)

lemma wf_map_mput [simp]: "wf_map m \<Longrightarrow> wf_map (mput k v m)"
  by (simp add: wf_map_def distinct_update)

lemma mkeys_mput [simp]: "mkeys (mput k v m) = insert k (mkeys m)"
  by (induction m) auto

lemma mvals_mput: "x \<in> snd ` set (mput k v m) \<Longrightarrow> x = v \<or> x \<in> snd ` set m"
  by (induction m) (auto split: if_splits)

lemma set_mput: "x \<in> set (mput k v m) \<Longrightarrow> x = (k, v) \<or> x \<in> set m"
  by (induction m) (auto split: if_splits)

lemma fold_preserves: "P s \<Longrightarrow> (\<And>x s. P s \<Longrightarrow> P (f x s)) \<Longrightarrow> P (fold f xs s)"
  by (induction xs arbitrary: s) auto

lemma mget_None_iff: "mget m k = None \<longleftrightarrow> k \<notin> mkeys m"
  by (rule map_of_eq_None_iff)

lemma mget_Some_wf: "wf_map m \<Longrightarrow> mget m k = Some v \<longleftrightarrow> (k, v) \<in> set m"
  by (simp add: wf_map_def)

lemma mput_length: "length (mput k v m) = (if k \<in> mkeys m then length m else Suc (length m))"
  by (induction m) auto

text \<open>A loop that writes, for every element, a value that depends on its key only.\<close>

lemma mget_fold_mput:
  "mget (fold (\<lambda>x m. mput (k x) (f (k x)) m) xs m0) a =
     (if a \<in> k ` set xs then Some (f a) else mget m0 a)"
  by (induction xs arbitrary: m0) auto

lemmas mget_fold_const = mget_fold_mput [where k = "\<lambda>x. x" and f = "\<lambda>_. v" for v, simplified]

lemma mkeys_fold_mput: "mkeys (fold (\<lambda>x m. mput (k x) (g x) m) xs m0) = mkeys m0 \<union> k ` set xs"
  by (induction xs arbitrary: m0) auto

lemma wf_map_fold_mput: "wf_map m0 \<Longrightarrow> wf_map (fold (\<lambda>x m. mput (k x) (g x) m) xs m0)"
  by (induction xs arbitrary: m0) auto

subsection \<open>Loops with an early error return\<close>

fun fold_r :: "('a \<Rightarrow> 's \<Rightarrow> 'e + 's) \<Rightarrow> 'a list \<Rightarrow> 's \<Rightarrow> 'e + 's" where
  "fold_r f [] s = Inr s"
| "fold_r f (x # xs) s = (case f x s of Inl e \<Rightarrow> Inl e | Inr s' \<Rightarrow> fold_r f xs s')"

text \<open>The sequencing of two fallible steps.\<close>

definition rbind :: "'e + 'a \<Rightarrow> ('a \<Rightarrow> 'e + 'b) \<Rightarrow> 'e + 'b" where
  "rbind r f = (case r of Inl e \<Rightarrow> Inl e | Inr a \<Rightarrow> f a)"

lemma rbind_Inl [simp]: "rbind (Inl e) f = Inl e"
  and rbind_Inr [simp]: "rbind (Inr a) f = f a"
  by (simp_all add: rbind_def)

lemma rbind_eq_Inr: "rbind r f = Inr b \<longleftrightarrow> (\<exists>a. r = Inr a \<and> f a = Inr b)"
  by (cases r) auto

lemma rbind_eq_Inl: "rbind r f = Inl e \<longleftrightarrow> r = Inl e \<or> (\<exists>a. r = Inr a \<and> f a = Inl e)"
  by (cases r) auto

lemma fold_r_append: "fold_r f (xs @ ys) s = rbind (fold_r f xs s) (fold_r f ys)"
  by (induction xs arbitrary: s) (auto split: sum.splits)

text \<open>The invariant rule: what the body keeps on success, the loop keeps on success.\<close>

lemma fold_r_invariant [loop_intros]:
  assumes "fold_r f xs s = Inr s'" and "P s"
    and "\<And>x s s'. x \<in> set xs \<Longrightarrow> P s \<Longrightarrow> f x s = Inr s' \<Longrightarrow> P s'"
  shows "P s'"
  using assms
proof (induction xs arbitrary: s)
  case Nil
  then show ?case by simp
next
  case (Cons x xs)
  from Cons.prems(1) obtain t where t: "f x s = Inr t" "fold_r f xs t = Inr s'"
    by (auto split: sum.splits)
  with Cons.prems(2,3) have "P t" by (meson list.set_intros(1))
  with t Cons show ?case by (meson list.set_intros(2))
qed

text \<open>A loop that succeeds ran its body successfully on every element.\<close>

lemma fold_r_each:
  assumes "fold_r f xs s = Inr s'" and "x \<in> set xs"
  shows "\<exists>t t'. f x t = Inr t'"
  using assms by (induction xs arbitrary: s) (auto split: sum.splits)

text \<open>A loop whose body never fails on its elements never fails.\<close>

lemma fold_r_total:
  assumes "\<And>x t. x \<in> set xs \<Longrightarrow> \<exists>t'. f x t = Inr t'"
  shows "\<exists>s'. fold_r f xs s = Inr s'"
  using assms
proof (induction xs arbitrary: s)
  case Nil
  then show ?case by simp
next
  case (Cons x xs)
  from Cons.prems obtain t' where "f x s = Inr t'" by (meson list.set_intros(1))
  with Cons show ?case by simp
qed

text \<open>A loop whose body adds one key to a map.\<close>

lemma fold_r_keys:
  assumes "fold_r f xs m = Inr m'"
    and "\<And>x m m'. x \<in> set xs \<Longrightarrow> f x m = Inr m' \<Longrightarrow> mkeys m' = insert (k x) (mkeys m)"
  shows "mkeys m' = mkeys m \<union> k ` set xs"
  using assms
proof (induction xs arbitrary: m)
  case (Cons x xs)
  from Cons.prems(1) obtain t where t: "f x m = Inr t" "fold_r f xs t = Inr m'"
    by (auto split: sum.splits)
  have "mkeys m' = mkeys t \<union> k ` set xs" using Cons.prems(2) by (intro Cons.IH t(2)) simp
  with Cons.prems(2) [OF _ t(1)] show ?case by simp
qed simp

text \<open>A checking loop, whose body either fails or leaves the state alone.\<close>

lemma fold_r_check:
  "fold_r (\<lambda>x s. case c x of Some e \<Rightarrow> Inl e | None \<Rightarrow> Inr s) xs s = Inr s'
    \<longleftrightarrow> s' = s \<and> (\<forall>x \<in> set xs. c x = None)"
  by (induction xs arbitrary: s) (auto split: option.splits)

lemma fold_r_cong [fundef_cong]:
  assumes "xs = ys" and "s = t" and "\<And>x s. x \<in> set ys \<Longrightarrow> f x s = g x s"
  shows "fold_r f xs s = fold_r g ys t"
  using assms(3) unfolding assms(1,2)
  by (induction ys arbitrary: t) (auto split: sum.splits)

subsection \<open>Sorting\<close>

text \<open>
  \<open>sort.Slice\<close> sorts slices of up to twelve elements by insertion: element \<open>i\<close> moves left while it is
  less than its left neighbour. \<open>rins\<close> is the inner loop on the reversed prefix. For longer slices the
  library uses another algorithm; when no two elements are equivalent under the order the result is
  the same, because a sorted arrangement is then unique (\<open>sort_slice_unique\<close>).
\<close>

fun rins :: "('a \<Rightarrow> 'a \<Rightarrow> bool) \<Rightarrow> 'a \<Rightarrow> 'a list \<Rightarrow> 'a list" where
  "rins lt x [] = [x]"
| "rins lt x (y # ys) = (if lt x y then y # rins lt x ys else x # y # ys)"

definition sort_slice :: "('a \<Rightarrow> 'a \<Rightarrow> bool) \<Rightarrow> 'a list \<Rightarrow> 'a list" where
  "sort_slice lt xs = rev (fold (rins lt) xs [])"

lemma mset_rins [simp]: "mset (rins lt x ys) = add_mset x (mset ys)"
  by (induction ys) auto

lemma set_rins [simp]: "set (rins lt x ys) = insert x (set ys)"
  by (induction ys) auto

lemma mset_fold_rins: "mset (fold (rins lt) xs ys) = mset xs + mset ys"
  by (induction xs arbitrary: ys) auto

lemma mset_sort_slice [simp]: "mset (sort_slice lt xs) = mset xs"
  by (simp add: sort_slice_def mset_fold_rins)

lemma set_sort_slice [simp]: "set (sort_slice lt xs) = set xs"
  by (metis mset_sort_slice set_mset_mset)

lemma length_sort_slice [simp]: "length (sort_slice lt xs) = length xs"
  by (metis mset_sort_slice size_mset)

text \<open>The orders on which sorting is meaningful: asymmetric, with a transitive complement.\<close>

definition weak_order :: "'a set \<Rightarrow> ('a \<Rightarrow> 'a \<Rightarrow> bool) \<Rightarrow> bool" where
  "weak_order A lt \<longleftrightarrow> (\<forall>a \<in> A. \<forall>b \<in> A. lt a b \<longrightarrow> \<not> lt b a) \<and>
     (\<forall>a \<in> A. \<forall>b \<in> A. \<forall>c \<in> A. \<not> lt a b \<longrightarrow> \<not> lt b c \<longrightarrow> \<not> lt a c)"

lemma weak_order_asym: "weak_order A lt \<Longrightarrow> a \<in> A \<Longrightarrow> b \<in> A \<Longrightarrow> lt a b \<Longrightarrow> \<not> lt b a"
  unfolding weak_order_def by blast

lemma weak_order_trans:
  "weak_order A lt \<Longrightarrow> a \<in> A \<Longrightarrow> b \<in> A \<Longrightarrow> c \<in> A \<Longrightarrow> \<not> lt a b \<Longrightarrow> \<not> lt b c \<Longrightarrow> \<not> lt a c"
  unfolding weak_order_def by blast

lemma rins_sorted:
  assumes "weak_order A lt" and "x \<in> A" and "set ys \<subseteq> A"
    and "sorted_wrt (\<lambda>a b. \<not> lt a b) ys"
  shows "sorted_wrt (\<lambda>a b. \<not> lt a b) (rins lt x ys)"
  using assms(3,4)
proof (induction ys)
  case Nil
  then show ?case by simp
next
  case (Cons y ys)
  have y: "y \<in> A" using Cons.prems(1) by simp
  show ?case
  proof (cases "lt x y")
    case True
    then have "\<not> lt y x" using weak_order_asym [OF assms(1,2) y] by simp
    with True Cons show ?thesis by simp
  next
    case False
    have "\<not> lt x z" if "z \<in> set ys" for z
      using weak_order_trans [OF assms(1,2) y _ False, of z] Cons.prems that by auto
    with False Cons.prems(2) show ?thesis by simp
  qed
qed

lemma sort_slice_sorted:
  assumes "weak_order (set xs) lt"
  shows "sorted_wrt (\<lambda>a b. \<not> lt b a) (sort_slice lt xs)"
proof -
  have "sorted_wrt (\<lambda>a b. \<not> lt a b) (fold (rins lt) ys zs)"
    if "sorted_wrt (\<lambda>a b. \<not> lt a b) zs" and "set ys \<subseteq> set xs" and "set zs \<subseteq> set xs" for ys zs
    using that
  proof (induction ys arbitrary: zs)
    case (Cons y ys)
    then have "sorted_wrt (\<lambda>a b. \<not> lt a b) (rins lt y zs)"
      by (intro rins_sorted [OF assms]) simp_all
    with Cons show ?case by simp
  qed simp
  then have "sorted_wrt (\<lambda>a b. \<not> lt a b) (fold (rins lt) xs [])" by simp
  then show ?thesis by (simp add: sort_slice_def sorted_wrt_rev)
qed

text \<open>Two sorted arrangements of the same elements agree when the order separates the elements.\<close>

lemma sorted_arrangement_unique:
  assumes "mset xs = mset ys"
    and "sorted_wrt (\<lambda>a b. \<not> lt b a) xs" and "sorted_wrt (\<lambda>a b. \<not> lt b a) ys"
    and "\<And>a b. a \<in> set xs \<Longrightarrow> b \<in> set xs \<Longrightarrow> \<not> lt a b \<Longrightarrow> \<not> lt b a \<Longrightarrow> a = b"
  shows "xs = ys"
  using assms
proof (induction xs arbitrary: ys)
  case Nil
  then show ?case by simp
next
  case (Cons x xs)
  then obtain y ys' where ys: "ys = y # ys'" by (cases ys) auto
  have sets: "set (x # xs) = set ys" using Cons.prems(1) by (metis set_mset_mset)
  have "x = y"
  proof (rule ccontr)
    assume "x \<noteq> y"
    then have "y \<in> set xs" "x \<in> set ys'" using sets ys by auto
    then have "\<not> lt y x" "\<not> lt x y" using Cons.prems(2,3) ys by auto
    moreover have "y \<in> set (x # xs)" using \<open>y \<in> set xs\<close> by simp
    ultimately show False using Cons.prems(4) [of x y] \<open>x \<noteq> y\<close> by simp
  qed
  moreover have "xs = ys'"
    using Cons.prems ys \<open>x = y\<close> by (intro Cons.IH) auto
  ultimately show ?case using ys by simp
qed

lemma sort_slice_unique:
  assumes "mset ys = mset xs" and "sorted_wrt (\<lambda>a b. \<not> lt b a) ys" and "weak_order (set xs) lt"
    and "\<And>a b. a \<in> set xs \<Longrightarrow> b \<in> set xs \<Longrightarrow> \<not> lt a b \<Longrightarrow> \<not> lt b a \<Longrightarrow> a = b"
  shows "sort_slice lt xs = ys"
proof (rule sorted_arrangement_unique)
  show "mset (sort_slice lt xs) = mset ys" using assms(1) by simp
  show "sorted_wrt (\<lambda>a b. \<not> lt b a) (sort_slice lt xs)" using assms(3) by (rule sort_slice_sorted)
  show "sorted_wrt (\<lambda>a b. \<not> lt b a) ys" by (rule assms(2))
  show "a = b" if "a \<in> set (sort_slice lt xs)" "b \<in> set (sort_slice lt xs)" "\<not> lt a b" "\<not> lt b a" for a b
    using assms(4) that by simp
qed

text \<open>The order \<open><\<close> of Go strings: bytewise, a proper prefix first.\<close>

fun str_less :: "string \<Rightarrow> string \<Rightarrow> bool" where
  "str_less s [] = False"
| "str_less [] (c # t) = True"
| "str_less (b # s) (c # t) =
     (if (of_char b :: nat) = of_char c then str_less s t else (of_char b :: nat) < of_char c)"

lemma str_less_irrefl [simp]: "\<not> str_less s s"
  by (induction s) auto

lemma str_less_asym: "str_less s t \<Longrightarrow> \<not> str_less t s"
  by (induction s t rule: str_less.induct) (auto split: if_splits)

lemma str_less_total: "\<not> str_less s t \<Longrightarrow> \<not> str_less t s \<Longrightarrow> s = t"
proof (induction s t rule: str_less.induct)
  case (1 s)
  then show ?case by (cases s) auto
qed (auto split: if_splits)

lemma str_less_trans: "str_less s t \<Longrightarrow> str_less t u \<Longrightarrow> str_less s u"
proof (induction s t arbitrary: u rule: str_less.induct)
  case (2 c t)
  then show ?case by (cases u) auto
next
  case (3 b s c t)
  then show ?case by (cases u) (auto split: if_splits)
qed simp

text \<open>\<open>strings.HasPrefix\<close> and \<open>strings.Contains\<close>.\<close>

definition has_prefix :: "string \<Rightarrow> string \<Rightarrow> bool" where
  "has_prefix s p = (take (length p) s = p)"

fun str_contains :: "string \<Rightarrow> string \<Rightarrow> bool" where
  "str_contains [] p = (p = [])"
| "str_contains (c # s) p = (has_prefix (c # s) p \<or> str_contains s p)"

lemma has_prefix_append [simp]: "has_prefix (p @ s) p"
  by (simp add: has_prefix_def)

subsection \<open>Decimal rendering\<close>

text \<open>
  \<open>strconv.Itoa\<close> and the \<open>%d\<close> verb: the decimal digits of an integer, with a minus sign.
\<close>

definition digit_char :: "nat \<Rightarrow> char" where
  "digit_char d = ''0123456789'' ! d"

fun nat_digits :: "nat \<Rightarrow> string" where
  "nat_digits n = (if n < 10 then [digit_char n] else nat_digits (n div 10) @ [digit_char (n mod 10)])"

declare nat_digits.simps [simp del]

definition itoa :: "int \<Rightarrow> string" where
  "itoa i = (if i < 0 then ''-'' @ nat_digits (nat (- i)) else nat_digits (nat i))"

text \<open>The value of a digit character, and of a digit string (\<open>strconv.Atoi\<close> on an unsigned string).\<close>

definition char_digit :: "char \<Rightarrow> nat option" where
  "char_digit c =
     (let v = (of_char c :: nat) in if 48 \<le> v \<and> v \<le> 57 then Some (v - 48) else None)"

fun digits_val :: "nat \<Rightarrow> string \<Rightarrow> nat option" where
  "digits_val acc [] = Some acc"
| "digits_val acc (c # cs) =
     (case char_digit c of None \<Rightarrow> None | Some d \<Rightarrow> digits_val (10 * acc + d) cs)"

lemma lt10_cases: "(n::nat) < 10 \<Longrightarrow> n = 0 \<or> n = 1 \<or> n = 2 \<or> n = 3 \<or> n = 4 \<or> n = 5 \<or> n = 6 \<or> n = 7 \<or> n = 8 \<or> n = 9"
  by arith

lemma char_digit_digit_char [simp]: "d < 10 \<Longrightarrow> char_digit (digit_char d) = Some d"
  by (drule lt10_cases) (auto simp: char_digit_def digit_char_def)

lemma digits_val_append:
  "digits_val acc (xs @ ys) = Option.bind (digits_val acc xs) (\<lambda>a. digits_val a ys)"
  by (induction xs arbitrary: acc) (auto split: option.splits)

lemma digits_val_nat_digits: "digits_val 0 (nat_digits n) = Some n"
proof (induction n rule: nat_digits.induct)
  case (1 n)
  show ?case
  proof (cases "n < 10")
    case True
    then show ?thesis by (simp add: nat_digits.simps [of n])
  next
    case False
    with "1.IH" have "digits_val 0 (nat_digits (n div 10)) = Some (n div 10)" by simp
    with False show ?thesis
      by (simp add: nat_digits.simps [of n] digits_val_append)
  qed
qed

lemma nat_digits_inj: "nat_digits m = nat_digits n \<Longrightarrow> m = n"
  by (metis digits_val_nat_digits option.inject)

lemma nat_digits_chars: "c \<in> set (nat_digits n) \<Longrightarrow> \<exists>d < 10. c = digit_char d"
proof (induction n rule: nat_digits.induct)
  case (1 n)
  show ?case
  proof (cases "n < 10")
    case True
    with "1.prems" show ?thesis by (auto simp: nat_digits.simps [of n])
  next
    case False
    moreover have "n mod 10 < 10" by simp
    moreover from False "1.prems" have "c \<in> set (nat_digits (n div 10)) \<or> c = digit_char (n mod 10)"
      by (auto simp: nat_digits.simps [of n])
    ultimately show ?thesis
      using "1.IH" by blast
  qed
qed

lemma nat_digits_ne [simp]: "nat_digits n \<noteq> []"
  by (subst nat_digits.simps) simp

lemma digit_char_neq_minus: "d < 10 \<Longrightarrow> digit_char d \<noteq> CHR ''-''"
  by (drule lt10_cases) (auto simp: digit_char_def)

lemma digit_char_neq_slash: "d < 10 \<Longrightarrow> digit_char d \<noteq> CHR ''/''"
  by (drule lt10_cases) (auto simp: digit_char_def)

lemma nat_digits_no_minus: "CHR ''-'' \<notin> set (nat_digits n)"
  using nat_digits_chars [of "CHR ''-''" n] digit_char_neq_minus by metis

lemma nat_digits_no_slash: "CHR ''/'' \<notin> set (nat_digits n)"
  using nat_digits_chars [of "CHR ''/''" n] digit_char_neq_slash by metis

lemma itoa_inj: "itoa i = itoa j \<longleftrightarrow> i = j"
proof
  assume eq: "itoa i = itoa j"
  have nm: "nat_digits n \<noteq> CHR ''-'' # xs" for n xs
    using nat_digits_no_minus [of n] by auto
  have nm': "CHR ''-'' # xs \<noteq> nat_digits n" for n xs
    using nat_digits_no_minus [of n] by (metis list.set_intros(1))
  from eq show "i = j"
    by (auto simp: itoa_def nm nm' split: if_splits dest: nat_digits_inj)
qed simp

lemma itoa_no_slash: "CHR ''/'' \<notin> set (itoa i)"
  by (auto simp: itoa_def nat_digits_no_slash)

text \<open>The separator splits a concatenation in one way when the right parts do not contain it.\<close>

lemma append_sep_first:
  "xs @ c # ys = xs' @ c # ys' \<Longrightarrow> c \<notin> set xs \<Longrightarrow> c \<notin> set xs' \<Longrightarrow> xs = xs' \<and> ys = ys'"
proof (induction xs arbitrary: xs')
  case Nil
  then show ?case by (cases xs') auto
next
  case (Cons x xs)
  then show ?case by (cases xs') auto
qed

lemma append_sep_inj:
  assumes "xs @ c # ys = xs' @ c # ys'" and "c \<notin> set ys" and "c \<notin> set ys'"
  shows "xs = xs' \<and> ys = ys'"
proof -
  have "rev ys @ c # rev xs = rev ys' @ c # rev xs'"
    using arg_cong [OF assms(1), of rev] by simp
  moreover have "c \<notin> set (rev ys)" and "c \<notin> set (rev ys')" using assms(2,3) by simp_all
  ultimately have "rev ys = rev ys' \<and> rev xs = rev xs'"
    by (rule append_sep_first)
  then show ?thesis by simp
qed

subsection \<open>Parsing, trimming and joining\<close>

text \<open>\<open>strconv.Atoi\<close>: an optional sign and at least one digit, within the range of int; \<open>None\<close> is an error.\<close>

definition atoi :: "string \<Rightarrow> int option" where
  "atoi s =
    (let (neg, ds) = (case s of [] \<Rightarrow> (False, []) | c # cs \<Rightarrow>
           if c = CHR ''-'' then (True, cs) else if c = CHR ''+'' then (False, cs) else (False, s))
     in if ds = [] then None
        else case digits_val 0 ds of
          None \<Rightarrow> None
        | Some n \<Rightarrow> (let i = (if neg then - int n else int n) in if in_int64 i then Some i else None))"

text \<open>\<open>strings.Trim(s, "/")\<close> with a one-letter cutset, and \<open>strings.Join\<close>.\<close>

definition trim_char :: "char \<Rightarrow> string \<Rightarrow> string" where
  "trim_char c s = rev (dropWhile (\<lambda>x. x = c) (rev (dropWhile (\<lambda>x. x = c) s)))"

fun join :: "string \<Rightarrow> string list \<Rightarrow> string" where
  "join sep [] = []"
| "join sep [x] = x"
| "join sep (x # y # xs) = x @ sep @ join sep (y # xs)"

text \<open>Subtraction of times: \<open>time.Time.Sub\<close> saturates at the bounds of int64.\<close>

definition sat64 :: "int \<Rightarrow> int64" where
  "sat64 i = max (- (2 ^ 63)) (min (2 ^ 63 - 1) i)"

lemma char_digit_signs [simp]: "char_digit (CHR ''-'') = None" "char_digit (CHR ''+'') = None"
  by (simp_all add: char_digit_def)

lemma nat_digits_hd: "nat_digits n = c # cs \<Longrightarrow> c \<noteq> CHR ''-'' \<and> c \<noteq> CHR ''+''"
  using digits_val_nat_digits [of n] by (auto split: option.splits)

lemma atoi_itoa: "in_int64 i \<Longrightarrow> atoi (itoa i) = Some i"
proof -
  assume *: "in_int64 i"
  show ?thesis
  proof (cases "nat_digits (nat \<bar>i\<bar>)")
    case (Cons c cs)
    with nat_digits_hd [OF Cons] digits_val_nat_digits [of "nat \<bar>i\<bar>"] *
    show ?thesis by (auto simp: atoi_def itoa_def Let_def abs_if split: if_splits)
  qed simp
qed

subsection \<open>Trimming, splitting and slicing\<close>

text \<open>\<open>strings.TrimSpace\<close> for the white space of ASCII.\<close>

definition is_space :: "char \<Rightarrow> bool" where
  "is_space c \<longleftrightarrow> c \<in> set [CHR 0x09, CHR 0x0A, CHR 0x0B, CHR 0x0C, CHR 0x0D, CHR 0x20]"

definition trim_space :: "string \<Rightarrow> string" where
  "trim_space s = rev (dropWhile is_space (rev (dropWhile is_space s)))"

text \<open>\<open>strings.ToLower\<close> on the letters of ASCII; other characters are left alone.\<close>

definition lower_char :: "char \<Rightarrow> char" where
  "lower_char c = (let v = (of_char c :: nat) in if 65 \<le> v \<and> v \<le> 90 then char_of (v + 32) else c)"

definition to_lower :: "string \<Rightarrow> string" where
  "to_lower s = map lower_char s"

text \<open>\<open>strings.Split\<close> and \<open>strings.SplitN(s, sep, 2)\<close> for a separator of one character.\<close>

fun str_split :: "char \<Rightarrow> string \<Rightarrow> string list" where
  "str_split d [] = [[]]"
| "str_split d (c # s) = (if c = d then [] # str_split d s
     else case str_split d s of [] \<Rightarrow> [[c]] | p # ps \<Rightarrow> (c # p) # ps)"

definition split_first :: "char \<Rightarrow> string \<Rightarrow> (string \<times> string) option" where
  "split_first d s = (case dropWhile (\<lambda>c. c \<noteq> d) s of [] \<Rightarrow> None | _ # r \<Rightarrow> Some (takeWhile (\<lambda>c. c \<noteq> d) s, r))"

text \<open>The slice expression \<open>xs[a:b]\<close>: \<open>None\<close> is a panic.\<close>

definition go_slice :: "int \<Rightarrow> int \<Rightarrow> 'a list \<Rightarrow> 'a list option" where
  "go_slice a b xs = (if 0 \<le> a \<and> a \<le> b \<and> b \<le> int (length xs) then Some (take (nat (b - a)) (drop (nat a) xs)) else None)"

text \<open>
  \<open>%q\<close> on a string: the quotes, and escapes for the quote, the backslash and the ASCII control characters.
  Characters outside ASCII are taken to be printable.
\<close>

definition hex_digit :: "nat \<Rightarrow> char" where
  "hex_digit d = ''0123456789abcdef'' ! d"

definition quote_char :: "char \<Rightarrow> string" where
  "quote_char c = (let v = (of_char c :: nat) in
    if v = 34 then [CHR 0x5C, c] else if v = 92 then [CHR 0x5C, c]
    else if v = 7 then [CHR 0x5C, CHR ''a''] else if v = 8 then [CHR 0x5C, CHR ''b'']
    else if v = 9 then [CHR 0x5C, CHR ''t''] else if v = 10 then [CHR 0x5C, CHR ''n'']
    else if v = 11 then [CHR 0x5C, CHR ''v''] else if v = 12 then [CHR 0x5C, CHR ''f'']
    else if v = 13 then [CHR 0x5C, CHR ''r'']
    else if v < 32 \<or> v = 127 then [CHR 0x5C, CHR ''x'', hex_digit (v div 16), hex_digit (v mod 16)]
    else [c])"

definition go_quote :: "string \<Rightarrow> string" where
  "go_quote s = [CHR 0x22] @ concat (map quote_char s) @ [CHR 0x22]"

end
