(* ===== verification/Float64.thy ===== *)
theory Float64
  imports Go_Prelude "HOL-Library.Log_Nat"
begin

section \<open>Go's float64\<close>

text \<open>
  The optimizer computes with Go's \<open>float64\<close>, the IEEE 754 binary64 format. A value is a rational
  number, an infinity or a NaN; every operation computes the exact rational result and rounds it to
  the nearest number with a 53-bit significand, ties to even, with gradual underflow below \<open>2^-1022\<close>
  and overflow to an infinity from \<open>2^1024\<close> on. The two zeros are identified: no source reads the
  sign of a zero, and every division of the program is guarded by a test that the divisor is positive.

  The theory proves what the components rely on: rounding is monotone, keeps the sign, fixes the
  representable numbers and has a relative error of at most \<open>2^-53\<close> in the normal range.
\<close>

datatype f64 = Fin rat | PInf | NInf | NaN

subsection \<open>Rounding\<close>

definition rne :: "rat \<Rightarrow> int" where
  "rne q = (let f = \<lfloor>q\<rfloor>; d = q - of_int f in
     if d < 1 / 2 then f else if 1 / 2 < d then f + 1 else if even f then f else f + 1)"

text \<open>The number of bits of a positive integer.\<close>

function blen :: "int \<Rightarrow> int" where
  "blen n = (if n \<le> 0 then 0 else 1 + blen (n div 2))"
  by pat_completeness auto
termination
  by (relation "measure nat") auto

declare blen.simps [simp del]

text \<open>The power of two, by repeated squaring.\<close>

function ipow2 :: "int \<Rightarrow> int" where
  "ipow2 n = (if n \<le> 0 then 1
     else let h = ipow2 (n div 2) in if n mod 2 = 0 then h * h else 2 * h * h)"
  by pat_completeness auto
termination
  by (relation "measure nat") auto

declare ipow2.simps [simp del]

definition pw2 :: "int \<Rightarrow> rat" where
  "pw2 e = (if 0 \<le> e then of_int (ipow2 e) else 1 / of_int (ipow2 (- e)))"

text \<open>The binary exponent of a positive rational: \<open>pw2 (ilog2 q) \<le> q < pw2 (ilog2 q + 1)\<close>.\<close>

definition ilog2 :: "rat \<Rightarrow> int" where
  "ilog2 q = (if 1 \<le> q then blen \<lfloor>q\<rfloor> - 1 else - blen (\<lceil>1 / q\<rceil> - 1))"

definition ulp_exp :: "rat \<Rightarrow> int" where
  "ulp_exp q = max (ilog2 \<bar>q\<bar> - 52) (- 1074)"

definition rnd64 :: "rat \<Rightarrow> rat" where
  "rnd64 q = (if q = 0 then 0
     else let u = pw2 (ulp_exp q) in of_int (rne (q / u)) * u)"

definition to_f64 :: "rat \<Rightarrow> f64" where
  "to_f64 q = (let r = rnd64 q in
     if r = 0 \<or> ilog2 \<bar>r\<bar> < 1024 then Fin r else if 0 < r then PInf else NInf)"

subsection \<open>Arithmetic and comparison\<close>

fun fneg :: "f64 \<Rightarrow> f64" where
  "fneg (Fin a) = Fin (- a)"
| "fneg PInf = NInf"
| "fneg NInf = PInf"
| "fneg NaN = NaN"

fun fadd :: "f64 \<Rightarrow> f64 \<Rightarrow> f64" where
  "fadd (Fin a) (Fin b) = to_f64 (a + b)"
| "fadd NaN _ = NaN"
| "fadd _ NaN = NaN"
| "fadd PInf NInf = NaN"
| "fadd NInf PInf = NaN"
| "fadd PInf _ = PInf"
| "fadd _ PInf = PInf"
| "fadd NInf _ = NInf"
| "fadd _ NInf = NInf"

definition fsub :: "f64 \<Rightarrow> f64 \<Rightarrow> f64" where
  "fsub x y = fadd x (fneg y)"

text \<open>The infinity with the sign of a nonzero rational; an infinity times zero is NaN.\<close>

definition inf_of :: "rat \<Rightarrow> f64" where
  "inf_of q = (if 0 < q then PInf else if q < 0 then NInf else NaN)"

fun fmul :: "f64 \<Rightarrow> f64 \<Rightarrow> f64" where
  "fmul (Fin a) (Fin b) = to_f64 (a * b)"
| "fmul NaN _ = NaN"
| "fmul _ NaN = NaN"
| "fmul PInf (Fin b) = inf_of b"
| "fmul NInf (Fin b) = inf_of (- b)"
| "fmul (Fin a) PInf = inf_of a"
| "fmul (Fin a) NInf = inf_of (- a)"
| "fmul PInf PInf = PInf"
| "fmul NInf NInf = PInf"
| "fmul PInf NInf = NInf"
| "fmul NInf PInf = NInf"

fun fdiv :: "f64 \<Rightarrow> f64 \<Rightarrow> f64" where
  "fdiv (Fin a) (Fin b) = (if b = 0 then inf_of a else to_f64 (a / b))"
| "fdiv NaN _ = NaN"
| "fdiv _ NaN = NaN"
| "fdiv PInf (Fin b) = (if b < 0 then NInf else PInf)"
| "fdiv NInf (Fin b) = (if b < 0 then PInf else NInf)"
| "fdiv (Fin a) _ = Fin 0"
| "fdiv _ _ = NaN"

fun flt :: "f64 \<Rightarrow> f64 \<Rightarrow> bool" where
  "flt (Fin a) (Fin b) = (a < b)"
| "flt NInf (Fin b) = True"
| "flt NInf PInf = True"
| "flt (Fin a) PInf = True"
| "flt _ _ = False"

fun fle :: "f64 \<Rightarrow> f64 \<Rightarrow> bool" where
  "fle NaN _ = False"
| "fle _ NaN = False"
| "fle NInf _ = True"
| "fle _ PInf = True"
| "fle (Fin a) (Fin b) = (a \<le> b)"
| "fle _ _ = False"

text \<open>\<open>x == y\<close>: like \<open>=\<close> but false on NaN.\<close>

definition feq :: "f64 \<Rightarrow> f64 \<Rightarrow> bool" where
  "feq x y \<longleftrightarrow> x = y \<and> x \<noteq> NaN"

definition isInf :: "f64 \<Rightarrow> bool" where
  "isInf x \<longleftrightarrow> x = PInf \<or> x = NInf"

definition isNaN :: "f64 \<Rightarrow> bool" where
  "isNaN x \<longleftrightarrow> x = NaN"

text \<open>\<open>float64(i)\<close> for an integer \<open>i\<close>.\<close>

definition of_int64 :: "int \<Rightarrow> f64" where
  "of_int64 i = to_f64 (of_int i)"

fun fabs :: "f64 \<Rightarrow> f64" where
  "fabs (Fin a) = Fin \<bar>a\<bar>"
| "fabs PInf = PInf"
| "fabs NInf = PInf"
| "fabs NaN = NaN"

text \<open>\<open>math.Max\<close>: an infinity wins over NaN, NaN over everything else.\<close>

definition fmax :: "f64 \<Rightarrow> f64 \<Rightarrow> f64" where
  "fmax x y = (if x = PInf \<or> y = PInf then PInf else if x = NaN \<or> y = NaN then NaN
     else if flt y x then x else y)"

abbreviation f0 :: f64 where "f0 \<equiv> Fin 0"
abbreviation f100 :: f64 where "f100 \<equiv> Fin 100"

fun is_fin :: "f64 \<Rightarrow> bool" where
  "is_fin (Fin _) = True"
| "is_fin _ = False"

text \<open>A finite value that the format can represent.\<close>

definition repr64 :: "rat \<Rightarrow> bool" where
  "repr64 q \<longleftrightarrow> rnd64 q = q \<and> (q = 0 \<or> ilog2 \<bar>q\<bar> < 1024)"

fun wf_f64 :: "f64 \<Rightarrow> bool" where
  "wf_f64 (Fin q) = repr64 q"
| "wf_f64 _ = True"

subsection \<open>Powers of two and the binary exponent\<close>

lemma ipow2_eq: "0 \<le> n \<Longrightarrow> ipow2 n = 2 ^ nat n"
proof (induction n rule: ipow2.induct)
  case (1 n)
  show ?case
  proof (cases "n \<le> 0")
    case True
    with "1.prems" have "n = 0" by simp
    then show ?thesis by (simp add: ipow2.simps [of 0])
  next
    case False
    with "1.IH" have h: "ipow2 (n div 2) = 2 ^ nat (n div 2)" by simp
    have dbl: "(2::int) ^ nat (n div 2) * 2 ^ nat (n div 2) = 2 ^ nat (2 * (n div 2))"
    proof -
      have "nat (2 * (n div 2)) = nat (n div 2) + nat (n div 2)" using False by linarith
      then show ?thesis by (simp only: power_add)
    qed
    show ?thesis
    proof (cases "n mod 2 = 0")
      case True
      then have "2 * (n div 2) = n" by presburger
      with False True h dbl show ?thesis by (simp add: ipow2.simps [of n] Let_def)
    next
      case odd: False
      then have "n = 2 * (n div 2) + 1" by presburger
      then have "nat n = Suc (nat (2 * (n div 2)))" using False by linarith
      with False odd h dbl show ?thesis
        by (simp add: ipow2.simps [of n] Let_def mult.assoc)
    qed
  qed
qed

lemma pw2_powi: "pw2 e = 2 powi e"
  by (simp add: pw2_def ipow2_eq power_int_def field_simps)

lemma pw2_pos [simp]: "0 < pw2 e"
  by (simp add: pw2_powi)

lemma pw2_nz [simp]: "pw2 e \<noteq> 0"
  using pw2_pos [of e] by linarith

lemma pw2_add: "pw2 (a + b) = pw2 a * pw2 b"
  by (simp add: pw2_powi power_int_add)

lemma pw2_mono: "a \<le> b \<Longrightarrow> pw2 a \<le> pw2 b"
  by (simp add: pw2_powi power_int_increasing)

lemma pw2_less: "a < b \<longleftrightarrow> pw2 a < pw2 b"
proof
  assume "a < b" then show "pw2 a < pw2 b" by (simp add: pw2_powi power_int_strict_increasing)
next
  assume "pw2 a < pw2 b" then show "a < b" using pw2_mono [of b a] by (meson leD not_le)
qed

lemma pw2_nat: "0 \<le> e \<Longrightarrow> pw2 e = of_int (2 ^ nat e)"
  by (simp add: pw2_powi power_int_def)

lemma blen_bounds: "0 < n \<Longrightarrow> 0 < blen n \<and> 2 ^ nat (blen n - 1) \<le> n \<and> n < 2 ^ nat (blen n)"
proof (induction n rule: blen.induct)
  case (1 n)
  show ?case
  proof (cases "n = 1")
    case True
    then show ?thesis by (simp add: blen.simps)
  next
    case False
    with "1.prems" have pos: "0 < n div 2" by linarith
    with "1.IH" "1.prems" have ih: "0 < blen (n div 2)" "2 ^ nat (blen (n div 2) - 1) \<le> n div 2" "n div 2 < 2 ^ nat (blen (n div 2))"
      by simp_all
    have e: "blen n = 1 + blen (n div 2)" using "1.prems" by (simp add: blen.simps [of n])
    have s: "nat (blen (n div 2)) = Suc (nat (blen (n div 2) - 1))" using ih(1) by linarith
    have t: "nat (blen n) = Suc (nat (blen (n div 2)))" using ih(1) e by linarith
    have "2 ^ nat (blen (n div 2)) \<le> n" using ih(2) unfolding s power_Suc by linarith
    moreover have "n < 2 ^ nat (blen n)" using ih(3) unfolding t power_Suc by linarith
    ultimately show ?thesis using ih(1) e by simp
  qed
qed

lemma blen_nonneg: "0 \<le> blen n"
  using blen_bounds [of n] by (cases "0 < n") (auto simp: blen.simps [of n])

lemma ilog2_bounds:
  assumes "0 < q"
  shows "pw2 (ilog2 q) \<le> q" and "q < pw2 (ilog2 q + 1)"
proof -
  have "pw2 (ilog2 q) \<le> q \<and> q < pw2 (ilog2 q + 1)"
  proof (cases "1 \<le> q")
    case True
    then have f: "0 < \<lfloor>q\<rfloor>" by (simp add: one_le_floor) 
    note b = blen_bounds [OF this]
    have "pw2 (blen \<lfloor>q\<rfloor> - 1) \<le> q"
    proof -
      have "pw2 (blen \<lfloor>q\<rfloor> - 1) \<le> of_int \<lfloor>q\<rfloor>" using b by (simp add: pw2_nat)
      then show ?thesis using of_int_floor_le [of q] by linarith
    qed
    moreover have "q < pw2 (blen \<lfloor>q\<rfloor>)"
    proof -
      have "\<lfloor>q\<rfloor> + 1 \<le> 2 ^ nat (blen \<lfloor>q\<rfloor>)" using b by linarith
      then have "(of_int (\<lfloor>q\<rfloor> + 1) :: rat) \<le> pw2 (blen \<lfloor>q\<rfloor>)" using b by (metis less_imp_le of_int_le_iff pw2_nat)
      then show ?thesis using floor_correct [of q] by linarith
    qed
    ultimately show ?thesis using True by (simp add: ilog2_def)
  next
    case False
    define c where "c = \<lceil>1 / q\<rceil>"
    have q1: "1 < 1 / q" using False assms by (simp add: field_simps)
    then have c1: "1 < c" unfolding c_def by linarith
    then have cp: "0 < c - 1" by simp
    note b = blen_bounds [OF cp]
    define j where "j = blen (c - 1)"
    have il: "ilog2 q = - j" using False by (simp add: ilog2_def c_def j_def)
    have "c \<le> 2 ^ nat j" using b by (simp add: j_def)
    then have "(of_int c :: rat) \<le> pw2 j" using b unfolding j_def by (metis less_imp_le of_int_le_iff pw2_nat)
    then have "1 / q \<le> pw2 j" using le_of_int_ceiling [of "1 / q"] unfolding c_def by linarith
    then have "pw2 (- j) \<le> q" using assms by (simp add: pw2_powi power_int_minus field_simps)
    moreover have "2 ^ nat (j - 1) \<le> c - 1" using b by (simp add: j_def)
    then have "pw2 (j - 1) \<le> of_int (c - 1)" proof -
      have "pw2 (j - 1) = of_int (2 ^ nat (j - 1))" using b by (intro pw2_nat) (simp add: j_def)
      moreover have "(of_int (2 ^ nat (j - 1)) :: rat) \<le> of_int (c - 1)"
        using b by (simp only: of_int_le_iff j_def)
      ultimately show ?thesis by (simp only:)
    qed
    then have "pw2 (j - 1) < 1 / q" unfolding c_def using ceiling_correct [of "1 / q"] by linarith
    then have "q < pw2 (- (j - 1))" using assms by (simp only: pw2_powi power_int_minus) (simp add: field_simps)
    ultimately show ?thesis by (simp add: il)
  qed
  then show "pw2 (ilog2 q) \<le> q" and "q < pw2 (ilog2 q + 1)" by simp_all
qed

lemma ilog2_le_iff: "0 < q \<Longrightarrow> k \<le> ilog2 q \<longleftrightarrow> pw2 k \<le> q"
proof
  assume "0 < q" "k \<le> ilog2 q"
  then show "pw2 k \<le> q" using pw2_mono ilog2_bounds(1) order_trans by blast
next
  assume q: "0 < q" "pw2 k \<le> q"
  then have "pw2 k < pw2 (ilog2 q + 1)" using ilog2_bounds(2) le_less_trans by blast
  then show "k \<le> ilog2 q" using pw2_less [of k "ilog2 q + 1"] by simp
qed

lemma ilog2_mono: "0 < q \<Longrightarrow> q \<le> r \<Longrightarrow> ilog2 q \<le> ilog2 r"
  using ilog2_bounds(1) [of q] by (subst ilog2_le_iff) auto

subsection \<open>Rounding to an integer\<close>

lemma rne_int [simp]: "rne (of_int n) = n"
  by (simp add: rne_def)

lemma rne_mono: "q \<le> r \<Longrightarrow> rne q \<le> rne r"
proof -
  assume qr: "q \<le> r"
  then have f: "\<lfloor>q\<rfloor> \<le> \<lfloor>r\<rfloor>" by (rule floor_mono)
  show ?thesis
  proof (cases "\<lfloor>q\<rfloor> = \<lfloor>r\<rfloor>")
    case True
    with qr show ?thesis by (auto simp: rne_def Let_def)
  next
    case False
    with f have "\<lfloor>q\<rfloor> + 1 \<le> \<lfloor>r\<rfloor>" by simp
    then show ?thesis by (auto simp: rne_def Let_def)
  qed
qed

lemma rne_close: "\<bar>of_int (rne q) - q\<bar> \<le> 1 / 2"
proof -
  have "of_int \<lfloor>q\<rfloor> \<le> q" and "q < of_int \<lfloor>q\<rfloor> + 1" by linarith+
  then show ?thesis unfolding rne_def Let_def abs_if by (simp; linarith?)
qed

lemma rne_minus: "rne (- q) = - rne q"
proof (cases "q = of_int \<lfloor>q\<rfloor>")
  case True
  then show ?thesis by (metis of_int_minus rne_int)
next
  case False
  then have c: "\<lfloor>- q\<rfloor> = - \<lfloor>q\<rfloor> - 1" using floor_correct [of q] by linarith
  show ?thesis unfolding rne_def c Let_def by auto
qed

subsection \<open>Rounding to the format\<close>

lemma ulp_exp_minus [simp]: "ulp_exp (- q) = ulp_exp q"
  by (simp add: ulp_exp_def)

lemma rnd64_0 [simp]: "rnd64 0 = 0"
  by (simp add: rnd64_def)

lemma rnd64_minus: "rnd64 (- q) = - rnd64 q"
  by (simp add: rnd64_def Let_def rne_minus)

lemma rnd64_nonneg: "0 \<le> q \<Longrightarrow> 0 \<le> rnd64 q"
proof -
  assume "0 \<le> q"
  then have "0 \<le> q / pw2 (ulp_exp q)" by (simp add: less_imp_le)
  then have "rne 0 \<le> rne (q / pw2 (ulp_exp q))" by (rule rne_mono)
  then have "0 \<le> rne (q / pw2 (ulp_exp q))" using rne_int [of 0] by simp
  then show ?thesis by (simp add: rnd64_def Let_def less_imp_le)
qed

text \<open>A power of two at or above the grid of \<open>q\<close> separates: what lies below it stays below it.\<close>

lemma rne_le_pw2:
  assumes "q \<le> pw2 e" and "k \<le> e"
  shows "of_int (rne (q / pw2 k)) * pw2 k \<le> pw2 e"
proof -
  have e: "pw2 (e - k) = of_int (2 ^ nat (e - k))" using assms(2) by (intro pw2_nat) simp
  have "pw2 e = pw2 (e - k) * pw2 k" by (simp add: pw2_add [symmetric])
  then have "q / pw2 k \<le> of_int (2 ^ nat (e - k))"
    using assms(1) e by (simp add: divide_le_eq)
  then have "rne (q / pw2 k) \<le> 2 ^ nat (e - k)"
    using rne_mono rne_int by metis
  then have "(of_int (rne (q / pw2 k)) :: rat) \<le> pw2 (e - k)" unfolding e by (simp only: of_int_le_iff)
  then show ?thesis using \<open>pw2 e = pw2 (e - k) * pw2 k\<close> by (simp add: mult_right_mono less_imp_le)
qed

lemma rne_ge_pw2:
  assumes "pw2 e \<le> q" and "k \<le> e"
  shows "pw2 e \<le> of_int (rne (q / pw2 k)) * pw2 k"
proof -
  have e: "pw2 (e - k) = of_int (2 ^ nat (e - k))" using assms(2) by (intro pw2_nat) simp
  have s: "pw2 e = pw2 (e - k) * pw2 k" by (simp add: pw2_add [symmetric])
  then have "of_int (2 ^ nat (e - k)) \<le> q / pw2 k"
    using assms(1) e by (simp add: le_divide_eq)
  then have "2 ^ nat (e - k) \<le> rne (q / pw2 k)"
    using rne_mono rne_int by metis
  then have "pw2 (e - k) \<le> (of_int (rne (q / pw2 k)) :: rat)" unfolding e by (simp only: of_int_le_iff)
  then show ?thesis using s by (simp add: mult_right_mono less_imp_le)
qed

lemma rnd64_mono_pos:
  assumes "0 < q" and "q \<le> r"
  shows "rnd64 q \<le> rnd64 r"
proof (cases "ulp_exp q = ulp_exp r")
  case True
  have "rne (q / pw2 (ulp_exp r)) \<le> rne (r / pw2 (ulp_exp r))"
    using assms(2) by (intro rne_mono divide_right_mono) (simp_all add: less_imp_le)
  then show ?thesis using assms True
    by (simp add: rnd64_def Let_def mult_right_mono less_imp_le)
next
  case False
  have mono: "ilog2 q \<le> ilog2 r" using assms by (rule ilog2_mono)
  with False assms have kr: "ulp_exp r = ilog2 r - 52" and lt: "ilog2 q < ilog2 r"
    and kq: "ulp_exp q \<le> ilog2 r"
    by (auto simp: ulp_exp_def max_def split: if_splits)
  have "q \<le> pw2 (ilog2 r)"
    using ilog2_bounds(2) [OF assms(1)] pw2_mono [of "ilog2 q + 1" "ilog2 r"] lt by linarith
  from rne_le_pw2 [OF this kq] have "rnd64 q \<le> pw2 (ilog2 r)"
    using assms by (simp add: rnd64_def Let_def)
  also have "pw2 (ilog2 r) \<le> rnd64 r"
    using rne_ge_pw2 [of "ilog2 r" r "ulp_exp r"] ilog2_bounds(1) [of r] assms kr
    by (simp add: rnd64_def Let_def)
  finally show ?thesis .
qed

lemma rnd64_mono: "q \<le> r \<Longrightarrow> rnd64 q \<le> rnd64 r"
proof -
  assume qr: "q \<le> r"
  consider "0 < q" | "q \<le> 0" "0 \<le> r" | "r < 0" using qr by linarith
  then show ?thesis
  proof cases
    case 1
    then show ?thesis using qr by (rule rnd64_mono_pos)
  next
    case 2
    then have "rnd64 q \<le> 0" using rnd64_nonneg [of "- q"] by (simp add: rnd64_minus)
    with 2 show ?thesis using rnd64_nonneg [of r] by linarith
  next
    case 3
    then have "rnd64 (- r) \<le> rnd64 (- q)" using qr by (intro rnd64_mono_pos) simp_all
    then show ?thesis by (simp add: rnd64_minus)
  qed
qed

text \<open>The error is at most half a unit in the last place.\<close>

lemma rnd64_error: "\<bar>rnd64 q - q\<bar> \<le> pw2 (ulp_exp q) / 2"
proof (cases "q = 0")
  case True
  then show ?thesis by (simp add: less_imp_le)
next
  case False
  define u where "u = pw2 (ulp_exp q)"
  have u: "0 < u" by (simp add: u_def)
  have "rnd64 q - q = (of_int (rne (q / u)) - q / u) * u"
    using False u by (simp add: rnd64_def Let_def u_def left_diff_distrib)
  then have "\<bar>rnd64 q - q\<bar> = \<bar>of_int (rne (q / u)) - q / u\<bar> * u"
    using u by (simp add: abs_mult)
  also have "\<dots> \<le> 1 / 2 * u" using rne_close u by (intro mult_right_mono) simp_all
  finally show ?thesis by (simp add: u_def)
qed

lemma rnd64_rel_error:
  assumes "pw2 (- 1022) \<le> \<bar>q\<bar>"
  shows "\<bar>rnd64 q - q\<bar> \<le> \<bar>q\<bar> * pw2 (- 53)"
proof -
  have pos: "0 < \<bar>q\<bar>" using assms pw2_pos [of "- 1022"] by linarith
  have "- 1022 \<le> ilog2 \<bar>q\<bar>" using assms pos by (simp add: ilog2_le_iff)
  then have k: "ulp_exp q = ilog2 \<bar>q\<bar> + (- 52)" by (simp add: ulp_exp_def)
  have "pw2 (ulp_exp q) / 2 = pw2 (ilog2 \<bar>q\<bar>) * (pw2 (- 52) / 2)" unfolding k pw2_add by simp
  also have "pw2 (- 52) / 2 = pw2 (- 53)" using pw2_add [of "- 53" 1] by (simp add: pw2_powi)
  also have "pw2 (ilog2 \<bar>q\<bar>) * pw2 (- 53) \<le> \<bar>q\<bar> * pw2 (- 53)"
    using ilog2_bounds(1) [OF pos] by (simp add: mult_right_mono less_imp_le)
  finally show ?thesis using rnd64_error [of q] by linarith
qed

text \<open>An integer multiple of a grid unit no finer than the grid of the format is a fixed point.\<close>

lemma rnd64_exact:
  assumes "q = of_int n * pw2 k" and "ulp_exp q \<le> k"
  shows "rnd64 q = q"
proof (cases "q = 0")
  case False
  have e: "pw2 (k - ulp_exp q) = of_int (2 ^ nat (k - ulp_exp q))" using assms(2) by (intro pw2_nat) simp
  have "pw2 k = pw2 (k - ulp_exp q) * pw2 (ulp_exp q)" by (simp add: pw2_add [symmetric])
  then have "q = of_int (n * 2 ^ nat (k - ulp_exp q)) * pw2 (ulp_exp q)"
    using assms(1) e by simp
  then have m: "q / pw2 (ulp_exp q) = of_int (n * 2 ^ nat (k - ulp_exp q))"
    by (metis nonzero_mult_div_cancel_right pw2_nz)
  have "rne (q / pw2 (ulp_exp q)) = n * 2 ^ nat (k - ulp_exp q)" unfolding m by (rule rne_int)
  then have "of_int (rne (q / pw2 (ulp_exp q))) = q / pw2 (ulp_exp q)" using m by (simp only:)
  then show ?thesis using False by (simp add: rnd64_def Let_def)
qed simp

lemma ulp_exp_le: "\<bar>q\<bar> < pw2 (k + 53) \<Longrightarrow> - 1074 \<le> k \<Longrightarrow> q \<noteq> 0 \<Longrightarrow> ulp_exp q \<le> k"
proof -
  assume a: "\<bar>q\<bar> < pw2 (k + 53)" "- 1074 \<le> k" "q \<noteq> 0"
  then have "\<not> k + 53 \<le> ilog2 \<bar>q\<bar>" by (simp add: ilog2_le_iff)
  with a show ?thesis by (simp add: ulp_exp_def)
qed

lemma rnd64_fix:
  assumes "q = of_int n * pw2 k" and "\<bar>n\<bar> < 2 ^ 53" and "- 1074 \<le> k"
  shows "rnd64 q = q"
proof (cases "q = 0")
  case False
  have "(of_int \<bar>n\<bar> :: rat) < of_int (2 ^ 53)" using assms(2) by (simp only: of_int_less_iff)
  then have "\<bar>q\<bar> < of_int (2 ^ 53) * pw2 k" using assms(1) by (simp add: abs_mult abs_of_pos)
  also have "\<dots> = pw2 (k + 53)" proof -
    have "pw2 53 = of_int (2 ^ 53)" by (simp add: pw2_powi)
    then show ?thesis by (simp only: pw2_add mult.commute)
  qed
  finally show ?thesis using rnd64_exact [OF assms(1)] ulp_exp_le [OF _ assms(3) False] by simp
qed simp

lemma rnd64_int: "\<bar>n\<bar> < 2 ^ 53 \<Longrightarrow> rnd64 (of_int n) = of_int n"
  by (rule rnd64_fix [where n = n and k = 0]) (simp_all add: pw2_def ipow2.simps)


lemma rnd64_idem: "rnd64 (rnd64 q) = rnd64 q"
proof (cases "q = 0")
  case False
  define k where "k = ulp_exp q"
  define n where "n = rne (q / pw2 k)"
  have r: "rnd64 q = of_int n * pw2 k" using False by (simp add: rnd64_def Let_def k_def n_def)
  have k: "- 1074 \<le> k" by (simp add: k_def ulp_exp_def)
  have "\<bar>q\<bar> < pw2 (ilog2 \<bar>q\<bar> + 1)" using False ilog2_bounds(2) by simp
  also have "\<dots> \<le> pw2 (k + 53)" by (rule pw2_mono) (simp add: k_def ulp_exp_def)
  finally have qb: "\<bar>q\<bar> \<le> pw2 (k + 53)" by simp
  have "\<bar>rnd64 q\<bar> = rnd64 \<bar>q\<bar>"
    using rnd64_nonneg [of "\<bar>q\<bar>"] by (cases "0 \<le> q") (auto simp: rnd64_minus abs_if)
  also have "\<dots> \<le> pw2 (k + 53)"
    using rne_le_pw2 [OF qb, of k] False by (simp add: rnd64_def Let_def k_def ulp_exp_def)
  finally have le: "\<bar>rnd64 q\<bar> \<le> pw2 (k + 53)" .
  show ?thesis
  proof (cases "\<bar>rnd64 q\<bar> = pw2 (k + 53)")
    case True
    have s: "pw2 (k + 53) = of_int 1 * pw2 (k + 53)" by simp
    have "rnd64 (pw2 (k + 53)) = pw2 (k + 53)" using k by (intro rnd64_fix [OF s]) simp_all
    with True show ?thesis by (metis abs_eq_iff' rnd64_minus)
  next
    case False
    with le have "\<bar>rnd64 q\<bar> < pw2 (k + 53)" by simp
    then show ?thesis using rnd64_exact [OF r] ulp_exp_le [OF _ k]
      by (cases "rnd64 q = 0") auto
  qed
qed simp

subsection \<open>The contract of a rounding\<close>

text \<open>
  What the optimizer needs of the rounding of exact results: it is monotone, odd and idempotent. The
  facts the components use follow from these laws alone.
\<close>

locale rounding =
  fixes rnd :: "rat \<Rightarrow> rat"
  assumes rnd_mono: "q \<le> r \<Longrightarrow> rnd q \<le> rnd r"
    and rnd_minus: "rnd (- q) = - rnd q"
    and rnd_idem: "rnd (rnd q) = rnd q"
begin

lemma rnd_zero: "rnd 0 = 0"
  using rnd_minus [of 0] by simp

lemma rnd_nonneg: "0 \<le> q \<Longrightarrow> 0 \<le> rnd q"
  using rnd_mono [of 0 q] by (simp add: rnd_zero)

lemma rnd_abs: "\<bar>rnd q\<bar> = rnd \<bar>q\<bar>"
  using rnd_nonneg [of q] rnd_nonneg [of "- q"] by (cases "0 \<le> q") (auto simp: rnd_minus abs_if)

lemma rnd_le_fix: "rnd b = b \<Longrightarrow> q \<le> b \<Longrightarrow> rnd q \<le> b"
  using rnd_mono by metis

lemma rnd_ge_fix: "rnd b = b \<Longrightarrow> b \<le> q \<Longrightarrow> b \<le> rnd q"
  using rnd_mono by metis

lemma rnd_abs_le_fix: "rnd b = b \<Longrightarrow> \<bar>q\<bar> \<le> b \<Longrightarrow> \<bar>rnd q\<bar> \<le> b"
  using rnd_le_fix [of b "\<bar>q\<bar>"] by (simp add: rnd_abs)

end

interpretation r64: rounding rnd64
  by unfold_locales (rule rnd64_mono, assumption, rule rnd64_minus, rule rnd64_idem)

subsection \<open>The order on values\<close>

lemma fle_refl: "x \<noteq> NaN \<Longrightarrow> fle x x"
  by (cases x) auto

lemma fle_trans: "fle x y \<Longrightarrow> fle y z \<Longrightarrow> fle x z"
  by (cases x; cases y; cases z) auto

lemma fle_antisym: "fle x y \<Longrightarrow> fle y x \<Longrightarrow> x = y"
  by (cases x; cases y) auto

lemma fle_total: "x \<noteq> NaN \<Longrightarrow> y \<noteq> NaN \<Longrightarrow> fle x y \<or> fle y x"
  by (cases x; cases y) auto

lemma flt_iff: "flt x y \<longleftrightarrow> fle x y \<and> x \<noteq> y"
  by (cases x; cases y) auto

lemma not_flt: "x \<noteq> NaN \<Longrightarrow> y \<noteq> NaN \<Longrightarrow> \<not> flt x y \<longleftrightarrow> fle y x"
  by (cases x; cases y) auto

lemma fle_not_NaN: "fle x y \<Longrightarrow> x \<noteq> NaN \<and> y \<noteq> NaN"
  by (cases x; cases y) auto

lemma is_fin_conv: "is_fin x \<longleftrightarrow> (\<exists>q. x = Fin q)"
  by (cases x) auto

lemma to_f64_not_NaN [simp]: "to_f64 q \<noteq> NaN"
  by (simp add: to_f64_def Let_def)

lemma to_f64_0 [simp]: "to_f64 0 = f0"
  by (simp add: to_f64_def)

lemma to_f64_cases:
  "to_f64 q = (if \<bar>rnd64 q\<bar> < pw2 1024 then Fin (rnd64 q) else if 0 < rnd64 q then PInf else NInf)"
proof -
  have "rnd64 q = 0 \<or> ilog2 \<bar>rnd64 q\<bar> < 1024 \<longleftrightarrow> \<bar>rnd64 q\<bar> < pw2 1024"
    using ilog2_le_iff [of "\<bar>rnd64 q\<bar>" 1024] by (cases "rnd64 q = 0") auto
  then show ?thesis by (auto simp: to_f64_def Let_def)
qed

lemma to_f64_mono: "q \<le> r \<Longrightarrow> fle (to_f64 q) (to_f64 r)"
  using rnd64_mono [of q r] pw2_pos [of 1024] by (auto simp: to_f64_cases)

lemma to_f64_repr: "repr64 q \<Longrightarrow> to_f64 q = Fin q"
  by (simp add: repr64_def to_f64_def Let_def)

lemma to_f64_nonneg: "0 \<le> q \<Longrightarrow> fle f0 (to_f64 q)"
  using to_f64_mono [of 0 q] by simp

lemma repr64_int: "\<bar>n\<bar> < 2 ^ 53 \<Longrightarrow> repr64 (of_int n)"
proof -
  assume n: "\<bar>n\<bar> < 2 ^ 53"
  then have r: "rnd64 (of_int n) = of_int n" by (rule rnd64_int)
  have "(of_int \<bar>n\<bar> :: rat) < of_int (2 ^ 53)" using n by (simp only: of_int_less_iff)
  also have "\<dots> = pw2 53" by (simp add: pw2_powi)
  also have "\<dots> \<le> pw2 1024" by (rule pw2_mono) simp
  finally have "\<bar>of_int n\<bar> < pw2 1024" by simp
  then have "of_int n = (0::rat) \<or> ilog2 \<bar>of_int n\<bar> < 1024"
    using ilog2_le_iff [of "\<bar>of_int n\<bar>" 1024] by (cases "n = 0") auto
  with r show ?thesis by (simp add: repr64_def)
qed

text \<open>Finite results of the operations are representable.\<close>

lemma wf_to_f64 [simp]: "wf_f64 (to_f64 q)"
  by (auto simp: to_f64_def Let_def repr64_def rnd64_idem)

lemma wf_fadd [simp]: "wf_f64 (fadd x y)"
  by (cases x; cases y) auto

lemma wf_fmul [simp]: "wf_f64 (fmul x y)"
  by (cases x; cases y) (auto simp: inf_of_def)

lemma wf_fdiv [simp]: "wf_f64 (fdiv x y)"
  by (cases x; cases y) (auto simp: inf_of_def repr64_def)

lemma fneg_wf [simp]: "wf_f64 (fneg x) = wf_f64 x"
  by (cases x) (auto simp: repr64_def rnd64_minus)

subsection \<open>Magnitudes\<close>

text \<open>
  Finite representable numbers below a power of two, and how the operations move the exponent. The
  components use it to show that no intermediate result overflows.
\<close>

fun fbound :: "int \<Rightarrow> f64 \<Rightarrow> bool" where
  "fbound e (Fin q) = (repr64 q \<and> \<bar>q\<bar> \<le> pw2 e)"
| "fbound e _ = False"

lemma fboundE:
  assumes "fbound e x"
  obtains q where "x = Fin q" and "repr64 q" and "\<bar>q\<bar> \<le> pw2 e"
  using assms by (cases x) auto

lemma fbound_mono: "fbound e x \<Longrightarrow> e \<le> e' \<Longrightarrow> fbound e' x"
  using pw2_mono [of e e'] by (cases x) auto

lemma rnd64_pw2: "- 1074 \<le> e \<Longrightarrow> rnd64 (pw2 e) = pw2 e"
  by (rule rnd64_fix [of _ 1 e]) simp_all

lemma fbound_to_f64:
  assumes "\<bar>q\<bar> \<le> pw2 e" and "- 1074 \<le> e" and "e \<le> 1023"
  shows "fbound e (to_f64 q)" and "to_f64 q = Fin (rnd64 q)"
proof -
  have r: "\<bar>rnd64 q\<bar> \<le> pw2 e" by (intro r64.rnd_abs_le_fix rnd64_pw2 assms)
  also have "pw2 e < pw2 1024" using assms(3) by (simp add: pw2_less [symmetric])
  finally show t: "to_f64 q = Fin (rnd64 q)" by (simp add: to_f64_cases)
  show "fbound e (to_f64 q)" using wf_to_f64 [of q] r unfolding t by simp
qed

lemma fbound_fneg [simp]: "fbound e (fneg x) = fbound e x"
proof (cases x)
  case (Fin q)
  have "repr64 (- q) = repr64 q" using fneg_wf [of "Fin q"] by simp
  with Fin show ?thesis by simp
qed simp_all

lemma fbound_fadd:
  assumes "fbound e x" and "fbound e y" and "- 1074 \<le> e" and "e \<le> 1022"
  shows "fbound (e + 1) (fadd x y)"
proof -
  obtain p q where pq: "x = Fin p" "\<bar>p\<bar> \<le> pw2 e" "y = Fin q" "\<bar>q\<bar> \<le> pw2 e"
    using assms(1,2) by (auto elim!: fboundE)
  have "pw2 1 = 2" by (simp add: pw2_powi)
  then have "pw2 (e + 1) = 2 * pw2 e" by (simp add: pw2_add)
  then have "\<bar>p + q\<bar> \<le> pw2 (e + 1)" using pq by linarith
  then show ?thesis using assms(3,4) pq by (simp add: fbound_to_f64(1))
qed

lemma fbound_fsub:
  "fbound e x \<Longrightarrow> fbound e y \<Longrightarrow> - 1074 \<le> e \<Longrightarrow> e \<le> 1022 \<Longrightarrow> fbound (e + 1) (fsub x y)"
  unfolding fsub_def by (rule fbound_fadd) simp_all

lemma fbound_fmul:
  assumes "fbound a x" and "fbound b y" and "- 1074 \<le> a + b" and "a + b \<le> 1023"
  shows "fbound (a + b) (fmul x y)"
proof -
  obtain p q where pq: "x = Fin p" "\<bar>p\<bar> \<le> pw2 a" "y = Fin q" "\<bar>q\<bar> \<le> pw2 b"
    using assms(1,2) by (auto elim!: fboundE)
  have "\<bar>p * q\<bar> \<le> pw2 (a + b)" unfolding abs_mult pw2_add using pq by (intro mult_mono) (simp_all add: less_imp_le)
  then show ?thesis using assms(3,4) pq by (simp add: fbound_to_f64(1))
qed

lemma fbound_fdiv:
  assumes "fbound a x" and "y = Fin d" and "pw2 b \<le> d" and "- 1074 \<le> a - b" and "a - b \<le> 1023"
  shows "fbound (a - b) (fdiv x y)"
proof -
  obtain p where p: "x = Fin p" "\<bar>p\<bar> \<le> pw2 a" using assms(1) by (rule fboundE)
  have d: "0 < d" using assms(3) pw2_pos [of b] by linarith
  have "pw2 a = pw2 (a - b) * pw2 b" by (simp add: pw2_add [symmetric])
  also have "\<dots> \<le> pw2 (a - b) * d" using assms(3) by (simp add: mult_left_mono less_imp_le)
  finally have "\<bar>p / d\<bar> \<le> pw2 (a - b)" using p d by (simp add: abs_divide divide_le_eq)
  then show ?thesis using assms p d by (simp add: fbound_to_f64(1))
qed

lemma fbound_of_int64: "\<bar>i\<bar> \<le> 2 ^ 63 \<Longrightarrow> fbound 63 (of_int64 i)"
proof -
  assume "\<bar>i\<bar> \<le> 2 ^ 63"
  then have "(of_int \<bar>i\<bar> :: rat) \<le> of_int (2 ^ 63)" by (simp only: of_int_le_iff)
  then show ?thesis unfolding of_int64_def by (intro fbound_to_f64) (simp_all add: pw2_nat)
qed

end
