(* ===== verification/Kube_Model.thy ===== *)
theory Kube_Model
  imports Float64 "HOL-Library.State_Monad"
begin

section \<open>Kubernetes objects and the world of a controller\<close>

text \<open>
  The objects the controllers read and write (\<open>src/controller/api/v1alpha1\<close>, and of the Kubernetes types
  the fields the sources use), and the effects of a reconcile run.

  The API servers of the control plane and of the member clusters are outside the repository. They are
  the parameter \<open>env\<close>: the answer to a call is an arbitrary function of everything that has been called
  before, so other actors may change objects between any two calls. A reconcile run is a
  \<open>State_Monad\<close> program over \<open>world\<close>, the list of calls made so far and the controller's cache of member
  clients. Every call appends itself to the history; theorems speak about the histories a run can
  produce and hold for every \<open>env\<close> unless a hypothesis about it is named.

  Times are nanoseconds since 1970; optional times are \<open>None\<close> for the zero time. Log output is not modelled.
\<close>

type_synonym time = int
type_synonym quantity = rat

definition Second :: int where
  "Second = 1000000000"

text \<open>\<open>time.Time{}\<close>, the first of January of year 1, in nanoseconds since 1970.\<close>

definition zero_time :: time where
  "zero_time = - 62135596800 * Second"

definition Millisecond :: int where
  "Millisecond = 1000000"

text \<open>Errors carry the text that \<open>Error()\<close> prints.\<close>

datatype api_err = NotFound string | AlreadyExists string | Conflict string | OtherErr string

fun err_text :: "api_err \<Rightarrow> string" where
  "err_text (NotFound s) = s"
| "err_text (AlreadyExists s) = s"
| "err_text (Conflict s) = s"
| "err_text (OtherErr s) = s"

fun IsNotFound :: "api_err \<Rightarrow> bool" where
  "IsNotFound (NotFound _) = True"
| "IsNotFound _ = False"

fun IsAlreadyExists :: "api_err \<Rightarrow> bool" where
  "IsAlreadyExists (AlreadyExists _) = True"
| "IsAlreadyExists _ = False"

fun IsConflict :: "api_err \<Rightarrow> bool" where
  "IsConflict (Conflict _) = True"
| "IsConflict _ = False"

subsection \<open>Metadata\<close>

record OwnerReference =
  or_UID :: string
  or_Controller :: "bool option"

record ObjectMeta =
  om_Name :: string
  om_Namespace :: string
  om_UID :: string
  om_ResourceVersion :: string
  om_Generation :: int64
  om_CreationTimestamp :: time
  om_Labels :: "(string, string) gomap"
  om_Annotations :: "(string, string) gomap"
  om_DeletionTimestamp :: "time option"
  om_Finalizers :: "string list"
  om_OwnerReferences :: "OwnerReference list"

record NamespacedObjectRef =
  ref_Name :: string
  ref_Namespace :: string

record nskey =
  key_Name :: string
  key_Namespace :: string

subsection \<open>ReplicaBinding\<close>

text \<open>\<open>PhaseNone\<close> is the empty string, \<open>PhaseOther\<close> a value outside the enumeration.\<close>

datatype ReplicaBindingPhase =
    PhaseNone | Pending | Assigned | Applying | Running | Failed | Rescheduling | Deleting | PhaseOther string

record ReplicaBindingSpec =
  rb_GlobalDeploymentRef :: NamespacedObjectRef
  rb_ReplicaIndex :: int32
  rb_TargetCluster :: string
  rb_TargetNodeName :: string
  rb_Reschedule :: bool
  rb_RescheduleRequest :: string

record RescheduleObservedLocation =
  ol_ClusterId :: string
  ol_NodeName :: string
  ol_PodName :: string

record ReplicaBindingRescheduleStatus =
  rs_LastHandledRequest :: string
  rs_LastHandledTime :: "time option"
  rs_ObservedLocation :: RescheduleObservedLocation
  rs_LastResult :: string
  rs_Message :: string
  rs_LastError :: string

record ReplicaBindingStatus =
  rb_Phase :: ReplicaBindingPhase
  rb_LastError :: string
  rb_LastTransitionTime :: "time option"
  rb_NodeName :: string
  rb_ClusterName :: string
  rb_RescheduleStatus :: ReplicaBindingRescheduleStatus

record ReplicaBinding =
  rb_Meta :: ObjectMeta
  rb_Spec :: ReplicaBindingSpec
  rb_Status :: ReplicaBindingStatus

subsection \<open>GlobalDeployment\<close>

datatype GlobalDeploymentPhase =
    GDPhaseNone | GDPending | GDProgressing | GDRunning | GDDegraded | GDScaling | GDDeleting | GDFailed | GDPhaseOther string

record GlobalDeploymentSpec =
  gd_Replicas :: "int32 option"
  gd_Template :: string

record GlobalDeploymentStatus =
  gd_Phase :: GlobalDeploymentPhase
  gd_Running :: int32
  gd_Failed :: int32
  gd_Pending :: int32
  gd_UpdatedAt :: "time option"
  gd_ObservedRevision :: string

record GlobalDeployment =
  gd_Meta :: ObjectMeta
  gd_Spec :: GlobalDeploymentSpec
  gd_Status :: GlobalDeploymentStatus

subsection \<open>ReOrchestrationPlan\<close>

datatype PlanPhase =
    PlanPhaseNone | PlanPending | PlanExecuting | PlanSucceeded | PlanFailed | PlanPartiallyFailed | PlanTerminating
  | PlanPhaseOther string

datatype MoveExecutionStatus = MoveNone | MovePending | MoveInProgress | MoveSucceeded | MoveFailed | MoveOther string

record MoveLocation =
  ml_ClusterID :: string
  ml_ClusterName :: string
  ml_NodeName :: string

record PlanMove =
  mv_GlobalDeploymentRef :: NamespacedObjectRef
  mv_ReplicaIndex :: int32
  mv_Source :: MoveLocation
  mv_Destination :: MoveLocation

record MoveStatus =
  ms_GlobalDeploymentRef :: NamespacedObjectRef
  ms_ReplicaIndex :: int32
  ms_Status :: MoveExecutionStatus
  ms_Message :: string

record PlanExecutionSummary =
  TotalMoves :: int32
  SucceededMoves :: int32
  FailedMoves :: int32
  PendingMoves :: int32

record Condition =
  cond_Type :: string
  cond_Status :: bool
  cond_Reason :: string
  cond_Message :: string
  cond_ObservedGeneration :: int64
  cond_LastTransitionTime :: "time option"

record GoalHumanReadableSummary =
  hs_Kind :: string
  hs_Unit :: string
  hs_From :: "f64 option"
  hs_To :: "f64 option"
  hs_Delta :: "f64 option"
  hs_Detail :: "(string, string) gomap option"

record GoalScoreSummary =
  gs_Weight :: "f64 option"
  gs_CurrentScore :: "f64 option"
  gs_ExpectedScore :: "f64 option"
  gs_EstimatedImprovementScore :: "f64 option"
  gs_HumanReadable :: "GoalHumanReadableSummary option"

record PlanSummary =
  sum_PolicyName :: string
  sum_GoalScores :: "(string, GoalScoreSummary) gomap"
  sum_EstimatedImprovementScore :: "f64 option"
  sum_PodsToMove :: "int32 option"
  sum_CurrentScore :: "f64 option"
  sum_ExpectedScore :: "f64 option"

record ReOrchestrationPlanSpec =
  plan_SpecSummary :: PlanSummary
  plan_Moves :: "PlanMove list"

text \<open>\<open>PlanSummary{PolicyName: name}\<close>, all other fields unset.\<close>

definition bare_summary :: "string \<Rightarrow> PlanSummary" where
  "bare_summary name = \<lparr>sum_PolicyName = name, sum_GoalScores = [], sum_EstimatedImprovementScore = None,
     sum_PodsToMove = None, sum_CurrentScore = None, sum_ExpectedScore = None\<rparr>"

abbreviation plan_PolicyName :: "ReOrchestrationPlanSpec \<Rightarrow> string" where
  "plan_PolicyName s \<equiv> sum_PolicyName (plan_SpecSummary s)"

record ReOrchestrationPlanStatus =
  plan_Phase :: PlanPhase
  plan_Summary :: PlanExecutionSummary
  plan_StartTime :: "time option"
  plan_CompletionTime :: "time option"
  plan_MoveStatuses :: "MoveStatus list"
  plan_Conditions :: "Condition list"

record ReOrchestrationPlan =
  plan_Meta :: ObjectMeta
  plan_Spec :: ReOrchestrationPlanSpec
  plan_Status :: ReOrchestrationPlanStatus

subsection \<open>Cluster\<close>

datatype ClusterPhase = ClusterPhaseNone | Importing | ClusterReady | NotReady | ClusterFailed | ClusterPhaseOther string

record NodeResources =
  nr_CPU :: quantity
  nr_Memory :: quantity
  nr_Pods :: quantity

record NodeSummary =
  cn_Name :: string
  cn_UID :: string
  cn_Ready :: bool
  cn_Allocatable :: NodeResources
  cn_Requested :: NodeResources
  cn_Free :: NodeResources
  cn_Labels :: "(string, string) gomap"

abbreviation cn_FreeCPU :: "NodeSummary \<Rightarrow> quantity" where
  "cn_FreeCPU n \<equiv> nr_CPU (cn_Free n)"

abbreviation cn_FreeMemory :: "NodeSummary \<Rightarrow> quantity" where
  "cn_FreeMemory n \<equiv> nr_Memory (cn_Free n)"

record Resources =
  res_CapacityCPU :: quantity
  res_CapacityMemory :: quantity
  res_AllocatableCPU :: quantity
  res_AllocatableMemory :: quantity
  res_NodeCount :: int64
  res_PodCount :: int64

record Cluster =
  cl_Meta :: ObjectMeta
  cl_APIEndpoint :: string
  cl_SecretRef :: string
  cl_Phase :: ClusterPhase
  cl_UpdatedAt :: "time option"
  cl_LastProbeTime :: "time option"
  cl_Conditions :: "Condition list"
  cl_Resources :: Resources
  cl_Nodes :: "NodeSummary list"

subsection \<open>OptimizationPolicy\<close>

text \<open>A label selector is kept as the value it was written as; parsing it is the library's.\<close>

record OptimizationGoal =
  og_Type :: string
  og_Weight :: f64
  og_SourceCity :: string
  og_TopologyRef :: string

record OptimizationPolicySpec =
  pol_Enabled :: bool
  pol_TargetSelector :: "string option"
  pol_OptimizationGoals :: "OptimizationGoal list"
  pol_RunMode :: string
  pol_RebalancePoint :: string
  pol_Strategy :: string
  pol_ImprovementThresholdPercent :: int32

datatype OptimizationPolicyPhase =
    PolicyPhaseNone | PolicyPending | PolicyActive | PolicyFailed | PolicyDisabled | PolicyPhaseOther string

record CurrentReplicaLocation =
  crl_Name :: string
  crl_Namespace :: string
  crl_ReplicaIndex :: int32
  crl_ClusterId :: string
  crl_NodeName :: string
  crl_Source :: string
  crl_Stable :: bool
  crl_UnstableReason :: string

record OptimizationPolicyStatus =
  pol_Phase :: OptimizationPolicyPhase
  pol_ObservedDeployments :: int32
  pol_ObservedReplicas :: int32
  pol_CurrentLayout :: "CurrentReplicaLocation list"
  pol_StableReplicas :: int32
  pol_UnstableReplicas :: int32
  pol_UnstableReasonsCount :: "(string, int32) gomap"
  pol_LastEvaluationTime :: "time option"
  pol_LatestPlanRef :: "NamespacedObjectRef option"
  pol_Conditions :: "Condition list"

record OptimizationPolicy =
  pol_Meta :: ObjectMeta
  pol_Spec :: OptimizationPolicySpec
  pol_Status :: OptimizationPolicyStatus

text \<open>\<open>coordinationv1.Lease\<close>, the lock of the policies.\<close>

record Lease =
  le_Name :: string
  le_Namespace :: string
  le_HolderIdentity :: "string option"
  le_LeaseDurationSeconds :: "int32 option"
  le_AcquireTime :: "time option"
  le_RenewTime :: "time option"

subsection \<open>Objects of member clusters\<close>

text \<open>
  Of a Deployment and a Pod, the fields the controllers read or write; \<open>ds_Other\<close> stands for the rest of
  a decoded deployment template, which they carry along.
\<close>

record NodeAffinity =
  na_Required :: "(string \<times> string \<times> string list) list list option"
  na_Other :: string

record Affinity =
  aff_NodeAffinity :: "NodeAffinity option"
  aff_Other :: string

record Container =
  ct_Requests :: "(string, quantity) gomap"

record Volume =
  vol_HostPath :: bool
  vol_PersistentVolumeClaim :: bool

record DeploymentSpec =
  ds_Replicas :: "int32 option"
  ds_MatchLabels :: "(string, string) gomap"
  ds_PodLabels :: "(string, string) gomap"
  ds_Affinity :: "Affinity option"
  ds_Containers :: "Container list"
  ds_Volumes :: "Volume list"
  ds_Other :: string

record DeploymentStatus =
  AvailableReplicas :: int32
  UpdatedReplicas :: int32
  dep_Replicas :: int32
  dep_Conditions :: "(string \<times> bool) list"

record Deployment =
  dep_Name :: string
  dep_Namespace :: string
  dep_Labels :: "(string, string) gomap"
  dep_Spec :: DeploymentSpec
  dep_Status :: DeploymentStatus

record Pod =
  pod_Name :: string
  pod_Phase :: string
  pod_NodeName :: string
  pod_Conditions :: "(string \<times> bool) list"
  pod_ContainerReady :: "bool list"
  pod_Containers :: "Container list"
  pod_InitContainers :: "Container list"

record Node =
  nd_Name :: string
  nd_UID :: string
  nd_Labels :: "(string, string) gomap"
  nd_Capacity :: "(string, quantity) gomap"
  nd_Allocatable :: "(string, quantity) gomap"
  nd_Conditions :: "(string \<times> bool) list"

text \<open>A client of a member cluster: the cluster it was built for and its kubeconfig.\<close>

record Clientset =
  cs_Cluster :: string
  cs_Kubeconfig :: string

text \<open>A Secret as the REST server writes it, with the owner reference it sets.\<close>

record SecretOwner =
  so_APIVersion :: string
  so_Kind :: string
  so_Name :: string
  so_UID :: string
  so_Controller :: bool
  so_BlockOwnerDeletion :: bool

record Secret =
  sec_Name :: string
  sec_Namespace :: string
  sec_ResourceVersion :: string
  sec_Owners :: "SecretOwner list"
  sec_Data :: "(string, string) gomap"

subsection \<open>Calls, environment and world\<close>

text \<open>
  The calls of the REST server that the controllers do not make: lists of one namespace, POST and PUT of whole
  objects, DELETE by name, Secrets, and the etcd operations of the key-value store.
\<close>

datatype rest_call =
    ListClustersIn string | ListGDIn string | ListPoliciesIn string | ListPlansIn string | ListConfigMapsIn string
  | PostCluster Cluster | PutCluster Cluster | PostGD GlobalDeployment | PutGD GlobalDeployment
  | PostPolicy OptimizationPolicy | PutPolicy OptimizationPolicy
  | RemoveCluster nskey | RemoveGD nskey | RemoveRB nskey | RemovePolicy nskey
  | CreateSecretCall Secret | UpdateSecretCall Secret
  | KvPut string string | KvGet string | KvDelete string

datatype event =
    GetRB nskey | GetGD nskey | GetPlan nskey | GetCluster nskey | GetSecret nskey
  | ListRB string | ListClusters
  | CreateRB ReplicaBinding | UpdateRB ReplicaBinding | StatusUpdateRB ReplicaBinding
  | PatchRB ReplicaBinding ReplicaBinding | StatusPatchRB ReplicaBinding ReplicaBinding | DeleteRB ReplicaBinding
  | PatchGD GlobalDeployment GlobalDeployment | StatusPatchGD GlobalDeployment GlobalDeployment
  | StatusUpdateGD GlobalDeployment
  | StatusPatchPlan ReOrchestrationPlan ReOrchestrationPlan
  | NsGet Clientset string | NsCreate Clientset string
  | DepGet Clientset string string | DepCreate Clientset Deployment | DepDelete Clientset string string
  | PodsList Clientset string string
  | MovesTotalInc MoveExecutionStatus | MoveDurationObserve
  | Sleep int
  | StatusUpdateCluster Cluster | ServerVersion Clientset | NodesList Clientset | NodeGet Clientset string
  | GetPolicy nskey | GetLease nskey | GetConfigMap nskey | ListGD "string option"
  | StatusPatchPolicy OptimizationPolicy OptimizationPolicy | StatusUpdatePolicy OptimizationPolicy
  | CreateLease Lease | PatchLease Lease Lease | CreatePlan ReOrchestrationPlan
  | RecordEvent string string | PlansCreatedInc | ActivePolicySet | CalculationObserve
  | Rest rest_call

type_synonym history = "event list"

text \<open>
  The answers. A write returns the object as the server stores it, which client-go decodes into the
  argument. The last fields are library functions the controllers call: building a client
  (\<open>clientcmd.RESTConfigFromKubeConfig\<close>, \<open>kubernetes.NewForConfig\<close>), \<open>controllerutil\<close>'s finalizer helpers,
  \<open>apimeta.SetStatusCondition\<close>, \<open>ctrl.SetControllerReference\<close>, \<open>time.ParseDuration\<close> and
  \<open>Duration.String\<close>, and \<open>yaml.Unmarshal\<close> of a deployment template (the error and what it filled in).
  \<open>env_json_spec\<close> and \<open>env_json_deployment\<close> are \<open>json.Unmarshal\<close> of a template as a DeploymentSpec, whatever it
  filled in, and as a Deployment (its spec); \<open>env_selector\<close> is \<open>metav1.LabelSelectorAsSelector\<close>; \<open>env_rand\<close> is
  \<open>rand.String(6)\<close>, \<open>env_parse_float\<close> is \<open>strconv.ParseFloat\<close> of the trimmed text, \<open>env_format_g\<close> prints a
  float, and \<open>env_pod_name\<close> is the environment variable \<open>POD_NAME\<close>.
\<close>

record env =
  env_get_rb :: "history \<Rightarrow> nskey \<Rightarrow> api_err + ReplicaBinding"
  env_get_gd :: "history \<Rightarrow> nskey \<Rightarrow> api_err + GlobalDeployment"
  env_get_plan :: "history \<Rightarrow> nskey \<Rightarrow> api_err + ReOrchestrationPlan"
  env_get_cluster :: "history \<Rightarrow> nskey \<Rightarrow> api_err + Cluster"
  env_get_secret :: "history \<Rightarrow> nskey \<Rightarrow> api_err + (string, string) gomap"
  env_list_rb :: "history \<Rightarrow> string \<Rightarrow> api_err + ReplicaBinding list"
  env_list_clusters :: "history \<Rightarrow> api_err + Cluster list"
  env_get_policy :: "history \<Rightarrow> nskey \<Rightarrow> api_err + OptimizationPolicy"
  env_get_lease :: "history \<Rightarrow> nskey \<Rightarrow> api_err + Lease"
  env_get_configmap :: "history \<Rightarrow> nskey \<Rightarrow> api_err + (string, string) gomap"
  env_list_gd :: "history \<Rightarrow> string option \<Rightarrow> api_err + GlobalDeployment list"
  env_write_rb :: "history \<Rightarrow> event \<Rightarrow> api_err + ReplicaBinding"
  env_write_gd :: "history \<Rightarrow> event \<Rightarrow> api_err + GlobalDeployment"
  env_write_plan :: "history \<Rightarrow> event \<Rightarrow> api_err + ReOrchestrationPlan"
  env_write_cluster :: "history \<Rightarrow> Cluster \<Rightarrow> api_err option"
  env_write_policy :: "history \<Rightarrow> event \<Rightarrow> api_err + OptimizationPolicy"
  env_write_lease :: "history \<Rightarrow> event \<Rightarrow> api_err option"
  env_delete_rb :: "history \<Rightarrow> ReplicaBinding \<Rightarrow> api_err option"
  env_ns_get :: "history \<Rightarrow> Clientset \<Rightarrow> string \<Rightarrow> api_err option"
  env_ns_create :: "history \<Rightarrow> Clientset \<Rightarrow> string \<Rightarrow> api_err option"
  env_dep_get :: "history \<Rightarrow> Clientset \<Rightarrow> string \<Rightarrow> string \<Rightarrow> api_err + Deployment"
  env_dep_create :: "history \<Rightarrow> Clientset \<Rightarrow> Deployment \<Rightarrow> api_err option"
  env_dep_delete :: "history \<Rightarrow> Clientset \<Rightarrow> string \<Rightarrow> string \<Rightarrow> api_err option"
  env_pods :: "history \<Rightarrow> Clientset \<Rightarrow> string \<Rightarrow> string \<Rightarrow> api_err + Pod list"
  env_server_version :: "history \<Rightarrow> Clientset \<Rightarrow> api_err option"
  env_nodes :: "history \<Rightarrow> Clientset \<Rightarrow> api_err + Node list"
  env_node :: "history \<Rightarrow> Clientset \<Rightarrow> string \<Rightarrow> api_err + Node"
  env_rest_config :: "string \<Rightarrow> api_err option"
  env_new_client :: "string \<Rightarrow> api_err option"
  env_contains_finalizer :: "ObjectMeta \<Rightarrow> string \<Rightarrow> bool"
  env_add_finalizer :: "string \<Rightarrow> ObjectMeta \<Rightarrow> ObjectMeta"
  env_remove_finalizer :: "string \<Rightarrow> ObjectMeta \<Rightarrow> ObjectMeta"
  env_set_condition :: "Condition \<Rightarrow> Condition list \<Rightarrow> Condition list"
  env_set_owner :: "GlobalDeployment \<Rightarrow> ReplicaBinding \<Rightarrow> api_err + ReplicaBinding"
  env_parse_duration :: "string \<Rightarrow> int option"
  env_duration_text :: "int \<Rightarrow> string"
  env_decode :: "string \<Rightarrow> api_err option \<times> DeploymentSpec"
  env_json_spec :: "string \<Rightarrow> DeploymentSpec"
  env_json_deployment :: "string \<Rightarrow> api_err + DeploymentSpec"
  env_selector :: "string \<Rightarrow> api_err + string"
  env_own_plan :: "OptimizationPolicy \<Rightarrow> ReOrchestrationPlan \<Rightarrow> api_err + ReOrchestrationPlan"
  env_rand :: "history \<Rightarrow> string"
  env_parse_float :: "string \<Rightarrow> f64 option"
  env_format_g :: "f64 \<Rightarrow> string"
  env_pod_name :: string
  env_now :: "history \<Rightarrow> time"

record world =
  hist :: history
  clients :: "(string, Clientset) gomap"
  cursors :: "(string, nat) gomap"
  policy_clients :: "(string, Clientset) gomap"
  kube_clients :: "(string, Clientset) gomap"
  timers :: "(nskey, int) gomap"

type_synonym 'a io = "(world, 'a) state"

abbreviation ContainsFinalizer :: "env \<Rightarrow> ObjectMeta \<Rightarrow> string \<Rightarrow> bool" where
  "ContainsFinalizer \<equiv> env_contains_finalizer"

abbreviation AddFinalizer :: "env \<Rightarrow> string \<Rightarrow> ObjectMeta \<Rightarrow> ObjectMeta" where
  "AddFinalizer \<equiv> env_add_finalizer"

abbreviation RemoveFinalizer :: "env \<Rightarrow> string \<Rightarrow> ObjectMeta \<Rightarrow> ObjectMeta" where
  "RemoveFinalizer \<equiv> env_remove_finalizer"

text \<open>What \<open>controllerutil\<close> documents of its finalizer helpers.\<close>

definition finalizer_laws :: "env \<Rightarrow> bool" where
  "finalizer_laws E \<longleftrightarrow>
    (\<forall>m f g. ContainsFinalizer E (AddFinalizer E f m) g \<longleftrightarrow> g = f \<or> ContainsFinalizer E m g) \<and>
    (\<forall>m f g. ContainsFinalizer E (RemoveFinalizer E f m) g \<longleftrightarrow> g \<noteq> f \<and> ContainsFinalizer E m g)"

text \<open>A call: the answer is computed from the history before the call, which then records it.\<close>

definition call :: "event \<Rightarrow> (history \<Rightarrow> 'a) \<Rightarrow> 'a io" where
  "call e answer = State (\<lambda>w. (answer (hist w), w\<lparr>hist := hist w @ [e]\<rparr>))"

definition now :: "env \<Rightarrow> time io" where
  "now E = State (\<lambda>w. (env_now E (hist w), w))"

definition get_rb :: "env \<Rightarrow> nskey \<Rightarrow> (api_err + ReplicaBinding) io" where
  "get_rb E k = call (GetRB k) (\<lambda>h. env_get_rb E h k)"

definition get_gd :: "env \<Rightarrow> nskey \<Rightarrow> (api_err + GlobalDeployment) io" where
  "get_gd E k = call (GetGD k) (\<lambda>h. env_get_gd E h k)"

definition get_plan :: "env \<Rightarrow> nskey \<Rightarrow> (api_err + ReOrchestrationPlan) io" where
  "get_plan E k = call (GetPlan k) (\<lambda>h. env_get_plan E h k)"

definition write_rb :: "env \<Rightarrow> event \<Rightarrow> (api_err + ReplicaBinding) io" where
  "write_rb E e = call e (\<lambda>h. env_write_rb E h e)"

definition write_gd :: "env \<Rightarrow> event \<Rightarrow> (api_err + GlobalDeployment) io" where
  "write_gd E e = call e (\<lambda>h. env_write_gd E h e)"

definition write_plan :: "env \<Rightarrow> event \<Rightarrow> (api_err + ReOrchestrationPlan) io" where
  "write_plan E e = call e (\<lambda>h. env_write_plan E h e)"

definition dep_get :: "env \<Rightarrow> Clientset \<Rightarrow> string \<Rightarrow> string \<Rightarrow> (api_err + Deployment) io" where
  "dep_get E cs ns n = call (DepGet cs ns n) (\<lambda>h. env_dep_get E h cs ns n)"

definition dep_create :: "env \<Rightarrow> Clientset \<Rightarrow> Deployment \<Rightarrow> api_err option io" where
  "dep_create E cs d = call (DepCreate cs d) (\<lambda>h. env_dep_create E h cs d)"

definition dep_delete :: "env \<Rightarrow> Clientset \<Rightarrow> string \<Rightarrow> string \<Rightarrow> api_err option io" where
  "dep_delete E cs ns n = call (DepDelete cs ns n) (\<lambda>h. env_dep_delete E h cs ns n)"

definition pods_list :: "env \<Rightarrow> Clientset \<Rightarrow> string \<Rightarrow> string \<Rightarrow> (api_err + Pod list) io" where
  "pods_list E cs ns sel = call (PodsList cs ns sel) (\<lambda>h. env_pods E h cs ns sel)"

definition list_rb :: "env \<Rightarrow> string \<Rightarrow> (api_err + ReplicaBinding list) io" where
  "list_rb E ns = call (ListRB ns) (\<lambda>h. env_list_rb E h ns)"

text \<open>The result of a reconcile: the delay of the next run, 0 for none, and an error.\<close>

type_synonym reconcile_out = "int \<times> api_err option"

definition done_ok :: "reconcile_out io" where
  "done_ok = State_Monad.return (0, None)"

definition requeue :: "int \<Rightarrow> reconcile_out io" where
  "requeue d = State_Monad.return (d, None)"

definition fail_with :: "api_err \<Rightarrow> reconcile_out io" where
  "fail_with e = State_Monad.return (0, Some e)"

text \<open>\<open>client.IgnoreNotFound\<close>.\<close>

definition ignore_not_found :: "api_err \<Rightarrow> api_err option" where
  "ignore_not_found e = (if IsNotFound e then None else Some e)"

subsection \<open>Loops\<close>

text \<open>
  \<open>io_each\<close> is a \<open>for range\<close> loop whose body may \<open>continue\<close>; \<open>io_fold\<close> threads local variables through the
  loop, and a body that returns \<open>Inl r\<close> returns \<open>r\<close> from the enclosing function.
\<close>

fun io_each :: "('a \<Rightarrow> unit io) \<Rightarrow> 'a list \<Rightarrow> unit io" where
  "io_each f [] = State_Monad.return ()"
| "io_each f (x # xs) = State_Monad.bind (f x) (\<lambda>_. io_each f xs)"

fun io_fold :: "('a \<Rightarrow> 's \<Rightarrow> ('r + 's) io) \<Rightarrow> 'a list \<Rightarrow> 's \<Rightarrow> ('r + 's) io" where
  "io_fold f [] s = State_Monad.return (Inr s)"
| "io_fold f (x # xs) s = State_Monad.bind (f x s)
     (\<lambda>r. case r of Inl e \<Rightarrow> State_Monad.return (Inl e) | Inr s' \<Rightarrow> io_fold f xs s')"

subsection \<open>Running a program\<close>

text \<open>
  \<open>result\<close> and \<open>exec\<close> are the value and the final world of a run, \<open>trace\<close> the calls it made. \<open>wp\<close> is the
  weakest precondition; its equations execute a program symbolically.
\<close>

definition result :: "'a io \<Rightarrow> world \<Rightarrow> 'a" where
  "result m w = fst (run_state m w)"

definition exec :: "'a io \<Rightarrow> world \<Rightarrow> world" where
  "exec m w = snd (run_state m w)"

definition trace :: "'a io \<Rightarrow> world \<Rightarrow> history" where
  "trace m w = drop (length (hist w)) (hist (exec m w))"

definition wp :: "'a io \<Rightarrow> ('a \<Rightarrow> world \<Rightarrow> bool) \<Rightarrow> world \<Rightarrow> bool" where
  "wp m Q w = (case run_state m w of (x, w') \<Rightarrow> Q x w')"

named_theorems vcg \<open>symbolic execution of programs\<close>

lemma wp_bind [vcg]: "wp (State_Monad.bind m f) Q w = wp m (\<lambda>x. wp (f x) Q) w"
  by (cases m) (simp add: wp_def State_Monad.bind_def split: prod.split)

lemma wp_return [vcg]: "wp (State_Monad.return x) Q w = Q x w"
  by (simp add: wp_def State_Monad.return_def)

lemma wp_call [vcg]: "wp (call e a) Q w = Q (a (hist w)) (w\<lparr>hist := hist w @ [e]\<rparr>)"
  by (simp add: wp_def call_def)

lemma wp_now [vcg]: "wp (now E) Q w = Q (env_now E (hist w)) w"
  by (simp add: wp_def now_def)

lemma wp_conj: "wp m (\<lambda>x w'. P x w' \<and> Q x w') w \<longleftrightarrow> wp m P w \<and> wp m Q w"
  by (simp add: wp_def split: prod.split)

lemma wp_mono: "wp m P w \<Longrightarrow> (\<And>x w'. P x w' \<Longrightarrow> Q x w') \<Longrightarrow> wp m Q w"
  by (simp add: wp_def split: prod.splits)

lemma wp_result: "wp m Q w \<longleftrightarrow> Q (result m w) (exec m w)"
  by (simp add: wp_def result_def exec_def split: prod.split)

lemmas io_defs = get_rb_def get_gd_def get_plan_def write_rb_def write_gd_def write_plan_def
  dep_get_def dep_create_def dep_delete_def pods_list_def done_ok_def requeue_def fail_with_def

subsection \<open>Guarantees\<close>

text \<open>
  \<open>guarded G h tr\<close>: every call of \<open>tr\<close>, made after the history \<open>h\<close>, satisfies \<open>G\<close> at the history of its
  moment. \<open>guar G m\<close>: whatever the world, the run of \<open>m\<close> only appends guarded calls.
\<close>

fun guarded :: "(history \<Rightarrow> event \<Rightarrow> bool) \<Rightarrow> history \<Rightarrow> history \<Rightarrow> bool" where
  "guarded G h [] = True"
| "guarded G h (e # es) = (G h e \<and> guarded G (h @ [e]) es)"

definition ok :: "(history \<Rightarrow> event \<Rightarrow> bool) \<Rightarrow> history \<Rightarrow> history \<Rightarrow> bool" where
  "ok G h h' \<longleftrightarrow> take (length h) h' = h \<and> guarded G h (drop (length h) h')"

definition guar :: "(history \<Rightarrow> event \<Rightarrow> bool) \<Rightarrow> 'a io \<Rightarrow> bool" where
  "guar G m \<longleftrightarrow> (\<forall>w. ok G (hist w) (hist (exec m w)))"

named_theorems guar_intros \<open>guarantees of program constructs\<close>

lemma guarded_append: "guarded G h (xs @ ys) \<longleftrightarrow> guarded G h xs \<and> guarded G (h @ xs) ys"
  by (induction xs arbitrary: h) auto

lemma guarded_at: "guarded G h (xs @ e # ys) \<Longrightarrow> G (h @ xs) e"
  by (simp add: guarded_append)

lemma guarded_in_set: "guarded G h tr \<Longrightarrow> e \<in> set tr \<Longrightarrow> \<exists>xs ys. tr = xs @ e # ys \<and> G (h @ xs) e"
  by (metis guarded_at split_list)

lemma guarded_mono: "guarded G h tr \<Longrightarrow> (\<And>h e. G h e \<Longrightarrow> H h e) \<Longrightarrow> guarded H h tr"
  by (induction tr arbitrary: h) auto

lemma guarded_plain: "guarded (\<lambda>_. P) h tr \<longleftrightarrow> list_all P tr"
  by (induction tr arbitrary: h) auto

lemma ok_iff: "ok G h h' \<longleftrightarrow> (\<exists>tr. h' = h @ tr \<and> guarded G h tr)"
  unfolding ok_def by (metis append_eq_conv_conj append_take_drop_id)

lemma ok_refl [simp]: "ok G h h"
  by (simp add: ok_def)

lemma ok_append [simp]: "ok G h (h @ tr) \<longleftrightarrow> guarded G h tr"
  by (simp add: ok_def)

lemma ok_trans: "ok G h h' \<Longrightarrow> ok G h' h'' \<Longrightarrow> ok G h h''"
  by (fastforce simp: ok_iff guarded_append)

text \<open>The history \<open>h\<close> continues \<open>h0\<close>.\<close>

definition extends :: "history \<Rightarrow> history \<Rightarrow> bool" where
  "extends h0 h \<longleftrightarrow> (\<exists>es. h = h0 @ es)"

lemma extends_simps [simp]: "extends h h" "extends [] h" "extends h (h @ es)"
  by (simp_all add: extends_def)

lemma extends_append [simp]: "extends h0 h \<Longrightarrow> extends h0 (h @ es)"
  by (auto simp: extends_def)

lemma ok_extends: "extends h0 h \<Longrightarrow> ok G h h' \<Longrightarrow> extends h0 h'"
  by (auto simp: ok_iff)

lemma ok_snoc: "ok G h h' \<Longrightarrow> guarded G h' tr \<Longrightarrow> ok G h (h' @ tr)"
  by (rule ok_trans [of G h h']) simp_all

lemma ok_ext [simp]: "ok G h h' \<Longrightarrow> ok G h (h' @ tr) \<longleftrightarrow> guarded G h' tr"
  by (auto simp: ok_iff guarded_append)

lemma ok_mono: "ok G h h' \<Longrightarrow> (\<And>h e. G h e \<Longrightarrow> H h e) \<Longrightarrow> ok H h h'"
  unfolding ok_def using guarded_mono by blast

lemma ok_trace: "ok G (hist w) (hist (exec m w)) \<Longrightarrow> guarded G (hist w) (trace m w)"
  by (simp add: ok_def trace_def)

lemma ok_trace_plain: "ok (\<lambda>_. P) (hist w) (hist (exec m w)) \<Longrightarrow> list_all P (trace m w)"
  by (metis guarded_plain ok_trace)

lemma exec_bind: "exec (State_Monad.bind m f) w = exec (f (result m w)) (exec m w)"
  by (cases m) (simp add: exec_def result_def State_Monad.bind_def split: prod.split)

lemma guar_trace: "guar G m \<Longrightarrow> guarded G (hist w) (trace m w)"
  by (simp add: guar_def ok_trace)

lemma guar_mono: "guar G m \<Longrightarrow> (\<And>h e. G h e \<Longrightarrow> H h e) \<Longrightarrow> guar H m"
  unfolding guar_def using ok_mono by blast

lemma guar_wp: "guar G m \<longleftrightarrow> (\<forall>w. wp m (\<lambda>_ w'. ok G (hist w) (hist w')) w)"
  by (simp add: guar_def wp_result)

lemma guar_bind [guar_intros]: "guar G m \<Longrightarrow> (\<And>x. guar G (f x)) \<Longrightarrow> guar G (State_Monad.bind m f)"
  unfolding guar_def exec_bind using ok_trans by blast

lemma guar_return [guar_intros]: "guar G (State_Monad.return x)"
  by (simp add: guar_def exec_def State_Monad.return_def)

lemma guar_call [guar_intros]: "(\<And>h. G h e) \<Longrightarrow> guar G (call e a)"
  by (simp add: guar_def exec_def call_def)

lemma guar_now [guar_intros]: "guar G (now E)"
  by (simp add: guar_def exec_def now_def)

lemma guar_if [guar_intros]: "(b \<Longrightarrow> guar G m) \<Longrightarrow> (\<not> b \<Longrightarrow> guar G n) \<Longrightarrow> guar G (if b then m else n)"
  by simp

lemma guar_option [guar_intros]:
  "(x = None \<Longrightarrow> guar G m) \<Longrightarrow> (\<And>y. x = Some y \<Longrightarrow> guar G (f y)) \<Longrightarrow> guar G (case x of None \<Rightarrow> m | Some y \<Rightarrow> f y)"
  by (simp split: option.split)

lemma guar_sum [guar_intros]:
  "(\<And>y. x = Inl y \<Longrightarrow> guar G (f y)) \<Longrightarrow> (\<And>y. x = Inr y \<Longrightarrow> guar G (g y)) \<Longrightarrow> guar G (case x of Inl y \<Rightarrow> f y | Inr y \<Rightarrow> g y)"
  by (simp split: sum.split)

lemma guar_prod [guar_intros]: "(\<And>a b. p = (a, b) \<Longrightarrow> guar G (f a b)) \<Longrightarrow> guar G (case p of (a, b) \<Rightarrow> f a b)"
  by (simp split: prod.split)

lemma guar_each [guar_intros]: "(\<And>x. x \<in> set xs \<Longrightarrow> guar G (f x)) \<Longrightarrow> guar G (io_each f xs)"
  by (induction xs) (auto intro!: guar_intros)

lemma guar_fold [guar_intros]: "(\<And>x s. x \<in> set xs \<Longrightarrow> guar G (f x s)) \<Longrightarrow> guar G (io_fold f xs s)"
  by (induction xs arbitrary: s) (auto intro!: guar_intros)

text \<open>Loop rules: an invariant that every iteration keeps.\<close>

lemma wp_each:
  assumes "I w" and "\<And>x w. x \<in> set xs \<Longrightarrow> I w \<Longrightarrow> wp (f x) (\<lambda>_. I) w"
  shows "wp (io_each f xs) (\<lambda>_. I) w"
  using assms
proof (induction xs arbitrary: w)
  case (Cons x xs)
  have "wp (f x) (\<lambda>_. I) w" using Cons.prems by simp
  then show ?case
    by (simp add: wp_bind) (rule wp_mono, assumption, rule Cons.IH, simp_all add: Cons.prems)
qed (simp add: wp_return)

lemma wp_fold:
  assumes "I s w"
    and "\<And>x s w. x \<in> set xs \<Longrightarrow> I s w \<Longrightarrow> wp (f x s) (\<lambda>r w'. case r of Inl e \<Rightarrow> J e w' | Inr s' \<Rightarrow> I s' w') w"
  shows "wp (io_fold f xs s) (\<lambda>r w'. case r of Inl e \<Rightarrow> J e w' | Inr s' \<Rightarrow> I s' w') w"
  using assms
proof (induction xs arbitrary: s w)
  case (Cons x xs)
  have "wp (f x s) (\<lambda>r w'. case r of Inl e \<Rightarrow> J e w' | Inr s' \<Rightarrow> I s' w') w" using Cons.prems by simp
  then show ?case
  proof (simp add: wp_bind, elim wp_mono)
    fix r w' assume "case r of Inl e \<Rightarrow> J e w' | Inr s' \<Rightarrow> I s' w'"
    then show "wp (case r of Inl e \<Rightarrow> State_Monad.return (Inl e) | Inr s' \<Rightarrow> io_fold f xs s')
        (\<lambda>r w'. case r of Inl e \<Rightarrow> J e w' | Inr s' \<Rightarrow> I s' w') w'"
      using Cons.IH Cons.prems(2) by (cases r) (simp_all add: wp_return)
  qed
qed (simp add: wp_return)

lemma guar_ok_wp:
  assumes "guar G m" and "\<And>x w'. ok G (hist w) (hist w') \<Longrightarrow> Q x w'"
  shows "wp m Q w"
  using assms by (simp add: guar_def wp_result)

subsection \<open>Invariants of the local state\<close>

text \<open>\<open>preserves I m\<close>: the run of \<open>m\<close> keeps the invariant \<open>I\<close> of what the process itself stores.\<close>

definition preserves :: "(world \<Rightarrow> bool) \<Rightarrow> 'a io \<Rightarrow> bool" where
  "preserves I m \<longleftrightarrow> (\<forall>w. I w \<longrightarrow> I (exec m w))"

named_theorems keep_intros \<open>programs that keep an invariant of the local state\<close>

lemma preserves_basic [keep_intros]: "preserves I (State_Monad.return x)" "preserves I (now E)"
  by (simp_all add: preserves_def exec_def State_Monad.return_def now_def)

lemma preserves_call: "(\<And>w h. I (w\<lparr>hist := h\<rparr>) = I w) \<Longrightarrow> preserves I (call e a)"
  by (simp add: preserves_def exec_def call_def)

lemma preserves_bind [keep_intros]: "preserves I m \<Longrightarrow> (\<And>x. preserves I (f x)) \<Longrightarrow> preserves I (State_Monad.bind m f)"
  by (simp add: preserves_def exec_bind)

lemma preserves_cases [keep_intros]:
  "(b \<Longrightarrow> preserves I m) \<Longrightarrow> (\<not> b \<Longrightarrow> preserves I m') \<Longrightarrow> preserves I (if b then m else m')"
  "preserves I m \<Longrightarrow> (\<And>y. preserves I (f y)) \<Longrightarrow> preserves I (case x of None \<Rightarrow> m | Some y \<Rightarrow> f y)"
  "(\<And>y. preserves I (f' y)) \<Longrightarrow> (\<And>y. preserves I (g y)) \<Longrightarrow> preserves I (case s of Inl y \<Rightarrow> f' y | Inr y \<Rightarrow> g y)"
  "(\<And>a b. preserves I (k a b)) \<Longrightarrow> preserves I (case p of (a, b) \<Rightarrow> k a b)"
  by (simp_all split: option.split sum.split prod.split)

lemma preserves_each [keep_intros]: "(\<And>x. preserves I (f x)) \<Longrightarrow> preserves I (io_each f xs)"
  by (induction xs) (auto intro!: keep_intros)

lemma preserves_fold [keep_intros]: "(\<And>x s. preserves I (f x s)) \<Longrightarrow> preserves I (io_fold f xs s)"
  by (induction xs arbitrary: s) (auto intro!: keep_intros)

lemma preserves_wp: "preserves I m \<Longrightarrow> I w \<Longrightarrow> wp m (\<lambda>_. I) w"
  by (simp add: preserves_def wp_result)

subsection \<open>A sample environment\<close>

text \<open>Concrete objects and an API server that knows only them, on which the theorems are exercised.\<close>

definition sample_meta :: "string \<Rightarrow> string list \<Rightarrow> ObjectMeta" where
  "sample_meta n fins = \<lparr>om_Name = n, om_Namespace = ''ns'', om_UID = ''uid-'' @ n, om_ResourceVersion = ''1'',
     om_Generation = 1, om_CreationTimestamp = 0, om_Labels = [],
     om_Annotations = [], om_DeletionTimestamp = None, om_Finalizers = fins, om_OwnerReferences = []\<rparr>"

definition sample_spec :: DeploymentSpec where
  "sample_spec = \<lparr>ds_Replicas = Some 3, ds_MatchLabels = [(''app'', ''web'')], ds_PodLabels = [(''app'', ''web'')],
     ds_Affinity = None, ds_Containers = [\<lparr>ct_Requests = [(''cpu'', 2), (''memory'', 4)]\<rparr>], ds_Volumes = [], ds_Other = ''''\<rparr>"

definition sample_gd :: GlobalDeployment where
  "sample_gd = \<lparr>gd_Meta = sample_meta ''web'' [''core.kubex.io/finalizer-globaldeployment''],
     gd_Spec = \<lparr>gd_Replicas = Some 2, gd_Template = ''template''\<rparr>,
     gd_Status = \<lparr>gd_Phase = GDPhaseNone, gd_Running = 0, gd_Failed = 0, gd_Pending = 0, gd_UpdatedAt = None,
       gd_ObservedRevision = ''v1''\<rparr>\<rparr>"

definition no_reschedule :: ReplicaBindingRescheduleStatus where
  "no_reschedule = \<lparr>rs_LastHandledRequest = '''', rs_LastHandledTime = None,
     rs_ObservedLocation = \<lparr>ol_ClusterId = '''', ol_NodeName = '''', ol_PodName = ''''\<rparr>,
     rs_LastResult = '''', rs_Message = '''', rs_LastError = ''''\<rparr>"

definition sample_rb :: "ReplicaBindingPhase \<Rightarrow> ReplicaBinding" where
  "sample_rb ph = \<lparr>rb_Meta = sample_meta ''web-rb-0'' [''core.kubex.io/finalizer-replicabinding''],
     rb_Spec = \<lparr>rb_GlobalDeploymentRef = \<lparr>ref_Name = ''web'', ref_Namespace = ''ns''\<rparr>, rb_ReplicaIndex = 0,
       rb_TargetCluster = ''east'', rb_TargetNodeName = ''node-2'', rb_Reschedule = False, rb_RescheduleRequest = ''''\<rparr>,
     rb_Status = \<lparr>rb_Phase = ph, rb_LastError = '''', rb_LastTransitionTime = None, rb_NodeName = ''node-1'',
       rb_ClusterName = ''west'', rb_RescheduleStatus = no_reschedule\<rparr>\<rparr>"

definition sample_summary :: "string \<Rightarrow> quantity \<Rightarrow> quantity \<Rightarrow> NodeSummary" where
  "sample_summary n cpu mem = (let r = \<lparr>nr_CPU = cpu, nr_Memory = mem, nr_Pods = 10\<rparr> in
     \<lparr>cn_Name = n, cn_UID = n, cn_Ready = True, cn_Allocatable = r, cn_Requested = \<lparr>nr_CPU = 0, nr_Memory = 0, nr_Pods = 0\<rparr>,
      cn_Free = r, cn_Labels = []\<rparr>)"

definition no_resources :: Resources where
  "no_resources = \<lparr>res_CapacityCPU = 0, res_CapacityMemory = 0, res_AllocatableCPU = 0, res_AllocatableMemory = 0,
     res_NodeCount = 0, res_PodCount = 0\<rparr>"

definition sample_cluster :: "string \<Rightarrow> NodeSummary list \<Rightarrow> Cluster" where
  "sample_cluster n nodes = \<lparr>cl_Meta = sample_meta n [], cl_APIEndpoint = ''https://'' @ n, cl_SecretRef = ''kube-'' @ n,
     cl_Phase = ClusterReady, cl_UpdatedAt = None, cl_LastProbeTime = Some 0, cl_Conditions = [], cl_Resources = no_resources,
     cl_Nodes = nodes\<rparr>"

definition sample_dep :: "int32 \<Rightarrow> Deployment" where
  "sample_dep available = \<lparr>dep_Name = ''web-r0'', dep_Namespace = ''ns'', dep_Labels = [], dep_Spec = sample_spec,
     dep_Status = \<lparr>AvailableReplicas = available, UpdatedReplicas = 1, dep_Replicas = 1, dep_Conditions = []\<rparr>\<rparr>"

definition list_contains_finalizer :: "ObjectMeta \<Rightarrow> string \<Rightarrow> bool" where
  "list_contains_finalizer m f \<longleftrightarrow> f \<in> set (om_Finalizers m)"

definition list_add_finalizer :: "string \<Rightarrow> ObjectMeta \<Rightarrow> ObjectMeta" where
  "list_add_finalizer f m = (if f \<in> set (om_Finalizers m) then m else m\<lparr>om_Finalizers := om_Finalizers m @ [f]\<rparr>)"

definition list_remove_finalizer :: "string \<Rightarrow> ObjectMeta \<Rightarrow> ObjectMeta" where
  "list_remove_finalizer f m = m\<lparr>om_Finalizers := filter (\<lambda>g. g \<noteq> f) (om_Finalizers m)\<rparr>"

definition put_condition :: "Condition \<Rightarrow> Condition list \<Rightarrow> Condition list" where
  "put_condition c cs = filter (\<lambda>d. cond_Type d \<noteq> cond_Type c) cs @ [c]"

definition own_by :: "GlobalDeployment \<Rightarrow> ReplicaBinding \<Rightarrow> ReplicaBinding" where
  "own_by gd r = r\<lparr>rb_Meta := (rb_Meta r)\<lparr>om_OwnerReferences :=
     om_OwnerReferences (rb_Meta r) @ [\<lparr>or_UID = om_UID (gd_Meta gd), or_Controller = Some True\<rparr>]\<rparr>\<rparr>"

definition gone :: api_err where
  "gone = NotFound ''not found''"

fun written_rb :: "event \<Rightarrow> api_err + ReplicaBinding" where
  "written_rb (CreateRB r) = Inr r"
| "written_rb (UpdateRB r) = Inr r"
| "written_rb (StatusUpdateRB r) = Inr r"
| "written_rb (PatchRB b r) = Inr r"
| "written_rb (StatusPatchRB b r) = Inr r"
| "written_rb e = Inl gone"

text \<open>Reads return the samples, writes are stored as given, member Deployments do not exist.\<close>

definition sample_env :: "ReplicaBindingPhase \<Rightarrow> env" where
  "sample_env ph = \<lparr>env_get_rb = (\<lambda>_ _. Inr (sample_rb ph)), env_get_gd = (\<lambda>_ _. Inr sample_gd),
     env_get_plan = (\<lambda>_ _. Inl gone), env_get_cluster = (\<lambda>_ k. Inr (sample_cluster (key_Name k) [])),
     env_get_secret = (\<lambda>_ k. Inr [(''kubeconfig'', key_Name k)]),
     env_list_rb = (\<lambda>_ _. Inr []), env_list_clusters = (\<lambda>_. Inr []),
     env_get_policy = (\<lambda>_ _. Inl gone), env_get_lease = (\<lambda>_ _. Inl gone), env_get_configmap = (\<lambda>_ _. Inl gone),
     env_list_gd = (\<lambda>_ _. Inr [sample_gd]),
     env_write_rb = (\<lambda>_ e. written_rb e),
     env_write_gd = (\<lambda>_ _. Inr sample_gd), env_write_plan = (\<lambda>_ _. Inl gone), env_write_cluster = (\<lambda>_ _. None),
     env_write_policy = (\<lambda>_ _. Inl gone), env_write_lease = (\<lambda>_ _. None), env_delete_rb = (\<lambda>_ _. None),
     env_ns_get = (\<lambda>_ _ _. None), env_ns_create = (\<lambda>_ _ _. None), env_dep_get = (\<lambda>_ _ _ _. Inl gone),
     env_dep_create = (\<lambda>_ _ _. None), env_dep_delete = (\<lambda>_ _ _ _. None), env_pods = (\<lambda>_ _ _ _. Inr []),
     env_server_version = (\<lambda>_ _. None), env_nodes = (\<lambda>_ _. Inr []), env_node = (\<lambda>_ _ _. Inl gone),
     env_rest_config = (\<lambda>_. None), env_new_client = (\<lambda>_. None), env_contains_finalizer = list_contains_finalizer, env_add_finalizer = list_add_finalizer,
     env_remove_finalizer = list_remove_finalizer, env_set_condition = put_condition,
     env_set_owner = (\<lambda>gd r. Inr (own_by gd r)),
     env_parse_duration = (\<lambda>_. None), env_duration_text = (\<lambda>_. ''''), env_decode = (\<lambda>_. (None, sample_spec)),
     env_json_spec = (\<lambda>_. sample_spec), env_json_deployment = (\<lambda>_. Inr sample_spec), env_selector = (\<lambda>s. Inr s),
     env_own_plan = (\<lambda>_ p. Inr p), env_rand = (\<lambda>_. ''abcdef''), env_parse_float = (\<lambda>_. None), env_format_g = (\<lambda>_. ''''),
     env_pod_name = '''',
     env_now = (\<lambda>_. 7)\<rparr>"

lemma sample_finalizer_laws: "finalizer_laws (sample_env ph)"
  by (auto simp: finalizer_laws_def sample_env_def list_contains_finalizer_def list_add_finalizer_def
      list_remove_finalizer_def)

definition fresh_world :: world where
  "fresh_world = \<lparr>hist = [], clients = [], cursors = [], policy_clients = [], kube_clients = [], timers = []\<rparr>"

definition sample_key :: nskey where
  "sample_key = \<lparr>key_Name = ''web-rb-0'', key_Namespace = ''ns''\<rparr>"

end
