(* ===== verification/Member_Clients.thy ===== *)
theory Member_Clients
  imports Kube_Model
begin

section \<open>The cache of member cluster clients\<close>

text \<open>
  \<open>src/controller/internal/controller/multicluster/member_client_cache.go\<close>. The cache is the component
  \<open>clients\<close> of the world. \<open>env_rest_config\<close> and \<open>env_new_client\<close> stand for
  \<open>clientcmd.RESTConfigFromKubeConfig\<close> and \<open>kubernetes.NewForConfig\<close>; a client is what they were given.
  The locks only serialise accesses to the map and are not modelled.
\<close>

definition cache_Get :: "string \<Rightarrow> Clientset option io" where
  "cache_Get clusterID = State (\<lambda>w. (mget (clients w) clusterID, w))"

definition cache_Clear :: "string \<Rightarrow> unit io" where
  "cache_Clear clusterID = State (\<lambda>w. ((), w\<lparr>clients := mdel clusterID (clients w)\<rparr>))"

text \<open>The block under \<open>c.mu.Lock\<close>: an entry another caller stored meanwhile wins.\<close>

definition cache_store :: "string \<Rightarrow> Clientset \<Rightarrow> Clientset io" where
  "cache_store clusterID newCS = State (\<lambda>w. case mget (clients w) clusterID of
      Some existing \<Rightarrow> (existing, w)
    | None \<Rightarrow> (newCS, w\<lparr>clients := mput clusterID newCS (clients w)\<rparr>))"

definition get_cluster :: "env \<Rightarrow> nskey \<Rightarrow> (api_err + Cluster) io" where
  "get_cluster E k = call (GetCluster k) (\<lambda>h. env_get_cluster E h k)"

definition get_secret :: "env \<Rightarrow> nskey \<Rightarrow> (api_err + (string, string) gomap) io" where
  "get_secret E k = call (GetSecret k) (\<lambda>h. env_get_secret E h k)"

definition GetOrBuild :: "env \<Rightarrow> string \<Rightarrow> string \<Rightarrow> (api_err + Clientset) io" where
  "GetOrBuild E controlNamespace clusterID =
    (if clusterID = '''' then State_Monad.return (Inl (OtherErr ''clusterID is empty''))
     else if controlNamespace = '''' then State_Monad.return (Inl (OtherErr ''controlNamespace is empty''))
     else do {
       cached \<leftarrow> cache_Get clusterID;
       case cached of
         Some cs \<Rightarrow> State_Monad.return (Inr cs)
       | None \<Rightarrow> do {
           cl \<leftarrow> get_cluster E \<lparr>key_Name = clusterID, key_Namespace = controlNamespace\<rparr>;
           case cl of
             Inl err \<Rightarrow> State_Monad.return (Inl err)
           | Inr c \<Rightarrow>
               if cl_SecretRef c = '''' then
                 State_Monad.return (Inl (OtherErr (''cluster '' @ clusterID @ '' missing secretRef'')))
               else do {
                 sec \<leftarrow> get_secret E \<lparr>key_Name = cl_SecretRef c, key_Namespace = controlNamespace\<rparr>;
                 case sec of
                   Inl err \<Rightarrow> State_Monad.return (Inl err)
                 | Inr data \<Rightarrow>
                     let kubeconfig = mget0 '''' data ''kubeconfig'' in
                     if kubeconfig = '''' then
                       State_Monad.return (Inl (OtherErr (''secret '' @ cl_SecretRef c @ '' missing kubeconfig'')))
                     else case env_rest_config E kubeconfig of
                       Some err \<Rightarrow> State_Monad.return (Inl err)
                     | None \<Rightarrow> (case env_new_client E kubeconfig of
                           Some err \<Rightarrow> State_Monad.return (Inl err)
                         | None \<Rightarrow> do {
                             cs \<leftarrow> cache_store clusterID \<lparr>cs_Cluster = clusterID, cs_Kubeconfig = kubeconfig\<rparr>;
                             State_Monad.return (Inr cs) })
               }
         }
     })"

subsection \<open>Symbolic execution\<close>

lemma wp_cache_Get [vcg]: "wp (cache_Get c) Q w = Q (mget (clients w) c) w"
  by (simp add: wp_def cache_Get_def)

lemma wp_cache_store [vcg]:
  "wp (cache_store c cs) Q w =
    (case mget (clients w) c of Some x \<Rightarrow> Q x w | None \<Rightarrow> Q cs (w\<lparr>clients := mput c cs (clients w)\<rparr>))"
  by (simp add: wp_def cache_store_def split: option.split)

lemma guar_cache [guar_intros]: "guar G (cache_Get c)" "guar G (cache_Clear c)" "guar G (cache_store c cs)"
  by (auto simp: guar_def exec_def cache_Get_def cache_Clear_def cache_store_def split: option.split)

subsection \<open>The contract of a client provider\<close>

text \<open>Every cached client belongs to the cluster it is filed under.\<close>

definition clients_ok :: "(string, Clientset) gomap \<Rightarrow> bool" where
  "clients_ok m \<longleftrightarrow> (\<forall>(c, cs) \<in> set m. cs_Cluster cs = c)"

definition cache_ok :: "world \<Rightarrow> bool" where
  "cache_ok w \<longleftrightarrow> clients_ok (clients w)"

fun client_read :: "event \<Rightarrow> bool" where
  "client_read (GetCluster _) = True"
| "client_read (GetSecret _) = True"
| "client_read _ = False"

lemma cache_ok_hist [simp]: "cache_ok (w\<lparr>hist := h\<rparr>) = cache_ok w"
  by (simp add: cache_ok_def)

lemma clients_ok_mget: "clients_ok m \<Longrightarrow> mget m c = Some cs \<Longrightarrow> cs_Cluster cs = c"
  by (auto simp: clients_ok_def dest: map_of_SomeD)

lemma clients_ok_mput: "clients_ok m \<Longrightarrow> cs_Cluster cs = c \<Longrightarrow> clients_ok (mput c cs m)"
  unfolding clients_ok_def by (auto dest: set_mput)

locale client_provider =
  fixes get :: "string \<Rightarrow> string \<Rightarrow> (api_err + Clientset) io"
    and inv :: "world \<Rightarrow> bool"
  assumes get_reads: "guar (\<lambda>_. client_read) (get ns c)"
    and get_client: "inv w \<Longrightarrow> wp (get ns c) (\<lambda>r w'. inv w' \<and> (\<forall>cs. r = Inr cs \<longrightarrow> cs_Cluster cs = c)) w"
    and get_again: "ns' \<noteq> '''' \<Longrightarrow> wp (get ns c) (\<lambda>r w'. \<forall>cs. r = Inr cs \<longrightarrow> run_state (get ns' c) w' = (Inr cs, w')) w"
begin

lemma get_guar: "(\<And>h e. client_read e \<Longrightarrow> G h e) \<Longrightarrow> guar G (get ns c)"
  by (rule guar_mono [OF get_reads])

lemma get_wp:
  assumes "inv w"
    and "\<And>err w'. inv w' \<Longrightarrow> ok (\<lambda>_. client_read) (hist w) (hist w') \<Longrightarrow> Q (Inl err) w'"
    and "\<And>cs w'. inv w' \<Longrightarrow> ok (\<lambda>_. client_read) (hist w) (hist w') \<Longrightarrow> cs_Cluster cs = c \<Longrightarrow> Q (Inr cs) w'"
  shows "wp (get ns c) Q w"
proof -
  have *: "ok (\<lambda>_. client_read) (hist w) (hist (exec (get ns c) w))"
    using get_reads unfolding guar_def by blast
  show ?thesis
    using get_client [OF assms(1), of ns c] assms(2-3) * unfolding wp_result
    by (cases "result (get ns c) w") auto
qed

lemma get_wp_ok:
  assumes "inv w" and "ok G hs (hist w)" and "\<And>h e. client_read e \<Longrightarrow> G h e"
    and "\<And>err w'. inv w' \<Longrightarrow> ok G hs (hist w') \<Longrightarrow> Q (Inl err) w'"
    and "\<And>cs w'. inv w' \<Longrightarrow> ok G hs (hist w') \<Longrightarrow> cs_Cluster cs = c \<Longrightarrow> Q (Inr cs) w'"
  shows "wp (get ns c) Q w"
proof (rule get_wp [OF assms(1)])
  have *: "ok G hs (hist w')" if "ok (\<lambda>_. client_read) (hist w) (hist w')" for w'
    by (rule ok_trans [OF assms(2) ok_mono [OF that]]) (rule assms(3))
  show "Q (Inl err) w'" if "inv w'" "ok (\<lambda>_. client_read) (hist w) (hist w')" for err w'
    using that by (intro assms(4) *)
  show "Q (Inr cs) w'" if "inv w'" "ok (\<lambda>_. client_read) (hist w) (hist w')" "cs_Cluster cs = c" for cs w'
    using that by (intro assms(5) *)
qed

lemma get_stable:
  assumes "result (get ns c) w = Inr cs" and "ns' \<noteq> ''''"
  shows "result (get ns' c) (exec (get ns c) w) = Inr cs \<and> trace (get ns' c) (exec (get ns c) w) = []"
  using get_again [OF assms(2), of ns c w] assms(1) unfolding wp_result
  by (simp add: result_def exec_def trace_def)

end

lemma run_GetOrBuild_hit:
  assumes "mget (clients w) c = Some cs" and "c \<noteq> ''''" and "ns \<noteq> ''''"
  shows "run_state (GetOrBuild E ns c) w = (Inr cs, w)"
  using assms by (simp add: GetOrBuild_def cache_Get_def State_Monad.bind_def State_Monad.return_def)

lemmas GetOrBuild_vcg = GetOrBuild_def get_cluster_def get_secret_def vcg Let_def

lemma GetOrBuild_stores:
  "wp (GetOrBuild E ns c) (\<lambda>r w'. \<forall>cs. r = Inr cs \<longrightarrow> c \<noteq> '''' \<and> mget (clients w') c = Some cs) w"
  by (simp add: GetOrBuild_vcg split: option.split sum.split)

interpretation cache: client_provider "GetOrBuild E" cache_ok for E
proof
  show "guar (\<lambda>_. client_read) (GetOrBuild E ns c)" for ns c
    unfolding GetOrBuild_def get_cluster_def get_secret_def Let_def
    by (intro guar_intros) simp_all
  show "wp (GetOrBuild E ns c) (\<lambda>r w'. cache_ok w' \<and> (\<forall>cs. r = Inr cs \<longrightarrow> cs_Cluster cs = c)) w"
    if "cache_ok w" for w ns c
    using that clients_ok_mget clients_ok_mput
    by (simp add: GetOrBuild_vcg cache_ok_def split: option.split sum.split)
  show "wp (GetOrBuild E ns c) (\<lambda>r w'. \<forall>cs. r = Inr cs \<longrightarrow> run_state (GetOrBuild E ns' c) w' = (Inr cs, w')) w"
    if "ns' \<noteq> ''''" for ns ns' c w
    by (rule wp_mono [OF GetOrBuild_stores]) (simp add: run_GetOrBuild_hit that)
qed

text \<open>
  The client cache. A client that is handed out belongs to the cluster asked for; asking again for the
  same cluster, in any namespace, returns the same client without contacting the API server; and a lookup
  only ever adds the one entry it returns.
\<close>

theorem member_client_cached:
  assumes "cache_ok w" and "result (GetOrBuild E ns c) w = Inr cs" and "ns' \<noteq> ''''"
  shows "cs_Cluster cs = c \<and>
    result (GetOrBuild E ns' c) (exec (GetOrBuild E ns c) w) = Inr cs \<and>
    trace (GetOrBuild E ns' c) (exec (GetOrBuild E ns c) w) = [] \<and>
    mget (clients (exec (GetOrBuild E ns c) w)) = (mget (clients w))(c \<mapsto> cs)"
proof -
  have 1: "cs_Cluster cs = c"
    using cache.get_client [OF assms(1), where ns = ns and c = c and E = E] assms(2) by (simp add: wp_result)
  have "wp (GetOrBuild E ns c) (\<lambda>r w'. \<forall>cs. r = Inr cs \<longrightarrow> mget (clients w') = (mget (clients w))(c \<mapsto> cs)) w"
    by (auto simp: GetOrBuild_vcg fun_eq_iff split: option.split sum.split)
  then have "mget (clients (exec (GetOrBuild E ns c) w)) = (mget (clients w))(c \<mapsto> cs)"
    using assms(2) by (simp add: wp_result)
  with 1 cache.get_stable [OF assms(2,3)] show ?thesis by simp
qed

definition sample_cs :: Clientset where
  "sample_cs = \<lparr>cs_Cluster = ''east'', cs_Kubeconfig = ''kube-east''\<rparr>"

theorem member_client_cached_witness:
  "cs_Cluster sample_cs = ''east'' \<and>
    result (GetOrBuild (sample_env Running) ''other'' ''east'') (exec (GetOrBuild (sample_env Running) ''ns'' ''east'') fresh_world) = Inr sample_cs \<and>
    trace (GetOrBuild (sample_env Running) ''other'' ''east'') (exec (GetOrBuild (sample_env Running) ''ns'' ''east'') fresh_world) = [] \<and>
    mget (clients (exec (GetOrBuild (sample_env Running) ''ns'' ''east'') fresh_world)) = (mget (clients fresh_world))(''east'' \<mapsto> sample_cs)"
  by (rule member_client_cached) code_simp+

end
