(* ===== verification/Replica_Binding.thy ===== *)
theory Replica_Binding
  imports Member_Clients
begin

section \<open>The ReplicaBinding controller\<close>

text \<open>
  \<open>src/controller/internal/controller/replicabinding_controller.go\<close>: the executor of one replica. It
  creates the member Deployment of an assigned binding, moves it on a reschedule, watches it until it is
  available, and removes it before the binding goes away. \<open>rb_Reconcile\<close> is the whole handler; its
  branches are one definition each, in the order of the code.

  After the definitions: the phase machine the status writes follow, the conditions under which the
  finalizer is removed and a Deployment is created, and what a successful run leaves behind.
\<close>

definition replicaBindingFinalizer :: string where
  "replicaBindingFinalizer = ''core.kubex.io/finalizer-replicabinding''"

definition control_ns :: "string \<Rightarrow> string \<Rightarrow> string" where
  "control_ns controlNamespace ns = (if controlNamespace = '''' then ns else controlNamespace)"

definition getMemberClient :: "env \<Rightarrow> string \<Rightarrow> string \<Rightarrow> (api_err + Clientset) io" where
  "getMemberClient E ns clusterID = GetOrBuild E ns clusterID"

text \<open>\<open>fmt.Sprintf("%s-r%d", gdName, replicaIndex)\<close>.\<close>

definition member_dep_name :: "string \<Rightarrow> int32 \<Rightarrow> string" where
  "member_dep_name gdName i = gdName @ ''-r'' @ itoa i"

subsection \<open>Member Deployments\<close>

definition isDeploymentFailed :: "Deployment \<Rightarrow> bool" where
  "isDeploymentFailed dep =
    (if AvailableReplicas (dep_Status dep) \<noteq> 0 then False
     else if dep_Replicas (dep_Status dep) = 0 \<and> UpdatedReplicas (dep_Status dep) = 0 then False
     else list_ex (\<lambda>(t, st). t = ''ReplicaFailure'' \<and> st) (dep_Conditions (dep_Status dep)))"

definition ensureNamespace :: "env \<Rightarrow> Clientset \<Rightarrow> string \<Rightarrow> api_err option io" where
  "ensureNamespace E cs ns =
    (if ns = '''' then State_Monad.return (Some (OtherErr ''namespace is empty''))
     else do {
       err \<leftarrow> call (NsGet cs ns) (\<lambda>h. env_ns_get E h cs ns);
       case err of
         None \<Rightarrow> State_Monad.return None
       | Some e \<Rightarrow>
           if \<not> IsNotFound e then State_Monad.return (Some e)
           else do {
             err \<leftarrow> call (NsCreate cs ns) (\<lambda>h. env_ns_create E h cs ns);
             case err of
               None \<Rightarrow> State_Monad.return None
             | Some e \<Rightarrow> State_Monad.return (if IsAlreadyExists e then None else Some e)
           }
     })"

definition empty_affinity :: Affinity where
  "empty_affinity = \<lparr>aff_NodeAffinity = None, aff_Other = ''''\<rparr>"

definition empty_node_affinity :: NodeAffinity where
  "empty_node_affinity = \<lparr>na_Required = None, na_Other = ''''\<rparr>"

definition pin_affinity :: "string \<Rightarrow> Affinity option \<Rightarrow> Affinity" where
  "pin_affinity node a =
    (let aff = (case a of None \<Rightarrow> empty_affinity | Some x \<Rightarrow> x);
         na = (case aff_NodeAffinity aff of None \<Rightarrow> empty_node_affinity | Some x \<Rightarrow> x)
     in aff\<lparr>aff_NodeAffinity := Some (na\<lparr>na_Required := Some [[(''kubernetes.io/hostname'', ''In'', [node])]]\<rparr>)\<rparr>)"

definition buildMemberDeployment :: "env \<Rightarrow> GlobalDeployment \<Rightarrow> string \<Rightarrow> string \<Rightarrow> Deployment" where
  "buildMemberDeployment E gd name targetNodeName =
    (let spec = snd (env_decode E (gd_Template (gd_Spec gd)));
         spec = spec\<lparr>ds_Replicas := Some 1\<rparr>;
         spec = spec\<lparr>ds_PodLabels := mput ''core.kubex.io/globaldeploy'' (om_Name (gd_Meta gd)) (ds_PodLabels spec)\<rparr>;
         spec = spec\<lparr>ds_PodLabels := mput ''core.kubex.io/deployName'' name (ds_PodLabels spec)\<rparr>;
         spec = spec\<lparr>ds_Affinity := Some (pin_affinity targetNodeName (ds_Affinity spec))\<rparr>
     in \<lparr>dep_Name = name, dep_Namespace = om_Namespace (gd_Meta gd),
         dep_Labels = [(''core.kubex.io/globaldeploy'', om_Name (gd_Meta gd)), (''app.kubernetes.io/name'', name)],
         dep_Spec = spec,
         dep_Status = \<lparr>AvailableReplicas = 0, UpdatedReplicas = 0, dep_Replicas = 0, dep_Conditions = []\<rparr>\<rparr>)"

subsection \<open>Status writes\<close>

definition set_phase :: "ReplicaBindingPhase \<Rightarrow> string \<Rightarrow> time \<Rightarrow> ReplicaBinding \<Rightarrow> ReplicaBinding" where
  "set_phase ph msg t rb =
    rb\<lparr>rb_Status := (rb_Status rb)\<lparr>rb_Phase := ph, rb_LastError := msg, rb_LastTransitionTime := Some t\<rparr>\<rparr>"

text \<open>
  The block that ends most branches: deep copy, new phase, time and error text, \<open>Status().Patch\<close>; an
  error of the patch is returned, otherwise the run ends with \<open>next\<close>.
\<close>

definition patch_phase :: "env \<Rightarrow> ReplicaBindingPhase \<Rightarrow> string \<Rightarrow> reconcile_out io \<Rightarrow> ReplicaBinding \<Rightarrow> reconcile_out io" where
  "patch_phase E ph msg next rb = do {
     t \<leftarrow> now E;
     r \<leftarrow> write_rb E (StatusPatchRB rb (set_phase ph msg t rb));
     case r of Inl err \<Rightarrow> fail_with err | Inr _ \<Rightarrow> next
   }"

definition failBinding :: "env \<Rightarrow> ReplicaBinding \<Rightarrow> string \<Rightarrow> reconcile_out io" where
  "failBinding E rb msg = do {
     t \<leftarrow> now E;
     _ \<leftarrow> write_rb E (StatusPatchRB rb (set_phase Failed msg t rb));
     requeue (10 * Second)
   }"

subsection \<open>The branches of Reconcile\<close>

definition rb_deleting :: "env \<Rightarrow> string \<Rightarrow> ReplicaBinding \<Rightarrow> reconcile_out io" where
  "rb_deleting E controlNS rb =
    (if ContainsFinalizer E (rb_Meta rb) replicaBindingFinalizer then do {
       cs \<leftarrow> getMemberClient E (control_ns controlNS (om_Namespace (rb_Meta rb))) (rb_TargetCluster (rb_Spec rb));
       case cs of
         Inl _ \<Rightarrow> requeue (2 * Second)
       | Inr cs \<Rightarrow> do {
           let depName = member_dep_name (ref_Name (rb_GlobalDeploymentRef (rb_Spec rb))) (rb_ReplicaIndex (rb_Spec rb));
           g \<leftarrow> dep_get E cs (om_Namespace (rb_Meta rb)) depName;
           case g of
             Inl gErr \<Rightarrow>
               if \<not> IsNotFound gErr then requeue (2 * Second)
               else do {
                 r \<leftarrow> write_rb E (PatchRB rb (rb\<lparr>rb_Meta := RemoveFinalizer E replicaBindingFinalizer (rb_Meta rb)\<rparr>));
                 case r of Inl err \<Rightarrow> fail_with err | Inr _ \<Rightarrow> done_ok
               }
           | Inr _ \<Rightarrow> requeue (2 * Second)
         }
     } else done_ok)"

definition rb_delete_requested :: "env \<Rightarrow> string \<Rightarrow> ReplicaBinding \<Rightarrow> reconcile_out io" where
  "rb_delete_requested E controlNS rb = do {
     let ref = rb_GlobalDeploymentRef (rb_Spec rb);
     gd \<leftarrow> get_gd E \<lparr>key_Name = ref_Name ref, key_Namespace = ref_Namespace ref\<rparr>;
     let workloadNS = (case gd of
           Inr g \<Rightarrow> if om_Namespace (gd_Meta g) \<noteq> '''' then om_Namespace (gd_Meta g) else om_Namespace (rb_Meta rb)
         | Inl _ \<Rightarrow> om_Namespace (rb_Meta rb));
     let gdName = (case gd of
           Inr g \<Rightarrow> if om_Name (gd_Meta g) \<noteq> '''' then om_Name (gd_Meta g) else ref_Name ref
         | Inl _ \<Rightarrow> ref_Name ref);
     cs \<leftarrow> getMemberClient E (control_ns controlNS (om_Namespace (rb_Meta rb))) (rb_TargetCluster (rb_Spec rb));
     case cs of
       Inl _ \<Rightarrow> requeue (2 * Second)
     | Inr cs \<Rightarrow> do {
         err \<leftarrow> dep_delete E cs workloadNS (member_dep_name gdName (rb_ReplicaIndex (rb_Spec rb)));
         if (case err of None \<Rightarrow> False | Some e \<Rightarrow> \<not> IsNotFound e) then requeue (2 * Second)
         else patch_phase E Deleting '''' (requeue (200 * Millisecond)) rb
       }
   }"

definition rb_add_finalizer :: "env \<Rightarrow> ReplicaBinding \<Rightarrow> reconcile_out io" where
  "rb_add_finalizer E rb = do {
     r \<leftarrow> write_rb E (PatchRB rb (rb\<lparr>rb_Meta := AddFinalizer E replicaBindingFinalizer (rb_Meta rb)\<rparr>));
     case r of Inl err \<Rightarrow> fail_with err | Inr _ \<Rightarrow> requeue (100 * Millisecond)
   }"

definition rb_assigned :: "env \<Rightarrow> Clientset \<Rightarrow> GlobalDeployment \<Rightarrow> string \<Rightarrow> ReplicaBinding \<Rightarrow> reconcile_out io" where
  "rb_assigned E cs gd depName rb = do {
     err \<leftarrow> ensureNamespace E cs (om_Namespace (gd_Meta gd));
     case err of
       Some e \<Rightarrow> failBinding E rb (''ensure member namespace failed (cluster='' @ rb_TargetCluster (rb_Spec rb) @
         '', namespace='' @ om_Namespace (gd_Meta gd) @ ''): '' @ err_text e)
     | None \<Rightarrow> do {
         c \<leftarrow> dep_create E cs (buildMemberDeployment E gd depName (rb_TargetNodeName (rb_Spec rb)));
         case c of
           Some _ \<Rightarrow> requeue (2 * Second)
         | None \<Rightarrow> patch_phase E Applying '''' (requeue (2 * Second)) rb
       }
   }"

definition rb_rescheduling :: "env \<Rightarrow> string \<Rightarrow> Clientset \<Rightarrow> GlobalDeployment \<Rightarrow> string \<Rightarrow> ReplicaBinding \<Rightarrow> reconcile_out io" where
  "rb_rescheduling E cns cs gd depName rb = do {
     csOld \<leftarrow> getMemberClient E cns (rb_ClusterName (rb_Status rb));
     case csOld of
       Inl _ \<Rightarrow> requeue (10 * Second)
     | Inr csOld \<Rightarrow> do {
         dErr \<leftarrow> dep_delete E csOld (om_Namespace (gd_Meta gd)) depName;
         if (case dErr of None \<Rightarrow> False | Some e \<Rightarrow> \<not> IsNotFound e) then requeue (2 * Second)
         else do {
           g \<leftarrow> dep_get E csOld (om_Namespace (gd_Meta gd)) depName;
           case g of
             Inr _ \<Rightarrow> requeue (2 * Second)
           | Inl gErr \<Rightarrow>
               if \<not> IsNotFound gErr then requeue (2 * Second)
               else do {
                 cErr \<leftarrow> dep_create E cs (buildMemberDeployment E gd depName (rb_TargetNodeName (rb_Spec rb)));
                 if (case cErr of None \<Rightarrow> False | Some e \<Rightarrow> \<not> IsAlreadyExists e) then requeue (2 * Second)
                 else patch_phase E Applying '''' (requeue (2 * Second)) rb
               }
         }
       }
   }"

text \<open>The loop over the pods: the first Ready pod wins, otherwise the first running one with a node.\<close>

definition pod_ready :: "Pod \<Rightarrow> bool" where
  "pod_ready p = list_ex (\<lambda>(t, st). t = ''Ready'' \<and> st) (pod_Conditions p)"

fun pick_node :: "Pod list \<Rightarrow> string \<Rightarrow> string" where
  "pick_node [] actual = actual"
| "pick_node (p # ps) actual =
    (if pod_Phase p \<noteq> ''Running'' then pick_node ps actual
     else if pod_NodeName p = '''' then pick_node ps actual
     else if pod_ready p then pod_NodeName p
     else pick_node ps (if actual = '''' then pod_NodeName p else actual))"

definition own_pods :: "string \<Rightarrow> Pod list \<Rightarrow> Pod list" where
  "own_pods depName pods = filter (\<lambda>p. pod_Name p = depName \<or> has_prefix (pod_Name p) (depName @ ''-'')) pods"

text \<open>A failed list leaves an empty item slice behind, whose later contents nothing reads.\<close>

definition find_actual_node :: "env \<Rightarrow> Clientset \<Rightarrow> GlobalDeployment \<Rightarrow> string \<Rightarrow> Deployment \<Rightarrow> string io" where
  "find_actual_node E cs gd depName currentDep = do {
     r \<leftarrow> pods_list E cs (om_Namespace (gd_Meta gd)) (''core.kubex.io/deployName='' @ dep_Name currentDep);
     let items = (case r of Inl _ \<Rightarrow> [] | Inr ps \<Rightarrow> ps);
     items \<leftarrow> (if items = [] then do {
         r2 \<leftarrow> pods_list E cs (om_Namespace (gd_Meta gd)) (''core.kubex.io/globaldeploy='' @ om_Name (gd_Meta gd));
         State_Monad.return (case r2 of Inl _ \<Rightarrow> items | Inr ps \<Rightarrow> own_pods depName ps)
       } else State_Monad.return items);
     State_Monad.return (case r of Inl _ \<Rightarrow> '''' | Inr _ \<Rightarrow> pick_node items '''')
   }"

definition set_running :: "string \<Rightarrow> time \<Rightarrow> ReplicaBinding \<Rightarrow> ReplicaBinding" where
  "set_running actualNodeName t rb =
    (let rb1 = set_phase Running '''' t rb;
         rb2 = (if actualNodeName \<noteq> '''' then rb1\<lparr>rb_Status := (rb_Status rb1)\<lparr>rb_NodeName := actualNodeName\<rparr>\<rparr> else rb1)
     in rb2\<lparr>rb_Status := (rb_Status rb2)\<lparr>rb_ClusterName := rb_TargetCluster (rb_Spec rb2)\<rparr>\<rparr>)"

definition rb_applying :: "env \<Rightarrow> Clientset \<Rightarrow> GlobalDeployment \<Rightarrow> string \<Rightarrow> ReplicaBinding \<Rightarrow> reconcile_out io" where
  "rb_applying E cs gd depName rb = do {
     g \<leftarrow> dep_get E cs (om_Namespace (gd_Meta gd)) depName;
     case g of
       Inl getErr \<Rightarrow>
         if IsNotFound getErr then do {
           _ \<leftarrow> dep_create E cs (buildMemberDeployment E gd depName (rb_TargetNodeName (rb_Spec rb)));
           requeue (2 * Second)
         } else fail_with getErr
     | Inr currentDep \<Rightarrow>
         if AvailableReplicas (dep_Status currentDep) \<ge> 1 then do {
           actualNodeName \<leftarrow> find_actual_node E cs gd depName currentDep;
           if rb_Phase (rb_Status rb) \<noteq> Running then do {
             t \<leftarrow> now E;
             r \<leftarrow> write_rb E (StatusPatchRB rb (set_running actualNodeName t rb));
             case r of Inl err \<Rightarrow> fail_with err | Inr _ \<Rightarrow> done_ok
           } else done_ok
         } else if isDeploymentFailed currentDep then
           (if rb_Phase (rb_Status rb) \<noteq> Failed then patch_phase E Failed ''pod failed'' (requeue (2 * Second)) rb
            else requeue (2 * Second))
         else requeue (2 * Second)
   }"

text \<open>The part after the phase guards: the GlobalDeployment, the member client, and the active phases.\<close>

definition rb_execute :: "env \<Rightarrow> string \<Rightarrow> ReplicaBinding \<Rightarrow> reconcile_out io" where
  "rb_execute E controlNS rb = do {
     let ref = rb_GlobalDeploymentRef (rb_Spec rb);
     gd \<leftarrow> get_gd E \<lparr>key_Name = ref_Name ref, key_Namespace = ref_Namespace ref\<rparr>;
     case gd of
       Inl _ \<Rightarrow> requeue (10 * Second)
     | Inr gd \<Rightarrow> do {
         let cns = control_ns controlNS (om_Namespace (rb_Meta rb));
         cs \<leftarrow> getMemberClient E cns (rb_TargetCluster (rb_Spec rb));
         case cs of
           Inl _ \<Rightarrow> requeue (10 * Second)
         | Inr cs \<Rightarrow> do {
             let depName = member_dep_name (om_Name (gd_Meta gd)) (rb_ReplicaIndex (rb_Spec rb));
             let ph = rb_Phase (rb_Status rb);
             if ph = Assigned then rb_assigned E cs gd depName rb
             else if ph = Rescheduling then rb_rescheduling E cns cs gd depName rb
             else if ph = Applying then rb_applying E cs gd depName rb
             else requeue (2 * Second)
           }
       }
   }"

definition rb_Reconcile :: "env \<Rightarrow> string \<Rightarrow> nskey \<Rightarrow> reconcile_out io" where
  "rb_Reconcile E controlNS req = do {
     r \<leftarrow> get_rb E req;
     case r of
       Inl err \<Rightarrow> State_Monad.return (0, ignore_not_found err)
     | Inr rb \<Rightarrow>
         (let ph = rb_Phase (rb_Status rb) in
          if ph = Deleting then rb_deleting E controlNS rb
          else if om_DeletionTimestamp (rb_Meta rb) \<noteq> None then rb_delete_requested E controlNS rb
          else if \<not> ContainsFinalizer E (rb_Meta rb) replicaBindingFinalizer then rb_add_finalizer E rb
          else if ph = PhaseNone then patch_phase E Pending '''' (requeue (200 * Millisecond)) rb
          else if ph = Failed then done_ok
          else if ph = Running then done_ok
          else if ph = Pending then requeue (2 * Second)
          else rb_execute E controlNS rb)
   }"

subsection \<open>What a run may do\<close>

text \<open>The phase machine of a binding, as far as this controller drives it.\<close>

inductive rb_phase_step :: "ReplicaBindingPhase \<Rightarrow> ReplicaBindingPhase \<Rightarrow> bool" where
  init: "rb_phase_step PhaseNone Pending"
| applied: "rb_phase_step Assigned Applying"
| no_namespace: "rb_phase_step Assigned Failed"
| moved: "rb_phase_step Rescheduling Applying"
| available: "rb_phase_step Applying Running"
| replica_failure: "rb_phase_step Applying Failed"
| delete: "ph \<noteq> Deleting \<Longrightarrow> rb_phase_step ph Deleting"

code_pred rb_phase_step .

inductive_cases rb_phase_stepE: "rb_phase_step ph ph'"
inductive_simps rb_phase_step_simps [simp]:
  "rb_phase_step ph Pending" "rb_phase_step ph Applying" "rb_phase_step ph Failed"
  "rb_phase_step ph Running" "rb_phase_step ph Deleting"

text \<open>
  Evidence in the history. \<open>observed_gone\<close>: the last call asked the member cluster for the Deployment and
  the answer was NotFound. \<open>delete_accepted\<close>: the last call deleted it, and the answer was success or
  NotFound. \<open>observed_available\<close>: the last call but for pod lists returned a Deployment with an available
  replica.
\<close>

definition observed_gone :: "env \<Rightarrow> history \<Rightarrow> string \<Rightarrow> string \<Rightarrow> string \<Rightarrow> bool" where
  "observed_gone E h cluster ns n \<longleftrightarrow> (case rev h of
      DepGet cs ns' n' # r \<Rightarrow> cs_Cluster cs = cluster \<and> ns' = ns \<and> n' = n \<and>
        (case env_dep_get E (rev r) cs ns n of Inl e \<Rightarrow> IsNotFound e | Inr _ \<Rightarrow> False)
    | _ \<Rightarrow> False)"

definition delete_accepted :: "env \<Rightarrow> history \<Rightarrow> string \<Rightarrow> bool" where
  "delete_accepted E h cluster \<longleftrightarrow> (case rev h of
      DepDelete cs ns n # r \<Rightarrow> cs_Cluster cs = cluster \<and>
        (case env_dep_delete E (rev r) cs ns n of Some e \<Rightarrow> IsNotFound e | None \<Rightarrow> True)
    | _ \<Rightarrow> False)"

fun is_pods_list :: "event \<Rightarrow> bool" where
  "is_pods_list (PodsList _ _ _) = True"
| "is_pods_list _ = False"

definition observed_available :: "env \<Rightarrow> history \<Rightarrow> string \<Rightarrow> bool" where
  "observed_available E h cluster \<longleftrightarrow> (case dropWhile is_pods_list (rev h) of
      DepGet cs ns n # r \<Rightarrow> cs_Cluster cs = cluster \<and>
        (case env_dep_get E (rev r) cs ns n of Inr d \<Rightarrow> AvailableReplicas (dep_Status d) \<ge> 1 | Inl _ \<Rightarrow> False)
    | _ \<Rightarrow> False)"

definition created_last :: "history \<Rightarrow> string \<Rightarrow> bool" where
  "created_last h cluster \<longleftrightarrow> (case rev h of DepCreate cs _ # _ \<Rightarrow> cs_Cluster cs = cluster | _ \<Rightarrow> False)"

text \<open>
  The guarantee of a run on the binding \<open>rb\<close>: every write, with the phase it needs and the evidence
  collected just before it.
\<close>

definition status_write_ok :: "env \<Rightarrow> ReplicaBinding \<Rightarrow> history \<Rightarrow> ReplicaBinding \<Rightarrow> bool" where
  "status_write_ok E rb h new \<longleftrightarrow>
    rb_Meta new = rb_Meta rb \<and> rb_Spec new = rb_Spec rb \<and>
    rb_phase_step (rb_Phase (rb_Status rb)) (rb_Phase (rb_Status new)) \<and>
    (rb_Phase (rb_Status new) = Deleting \<longrightarrow>
       om_DeletionTimestamp (rb_Meta rb) \<noteq> None \<and> delete_accepted E h (rb_TargetCluster (rb_Spec rb))) \<and>
    (rb_Phase (rb_Status new) = Applying \<longrightarrow> created_last h (rb_TargetCluster (rb_Spec rb))) \<and>
    (rb_Phase (rb_Status new) = Running \<longrightarrow>
       rb_ClusterName (rb_Status new) = rb_TargetCluster (rb_Spec rb) \<and>
       observed_available E h (rb_TargetCluster (rb_Spec rb)))"

definition meta_write_ok :: "env \<Rightarrow> ReplicaBinding \<Rightarrow> history \<Rightarrow> ReplicaBinding \<Rightarrow> bool" where
  "meta_write_ok E rb h new \<longleftrightarrow>
    (new = rb\<lparr>rb_Meta := AddFinalizer E replicaBindingFinalizer (rb_Meta rb)\<rparr> \<and>
       om_DeletionTimestamp (rb_Meta rb) = None \<and> rb_Phase (rb_Status rb) \<noteq> Deleting) \<or>
    (new = rb\<lparr>rb_Meta := RemoveFinalizer E replicaBindingFinalizer (rb_Meta rb)\<rparr> \<and>
       rb_Phase (rb_Status rb) = Deleting \<and>
       observed_gone E h (rb_TargetCluster (rb_Spec rb)) (om_Namespace (rb_Meta rb))
         (member_dep_name (ref_Name (rb_GlobalDeploymentRef (rb_Spec rb))) (rb_ReplicaIndex (rb_Spec rb))))"

definition create_ok :: "env \<Rightarrow> ReplicaBinding \<Rightarrow> history \<Rightarrow> Clientset \<Rightarrow> Deployment \<Rightarrow> bool" where
  "create_ok E rb h cs d \<longleftrightarrow>
    cs_Cluster cs = rb_TargetCluster (rb_Spec rb) \<and>
    na_Required (the (aff_NodeAffinity (the (ds_Affinity (dep_Spec d))))) =
      Some [[(''kubernetes.io/hostname'', ''In'', [rb_TargetNodeName (rb_Spec rb)])]] \<and>
    ds_Replicas (dep_Spec d) = Some 1 \<and>
    (rb_Phase (rb_Status rb) = Assigned \<or>
     rb_Phase (rb_Status rb) = Rescheduling \<and>
       observed_gone E h (rb_ClusterName (rb_Status rb)) (dep_Namespace d) (dep_Name d) \<or>
     rb_Phase (rb_Status rb) = Applying \<and>
       observed_gone E h (rb_TargetCluster (rb_Spec rb)) (dep_Namespace d) (dep_Name d))"

definition delete_ok :: "ReplicaBinding \<Rightarrow> Clientset \<Rightarrow> bool" where
  "delete_ok rb cs \<longleftrightarrow>
    rb_Phase (rb_Status rb) \<noteq> Deleting \<and> om_DeletionTimestamp (rb_Meta rb) \<noteq> None \<and>
      cs_Cluster cs = rb_TargetCluster (rb_Spec rb) \<or>
    rb_Phase (rb_Status rb) = Rescheduling \<and> cs_Cluster cs = rb_ClusterName (rb_Status rb)"

definition rb_guard :: "env \<Rightarrow> ReplicaBinding \<Rightarrow> history \<Rightarrow> event \<Rightarrow> bool" where
  "rb_guard E rb h e = (case e of
     StatusPatchRB base new \<Rightarrow> base = rb \<and> status_write_ok E rb h new
   | PatchRB base new \<Rightarrow> base = rb \<and> meta_write_ok E rb h new
   | DepCreate cs d \<Rightarrow> create_ok E rb h cs d
   | DepDelete cs ns n \<Rightarrow> delete_ok rb cs
   | NsCreate cs ns \<Rightarrow> rb_Phase (rb_Status rb) = Assigned \<and> cs_Cluster cs = rb_TargetCluster (rb_Spec rb)
   | GetRB _ \<Rightarrow> True | GetGD _ \<Rightarrow> True | GetCluster _ \<Rightarrow> True | GetSecret _ \<Rightarrow> True
   | NsGet _ _ \<Rightarrow> True | DepGet _ _ _ \<Rightarrow> True | PodsList _ _ _ \<Rightarrow> True
   | _ \<Rightarrow> False)"

lemma rb_guard_simps [simp]:
  "rb_guard E rb h (StatusPatchRB base new) \<longleftrightarrow> base = rb \<and> status_write_ok E rb h new"
  "rb_guard E rb h (PatchRB base new) \<longleftrightarrow> base = rb \<and> meta_write_ok E rb h new"
  "rb_guard E rb h (DepCreate cs d) \<longleftrightarrow> create_ok E rb h cs d"
  "rb_guard E rb h (DepDelete cs ns n) \<longleftrightarrow> delete_ok rb cs"
  "rb_guard E rb h (NsCreate cs ns) \<longleftrightarrow> rb_Phase (rb_Status rb) = Assigned \<and> cs_Cluster cs = rb_TargetCluster (rb_Spec rb)"
  "rb_guard E rb h (GetRB k)" "rb_guard E rb h (GetGD k)" "rb_guard E rb h (NsGet cs ns)"
  "rb_guard E rb h (DepGet cs ns n)" "rb_guard E rb h (PodsList cs ns n)"
  by (simp_all add: rb_guard_def)

lemma client_read_rb_guard: "client_read e \<Longrightarrow> rb_guard E rb h e"
  by (cases e) (simp_all add: rb_guard_def)

lemma buildMemberDeployment_fields [simp]:
  "dep_Name (buildMemberDeployment E gd n node) = n"
  "dep_Namespace (buildMemberDeployment E gd n node) = om_Namespace (gd_Meta gd)"
  "ds_Replicas (dep_Spec (buildMemberDeployment E gd n node)) = Some 1"
  "na_Required (the (aff_NodeAffinity (the (ds_Affinity (dep_Spec (buildMemberDeployment E gd n node)))))) =
     Some [[(''kubernetes.io/hostname'', ''In'', [node])]]"
  by (simp_all add: buildMemberDeployment_def pin_affinity_def Let_def)

lemma set_phase_fields [simp]:
  "rb_Meta (set_phase ph msg t rb) = rb_Meta rb" "rb_Spec (set_phase ph msg t rb) = rb_Spec rb"
  "rb_Phase (rb_Status (set_phase ph msg t rb)) = ph"
  by (simp_all add: set_phase_def)

lemma set_running_fields [simp]:
  "rb_Meta (set_running n t rb) = rb_Meta rb" "rb_Spec (set_running n t rb) = rb_Spec rb"
  "rb_Phase (rb_Status (set_running n t rb)) = Running"
  "rb_ClusterName (rb_Status (set_running n t rb)) = rb_TargetCluster (rb_Spec rb)"
  by (simp_all add: set_running_def Let_def)

lemmas evidence = observed_gone_def delete_accepted_def observed_available_def created_last_def
lemmas write_ok = status_write_ok_def meta_write_ok_def create_ok_def delete_ok_def

abbreviation rb_post :: "env \<Rightarrow> ReplicaBinding \<Rightarrow> history \<Rightarrow> 'a \<Rightarrow> world \<Rightarrow> bool" where
  "rb_post E rb h0 r w \<equiv> cache_ok w \<and> ok (rb_guard E rb) h0 (hist w)"

text \<open>Fetching a client keeps the guarantee, and the client belongs to the cluster asked for.\<close>

lemma getMemberClient_wp:
  assumes "cache_ok w" and "ok (rb_guard E rb) h0 (hist w)"
    and "\<And>err w'. cache_ok w' \<Longrightarrow> ok (rb_guard E rb) h0 (hist w') \<Longrightarrow> Q (Inl err) w'"
    and "\<And>cs w'. cache_ok w' \<Longrightarrow> ok (rb_guard E rb) h0 (hist w') \<Longrightarrow> cs_Cluster cs = c \<Longrightarrow> Q (Inr cs) w'"
  shows "wp (getMemberClient E ns c) Q w"
  unfolding getMemberClient_def using assms(1,2)
  by (rule cache.get_wp_ok) (simp_all add: assms client_read_rb_guard)

lemmas run = vcg io_defs Let_def

lemma patch_phase_ok:
  assumes "cache_ok w" and "ok (rb_guard E rb) h0 (hist w)" and "\<And>t. status_write_ok E rb (hist w) (set_phase ph msg t rb)"
  shows "wp (patch_phase E ph msg (State_Monad.return r) rb) (rb_post E rb h0) w"
  using assms by (simp add: patch_phase_def run split: sum.split)

lemma failBinding_ok:
  assumes "cache_ok w" and "ok (rb_guard E rb) h0 (hist w)" and "rb_Phase (rb_Status rb) = Assigned"
  shows "wp (failBinding E rb msg) (rb_post E rb h0) w"
  using assms by (simp add: failBinding_def run write_ok)

lemma rb_deleting_ok:
  assumes "cache_ok w" and "ok (rb_guard E rb) h0 (hist w)" and "rb_Phase (rb_Status rb) = Deleting"
  shows "wp (rb_deleting E cns rb) (rb_post E rb h0) w"
  unfolding rb_deleting_def using assms
  by (auto simp: run write_ok evidence intro!: getMemberClient_wp split: sum.split)

lemma rb_delete_requested_ok:
  assumes "cache_ok w" and "ok (rb_guard E rb) h0 (hist w)" and "rb_Phase (rb_Status rb) \<noteq> Deleting"
    and "om_DeletionTimestamp (rb_Meta rb) \<noteq> None"
  shows "wp (rb_delete_requested E cns rb) (rb_post E rb h0) w"
  unfolding rb_delete_requested_def using assms
  by (auto simp: run write_ok evidence intro!: getMemberClient_wp patch_phase_ok split: sum.split option.split)

lemma rb_add_finalizer_ok:
  assumes "cache_ok w" and "ok (rb_guard E rb) h0 (hist w)" and "rb_Phase (rb_Status rb) \<noteq> Deleting"
    and "om_DeletionTimestamp (rb_Meta rb) = None"
  shows "wp (rb_add_finalizer E rb) (rb_post E rb h0) w"
  using assms by (auto simp: rb_add_finalizer_def run write_ok split: sum.split)

lemma rb_assigned_ok:
  assumes "cache_ok w" and "ok (rb_guard E rb) h0 (hist w)" and "rb_Phase (rb_Status rb) = Assigned"
    and "cs_Cluster cs = rb_TargetCluster (rb_Spec rb)"
  shows "wp (rb_assigned E cs gd n rb) (rb_post E rb h0) w"
  using assms
  by (auto simp: rb_assigned_def ensureNamespace_def run write_ok evidence
      intro!: patch_phase_ok failBinding_ok split: option.split)

lemma rb_rescheduling_ok:
  assumes "cache_ok w" and "ok (rb_guard E rb) h0 (hist w)" and "rb_Phase (rb_Status rb) = Rescheduling"
    and "cs_Cluster cs = rb_TargetCluster (rb_Spec rb)"
  shows "wp (rb_rescheduling E cns cs gd n rb) (rb_post E rb h0) w"
  unfolding rb_rescheduling_def using assms
  by (auto simp: run write_ok evidence intro!: getMemberClient_wp patch_phase_ok split: sum.split option.split)

lemma rb_applying_ok:
  assumes "cache_ok w" and "ok (rb_guard E rb) h0 (hist w)" and "rb_Phase (rb_Status rb) = Applying"
    and "cs_Cluster cs = rb_TargetCluster (rb_Spec rb)"
  shows "wp (rb_applying E cs gd n rb) (rb_post E rb h0) w"
  using assms
  by (auto simp: rb_applying_def find_actual_node_def run write_ok evidence
      intro!: patch_phase_ok split: sum.split)

lemma rb_execute_ok:
  assumes "cache_ok w" and "ok (rb_guard E rb) h0 (hist w)"
  shows "wp (rb_execute E cns rb) (rb_post E rb h0) w"
  unfolding rb_execute_def using assms
  by (auto simp: run intro!: getMemberClient_wp rb_assigned_ok rb_rescheduling_ok rb_applying_ok split: sum.split)

lemma rb_Reconcile_ok:
  assumes "cache_ok w" and "env_get_rb E (hist w) req = Inr rb"
  shows "wp (rb_Reconcile E cns req) (rb_post E rb (hist w)) w"
  unfolding rb_Reconcile_def using assms
  by (auto simp: run write_ok intro!: rb_deleting_ok rb_delete_requested_ok rb_add_finalizer_ok rb_execute_ok patch_phase_ok)

lemma rb_Reconcile_missing:
  assumes "env_get_rb E (hist w) req = Inl err"
  shows "run_state (rb_Reconcile E cns req) w = ((0, ignore_not_found err), w\<lparr>hist := hist w @ [GetRB req]\<rparr>)"
  using assms by (simp add: rb_Reconcile_def get_rb_def call_def State_Monad.bind_def State_Monad.return_def)

subsection \<open>Correctness of the executor\<close>

lemma rb_Reconcile_guarded:
  assumes "cache_ok w" and "env_get_rb E (hist w) req = Inr rb"
  shows "guarded (rb_guard E rb) (hist w) (trace (rb_Reconcile E cns req) w)"
  using rb_Reconcile_ok [OF assms] by (auto simp: wp_result intro: ok_trace)

lemma rb_Reconcile_at:
  assumes "cache_ok w" and "env_get_rb E (hist w) req = Inr rb"
    and "trace (rb_Reconcile E cns req) w = pre @ e # post"
  shows "rb_guard E rb (hist w @ pre) e"
  using rb_Reconcile_guarded [OF assms(1,2), of cns] unfolding assms(3) by (rule guarded_at)

text \<open>
  Status writes of the ReplicaBinding controller follow the phase machine. Whatever the API servers
  answer, a run that read the binding \<open>rb\<close> only ever patches the status of that binding, leaves its
  metadata and spec alone, and moves its phase along \<open>rb_phase_step\<close>: from nothing to Pending, from
  Assigned to Applying or Failed, from Rescheduling to Applying, from Applying to Running or Failed, and
  from anything but Deleting to Deleting.
\<close>

theorem rb_status_follows_phase_machine:
  assumes "cache_ok w" and "env_get_rb E (hist w) req = Inr rb"
    and "StatusPatchRB base new \<in> set (trace (rb_Reconcile E cns req) w)"
  shows "base = rb \<and> rb_Meta new = rb_Meta rb \<and> rb_Spec new = rb_Spec rb \<and>
    rb_phase_step (rb_Phase (rb_Status rb)) (rb_Phase (rb_Status new))"
  using guarded_in_set [OF rb_Reconcile_guarded [OF assms(1,2)] assms(3)]
  by (auto simp: status_write_ok_def)

text \<open>
  C11: The finalizer is removed only after the cleanup. When a run patches a binding that carries the
  finalizer into one that does not, the binding is in phase Deleting and the call just before asked the
  target cluster for the member Deployment and was told that it does not exist.
\<close>

theorem rb_finalizer_removed_after_cleanup:
  assumes "cache_ok w" and "env_get_rb E (hist w) req = Inr rb"
    and "trace (rb_Reconcile E cns req) w = pre @ PatchRB base new # post"
    and "finalizer_laws E" and "\<not> ContainsFinalizer E (rb_Meta new) replicaBindingFinalizer"
  shows "rb_Phase (rb_Status rb) = Deleting \<and>
    observed_gone E (hist w @ pre) (rb_TargetCluster (rb_Spec rb)) (om_Namespace (rb_Meta rb))
      (member_dep_name (ref_Name (rb_GlobalDeploymentRef (rb_Spec rb))) (rb_ReplicaIndex (rb_Spec rb)))"
  using rb_Reconcile_at [OF assms(1-3)] assms(4,5)
  by (auto simp: meta_write_ok_def finalizer_laws_def)

text \<open>
  C5: A reschedule never runs two copies. A run on a binding in phase Rescheduling creates a Deployment
  only in the new target cluster, and only when the call just before was told by the old cluster
  (\<open>status.clusterName\<close>) that the Deployment of the same name and namespace is gone.
\<close>

theorem rb_reschedule_creates_after_old_gone:
  assumes "cache_ok w" and "env_get_rb E (hist w) req = Inr rb" and "rb_Phase (rb_Status rb) = Rescheduling"
    and "trace (rb_Reconcile E cns req) w = pre @ DepCreate cs d # post"
  shows "cs_Cluster cs = rb_TargetCluster (rb_Spec rb) \<and>
    observed_gone E (hist w @ pre) (rb_ClusterName (rb_Status rb)) (dep_Namespace d) (dep_Name d)"
  using rb_Reconcile_at [OF assms(1,2,4)] assms(3) by (simp add: create_ok_def)

text \<open>
  Running means available. When a run reports Running, the binding was Applying, the last call before
  it other than pod lists fetched the member Deployment from the target cluster, that Deployment had at
  least one available replica, and the reported cluster is the target cluster.
\<close>

theorem rb_running_means_available:
  assumes "cache_ok w" and "env_get_rb E (hist w) req = Inr rb"
    and "trace (rb_Reconcile E cns req) w = pre @ StatusPatchRB base new # post"
    and "rb_Phase (rb_Status new) = Running"
  shows "rb_Phase (rb_Status rb) = Applying \<and> rb_ClusterName (rb_Status new) = rb_TargetCluster (rb_Spec rb) \<and>
    observed_available E (hist w @ pre) (rb_TargetCluster (rb_Spec rb))"
  using rb_Reconcile_at [OF assms(1-3)] assms(4) by (simp add: status_write_ok_def)

text \<open>
  Every Deployment the controller creates goes to the target cluster, has exactly one replica and is
  pinned by node affinity to the target node; and only bindings that are Assigned, Rescheduling or
  Applying create one.
\<close>

theorem rb_creates_pinned_deployment:
  assumes "cache_ok w" and "env_get_rb E (hist w) req = Inr rb"
    and "DepCreate cs d \<in> set (trace (rb_Reconcile E cns req) w)"
  shows "cs_Cluster cs = rb_TargetCluster (rb_Spec rb) \<and> ds_Replicas (dep_Spec d) = Some 1 \<and>
    na_Required (the (aff_NodeAffinity (the (ds_Affinity (dep_Spec d))))) =
      Some [[(''kubernetes.io/hostname'', ''In'', [rb_TargetNodeName (rb_Spec rb)])]] \<and>
    rb_Phase (rb_Status rb) \<in> {Assigned, Rescheduling, Applying}"
  using guarded_in_set [OF rb_Reconcile_guarded [OF assms(1,2)] assms(3)]
  by (auto simp: create_ok_def)

text \<open>
  The member Deployment keeps the template. Apart from the replica count, the two labels it injects
  and the node affinity, the built Deployment carries the decoded template unchanged; the labels select
  the pods of this replica.
\<close>

theorem member_deployment_keeps_template:
  "let d = buildMemberDeployment E gd name node; t = snd (env_decode E (gd_Template (gd_Spec gd))) in
     ds_MatchLabels (dep_Spec d) = ds_MatchLabels t \<and> ds_Containers (dep_Spec d) = ds_Containers t \<and>
     ds_Other (dep_Spec d) = ds_Other t \<and>
     mget (ds_PodLabels (dep_Spec d)) =
       (mget (ds_PodLabels t))(''core.kubex.io/globaldeploy'' \<mapsto> om_Name (gd_Meta gd), ''core.kubex.io/deployName'' \<mapsto> name) \<and>
     aff_Other (the (ds_Affinity (dep_Spec d))) = (case ds_Affinity t of None \<Rightarrow> '''' | Some a \<Rightarrow> aff_Other a)"
  by (auto simp: buildMemberDeployment_def pin_affinity_def empty_affinity_def Let_def fun_eq_iff update_conv split: option.split)

theorem rb_status_follows_phase_machine_witness:
  "sample_rb Assigned = sample_rb Assigned \<and>
    rb_Meta (set_phase Applying '''' 7 (sample_rb Assigned)) = rb_Meta (sample_rb Assigned) \<and>
    rb_Spec (set_phase Applying '''' 7 (sample_rb Assigned)) = rb_Spec (sample_rb Assigned) \<and>
    rb_phase_step (rb_Phase (rb_Status (sample_rb Assigned))) (rb_Phase (rb_Status (set_phase Applying '''' 7 (sample_rb Assigned))))"
  by (rule rb_status_follows_phase_machine [where w = fresh_world and E = "sample_env Assigned" and req = sample_key and cns = "''''"]) code_simp+

theorem rb_finalizer_removed_after_cleanup_witness:
  "rb_Phase (rb_Status (sample_rb Deleting)) = Deleting \<and>
    observed_gone (sample_env Deleting) (hist fresh_world @ take 4 (trace (rb_Reconcile (sample_env Deleting) '''' sample_key) fresh_world))
      (rb_TargetCluster (rb_Spec (sample_rb Deleting))) (om_Namespace (rb_Meta (sample_rb Deleting)))
      (member_dep_name (ref_Name (rb_GlobalDeploymentRef (rb_Spec (sample_rb Deleting)))) (rb_ReplicaIndex (rb_Spec (sample_rb Deleting))))"
  by (rule rb_finalizer_removed_after_cleanup [where req = sample_key and cns = "''''" and base = "sample_rb Deleting" and post = "[]"
        and new = "(sample_rb Deleting)\<lparr>rb_Meta := RemoveFinalizer (sample_env Deleting) replicaBindingFinalizer (rb_Meta (sample_rb Deleting))\<rparr>"]) (rule sample_finalizer_laws | code_simp)+

theorem rb_reschedule_creates_after_old_gone_witness:
  "cs_Cluster \<lparr>cs_Cluster = ''east'', cs_Kubeconfig = ''kube-east''\<rparr> = rb_TargetCluster (rb_Spec (sample_rb Rescheduling)) \<and>
    observed_gone (sample_env Rescheduling)
      (hist fresh_world @ take 8 (trace (rb_Reconcile (sample_env Rescheduling) '''' sample_key) fresh_world))
      (rb_ClusterName (rb_Status (sample_rb Rescheduling)))
      (dep_Namespace (buildMemberDeployment (sample_env Rescheduling) sample_gd ''web-r0'' ''node-2''))
      (dep_Name (buildMemberDeployment (sample_env Rescheduling) sample_gd ''web-r0'' ''node-2''))"
  by (rule rb_reschedule_creates_after_old_gone [where req = sample_key and cns = "''''"
        and post = "drop 9 (trace (rb_Reconcile (sample_env Rescheduling) '''' sample_key) fresh_world)"]) code_simp+

definition available_env :: env where
  "available_env = (sample_env Applying)\<lparr>env_dep_get := \<lambda>_ _ _ _. Inr (sample_dep 1)\<rparr>"

theorem rb_running_means_available_witness:
  "rb_Phase (rb_Status (sample_rb Applying)) = Applying \<and>
    rb_ClusterName (rb_Status (set_running '''' 7 (sample_rb Applying))) = rb_TargetCluster (rb_Spec (sample_rb Applying)) \<and>
    observed_available available_env (hist fresh_world @ take 7 (trace (rb_Reconcile available_env '''' sample_key) fresh_world))
      (rb_TargetCluster (rb_Spec (sample_rb Applying)))"
  by (rule rb_running_means_available [where req = sample_key and cns = "''''" and base = "sample_rb Applying" and post = "[]"]) code_simp+

theorem rb_creates_pinned_deployment_witness:
  "cs_Cluster \<lparr>cs_Cluster = ''east'', cs_Kubeconfig = ''kube-east''\<rparr> = rb_TargetCluster (rb_Spec (sample_rb Assigned)) \<and>
    ds_Replicas (dep_Spec (buildMemberDeployment (sample_env Assigned) sample_gd ''web-r0'' ''node-2'')) = Some 1 \<and>
    na_Required (the (aff_NodeAffinity (the (ds_Affinity (dep_Spec (buildMemberDeployment (sample_env Assigned) sample_gd ''web-r0'' ''node-2'')))))) =
      Some [[(''kubernetes.io/hostname'', ''In'', [rb_TargetNodeName (rb_Spec (sample_rb Assigned))])]] \<and>
    rb_Phase (rb_Status (sample_rb Assigned)) \<in> {Assigned, Rescheduling, Applying}"
  by (rule rb_creates_pinned_deployment [where w = fresh_world and E = "sample_env Assigned" and req = sample_key and cns = "''''"]) code_simp+

subsection \<open>Where the replica runs\<close>

definition pod_placed :: "Pod \<Rightarrow> bool" where
  "pod_placed p \<longleftrightarrow> pod_Phase p = ''Running'' \<and> pod_NodeName p \<noteq> ''''"

lemma pick_node_acc:
  "pick_node ps actual = (case find (\<lambda>p. pod_placed p \<and> pod_ready p) ps of
      Some p \<Rightarrow> pod_NodeName p
    | None \<Rightarrow> if actual \<noteq> '''' then actual
              else (case find pod_placed ps of Some p \<Rightarrow> pod_NodeName p | None \<Rightarrow> ''''))"
  by (induction ps arbitrary: actual) (auto simp: pod_placed_def split: option.split)

text \<open>
  The reported node. The loop over the pods returns the node of the first Ready pod among the running
  pods that have a node, and only when there is none the node of the first running pod with a node; the
  empty string when no pod qualifies.
\<close>

theorem pick_node_prefers_ready:
  "pick_node pods '''' = (case find (\<lambda>p. pod_placed p \<and> pod_ready p) pods of
      Some p \<Rightarrow> pod_NodeName p
    | None \<Rightarrow> (case find pod_placed pods of Some p \<Rightarrow> pod_NodeName p | None \<Rightarrow> ''''))"
  by (simp add: pick_node_acc)

subsection \<open>Settled and stuck bindings\<close>

text \<open>
  A binding that is Running or Failed, carries the finalizer and is not being deleted is settled: the run
  reads it and does nothing else, without error and without asking to be called again.
\<close>

theorem rb_settled_untouched:
  assumes "env_get_rb E (hist w) req = Inr rb" and "om_DeletionTimestamp (rb_Meta rb) = None"
    and "ContainsFinalizer E (rb_Meta rb) replicaBindingFinalizer"
    and "rb_Phase (rb_Status rb) = Running \<or> rb_Phase (rb_Status rb) = Failed"
  shows "run_state (rb_Reconcile E cns req) w = ((0, None), w\<lparr>hist := hist w @ [GetRB req]\<rparr>)"
  using assms
  by (auto simp: rb_Reconcile_def get_rb_def call_def done_ok_def State_Monad.bind_def State_Monad.return_def)

theorem rb_settled_untouched_witness:
  "run_state (rb_Reconcile (sample_env Running) '''' sample_key) fresh_world =
    ((0, None), fresh_world\<lparr>hist := hist fresh_world @ [GetRB sample_key]\<rparr>)"
  by (rule rb_settled_untouched [where rb = "sample_rb Running"]) code_simp+

definition is_rb_write :: "event \<Rightarrow> bool" where
  "is_rb_write e = (case e of StatusPatchRB _ _ \<Rightarrow> True | PatchRB _ _ \<Rightarrow> True | CreateRB _ \<Rightarrow> True | UpdateRB _ \<Rightarrow> True
    | StatusUpdateRB _ \<Rightarrow> True | DeleteRB _ \<Rightarrow> True | _ \<Rightarrow> False)"

lemma is_rb_write_simps [simp]:
  "\<not> is_rb_write (GetRB k)" "\<not> is_rb_write (GetGD k)" "\<not> is_rb_write (NsGet cs ns)" "\<not> is_rb_write (DepCreate cs d)"
  by (simp_all add: is_rb_write_def)

lemma client_read_no_write: "client_read e \<Longrightarrow> \<not> is_rb_write e"
  by (cases e) (simp_all add: is_rb_write_def)

abbreviation no_write :: "history \<Rightarrow> event \<Rightarrow> bool" where
  "no_write \<equiv> \<lambda>_ e. \<not> is_rb_write e"

lemma rb_assigned_stuck:
  assumes "cache_ok w"
    and "\<And>h cs d. env_dep_create E h cs d = Some (AlreadyExists msg)" and "\<And>h cs ns. env_ns_get E h cs ns = None"
    and "env_get_rb E (hist w) req = Inr rb" and "om_DeletionTimestamp (rb_Meta rb) = None"
    and "ContainsFinalizer E (rb_Meta rb) replicaBindingFinalizer" and "rb_Phase (rb_Status rb) = Assigned"
    and "\<And>h k. env_get_gd E h k = Inr gd" and "om_Namespace (gd_Meta gd) \<noteq> ''''"
  shows "wp (rb_Reconcile E cns req) (\<lambda>r w'. snd r = None \<and> 0 < fst r \<and> ok no_write (hist w) (hist w')) w"
  unfolding rb_Reconcile_def rb_execute_def rb_assigned_def ensureNamespace_def getMemberClient_def using assms
  by (auto simp: run Second_def client_read_no_write
      intro!: cache.get_wp_ok [where G = no_write and hs = "hist w"] split: sum.split)

text \<open>
  A binding stays Assigned for ever when its Deployment already exists. If every create in the member
  cluster answers AlreadyExists (the previous run created the Deployment and then failed to patch the
  status), a run on an Assigned binding writes nothing and only asks to be called again; the Rescheduling
  branch tolerates the same answer.
\<close>

theorem rb_assigned_already_exists_stuck:
  assumes "cache_ok w"
    and "\<And>h cs d. env_dep_create E h cs d = Some (AlreadyExists msg)" and "\<And>h cs ns. env_ns_get E h cs ns = None"
    and "env_get_rb E (hist w) req = Inr rb" and "om_DeletionTimestamp (rb_Meta rb) = None"
    and "ContainsFinalizer E (rb_Meta rb) replicaBindingFinalizer" and "rb_Phase (rb_Status rb) = Assigned"
    and "\<And>h k. env_get_gd E h k = Inr gd" and "om_Namespace (gd_Meta gd) \<noteq> ''''"
  shows "snd (result (rb_Reconcile E cns req) w) = None \<and> 0 < fst (result (rb_Reconcile E cns req) w) \<and>
    list_all (\<lambda>e. \<not> is_rb_write e) (trace (rb_Reconcile E cns req) w)"
  using rb_assigned_stuck [OF assms, of cns] by (auto simp: wp_result intro: ok_trace_plain)

definition exists_env :: env where
  "exists_env = (sample_env Assigned)\<lparr>env_dep_create := \<lambda>_ _ _. Some (AlreadyExists ''exists'')\<rparr>"

theorem rb_assigned_already_exists_stuck_witness:
  "snd (result (rb_Reconcile exists_env '''' sample_key) fresh_world) = None \<and>
    0 < fst (result (rb_Reconcile exists_env '''' sample_key) fresh_world) \<and>
    list_all (\<lambda>e. \<not> is_rb_write e) (trace (rb_Reconcile exists_env '''' sample_key) fresh_world)"
  by (rule rb_assigned_already_exists_stuck [where rb = "sample_rb Assigned" and gd = sample_gd and msg = "''exists''"])
    (auto simp: exists_env_def sample_env_def sample_rb_def sample_gd_def sample_meta_def cache_ok_def clients_ok_def
      fresh_world_def list_contains_finalizer_def replicaBindingFinalizer_def)

end
