(* ===== verification/Plan_Controller.thy ===== *)
theory Plan_Controller
  imports Kube_Model
begin

section \<open>The ReOrchestrationPlan controller\<close>

text \<open>
  \<open>src/controller/internal/controller/reorchestrationplan_controller.go\<close>: the executor of a plan. It
  decides from the strategy whether the plan runs, writes the reschedule intent of every move into the
  ReplicaBindings, follows their progress, and closes the plan when every move has ended.

  The nil checks of the helpers are not modelled: every caller passes an object. Metrics are calls of
  their own (\<open>MovesTotalInc\<close>, \<open>MoveDurationObserve\<close>). The text of a duration is unobservable and comes from
  the environment.
\<close>

definition plan_key :: "ReOrchestrationPlan \<Rightarrow> nskey" where
  "plan_key p = \<lparr>key_Name = om_Name (plan_Meta p), key_Namespace = om_Namespace (plan_Meta p)\<rparr>"

definition move_rb_key :: "PlanMove \<Rightarrow> nskey" where
  "move_rb_key mv =
    \<lparr>key_Name = ref_Name (mv_GlobalDeploymentRef mv) @ ''-rb-'' @ itoa (mv_ReplicaIndex mv),
     key_Namespace = ref_Namespace (mv_GlobalDeploymentRef mv)\<rparr>"

text \<open>\<open>NamespacedName.String\<close>.\<close>

definition key_text :: "nskey \<Rightarrow> string" where
  "key_text k = key_Namespace k @ ''/'' @ key_Name k"

fun plan_phase_text :: "PlanPhase \<Rightarrow> string" where
  "plan_phase_text PlanPhaseNone = ''''"
| "plan_phase_text PlanPending = ''Pending''"
| "plan_phase_text PlanExecuting = ''Executing''"
| "plan_phase_text PlanSucceeded = ''Succeeded''"
| "plan_phase_text PlanFailed = ''Failed''"
| "plan_phase_text PlanPartiallyFailed = ''PartiallyFailed''"
| "plan_phase_text PlanTerminating = ''Terminating''"
| "plan_phase_text (PlanPhaseOther s) = s"

subsection \<open>Tokens and statuses\<close>

definition buildRescheduleRequestToken :: "ReOrchestrationPlan \<Rightarrow> string" where
  "buildRescheduleRequestToken plan =
    (let labels = om_Labels (plan_Meta plan);
         policyNS = (case mget labels ''kubex.io/policy-namespace'' of
             Some v \<Rightarrow> if v \<noteq> '''' then v else om_Namespace (plan_Meta plan)
           | None \<Rightarrow> om_Namespace (plan_Meta plan));
         policyName = (case mget labels ''kubex.io/policy-name'' of
             Some v \<Rightarrow> if v \<noteq> '''' then v else plan_PolicyName (plan_Spec plan)
           | None \<Rightarrow> plan_PolicyName (plan_Spec plan));
         tok = trim_char (CHR ''/'') (join ''/'' [policyNS, policyName, om_Name (plan_Meta plan)])
     in if om_UID (plan_Meta plan) \<noteq> '''' then tok @ ''#'' @ om_UID (plan_Meta plan) else tok)"

definition computeMoveStatus :: "ReOrchestrationPlan \<Rightarrow> ReplicaBinding \<Rightarrow> MoveExecutionStatus \<times> string" where
  "computeMoveStatus plan rb =
    (let ph = rb_Phase (rb_Status rb); expectedReq = buildRescheduleRequestToken plan in
     if ph = Failed then
       (MoveFailed, if rb_LastError (rb_Status rb) = '''' then ''replicabinding failed'' else rb_LastError (rb_Status rb))
     else if expectedReq \<noteq> '''' \<and> rb_RescheduleRequest (rb_Spec rb) \<noteq> expectedReq then
       (MoveInProgress, ''waiting for intent applied (wantRescheduleRequest='' @ expectedReq @ '')'')
     else if ph = Rescheduling \<or> ph = Applying then (MoveInProgress, ''waiting for reschedule handling'')
     else if ph = Running then (MoveSucceeded, ''reschedule completed'')
     else (MoveInProgress, ''handled, waiting for terminal result''))"

text \<open>\<open>ms\<close> is the status entry of the move \<open>mv\<close>.\<close>

definition status_of_move :: "PlanMove \<Rightarrow> MoveStatus \<Rightarrow> bool" where
  "status_of_move mv ms \<longleftrightarrow>
    ref_Name (ms_GlobalDeploymentRef ms) = ref_Name (mv_GlobalDeploymentRef mv) \<and>
    ref_Namespace (ms_GlobalDeploymentRef ms) = ref_Namespace (mv_GlobalDeploymentRef mv) \<and>
    ms_ReplicaIndex ms = mv_ReplicaIndex mv"

definition initial_statuses :: "PlanMove list \<Rightarrow> MoveStatus list" where
  "initial_statuses = map (\<lambda>mv. \<lparr>ms_GlobalDeploymentRef = mv_GlobalDeploymentRef mv, ms_ReplicaIndex = mv_ReplicaIndex mv,
     ms_Status = MovePending, ms_Message = ''''\<rparr>)"

definition set_statuses :: "MoveStatus list \<Rightarrow> ReOrchestrationPlan \<Rightarrow> ReOrchestrationPlan" where
  "set_statuses mss p = p\<lparr>plan_Status := (plan_Status p)\<lparr>plan_MoveStatuses := mss\<rparr>\<rparr>"

definition metrics_inc :: "MoveExecutionStatus \<Rightarrow> unit io" where
  "metrics_inc st = do {
     _ \<leftarrow> call (MovesTotalInc st) (\<lambda>_. ());
     if st = MoveSucceeded \<or> st = MoveFailed then call MoveDurationObserve (\<lambda>_. ()) else State_Monad.return ()
   }"

definition patch_plan :: "env \<Rightarrow> ReOrchestrationPlan \<Rightarrow> ReOrchestrationPlan \<Rightarrow> api_err option io" where
  "patch_plan E base new = do {
     r \<leftarrow> write_plan E (StatusPatchPlan base new);
     State_Monad.return (case r of Inl err \<Rightarrow> Some err | Inr _ \<Rightarrow> None)
   }"

text \<open>The loop of \<open>patchMoveStatusIf\<close>: the first entry of the move, updated when it has the status \<open>from\<close>.\<close>

fun update_if :: "PlanMove \<Rightarrow> MoveExecutionStatus \<Rightarrow> MoveExecutionStatus \<Rightarrow> string \<Rightarrow> MoveStatus list \<Rightarrow> MoveStatus list option" where
  "update_if mv from to msg [] = None"
| "update_if mv from to msg (ms # mss) =
    (if status_of_move mv ms then
       (if ms_Status ms = from then Some (ms\<lparr>ms_Status := to, ms_Message := msg\<rparr> # mss) else None)
     else map_option (Cons ms) (update_if mv from to msg mss))"

definition patchMoveStatusIf :: "env \<Rightarrow> ReOrchestrationPlan \<Rightarrow> PlanMove \<Rightarrow> MoveExecutionStatus \<Rightarrow> MoveExecutionStatus \<Rightarrow> string
    \<Rightarrow> api_err option io" where
  "patchMoveStatusIf E plan mv from to msg = do {
     r \<leftarrow> get_plan E (plan_key plan);
     case r of
       Inl err \<Rightarrow> State_Monad.return (ignore_not_found err)
     | Inr latest \<Rightarrow> (case update_if mv from to msg (plan_MoveStatuses (plan_Status latest)) of
           None \<Rightarrow> State_Monad.return None
         | Some mss \<Rightarrow> do {
             _ \<leftarrow> metrics_inc to;
             patch_plan E latest (set_statuses mss latest)
           })
   }"

text \<open>The loop of \<open>patchMoveStatus\<close>: the first entry of the move updated, \<open>None\<close> when there is none.\<close>

fun update_first :: "PlanMove \<Rightarrow> MoveExecutionStatus \<Rightarrow> string \<Rightarrow> MoveStatus list \<Rightarrow> MoveStatus list option" where
  "update_first mv st msg [] = None"
| "update_first mv st msg (ms # mss) =
    (if status_of_move mv ms then Some (ms\<lparr>ms_Status := st, ms_Message := msg\<rparr> # mss)
     else map_option (Cons ms) (update_first mv st msg mss))"

definition patchMoveStatus :: "env \<Rightarrow> ReOrchestrationPlan \<Rightarrow> PlanMove \<Rightarrow> MoveExecutionStatus \<Rightarrow> string \<Rightarrow> api_err option io" where
  "patchMoveStatus E plan mv st msg = do {
     r \<leftarrow> get_plan E (plan_key plan);
     case r of
       Inl err \<Rightarrow> State_Monad.return (ignore_not_found err)
     | Inr latest \<Rightarrow> (case update_first mv st msg (plan_MoveStatuses (plan_Status latest)) of
           Some mss \<Rightarrow> patch_plan E latest (set_statuses mss latest)
         | None \<Rightarrow> do {
             _ \<leftarrow> metrics_inc st;
             patch_plan E latest (set_statuses (plan_MoveStatuses (plan_Status latest) @
               [\<lparr>ms_GlobalDeploymentRef = mv_GlobalDeploymentRef mv, ms_ReplicaIndex = mv_ReplicaIndex mv,
                 ms_Status = st, ms_Message = msg\<rparr>]) latest)
           })
   }"

text \<open>The counters are int32.\<close>

fun count_statuses :: "MoveStatus list \<Rightarrow> PlanExecutionSummary \<Rightarrow> PlanExecutionSummary" where
  "count_statuses [] s = s"
| "count_statuses (ms # mss) s =
    (let s = s\<lparr>TotalMoves := wrap32 (TotalMoves s + 1)\<rparr> in
     count_statuses mss
       (if ms_Status ms = MoveSucceeded then s\<lparr>SucceededMoves := wrap32 (SucceededMoves s + 1)\<rparr>
        else if ms_Status ms = MoveFailed then s\<lparr>FailedMoves := wrap32 (FailedMoves s + 1)\<rparr>
        else s\<lparr>PendingMoves := wrap32 (PendingMoves s + 1)\<rparr>))"

definition zero_summary :: PlanExecutionSummary where
  "zero_summary = \<lparr>TotalMoves = 0, SucceededMoves = 0, FailedMoves = 0, PendingMoves = 0\<rparr>"

definition recomputePlanExecutionSummary :: "env \<Rightarrow> ReOrchestrationPlan \<Rightarrow> api_err option io" where
  "recomputePlanExecutionSummary E plan = do {
     r \<leftarrow> get_plan E (plan_key plan);
     case r of
       Inl err \<Rightarrow> State_Monad.return (ignore_not_found err)
     | Inr latest \<Rightarrow> patch_plan E latest (latest\<lparr>plan_Status := (plan_Status latest)\<lparr>plan_Summary :=
         count_statuses (plan_MoveStatuses (plan_Status latest)) zero_summary\<rparr>\<rparr>)
   }"

subsection \<open>Applying the moves\<close>

definition with_intent :: "PlanMove \<Rightarrow> string \<Rightarrow> ReplicaBinding \<Rightarrow> ReplicaBinding" where
  "with_intent mv tok rb = rb\<lparr>rb_Spec := (rb_Spec rb)\<lparr>rb_TargetCluster := ml_ClusterID (mv_Destination mv),
     rb_TargetNodeName := ml_NodeName (mv_Destination mv), rb_Reschedule := True, rb_RescheduleRequest := tok\<rparr>\<rparr>"

definition need_patch :: "PlanMove \<Rightarrow> string \<Rightarrow> ReplicaBinding \<Rightarrow> bool" where
  "need_patch mv tok rb \<longleftrightarrow>
    rb_TargetCluster (rb_Spec rb) \<noteq> ml_ClusterID (mv_Destination mv) \<or>
    rb_TargetNodeName (rb_Spec rb) \<noteq> ml_NodeName (mv_Destination mv) \<or>
    rb_Reschedule (rb_Spec rb) \<noteq> True \<or> rb_RescheduleRequest (rb_Spec rb) \<noteq> tok"

text \<open>The two patches of one move; the result is the message of the failure, if any.\<close>

definition apply_intent :: "env \<Rightarrow> PlanMove \<Rightarrow> string \<Rightarrow> ReplicaBinding \<Rightarrow> string option io" where
  "apply_intent E mv tok rb = do {
     r \<leftarrow> write_rb E (PatchRB rb (with_intent mv tok rb));
     case r of
       Inl err \<Rightarrow> State_Monad.return (Some (''patch ReplicaBinding spec failed: '' @ err_text err))
     | Inr _ \<Rightarrow> do {
         g \<leftarrow> get_rb E (move_rb_key mv);
         case g of
           Inl err \<Rightarrow> State_Monad.return (Some (''re-get ReplicaBinding failed after spec patch: '' @ err_text err))
         | Inr rbLatest \<Rightarrow>
             if rb_Phase (rb_Status rbLatest) \<noteq> Rescheduling then do {
               t \<leftarrow> now E;
               r \<leftarrow> write_rb E (StatusPatchRB rbLatest (rbLatest\<lparr>rb_Status := (rb_Status rbLatest)\<lparr>
                 rb_Phase := Rescheduling, rb_LastTransitionTime := Some t, rb_LastError := ''''\<rparr>\<rparr>));
               State_Monad.return (case r of Inl err \<Rightarrow> Some (''patch ReplicaBinding status failed: '' @ err_text err) | Inr _ \<Rightarrow> None)
             } else State_Monad.return None
       }
   }"

definition apply_move :: "env \<Rightarrow> ReOrchestrationPlan \<Rightarrow> PlanMove \<Rightarrow> unit io" where
  "apply_move E latest mv = do {
     g \<leftarrow> get_rb E (move_rb_key mv);
     case g of
       Inl err \<Rightarrow> do {
         _ \<leftarrow> patchMoveStatus E latest mv MoveFailed
           (''ReplicaBinding '' @ key_text (move_rb_key mv) @ '' not found: '' @ err_text err);
         State_Monad.return ()
       }
     | Inr rb \<Rightarrow> do {
         let reqToken = buildRescheduleRequestToken latest;
         failure \<leftarrow> (if need_patch mv reqToken rb then apply_intent E mv reqToken rb else State_Monad.return None);
         _ \<leftarrow> (case failure of
             Some msg \<Rightarrow> patchMoveStatus E latest mv MoveFailed msg
           | None \<Rightarrow> patchMoveStatusIf E latest mv MovePending MoveInProgress ''reschedule intent applied'');
         State_Monad.return ()
       }
   }"

definition executeMoves :: "env \<Rightarrow> ReOrchestrationPlan \<Rightarrow> api_err option io" where
  "executeMoves E plan = do {
     g \<leftarrow> get_plan E (plan_key plan);
     case g of
       Inl err \<Rightarrow> State_Monad.return (ignore_not_found err)
     | Inr base \<Rightarrow> do {
         t \<leftarrow> now E;
         let st = plan_Status base;
         let st1 = (if plan_StartTime st = None then st\<lparr>plan_StartTime := Some t\<rparr> else st);
         let init = plan_MoveStatuses st = [] \<and> plan_Moves (plan_Spec base) \<noteq> [];
         let st2 = (if init then st1\<lparr>plan_MoveStatuses := initial_statuses (plan_Moves (plan_Spec base))\<rparr> else st1);
         r \<leftarrow> (if plan_StartTime st = None \<or> init then write_plan E (StatusPatchPlan base (base\<lparr>plan_Status := st2\<rparr>))
               else State_Monad.return (Inr base));
         case r of
           Inl err \<Rightarrow> State_Monad.return (Some err)
         | Inr latest \<Rightarrow> do {
             _ \<leftarrow> io_each (apply_move E latest) (plan_Moves (plan_Spec latest));
             _ \<leftarrow> recomputePlanExecutionSummary E latest;
             State_Monad.return None
           }
       }
   }"

subsection \<open>Monitoring and convergence\<close>

text \<open>The result of a reconcile: \<open>ctrl.Result\<close> and error.\<close>

definition ignore_missing :: "api_err \<Rightarrow> reconcile_out io" where
  "ignore_missing err = State_Monad.return (0, ignore_not_found err)"

definition final_phase :: "MoveStatus list \<Rightarrow> PlanPhase" where
  "final_phase mss =
    (let anyFailed = list_ex (\<lambda>ms. ms_Status ms = MoveFailed) mss;
         anySucceeded = list_ex (\<lambda>ms. ms_Status ms = MoveSucceeded) mss
     in if anyFailed \<and> anySucceeded then PlanPartiallyFailed else if anyFailed then PlanFailed else PlanSucceeded)"

definition all_terminal :: "MoveStatus list \<Rightarrow> bool" where
  "all_terminal = list_all (\<lambda>ms. ms_Status ms = MoveSucceeded \<or> ms_Status ms = MoveFailed)"

definition finish_plan :: "env \<Rightarrow> PlanPhase \<Rightarrow> time \<Rightarrow> ReOrchestrationPlan \<Rightarrow> ReOrchestrationPlan" where
  "finish_plan E finalPhase t p =
    p\<lparr>plan_Status := (plan_Status p)\<lparr>plan_Phase := finalPhase,
       plan_CompletionTime := (case plan_CompletionTime (plan_Status p) of None \<Rightarrow> Some t | Some c \<Rightarrow> Some c),
       plan_Conditions := env_set_condition E
         \<lparr>cond_Type = ''ExecutionCompleted'', cond_Status = True, cond_Reason = plan_phase_text finalPhase,
          cond_Message = ''plan finished with phase='' @ plan_phase_text finalPhase,
          cond_ObservedGeneration = om_Generation (plan_Meta p), cond_LastTransitionTime = Some t\<rparr>
         (plan_Conditions (plan_Status p))\<rparr>\<rparr>"

definition convergePlanPhase :: "env \<Rightarrow> ReOrchestrationPlan \<Rightarrow> reconcile_out io" where
  "convergePlanPhase E plan = do {
     g \<leftarrow> get_plan E (plan_key plan);
     case g of
       Inl err \<Rightarrow> ignore_missing err
     | Inr first \<Rightarrow> do {
         _ \<leftarrow> recomputePlanExecutionSummary E first;
         g \<leftarrow> get_plan E (plan_key plan);
         case g of
           Inl err \<Rightarrow> ignore_missing err
         | Inr latest \<Rightarrow>
             (let mss = plan_MoveStatuses (plan_Status latest) in
              if plan_Moves (plan_Spec latest) \<noteq> [] \<and> mss = [] then requeue (500 * Millisecond)
              else if \<not> all_terminal mss then requeue (2 * Second)
              else if plan_Phase (plan_Status latest) = final_phase mss \<and> plan_CompletionTime (plan_Status latest) \<noteq> None then done_ok
              else do {
                t \<leftarrow> now E;
                err \<leftarrow> patch_plan E latest (finish_plan E (final_phase mss) t latest);
                State_Monad.return (0, err)
              })
       }
   }"

definition defaultPlanExecutionTimeout :: int where
  "defaultPlanExecutionTimeout = 10 * 60 * Second"

definition plan_timeout :: "env \<Rightarrow> ReOrchestrationPlan \<Rightarrow> int" where
  "plan_timeout E p = (case mget (om_Annotations (plan_Meta p)) ''kubex.io/execution-timeout'' of
      None \<Rightarrow> defaultPlanExecutionTimeout
    | Some v \<Rightarrow> (case env_parse_duration E v of
          Some d \<Rightarrow> d
        | None \<Rightarrow> (case atoi v of Some secs \<Rightarrow> wrap64 (secs * Second) | None \<Rightarrow> defaultPlanExecutionTimeout)))"

definition fail_open_moves :: "string \<Rightarrow> ReOrchestrationPlan \<Rightarrow> ReOrchestrationPlan" where
  "fail_open_moves msg p = set_statuses
     (map (\<lambda>ms. if ms_Status ms \<noteq> MoveSucceeded \<and> ms_Status ms \<noteq> MoveFailed
                then ms\<lparr>ms_Status := MoveFailed, ms_Message := msg\<rparr> else ms) (plan_MoveStatuses (plan_Status p))) p"

definition track_move :: "env \<Rightarrow> ReOrchestrationPlan \<Rightarrow> PlanMove \<Rightarrow> unit io" where
  "track_move E latest mv = do {
     g \<leftarrow> get_rb E (move_rb_key mv);
     case g of
       Inl _ \<Rightarrow> State_Monad.return ()
     | Inr rb \<Rightarrow> do {
         let (desired, msg) = computeMoveStatus latest rb;
         _ \<leftarrow> patchMoveStatus E latest mv desired msg;
         State_Monad.return ()
       }
   }"

text \<open>The part after the move statuses exist.\<close>

definition monitor_latest :: "env \<Rightarrow> ReOrchestrationPlan \<Rightarrow> reconcile_out io" where
  "monitor_latest E latest = do {
     t \<leftarrow> now E;
     if (case plan_StartTime (plan_Status latest) of None \<Rightarrow> False | Some s \<Rightarrow> sat64 (t - s) > plan_timeout E latest) then
       convergePlanPhase E (fail_open_moves (''timeout after '' @ env_duration_text E (plan_timeout E latest)) latest)
     else do {
       _ \<leftarrow> io_each (track_move E latest) (plan_Moves (plan_Spec latest));
       convergePlanPhase E latest
     }
   }"

definition monitorAndConverge :: "env \<Rightarrow> ReOrchestrationPlan \<Rightarrow> reconcile_out io" where
  "monitorAndConverge E plan = do {
     g \<leftarrow> get_plan E (plan_key plan);
     case g of
       Inl err \<Rightarrow> ignore_missing err
     | Inr latest \<Rightarrow>
         if plan_Moves (plan_Spec latest) \<noteq> [] \<and> plan_MoveStatuses (plan_Status latest) = [] then do {
           err \<leftarrow> patch_plan E latest (set_statuses (initial_statuses (plan_Moves (plan_Spec latest))) latest);
           case err of
             Some e \<Rightarrow> fail_with e
           | None \<Rightarrow> do {
               g \<leftarrow> get_plan E (plan_key plan);
               case g of Inl err \<Rightarrow> ignore_missing err | Inr latest \<Rightarrow> monitor_latest E latest
             }
         } else monitor_latest E latest
   }"

subsection \<open>Reconcile\<close>

definition plan_strategy :: "ReOrchestrationPlan \<Rightarrow> string" where
  "plan_strategy p = mget0 ''Preview'' (om_Annotations (plan_Meta p)) ''kubex.io/strategy''"

definition plan_finished :: "PlanPhase \<Rightarrow> bool" where
  "plan_finished ph \<longleftrightarrow> ph = PlanSucceeded \<or> ph = PlanFailed \<or> ph = PlanPartiallyFailed \<or> ph = PlanTerminating"

text \<open>The switch over the strategy: the desired phase, and status, reason and message of the condition.\<close>

definition plan_decision :: "string \<Rightarrow> PlanPhase \<times> bool \<times> string \<times> string" where
  "plan_decision strategy =
    (if strategy = ''Preview'' then (PlanPending, True, ''Preview'', ''Preview strategy: plan will not be executed'')
     else if strategy = ''Conservative'' \<or> strategy = ''Aggressive'' then
       (PlanExecuting, True, ''AutoExecute'', ''strategy='' @ strategy @ '': plan enters Executing'')
     else (PlanPending, False, ''UnknownStrategy'', ''unknown strategy '' @ go_quote strategy @ '': keep Pending''))"

definition decide_plan :: "env \<Rightarrow> time \<Rightarrow> ReOrchestrationPlan \<Rightarrow> ReOrchestrationPlan" where
  "decide_plan E t plan = (case plan_decision (plan_strategy plan) of (ph, st, reason, msg) \<Rightarrow>
     plan\<lparr>plan_Status := (plan_Status plan)\<lparr>plan_Phase := ph,
       plan_Conditions := env_set_condition E
         \<lparr>cond_Type = ''ExecutionDecision'', cond_Status = st, cond_Reason = reason, cond_Message = msg,
          cond_ObservedGeneration = om_Generation (plan_Meta plan), cond_LastTransitionTime = Some t\<rparr>
         (plan_Conditions (plan_Status plan))\<rparr>\<rparr>)"

definition plan_Reconcile :: "env \<Rightarrow> nskey \<Rightarrow> reconcile_out io" where
  "plan_Reconcile E req = do {
     g \<leftarrow> get_plan E req;
     case g of
       Inl err \<Rightarrow> ignore_missing err
     | Inr plan \<Rightarrow>
         if plan_finished (plan_Phase (plan_Status plan)) then done_ok
         else do {
           t \<leftarrow> now E;
           let desiredPhase = fst (plan_decision (plan_strategy plan));
           r \<leftarrow> (if plan_Phase (plan_Status plan) \<noteq> desiredPhase then write_plan E (StatusPatchPlan plan (decide_plan E t plan))
                 else State_Monad.return (Inr plan));
           case r of
             Inl err \<Rightarrow> ignore_missing err
           | Inr plan \<Rightarrow>
               if desiredPhase = PlanExecuting then do {
                 err \<leftarrow> executeMoves E plan;
                 case err of
                   Some e \<Rightarrow> fail_with e
                 | None \<Rightarrow> do {
                     res \<leftarrow> monitorAndConverge E plan;
                     State_Monad.return (case snd res of Some e \<Rightarrow> (0, Some e) | None \<Rightarrow> res)
                   }
               } else done_ok
         }
   }"

subsection \<open>What a run may write\<close>

definition statuses :: "ReOrchestrationPlan \<Rightarrow> MoveStatus list" where
  "statuses p = plan_MoveStatuses (plan_Status p)"

definition phase_of :: "ReOrchestrationPlan \<Rightarrow> PlanPhase" where
  "phase_of p = plan_Phase (plan_Status p)"

text \<open>
  A status patch keeps metadata and spec. It changes the phase only by the strategy's decision, on a plan
  that is not finished, or to the final phase, when every move has ended.
\<close>

definition plan_write_ok :: "ReOrchestrationPlan \<Rightarrow> ReOrchestrationPlan \<Rightarrow> bool" where
  "plan_write_ok base new \<longleftrightarrow>
    plan_Meta new = plan_Meta base \<and> plan_Spec new = plan_Spec base \<and>
    (phase_of new = phase_of base \<or>
     \<not> plan_finished (phase_of base) \<and> phase_of new = fst (plan_decision (plan_strategy base)) \<or>
     all_terminal (statuses base) \<and> (plan_Moves (plan_Spec base) = [] \<or> statuses base \<noteq> []) \<and>
       statuses new = statuses base \<and> phase_of new = final_phase (statuses base) \<and>
       plan_CompletionTime (plan_Status new) \<noteq> None)"

text \<open>An intent patch touches only the target, the flag and the token, and never repeats what is there.\<close>

definition intent_ok :: "ReplicaBinding \<Rightarrow> ReplicaBinding \<Rightarrow> bool" where
  "intent_ok base new \<longleftrightarrow>
    rb_Meta new = rb_Meta base \<and> rb_Status new = rb_Status base \<and> new \<noteq> base \<and> rb_Reschedule (rb_Spec new) \<and>
    rb_GlobalDeploymentRef (rb_Spec new) = rb_GlobalDeploymentRef (rb_Spec base) \<and>
    rb_ReplicaIndex (rb_Spec new) = rb_ReplicaIndex (rb_Spec base)"

definition reschedule_ok :: "ReplicaBinding \<Rightarrow> ReplicaBinding \<Rightarrow> bool" where
  "reschedule_ok base new \<longleftrightarrow>
    rb_Meta new = rb_Meta base \<and> rb_Spec new = rb_Spec base \<and>
    rb_Phase (rb_Status base) \<noteq> Rescheduling \<and> rb_Phase (rb_Status new) = Rescheduling \<and>
    rb_ClusterName (rb_Status new) = rb_ClusterName (rb_Status base) \<and> rb_NodeName (rb_Status new) = rb_NodeName (rb_Status base)"

definition plan_guard :: "event \<Rightarrow> bool" where
  "plan_guard e = (case e of
     StatusPatchPlan base new \<Rightarrow> plan_write_ok base new
   | PatchRB base new \<Rightarrow> intent_ok base new
   | StatusPatchRB base new \<Rightarrow> reschedule_ok base new
   | GetPlan _ \<Rightarrow> True | GetRB _ \<Rightarrow> True | MovesTotalInc _ \<Rightarrow> True | MoveDurationObserve \<Rightarrow> True
   | _ \<Rightarrow> False)"

lemma plan_guard_simps [simp]:
  "plan_guard (StatusPatchPlan base new) \<longleftrightarrow> plan_write_ok base new"
  "plan_guard (PatchRB rb rb') \<longleftrightarrow> intent_ok rb rb'"
  "plan_guard (StatusPatchRB rb rb') \<longleftrightarrow> reschedule_ok rb rb'"
  "plan_guard (GetPlan k)" "plan_guard (GetRB k)" "plan_guard (MovesTotalInc st)" "plan_guard MoveDurationObserve"
  by (simp_all add: plan_guard_def)

lemmas plan_writes = plan_write_ok_def phase_of_def statuses_def

lemma plan_write_ok_statuses [simp]: "plan_write_ok p (set_statuses mss p)"
  by (simp add: plan_writes set_statuses_def)

lemma plan_write_ok_summary [simp]: "plan_write_ok p (p\<lparr>plan_Status := (plan_Status p)\<lparr>plan_Summary := s\<rparr>\<rparr>)"
  by (simp add: plan_writes)

lemma plan_write_ok_decide [simp]: "\<not> plan_finished (plan_Phase (plan_Status p)) \<Longrightarrow> plan_write_ok p (decide_plan E t p)"
  by (auto simp: plan_writes decide_plan_def split: prod.split)

lemma plan_write_ok_finish [simp]:
  assumes "all_terminal (plan_MoveStatuses (plan_Status p))"
    and "\<not> (plan_Moves (plan_Spec p) \<noteq> [] \<and> plan_MoveStatuses (plan_Status p) = [])"
  shows "plan_write_ok p (finish_plan E (final_phase (plan_MoveStatuses (plan_Status p))) t p)"
  using assms by (auto simp: plan_writes finish_plan_def split: option.split)

lemma intent_ok_with_intent [simp]: "need_patch mv tok rb \<Longrightarrow> intent_ok rb (with_intent mv tok rb)"
proof -
  assume *: "need_patch mv tok rb"
  have "\<not> need_patch mv tok (with_intent mv tok rb)" by (simp add: need_patch_def with_intent_def)
  with * have "with_intent mv tok rb \<noteq> rb" by metis
  then show ?thesis by (simp add: intent_ok_def with_intent_def)
qed

lemma get_plan_guar [guar_intros]: "(\<And>h. G h (GetPlan k)) \<Longrightarrow> guar G (get_plan E k)"
  by (auto simp: get_plan_def intro: guar_intros)

lemma get_rb_guar [guar_intros]: "(\<And>h. G h (GetRB k)) \<Longrightarrow> guar G (get_rb E k)"
  by (auto simp: get_rb_def intro: guar_intros)

lemma write_guar [guar_intros]:
  "(\<And>h. G h e) \<Longrightarrow> guar G (write_rb E e)" "(\<And>h. G h e) \<Longrightarrow> guar G (write_plan E e)"
  by (auto simp: write_rb_def write_plan_def intro: guar_intros)

lemma patch_plan_guar [guar_intros]: "(\<And>h. G h (StatusPatchPlan base new)) \<Longrightarrow> guar G (patch_plan E base new)"
  by (auto simp: patch_plan_def intro!: guar_intros)

lemma metrics_guar [guar_intros]:
  "(\<And>h. G h (MovesTotalInc st)) \<Longrightarrow> (\<And>h. G h MoveDurationObserve) \<Longrightarrow> guar G (metrics_inc st)"
  by (auto simp: metrics_inc_def intro!: guar_intros)

lemma outcome_guar [guar_intros]:
  "guar G done_ok" "guar G (requeue d)" "guar G (fail_with err)" "guar G (ignore_missing err)"
  by (auto simp: done_ok_def requeue_def fail_with_def ignore_missing_def intro: guar_intros)

abbreviation plan_ok :: "history \<Rightarrow> event \<Rightarrow> bool" where
  "plan_ok \<equiv> \<lambda>_. plan_guard"

lemma patchMoveStatus_guar [guar_intros]: "guar plan_ok (patchMoveStatus E p mv st msg)"
  unfolding patchMoveStatus_def by (intro guar_intros) simp_all

lemma patchMoveStatusIf_guar [guar_intros]: "guar plan_ok (patchMoveStatusIf E p mv from to msg)"
  unfolding patchMoveStatusIf_def by (intro guar_intros) simp_all

lemma recompute_guar [guar_intros]: "guar plan_ok (recomputePlanExecutionSummary E p)"
  unfolding recomputePlanExecutionSummary_def by (intro guar_intros) simp_all

lemma apply_intent_guar: "need_patch mv tok rb \<Longrightarrow> guar plan_ok (apply_intent E mv tok rb)"
  unfolding apply_intent_def by (intro guar_intros) (simp_all add: reschedule_ok_def)

lemma apply_move_guar [guar_intros]: "guar plan_ok (apply_move E p mv)"
  unfolding apply_move_def Let_def by (intro guar_intros apply_intent_guar) simp_all

lemma executeMoves_guar [guar_intros]: "guar plan_ok (executeMoves E p)"
  unfolding executeMoves_def Let_def by (intro guar_intros) (simp_all add: plan_writes)

lemma convergePlanPhase_guar [guar_intros]: "guar plan_ok (convergePlanPhase E p)"
  unfolding convergePlanPhase_def Let_def by (intro guar_intros) simp_all

lemma track_move_guar [guar_intros]: "guar plan_ok (track_move E p mv)"
  unfolding track_move_def Let_def case_prod_beta by (intro guar_intros) simp_all

lemma monitor_latest_guar [guar_intros]: "guar plan_ok (monitor_latest E p)"
  unfolding monitor_latest_def by (intro guar_intros)

lemma monitorAndConverge_guar [guar_intros]: "guar plan_ok (monitorAndConverge E p)"
  unfolding monitorAndConverge_def by (intro guar_intros) simp_all

lemma plan_Reconcile_guar: "guar plan_ok (plan_Reconcile E req)"
  unfolding plan_Reconcile_def Let_def by (intro guar_intros) simp_all

subsection \<open>Correctness of the plan executor\<close>

lemma plan_trace: "list_all plan_guard (trace (plan_Reconcile E req) w)"
  using plan_Reconcile_guar by (simp add: guar_def ok_trace_plain)

lemma plan_trace_in: "e \<in> set (trace (plan_Reconcile E req) w) \<Longrightarrow> plan_guard e"
  using plan_trace [of E req w] by (simp add: list_all_iff)

lemma final_phase_terminal:
  assumes "all_terminal mss"
  shows "final_phase mss =
    (if list_all (\<lambda>ms. ms_Status ms = MoveSucceeded) mss then PlanSucceeded
     else if list_all (\<lambda>ms. ms_Status ms = MoveFailed) mss then PlanFailed else PlanPartiallyFailed)"
  using assms unfolding final_phase_def all_terminal_def list_ex_iff list_all_iff Let_def by auto

lemma final_phase_finished: "plan_finished (final_phase mss)"
  by (simp add: final_phase_def plan_finished_def Let_def)

lemma plan_decision_open: "\<not> plan_finished (fst (plan_decision s))"
  by (simp add: plan_decision_def plan_finished_def)

text \<open>
  C9: A plan is closed only when every move has ended, and with the phase the moves call for. Whenever a
  run patches a plan from an open phase to a finished one, every recorded move status is Succeeded or
  Failed, every move list that is not empty has statuses, the completion time is set, and the phase is
  Succeeded when all moves succeeded (or there are none), Failed when all failed, PartiallyFailed otherwise.
\<close>

theorem plan_closes_when_all_moves_ended:
  assumes "StatusPatchPlan base new \<in> set (trace (plan_Reconcile E req) w)"
    and "\<not> plan_finished (phase_of base)" and "plan_finished (phase_of new)"
  shows "all_terminal (statuses base) \<and> (plan_Moves (plan_Spec base) = [] \<or> statuses base \<noteq> []) \<and>
    statuses new = statuses base \<and> plan_CompletionTime (plan_Status new) \<noteq> None \<and>
    phase_of new =
      (if list_all (\<lambda>ms. ms_Status ms = MoveSucceeded) (statuses base) then PlanSucceeded
       else if list_all (\<lambda>ms. ms_Status ms = MoveFailed) (statuses base) then PlanFailed else PlanPartiallyFailed)"
proof -
  have "plan_write_ok base new" using plan_trace_in [OF assms(1)] by simp
  with assms(2,3) plan_decision_open show ?thesis by (auto simp: plan_write_ok_def final_phase_terminal)
qed

text \<open>
  The intent of a move. Every ReplicaBinding write of a run either patches the spec of a binding that
  does not yet carry the intent, touching only target, reschedule flag and token, or moves the phase of a
  binding from another phase to Rescheduling and keeps the cluster and node where the replica runs; no
  other object but the plan's status is written, and no member cluster is called.
\<close>

theorem plan_writes_only_intents:
  "list_all (\<lambda>e. case e of PatchRB base new \<Rightarrow> intent_ok base new
       | StatusPatchRB base new \<Rightarrow> reschedule_ok base new
       | StatusPatchPlan base new \<Rightarrow> plan_Meta new = plan_Meta base \<and> plan_Spec new = plan_Spec base
       | GetPlan _ \<Rightarrow> True | GetRB _ \<Rightarrow> True | MovesTotalInc _ \<Rightarrow> True | MoveDurationObserve \<Rightarrow> True | _ \<Rightarrow> False)
    (trace (plan_Reconcile E req) w)"
  using plan_trace [of E req w]
  by (rule list.pred_mono_strong) (simp add: plan_guard_def plan_write_ok_def split: event.splits)

text \<open>A finished plan is left alone: the run reads it, writes nothing and does not ask to be called again.\<close>

theorem plan_finished_untouched:
  assumes "env_get_plan E (hist w) req = Inr plan" and "plan_finished (phase_of plan)"
  shows "run_state (plan_Reconcile E req) w = ((0, None), w\<lparr>hist := hist w @ [GetPlan req]\<rparr>)"
  using assms
  by (simp add: plan_Reconcile_def get_plan_def call_def done_ok_def phase_of_def State_Monad.bind_def State_Monad.return_def)

text \<open>
  Only the strategies Conservative and Aggressive execute a plan. With any other strategy annotation,
  or none, a run on an open plan reads it and at most records the decision, with phase Pending; no
  ReplicaBinding is read or written.
\<close>

theorem plan_preview_never_executes:
  assumes "env_get_plan E (hist w) req = Inr plan" and "\<not> plan_finished (phase_of plan)"
    and "plan_strategy plan \<noteq> ''Conservative''" and "plan_strategy plan \<noteq> ''Aggressive''"
  shows "trace (plan_Reconcile E req) w =
    GetPlan req # (if phase_of plan = PlanPending then []
      else [StatusPatchPlan plan (decide_plan E (env_now E (hist w @ [GetPlan req])) plan)])"
proof -
  have "fst (plan_decision (plan_strategy plan)) = PlanPending" using assms(3,4) by (simp add: plan_decision_def)
  then have "wp (plan_Reconcile E req) (\<lambda>_ w'. hist w' = hist w @ GetPlan req # (if phase_of plan = PlanPending then []
      else [StatusPatchPlan plan (decide_plan E (env_now E (hist w @ [GetPlan req])) plan)])) w"
    using assms(1,2) by (simp add: plan_Reconcile_def phase_of_def vcg io_defs Let_def ignore_missing_def split: sum.split)
  then show ?thesis by (simp add: wp_result trace_def)
qed

lemma count_statuses_acc:
  assumes "TotalMoves s + int (length mss) < 2 ^ 31" and "0 \<le> SucceededMoves s" and "0 \<le> FailedMoves s" and "0 \<le> PendingMoves s"
    and "SucceededMoves s \<le> TotalMoves s" and "FailedMoves s \<le> TotalMoves s" and "PendingMoves s \<le> TotalMoves s"
  shows "count_statuses mss s = s\<lparr>TotalMoves := TotalMoves s + int (length mss),
    SucceededMoves := SucceededMoves s + int (length (filter (\<lambda>ms. ms_Status ms = MoveSucceeded) mss)),
    FailedMoves := FailedMoves s + int (length (filter (\<lambda>ms. ms_Status ms = MoveFailed) mss)),
    PendingMoves := PendingMoves s + int (length (filter (\<lambda>ms. ms_Status ms \<noteq> MoveSucceeded \<and> ms_Status ms \<noteq> MoveFailed) mss))\<rparr>"
  using assms
proof (induction mss arbitrary: s)
  case (Cons ms mss)
  have [simp]: "wrap32 (TotalMoves s + 1) = TotalMoves s + 1" "wrap32 (SucceededMoves s + 1) = SucceededMoves s + 1"
    "wrap32 (FailedMoves s + 1) = FailedMoves s + 1" "wrap32 (PendingMoves s + 1) = PendingMoves s + 1"
    using Cons.prems by (auto simp: in_int32_def intro!: wrap32_id)
  show ?case using Cons.prems by (simp add: Cons.IH Let_def add.assoc)
qed simp

text \<open>
  The execution summary. For fewer than 2^31 move statuses the counters neither wrap nor lose a move:
  they are the numbers of all, succeeded, failed and remaining entries, and the last three add up to the first.
\<close>

theorem plan_summary_counts:
  assumes "length mss < 2 ^ 31"
  shows "let s = count_statuses mss zero_summary in
    TotalMoves s = int (length mss) \<and> TotalMoves s = SucceededMoves s + FailedMoves s + PendingMoves s \<and>
    SucceededMoves s = int (length (filter (\<lambda>ms. ms_Status ms = MoveSucceeded) mss)) \<and>
    FailedMoves s = int (length (filter (\<lambda>ms. ms_Status ms = MoveFailed) mss))"
proof -
  have "length mss = length (filter (\<lambda>ms. ms_Status ms = MoveSucceeded) mss) +
      length (filter (\<lambda>ms. ms_Status ms = MoveFailed) mss) +
      length (filter (\<lambda>ms. ms_Status ms \<noteq> MoveSucceeded \<and> ms_Status ms \<noteq> MoveFailed) mss)"
    by (induction mss) auto
  moreover have "int (length mss) < 2 ^ 31" using assms by simp
  ultimately show ?thesis
    by (subst count_statuses_acc) (simp_all add: zero_summary_def Let_def)
qed

text \<open>
  Reschedule tokens of different plans differ: when two plans have non-empty UIDs without a hash
  sign and the same token, they have the same UID.
\<close>

theorem reschedule_token_identifies_plan:
  assumes "buildRescheduleRequestToken p = buildRescheduleRequestToken q"
    and "om_UID (plan_Meta p) \<noteq> ''''" and "om_UID (plan_Meta q) \<noteq> ''''"
    and "CHR ''#'' \<notin> set (om_UID (plan_Meta p))" and "CHR ''#'' \<notin> set (om_UID (plan_Meta q))"
  shows "om_UID (plan_Meta p) = om_UID (plan_Meta q)"
proof -
  obtain s t where "buildRescheduleRequestToken p = s @ CHR ''#'' # om_UID (plan_Meta p)"
      and "buildRescheduleRequestToken q = t @ CHR ''#'' # om_UID (plan_Meta q)"
    using assms(2,3) by (simp add: buildRescheduleRequestToken_def Let_def)
  with append_sep_inj assms(1,4,5) show ?thesis by metis
qed

subsection \<open>Evidence for a finished move\<close>

fun is_metric :: "event \<Rightarrow> bool" where
  "is_metric (MovesTotalInc _) = True"
| "is_metric MoveDurationObserve = True"
| "is_metric _ = False"

text \<open>
  The history ends with a read of the move's binding, which was Running and carried the token, then a
  read of the plan and metrics.
\<close>

definition observed_running :: "env \<Rightarrow> string \<Rightarrow> history \<Rightarrow> MoveStatus \<Rightarrow> bool" where
  "observed_running E tok h ms \<longleftrightarrow> (case dropWhile is_metric (rev h) of
      GetPlan _ # GetRB k # r \<Rightarrow>
        k = \<lparr>key_Name = ref_Name (ms_GlobalDeploymentRef ms) @ ''-rb-'' @ itoa (ms_ReplicaIndex ms),
             key_Namespace = ref_Namespace (ms_GlobalDeploymentRef ms)\<rparr> \<and>
        (case env_get_rb E (rev r) k of
           Inr rb \<Rightarrow> rb_Phase (rb_Status rb) = Running \<and> rb_RescheduleRequest (rb_Spec rb) = tok
         | Inl _ \<Rightarrow> False)
    | _ \<Rightarrow> False)"

definition success_guard :: "env \<Rightarrow> string \<Rightarrow> history \<Rightarrow> event \<Rightarrow> bool" where
  "success_guard E tok h e = (case e of
     StatusPatchPlan base new \<Rightarrow>
       (\<forall>ms \<in> set (statuses new). ms_Status ms = MoveSucceeded \<longrightarrow> ms \<in> set (statuses base) \<or> observed_running E tok h ms)
   | _ \<Rightarrow> True)"

lemma success_guard_simps [simp]:
  "success_guard E tok h (GetPlan k)" "success_guard E tok h (GetRB k)" "success_guard E tok h (PatchRB a b)"
  "success_guard E tok h (StatusPatchRB a b)" "success_guard E tok h (MovesTotalInc st)" "success_guard E tok h MoveDurationObserve"
  by (simp_all add: success_guard_def)

lemma success_guard_no_new:
  "(\<And>ms. ms \<in> set (statuses new) \<Longrightarrow> ms_Status ms = MoveSucceeded \<Longrightarrow> ms \<in> set (statuses base)) \<Longrightarrow>
    success_guard E tok h (StatusPatchPlan base new)"
  by (simp add: success_guard_def)

lemma statuses_set [simp]: "statuses (set_statuses mss p) = mss"
  by (simp add: statuses_def set_statuses_def)

lemma statuses_fold: "plan_MoveStatuses (plan_Status p) = statuses p"
  by (simp add: statuses_def)

lemma update_first_new:
  "update_first mv st msg mss = Some mss' \<Longrightarrow> ms \<in> set mss' \<Longrightarrow>
    ms \<in> set mss \<or> ms_Status ms = st \<and> status_of_move mv ms"
  by (induction mss arbitrary: mss') (auto simp: status_of_move_def split: if_splits)

lemma update_if_new:
  "update_if mv from to msg mss = Some mss' \<Longrightarrow> ms \<in> set mss' \<Longrightarrow> ms \<in> set mss \<or> ms_Status ms = to"
  by (induction mss arbitrary: mss') (auto split: if_splits)

lemma patchMoveStatus_success [guar_intros]:
  "st \<noteq> MoveSucceeded \<Longrightarrow> guar (success_guard E tok) (patchMoveStatus E p mv st msg)"
  unfolding patchMoveStatus_def statuses_fold
  by (intro guar_intros) (auto intro!: success_guard_no_new dest: update_first_new)

lemma patchMoveStatusIf_success [guar_intros]:
  "to \<noteq> MoveSucceeded \<Longrightarrow> guar (success_guard E tok) (patchMoveStatusIf E p mv from to msg)"
  unfolding patchMoveStatusIf_def statuses_fold
  by (intro guar_intros) (auto intro!: success_guard_no_new dest: update_if_new)

lemma statuses_other [simp]:
  "statuses (p\<lparr>plan_Status := (plan_Status p)\<lparr>plan_Summary := s\<rparr>\<rparr>) = statuses p"
  "statuses (finish_plan E ph t p) = statuses p" "statuses (decide_plan E t p) = statuses p"
  by (simp_all add: statuses_def finish_plan_def decide_plan_def split: prod.split)

lemma recompute_success [guar_intros]: "guar (success_guard E tok) (recomputePlanExecutionSummary E p)"
  unfolding recomputePlanExecutionSummary_def by (intro guar_intros) (auto intro: success_guard_no_new)

lemma apply_intent_success [guar_intros]: "guar (success_guard E tok) (apply_intent E mv t rb)"
  unfolding apply_intent_def by (intro guar_intros) simp_all

lemma apply_move_success [guar_intros]: "guar (success_guard E tok) (apply_move E p mv)"
  unfolding apply_move_def Let_def by (intro guar_intros) simp_all

lemma initial_statuses_pending: "ms \<in> set (initial_statuses mvs) \<Longrightarrow> ms_Status ms \<noteq> MoveSucceeded"
  by (auto simp: initial_statuses_def)

lemma executeMoves_success [guar_intros]: "guar (success_guard E tok) (executeMoves E p)"
  unfolding executeMoves_def Let_def
  by (intro guar_intros) (auto intro!: success_guard_no_new simp: statuses_def dest: initial_statuses_pending split: if_splits)

lemma convergePlanPhase_success [guar_intros]: "guar (success_guard E tok) (convergePlanPhase E p)"
  unfolding convergePlanPhase_def Let_def by (intro guar_intros) (auto intro: success_guard_no_new)

text \<open>The plan keeps its token, whoever writes it: name, namespace, labels, policy name and UID stay.\<close>

definition token_stable :: "env \<Rightarrow> string \<Rightarrow> bool" where
  "token_stable E tok \<longleftrightarrow> tok \<noteq> '''' \<and> (\<forall>h k p. env_get_plan E h k = Inr p \<longrightarrow> buildRescheduleRequestToken p = tok)"

lemma computeMoveStatus_Succeeded:
  "fst (computeMoveStatus p rb) = MoveSucceeded \<longleftrightarrow> rb_Phase (rb_Status rb) = Running \<and>
    (buildRescheduleRequestToken p = '''' \<or> rb_RescheduleRequest (rb_Spec rb) = buildRescheduleRequestToken p)"
  by (auto simp: computeMoveStatus_def Let_def)

lemma metrics_wp: "wp (metrics_inc st) Q w \<longleftrightarrow>
    Q () (w\<lparr>hist := hist w @ MovesTotalInc st # (if st = MoveSucceeded \<or> st = MoveFailed then [MoveDurationObserve] else [])\<rparr>)"
  by (simp add: metrics_inc_def vcg)

lemma track_move_success:
  assumes "buildRescheduleRequestToken p = tok" and "tok \<noteq> ''''"
  shows "guar (success_guard E tok) (track_move E p mv)"
proof (unfold guar_wp, rule allI)
  fix w
  show "wp (track_move E p mv) (\<lambda>_ w'. ok (success_guard E tok) (hist w) (hist w')) w"
  proof (cases "env_get_rb E (hist w) (move_rb_key mv)")
    case (Inr rb)
    let ?d = "fst (computeMoveStatus p rb)"
    have seen: "observed_running E tok (hist w @ GetRB (move_rb_key mv) # GetPlan (plan_key p) # ms) st"
      if "?d = MoveSucceeded" and "status_of_move mv st" and "ms = [] \<or> ms = [MovesTotalInc MoveSucceeded, MoveDurationObserve]" for ms st
      using that(3)
    proof
      assume "ms = []"
      then show ?thesis using that(1,2) assms Inr
        by (simp add: observed_running_def computeMoveStatus_Succeeded status_of_move_def move_rb_key_def)
    next
      assume "ms = [MovesTotalInc MoveSucceeded, MoveDurationObserve]"
      then show ?thesis using that(1,2) assms Inr
        by (simp add: observed_running_def computeMoveStatus_Succeeded status_of_move_def move_rb_key_def)
    qed
    have old: "ms \<in> set (statuses q) \<or> observed_running E tok (hist w @ [GetRB (move_rb_key mv), GetPlan (plan_key p)]) ms"
      if "update_first mv ?d msg (statuses q) = Some mss'" and "ms \<in> set mss'" and "ms_Status ms = MoveSucceeded"
      for ms mss' q msg using update_first_new [OF that(1,2)] that(3) seen [of ms "[]"] by auto
    show ?thesis
      using Inr seen [where ms = "[MovesTotalInc MoveSucceeded, MoveDurationObserve]"] old
      by (auto simp: track_move_def patchMoveStatus_def patch_plan_def vcg io_defs metrics_wp case_prod_beta statuses_fold
          success_guard_def [of _ _ _ "StatusPatchPlan _ _"] status_of_move_def split: sum.split option.split)
  qed (simp add: track_move_def vcg io_defs)
qed

text \<open>A read of the plan, with what the answer tells.\<close>

lemma guar_bind_get_plan:
  assumes "\<And>h. G h (GetPlan k)" and "\<And>h. guar G (f (env_get_plan E h k))"
  shows "guar G (State_Monad.bind (get_plan E k) f)"
proof (unfold guar_wp, rule allI)
  fix w :: world
  let ?w = "w\<lparr>hist := hist w @ [GetPlan k]\<rparr> :: world"
  have "wp (f (env_get_plan E (hist w) k)) (\<lambda>_ w'. ok G (hist ?w) (hist w')) ?w"
    using assms(2) unfolding guar_wp by blast
  then have "wp (f (env_get_plan E (hist w) k)) (\<lambda>_ w'. ok G (hist w) (hist w')) ?w"
    by (rule wp_mono) (rule ok_trans [of G "hist w" "hist ?w"], simp_all add: assms(1))
  then show "wp (State_Monad.bind (get_plan E k) f) (\<lambda>_ w'. ok G (hist w) (hist w')) w"
    by (simp add: get_plan_def vcg)
qed

lemma monitor_latest_success:
  "buildRescheduleRequestToken p = tok \<Longrightarrow> tok \<noteq> '''' \<Longrightarrow> guar (success_guard E tok) (monitor_latest E p)"
  unfolding monitor_latest_def by (intro guar_intros track_move_success)

lemma monitorAndConverge_success:
  assumes "token_stable E tok"
  shows "guar (success_guard E tok) (monitorAndConverge E p)"
  unfolding monitorAndConverge_def using assms
  by (intro guar_bind_get_plan guar_intros monitor_latest_success)
    (auto simp: token_stable_def intro!: success_guard_no_new dest: initial_statuses_pending)

lemma plan_Reconcile_success:
  assumes "token_stable E tok"
  shows "guar (success_guard E tok) (plan_Reconcile E req)"
  unfolding plan_Reconcile_def Let_def
  by (intro guar_intros monitorAndConverge_success [OF assms]) (auto intro: success_guard_no_new)

text \<open>
  C16: A move is reported Succeeded only on evidence. Given that the plan keeps its identity while the run
  lasts, every status patch that adds a Succeeded entry comes right after the binding of that move was
  read and found Running with the token of this plan in its spec; a binding that still runs at its old
  place without the intent never counts.
\<close>

theorem plan_success_has_evidence:
  assumes "token_stable E tok"
    and "trace (plan_Reconcile E req) w = pre @ StatusPatchPlan base new # post"
    and "ms \<in> set (statuses new)" and "ms_Status ms = MoveSucceeded" and "ms \<notin> set (statuses base)"
  shows "observed_running E tok (hist w @ pre) ms"
proof -
  have "success_guard E tok (hist w @ pre) (StatusPatchPlan base new)"
    using guar_trace [OF plan_Reconcile_success [OF assms(1)], of w req] unfolding assms(2) by (rule guarded_at)
  with assms(3-5) show ?thesis by (auto simp: success_guard_def)
qed

subsection \<open>The execution timeout\<close>

text \<open>
  \<open>guar_since h0 G m\<close>: the guarantee \<open>G\<close> holds for the calls of \<open>m\<close> after any history that continues \<open>h0\<close>. A
  bind may then use what the environment answers after such histories.
\<close>

definition guar_since :: "history \<Rightarrow> (history \<Rightarrow> event \<Rightarrow> bool) \<Rightarrow> 'a io \<Rightarrow> bool" where
  "guar_since h0 G m \<longleftrightarrow> (\<forall>w. extends h0 (hist w) \<longrightarrow> ok G (hist w) (hist (exec m w)))"

named_theorems since_intros \<open>guarantees since a history\<close>

lemma guar_since_guar: "guar G m \<Longrightarrow> guar_since h0 G m"
  by (simp add: guar_since_def guar_def)

lemma guar_since_bind [since_intros]:
  "guar_since h0 G m \<Longrightarrow> (\<And>x. guar_since h0 G (f x)) \<Longrightarrow> guar_since h0 G (State_Monad.bind m f)"
  unfolding guar_since_def exec_bind using ok_trans ok_extends by blast

lemma guar_since_call:
  assumes "\<And>h. extends h0 h \<Longrightarrow> G h e" and "\<And>h. extends h0 h \<Longrightarrow> guar_since h0 G (f (a h))"
  shows "guar_since h0 G (State_Monad.bind (call e a) f)"
  unfolding guar_since_def
proof (intro allI impI)
  fix w :: world assume w: "extends h0 (hist w)"
  let ?w = "w\<lparr>hist := hist w @ [e]\<rparr>"
  have "extends h0 (hist ?w)" using w by simp
  with assms(2) [OF w] have "ok G (hist ?w) (hist (exec (f (a (hist w))) ?w))" unfolding guar_since_def by blast
  moreover have "ok G (hist w) (hist ?w)" using assms(1) [OF w] by simp
  ultimately show "ok G (hist w) (hist (exec (State_Monad.bind (call e a) f) w))"
    using ok_trans [of G "hist w" "hist ?w"] by (simp add: exec_def call_def State_Monad.bind_def)
qed

lemma guar_since_now [since_intros]:
  "(\<And>h. extends h0 h \<Longrightarrow> guar_since h0 G (f (env_now E h))) \<Longrightarrow> guar_since h0 G (State_Monad.bind (now E) f)"
  by (auto simp: guar_since_def exec_def now_def State_Monad.bind_def)

lemma guar_since_each [since_intros]:
  "(\<And>x. x \<in> set xs \<Longrightarrow> guar_since h0 G (f x)) \<Longrightarrow> guar_since h0 G (io_each f xs)"
proof (induction xs)
  case Nil
  show ?case unfolding io_each.simps by (intro guar_since_guar guar_intros)
qed (auto intro!: since_intros)

lemma guar_since_cases [since_intros]:
  "(b \<Longrightarrow> guar_since h0 G m) \<Longrightarrow> (\<not> b \<Longrightarrow> guar_since h0 G m') \<Longrightarrow> guar_since h0 G (if b then m else m')"
  "(\<And>y. s = Inl y \<Longrightarrow> guar_since h0 G (f y)) \<Longrightarrow> (\<And>y. s = Inr y \<Longrightarrow> guar_since h0 G (g y)) \<Longrightarrow>
    guar_since h0 G (case s of Inl y \<Rightarrow> f y | Inr y \<Rightarrow> g y)"
  by (simp_all split: sum.split)

text \<open>No move ends with the patch, and a plan with an open move is not closed.\<close>

definition ended :: "MoveStatus \<Rightarrow> bool" where
  "ended ms \<longleftrightarrow> ms_Status ms = MoveSucceeded \<or> ms_Status ms = MoveFailed"

definition ends_none :: "history \<Rightarrow> event \<Rightarrow> bool" where
  "ends_none h e = (case e of
     StatusPatchPlan base new \<Rightarrow> (\<forall>ms \<in> set (statuses new). ended ms \<longrightarrow> ms \<in> set (statuses base)) \<and>
       (\<not> list_all ended (statuses base) \<and> \<not> plan_finished (phase_of base) \<longrightarrow> \<not> plan_finished (phase_of new))
   | _ \<Rightarrow> True)"

lemma all_terminal_ended: "all_terminal mss \<longleftrightarrow> list_all ended mss"
  unfolding all_terminal_def ended_def list_all_iff ..

lemma ends_none_simps [simp]:
  "ends_none h (GetPlan k)" "ends_none h (GetRB k)" "ends_none h (PatchRB a b)"
  "ends_none h (StatusPatchRB a b)" "ends_none h (MovesTotalInc st)" "ends_none h MoveDurationObserve"
  by (simp_all add: ends_none_def)

lemma ends_none_write:
  assumes "plan_write_ok base new" and "\<And>ms. ms \<in> set (statuses new) \<Longrightarrow> ended ms \<Longrightarrow> ms \<in> set (statuses base)"
  shows "ends_none h (StatusPatchPlan base new)"
  using assms plan_decision_open by (auto simp: ends_none_def plan_write_ok_def all_terminal_ended)

lemma initial_not_ended: "ms \<in> set (initial_statuses mvs) \<Longrightarrow> \<not> ended ms"
  by (auto simp: initial_statuses_def ended_def)

lemma patchMoveStatusIf_none [guar_intros]: "guar ends_none (patchMoveStatusIf E p mv from MoveInProgress msg)"
  unfolding patchMoveStatusIf_def statuses_fold
  by (intro guar_intros) (auto intro!: ends_none_write simp: ended_def dest: update_if_new)

lemma recompute_none [guar_intros]: "guar ends_none (recomputePlanExecutionSummary E p)"
  unfolding recomputePlanExecutionSummary_def by (intro guar_intros) (auto intro: ends_none_write)

lemma convergePlanPhase_none [guar_intros]: "guar ends_none (convergePlanPhase E p)"
  unfolding convergePlanPhase_def Let_def by (intro guar_intros) (auto intro!: ends_none_write)

text \<open>
  The plan has the key \<open>req\<close> and the moves \<open>mvs\<close>, and its timeout has passed; the bindings of the moves can be read and
  written.
\<close>

definition overdue :: "env \<Rightarrow> history \<Rightarrow> nskey \<Rightarrow> PlanMove list \<Rightarrow> ReOrchestrationPlan \<Rightarrow> bool" where
  "overdue E h0 req mvs q \<longleftrightarrow> plan_key q = req \<and> plan_Moves (plan_Spec q) = mvs \<and>
     (\<exists>s. plan_StartTime (plan_Status q) = Some s \<and> (\<forall>t. plan_timeout E q < sat64 (env_now E (h0 @ t) - s)))"

definition overdue_store :: "env \<Rightarrow> history \<Rightarrow> nskey \<Rightarrow> PlanMove list \<Rightarrow> bool" where
  "overdue_store E h0 req mvs \<longleftrightarrow>
     (\<forall>t q. env_get_plan E (h0 @ t) req = Inr q \<longrightarrow> overdue E h0 req mvs q) \<and>
     (\<forall>t base new q. overdue E h0 req mvs base \<and> plan_Meta new = plan_Meta base \<and> plan_Spec new = plan_Spec base \<and>
        plan_StartTime (plan_Status new) = plan_StartTime (plan_Status base) \<and>
        env_write_plan E (h0 @ t) (StatusPatchPlan base new) = Inr q \<longrightarrow> overdue E h0 req mvs q)"

definition bindings_writable :: "env \<Rightarrow> history \<Rightarrow> PlanMove list \<Rightarrow> bool" where
  "bindings_writable E h0 mvs \<longleftrightarrow> (\<forall>t. \<forall>mv \<in> set mvs. \<exists>rb. env_get_rb E (h0 @ t) (move_rb_key mv) = Inr rb) \<and>
     (\<forall>t base new. (\<exists>rb. env_write_rb E (h0 @ t) (PatchRB base new) = Inr rb) \<and> (\<exists>rb. env_write_rb E (h0 @ t) (StatusPatchRB base new) = Inr rb))"

lemma overdue_read: "overdue_store E h0 req mvs \<Longrightarrow> extends h0 h \<Longrightarrow> env_get_plan E h req = Inr q \<Longrightarrow> overdue E h0 req mvs q"
  by (auto simp: overdue_store_def extends_def)

lemma overdue_patch:
  "overdue_store E h0 req mvs \<Longrightarrow> extends h0 h \<Longrightarrow> overdue E h0 req mvs base \<Longrightarrow> plan_Meta new = plan_Meta base \<Longrightarrow>
    plan_Spec new = plan_Spec base \<Longrightarrow> plan_StartTime (plan_Status new) = plan_StartTime (plan_Status base) \<Longrightarrow> env_write_plan E h (StatusPatchPlan base new) = Inr q \<Longrightarrow> overdue E h0 req mvs q"
  unfolding overdue_store_def extends_def by blast

lemma writable_read: "bindings_writable E h0 mvs \<Longrightarrow> extends h0 h \<Longrightarrow> mv \<in> set mvs \<Longrightarrow> \<exists>rb. env_get_rb E h (move_rb_key mv) = Inr rb"
  by (auto simp: bindings_writable_def extends_def)

lemma writable_patch:
  "bindings_writable E h0 mvs \<Longrightarrow> extends h0 h \<Longrightarrow> \<exists>rb. env_write_rb E h (PatchRB base new) = Inr rb"
  "bindings_writable E h0 mvs \<Longrightarrow> extends h0 h \<Longrightarrow> \<exists>rb. env_write_rb E h (StatusPatchRB base new) = Inr rb"
  by (auto simp: bindings_writable_def extends_def)

lemma since_get_plan:
  assumes "\<And>h r. extends h0 h \<Longrightarrow> env_get_plan E h k = r \<Longrightarrow> guar_since h0 ends_none (f r)"
  shows "guar_since h0 ends_none (State_Monad.bind (get_plan E k) f)"
  unfolding get_plan_def by (rule guar_since_call) (simp_all add: assms)

lemma since_get_rb:
  assumes "\<And>h r. extends h0 h \<Longrightarrow> env_get_rb E h k = r \<Longrightarrow> guar_since h0 ends_none (f r)"
  shows "guar_since h0 ends_none (State_Monad.bind (get_rb E k) f)"
  unfolding get_rb_def by (rule guar_since_call) (simp_all add: assms)

lemma since_result:
  assumes "\<And>w. extends h0 (hist w) \<Longrightarrow> wp m (\<lambda>x w'. P x \<and> ok G (hist w) (hist w')) w" and "\<And>x. P x \<Longrightarrow> guar_since h0 G (f x)"
  shows "guar_since h0 G (State_Monad.bind m f)"
  unfolding guar_since_def exec_bind
proof (intro allI impI)
  fix w :: world assume w: "extends h0 (hist w)"
  from assms(1) [OF w] have "P (result m w)" "ok G (hist w) (hist (exec m w))" by (simp_all add: wp_result)
  then show "ok G (hist w) (hist (exec (f (result m w)) (exec m w)))"
    using assms(2) ok_trans ok_extends [OF w] unfolding guar_since_def by blast
qed

lemma apply_intent_none:
  assumes "bindings_writable E h0 mvs" and "mv \<in> set mvs" and "extends h0 (hist w)"
  shows "wp (apply_intent E mv tok rb) (\<lambda>r w'. r = None \<and> ok ends_none (hist w) (hist w')) w"
proof -
  obtain a where a: "env_write_rb E (hist w) (PatchRB rb (with_intent mv tok rb)) = Inr a" using writable_patch(1) [OF assms(1,3)] by blast
  have "extends h0 (hist w @ [PatchRB rb (with_intent mv tok rb)])" using assms(3) by simp
  then obtain b where b: "env_get_rb E (hist w @ [PatchRB rb (with_intent mv tok rb)]) (move_rb_key mv) = Inr b"
    using writable_read [OF assms(1) _ assms(2)] by blast
  have "\<exists>rb'. env_write_rb E (hist w @ es) (StatusPatchRB x y) = Inr rb'" for es x y
    using writable_patch(2) [OF assms(1) extends_append [OF assms(3)]] by blast
  then show ?thesis
    using a b by (auto simp: apply_intent_def vcg io_defs split: sum.split) (metis sum.distinct(1))+
qed

lemma apply_move_none:
  assumes "bindings_writable E h0 mvs" and "mv \<in> set mvs"
  shows "guar_since h0 ends_none (apply_move E p mv)"
  unfolding apply_move_def Let_def
proof (rule since_get_rb)
  fix h r assume h: "extends h0 h" "env_get_rb E h (move_rb_key mv) = r"
  then obtain rb where rb: "r = Inr rb" using writable_read [OF assms(1) h(1) assms(2)] by auto
  let ?intent = "if need_patch mv (buildRescheduleRequestToken p) rb then apply_intent E mv (buildRescheduleRequestToken p) rb
    else State_Monad.return None"
  have "wp ?intent (\<lambda>r w'. r = None \<and> ok ends_none (hist w) (hist w')) w" if "extends h0 (hist w)" for w
    using apply_intent_none [OF assms that] by (simp add: wp_return)
  moreover have "guar_since h0 ends_none (State_Monad.bind (case failure of Some msg \<Rightarrow> patchMoveStatus E p mv MoveFailed msg
      | None \<Rightarrow> patchMoveStatusIf E p mv MovePending MoveInProgress ''reschedule intent applied'') (\<lambda>_. State_Monad.return ()))"
    if "failure = None" for failure unfolding that option.case by (intro guar_since_guar guar_intros)
  ultimately show "guar_since h0 ends_none (case r of Inl err \<Rightarrow> State_Monad.bind (patchMoveStatus E p mv MoveFailed
         (''ReplicaBinding '' @ key_text (move_rb_key mv) @ '' not found: '' @ err_text err)) (\<lambda>_. State_Monad.return ())
     | Inr rb \<Rightarrow> State_Monad.bind (if need_patch mv (buildRescheduleRequestToken p) rb then apply_intent E mv (buildRescheduleRequestToken p) rb
           else State_Monad.return None) (\<lambda>failure. State_Monad.bind (case failure of Some msg \<Rightarrow> patchMoveStatus E p mv MoveFailed msg
             | None \<Rightarrow> patchMoveStatusIf E p mv MovePending MoveInProgress ''reschedule intent applied'') (\<lambda>_. State_Monad.return ())))"
    unfolding rb sum.case by (rule since_result)
qed

text \<open>A patch of an overdue plan, or none, gives an overdue plan or an error.\<close>

lemma overdue_patched:
  assumes "overdue_store E h0 req mvs" and "overdue E h0 req mvs base" and "plan_Meta new = plan_Meta base" and "plan_Spec new = plan_Spec base"
    and "plan_StartTime (plan_Status new) = plan_StartTime (plan_Status base)"
    and "ends_none (hist w) (StatusPatchPlan base new)" and "extends h0 (hist w)"
  shows "wp (if c then write_plan E (StatusPatchPlan base new) else State_Monad.return (Inr base))
    (\<lambda>r w'. (\<forall>q. r = Inr q \<longrightarrow> overdue E h0 req mvs q) \<and> ok ends_none (hist w) (hist w')) w"
  using overdue_patch [OF assms(1,7,2,3,4,5)] assms(2,6) by (auto simp: vcg io_defs)

lemma executeMoves_none:
  assumes "overdue_store E h0 req mvs" and "bindings_writable E h0 mvs" and "plan_key p = req"
  shows "guar_since h0 ends_none (executeMoves E p)"
  unfolding executeMoves_def assms(3) Let_def
proof (intro since_get_plan guar_since_cases guar_since_now)
  fix h r base h' assume h: "extends h0 h" "env_get_plan E h req = r" "r = Inr base"
  then have base: "overdue E h0 req mvs base" using overdue_read [OF assms(1)] by blast
  let ?st = "plan_Status base" and ?t = "env_now E h'"
  let ?init = "plan_MoveStatuses ?st = [] \<and> plan_Moves (plan_Spec base) \<noteq> []"
  let ?st1 = "if plan_StartTime ?st = None then ?st\<lparr>plan_StartTime := Some ?t\<rparr> else ?st"
  let ?new = "base\<lparr>plan_Status := if ?init then ?st1\<lparr>plan_MoveStatuses := initial_statuses (plan_Moves (plan_Spec base))\<rparr> else ?st1\<rparr>"
  have none: "ends_none h'' (StatusPatchPlan base ?new)" for h''
    by (rule ends_none_write) (auto simp: plan_writes dest: initial_not_ended split: if_splits)
  have start: "plan_StartTime (plan_Status ?new) = plan_StartTime ?st" using base by (auto simp: overdue_def)
  have step: "wp (if c then write_plan E (StatusPatchPlan base ?new) else State_Monad.return (Inr base))
      (\<lambda>r w'. (\<forall>q. r = Inr q \<longrightarrow> overdue E h0 req mvs q) \<and> ok ends_none (hist w) (hist w')) w" if "extends h0 (hist w)" for c w
    by (rule overdue_patched [OF assms(1) base _ _ start none that]) simp_all
  have rest: "guar_since h0 ends_none (case r of Inl err \<Rightarrow> State_Monad.return (Some err)
      | Inr latest \<Rightarrow> State_Monad.bind (io_each (apply_move E latest) (plan_Moves (plan_Spec latest))) (\<lambda>_.
          State_Monad.bind (recomputePlanExecutionSummary E latest) (\<lambda>_. State_Monad.return None)))"
    if "\<forall>q. r = Inr q \<longrightarrow> overdue E h0 req mvs q" for r :: "api_err + ReOrchestrationPlan"
  proof (cases r)
    case (Inr latest)
    then have "plan_Moves (plan_Spec latest) = mvs" using that by (simp add: overdue_def)
    then have "guar_since h0 ends_none (io_each (apply_move E latest) (plan_Moves (plan_Spec latest)))"
      by (intro guar_since_each apply_move_none [OF assms(2)]) simp
    then show ?thesis unfolding Inr sum.case by (rule guar_since_bind) (intro guar_since_guar guar_intros)
  qed (simp, intro guar_since_guar guar_intros)
  show "guar_since h0 ends_none (State_Monad.bind (if plan_StartTime ?st = None \<or> ?init
      then write_plan E (StatusPatchPlan base ?new) else State_Monad.return (Inr base)) (\<lambda>r. case r of
        Inl err \<Rightarrow> State_Monad.return (Some err)
      | Inr latest \<Rightarrow> State_Monad.bind (io_each (apply_move E latest) (plan_Moves (plan_Spec latest))) (\<lambda>_.
          State_Monad.bind (recomputePlanExecutionSummary E latest) (\<lambda>_. State_Monad.return None))))"
    by (rule since_result [OF step rest])
qed (intro guar_since_guar guar_intros)

lemma monitor_latest_none:
  assumes "overdue E h0 req mvs p"
  shows "guar_since h0 ends_none (monitor_latest E p)"
  unfolding monitor_latest_def
proof (rule guar_since_now)
  fix h assume "extends h0 h"
  then have "case plan_StartTime (plan_Status p) of None \<Rightarrow> False | Some s \<Rightarrow> sat64 (env_now E h - s) > plan_timeout E p"
    using assms by (auto simp: overdue_def extends_def)
  then show "guar_since h0 ends_none (if case plan_StartTime (plan_Status p) of None \<Rightarrow> False | Some s \<Rightarrow> sat64 (env_now E h - s) > plan_timeout E p
      then convergePlanPhase E (fail_open_moves (''timeout after '' @ env_duration_text E (plan_timeout E p)) p)
      else State_Monad.bind (io_each (track_move E p) (plan_Moves (plan_Spec p))) (\<lambda>_. convergePlanPhase E p))"
    by (simp add: guar_since_guar convergePlanPhase_none)
qed

lemma monitorAndConverge_none:
  assumes "overdue_store E h0 req mvs" and "plan_key p = req"
  shows "guar_since h0 ends_none (monitorAndConverge E p)"
proof -
  have latest: "guar_since h0 ends_none (State_Monad.bind (get_plan E req) (\<lambda>g. case g of
      Inl err \<Rightarrow> ignore_missing err | Inr latest \<Rightarrow> monitor_latest E latest))"
    by (intro since_get_plan guar_since_cases monitor_latest_none [where req = req and mvs = mvs])
      (auto intro: guar_since_guar guar_intros overdue_read [OF assms(1)])
  show ?thesis unfolding monitorAndConverge_def assms(2)
  proof (intro since_get_plan guar_since_cases)
    fix h r q assume "extends h0 h" "env_get_plan E h req = r" "r = Inr q"
    then have "overdue E h0 req mvs q" using overdue_read [OF assms(1)] by blast
    then show "guar_since h0 ends_none (monitor_latest E q)" by (rule monitor_latest_none)
    have "guar ends_none (patch_plan E q (set_statuses (initial_statuses (plan_Moves (plan_Spec q))) q))"
      by (intro guar_intros ends_none_write) (auto dest: initial_not_ended)
    then show "guar_since h0 ends_none (State_Monad.bind (patch_plan E q (set_statuses (initial_statuses (plan_Moves (plan_Spec q))) q))
        (\<lambda>err. case err of Some e \<Rightarrow> fail_with e | None \<Rightarrow> State_Monad.bind (get_plan E req) (\<lambda>g. case g of
            Inl err \<Rightarrow> ignore_missing err | Inr latest \<Rightarrow> monitor_latest E latest)))"
      by (rule guar_since_bind [OF guar_since_guar]) (use latest in \<open>simp add: guar_since_guar outcome_guar split: option.split\<close>)
  qed (intro guar_since_guar guar_intros)
qed

lemma plan_Reconcile_none:
  assumes "overdue_store E h0 req mvs" and "bindings_writable E h0 mvs"
  shows "guar_since h0 ends_none (plan_Reconcile E req)"
  unfolding plan_Reconcile_def Let_def
proof (intro since_get_plan guar_since_cases guar_since_now)
  fix h r p h' assume h: "extends h0 h" "env_get_plan E h req = r" "r = Inr p" and fin: "\<not> plan_finished (plan_Phase (plan_Status p))"
  let ?ph = "fst (plan_decision (plan_strategy p))" and ?new = "decide_plan E (env_now E h') p"
  have p: "overdue E h0 req mvs p" using overdue_read [OF assms(1)] h by blast
  have "ends_none h'' (StatusPatchPlan p ?new)" for h'' by (rule ends_none_write) (use fin in simp_all)
  moreover have "plan_Meta ?new = plan_Meta p" "plan_Spec ?new = plan_Spec p" "plan_StartTime (plan_Status ?new) = plan_StartTime (plan_Status p)"
    by (simp_all add: decide_plan_def split: prod.split)
  ultimately have step: "wp (if c then write_plan E (StatusPatchPlan p ?new) else State_Monad.return (Inr p))
      (\<lambda>r w'. (\<forall>q. r = Inr q \<longrightarrow> overdue E h0 req mvs q) \<and> ok ends_none (hist w) (hist w')) w" if "extends h0 (hist w)" for c w
    using overdue_patched [OF assms(1) p _ _ _ _ that, of ?new c] by simp
  have rest: "guar_since h0 ends_none (case r of Inl err \<Rightarrow> ignore_missing err
     | Inr plan \<Rightarrow> if ?ph = PlanExecuting then State_Monad.bind (executeMoves E plan) (\<lambda>err. case err of
           Some e \<Rightarrow> fail_with e
         | None \<Rightarrow> State_Monad.bind (monitorAndConverge E plan) (\<lambda>res. State_Monad.return (case snd res of Some e \<Rightarrow> (0, Some e) | None \<Rightarrow> res)))
       else done_ok)" if "\<forall>q. r = Inr q \<longrightarrow> overdue E h0 req mvs q" for r :: "api_err + ReOrchestrationPlan"
  proof (cases r)
    case (Inr plan)
    then have key: "plan_key plan = req" using that by (simp add: overdue_def)
    have "guar_since h0 ends_none (State_Monad.bind (monitorAndConverge E plan)
        (\<lambda>res. State_Monad.return (case snd res of Some e \<Rightarrow> (0, Some e) | None \<Rightarrow> res)))"
      by (intro guar_since_bind monitorAndConverge_none [OF assms(1) key] guar_since_guar guar_intros)
    then show ?thesis unfolding Inr sum.case
      by (intro guar_since_cases guar_since_bind executeMoves_none [OF assms key])
        (auto intro: guar_since_guar guar_intros split: option.split)
  qed (simp, intro guar_since_guar guar_intros)
  show "guar_since h0 ends_none (State_Monad.bind (if plan_Phase (plan_Status p) \<noteq> ?ph then write_plan E (StatusPatchPlan p ?new)
      else State_Monad.return (Inr p)) (\<lambda>r. case r of Inl err \<Rightarrow> ignore_missing err
     | Inr plan \<Rightarrow> if ?ph = PlanExecuting then State_Monad.bind (executeMoves E plan) (\<lambda>err. case err of
           Some e \<Rightarrow> fail_with e
         | None \<Rightarrow> State_Monad.bind (monitorAndConverge E plan) (\<lambda>res. State_Monad.return (case snd res of Some e \<Rightarrow> (0, Some e) | None \<Rightarrow> res)))
       else done_ok))"
    by (rule since_result [OF step rest])
qed (intro guar_since_guar guar_intros)+

text \<open>
  C39: The execution timeout fails no move. Let the timeout of a plan have passed, by its start time as every answer
  shows it and by the clock at every moment of a run, and let the bindings of its moves be readable and writable
  during the run (otherwise \<open>executeMoves\<close> records a failure). Then no status patch of the whole run makes a move
  end: every Succeeded or Failed entry that it writes was already there, be the binding Failed or Running; and a
  plan with an open move is not closed. The moves that the timeout branch marks Failed live in a local copy, the
  phase is computed from a fresh read, and the progress of the bindings is not looked at any more.
\<close>

theorem plan_timeout_fails_no_move:
  assumes "overdue_store E (hist w) req mvs" and "bindings_writable E (hist w) mvs"
    and "StatusPatchPlan base new \<in> set (trace (plan_Reconcile E req) w)"
  shows "(\<forall>ms \<in> set (statuses new). ended ms \<longrightarrow> ms \<in> set (statuses base)) \<and>
    (\<not> list_all ended (statuses base) \<and> \<not> plan_finished (phase_of base) \<longrightarrow> \<not> plan_finished (phase_of new))"
proof -
  have "ok ends_none (hist w) (hist (exec (plan_Reconcile E req) w))"
    using plan_Reconcile_none [OF assms(1,2)] by (simp add: guar_since_def)
  then have "guarded ends_none (hist w) (trace (plan_Reconcile E req) w)" by (auto simp: ok_iff trace_def)
  moreover obtain pre post where "trace (plan_Reconcile E req) w = pre @ StatusPatchPlan base new # post"
    using assms(3) by (meson split_list)
  ultimately have "ends_none (hist w @ pre) (StatusPatchPlan base new)" by (metis guarded_at)
  then show ?thesis by (simp add: ends_none_def)
qed

subsection \<open>A plan whose bindings run is completed\<close>

text \<open>
  \<open>stored_plan\<close> is the plan in the API server when this controller is the only writer of its status: \<open>p\<close> with the
  status of the last patch. The server numbers its versions and rounds times, so an answer agrees with the stored
  plan in the rest of the metadata, the specification, the phase and the statuses of the moves.
\<close>

fun stored_plan :: "ReOrchestrationPlan \<Rightarrow> history \<Rightarrow> ReOrchestrationPlan" where
  "stored_plan p [] = p"
| "stored_plan p (e # es) = stored_plan (case e of
     StatusPatchPlan _ new \<Rightarrow> if plan_key new = plan_key p then p\<lparr>plan_Status := plan_Status new\<rparr> else p | _ \<Rightarrow> p) es"

definition framed :: "ReOrchestrationPlan \<Rightarrow> ReOrchestrationPlan \<Rightarrow> bool" where
  "framed p q \<longleftrightarrow> (plan_Meta q)\<lparr>om_ResourceVersion := ''''\<rparr> = (plan_Meta p)\<lparr>om_ResourceVersion := ''''\<rparr> \<and> plan_Spec q = plan_Spec p"

definition agrees :: "ReOrchestrationPlan \<Rightarrow> ReOrchestrationPlan \<Rightarrow> bool" where
  "agrees q r \<longleftrightarrow> framed q r \<and> phase_of q = phase_of r \<and> statuses q = statuses r"

definition single_writer :: "env \<Rightarrow> history \<Rightarrow> ReOrchestrationPlan \<Rightarrow> bool" where
  "single_writer E h0 p \<longleftrightarrow> (\<forall>t.
     (\<exists>q. env_get_plan E (h0 @ t) (plan_key p) = Inr q \<and> agrees q (stored_plan p t)) \<and>
     (\<forall>base new. agrees base (stored_plan p t) \<and> plan_Meta new = plan_Meta base \<and> plan_Spec new = plan_Spec base \<longrightarrow>
        (\<exists>q. env_write_plan E (h0 @ t) (StatusPatchPlan base new) = Inr q \<and> agrees q new)))"

text \<open>
  The timeout does not pass: the clock stays between \<open>lo\<close> and \<open>lo\<close> plus the timeout of the plan, and no answer shows an
  earlier start than \<open>lo\<close> unless one was written.
\<close>

definition started_since :: "time \<Rightarrow> ReOrchestrationPlan \<Rightarrow> bool" where
  "started_since lo q \<longleftrightarrow> (\<forall>s. plan_StartTime (plan_Status q) = Some s \<longrightarrow> lo \<le> s)"

definition starts_written :: "time \<Rightarrow> history \<Rightarrow> bool" where
  "starts_written lo t \<longleftrightarrow> (\<forall>base new. StatusPatchPlan base new \<in> set t \<longrightarrow> started_since lo new)"

definition in_time :: "env \<Rightarrow> history \<Rightarrow> ReOrchestrationPlan \<Rightarrow> time \<Rightarrow> bool" where
  "in_time E h0 p lo \<longleftrightarrow> (\<forall>t. lo \<le> env_now E (h0 @ t) \<and> env_now E (h0 @ t) - lo \<le> plan_timeout E p \<and>
     (starts_written lo t \<longrightarrow>
       (\<forall>q. env_get_plan E (h0 @ t) (plan_key p) = Inr q \<longrightarrow> started_since lo q) \<and>
       (\<forall>base new q. started_since lo new \<and> env_write_plan E (h0 @ t) (StatusPatchPlan base new) = Inr q \<longrightarrow> started_since lo q)))"

definition plan_store :: "env \<Rightarrow> history \<Rightarrow> ReOrchestrationPlan \<Rightarrow> time \<Rightarrow> bool" where
  "plan_store E h0 p lo \<longleftrightarrow> single_writer E h0 p \<and> in_time E h0 p lo"

lemma framed_refl [simp]: "framed p p"
  by (simp add: framed_def)

lemma framed_trans: "framed p q \<Longrightarrow> framed q r \<Longrightarrow> framed p r"
  by (simp add: framed_def)

lemma framed_sym: "framed p q \<Longrightarrow> framed q p"
  by (simp add: framed_def)

lemma framed_fields:
  assumes "framed p q"
  shows "plan_key q = plan_key p" "plan_strategy q = plan_strategy p" "plan_Spec q = plan_Spec p"
    "buildRescheduleRequestToken q = buildRescheduleRequestToken p" "plan_timeout E q = plan_timeout E p"
proof -
  have m: "(plan_Meta q)\<lparr>om_ResourceVersion := ''''\<rparr> = (plan_Meta p)\<lparr>om_ResourceVersion := ''''\<rparr>" and s: "plan_Spec q = plan_Spec p"
    using assms by (simp_all add: framed_def)
  note f = arg_cong [OF m, of om_Name, simplified] arg_cong [OF m, of om_Namespace, simplified] arg_cong [OF m, of om_UID, simplified]
    arg_cong [OF m, of om_Labels, simplified] arg_cong [OF m, of om_Annotations, simplified]
  show "plan_key q = plan_key p" "plan_strategy q = plan_strategy p" "plan_Spec q = plan_Spec p"
    "buildRescheduleRequestToken q = buildRescheduleRequestToken p" "plan_timeout E q = plan_timeout E p"
    using f s by (simp_all only: plan_key_def plan_strategy_def buildRescheduleRequestToken_def plan_timeout_def)
qed

lemma framed_same: "plan_Meta r = plan_Meta q \<Longrightarrow> plan_Spec r = plan_Spec q \<Longrightarrow> framed p q \<Longrightarrow> framed p r"
  by (simp add: framed_def)

text \<open>What the run knows of every answer.\<close>

definition known :: "time \<Rightarrow> ReOrchestrationPlan \<Rightarrow> ReOrchestrationPlan \<Rightarrow> bool" where
  "known lo p q \<longleftrightarrow> framed p q \<and> started_since lo q"

lemmas known_fields = framed_fields [OF conjunct1 [OF known_def [THEN iffD1]]]

lemma stored_plan_frame: "plan_Meta (stored_plan p t) = plan_Meta p \<and> plan_Spec (stored_plan p t) = plan_Spec p"
  by (induction t arbitrary: p) (auto split: event.split)

lemma started_stored: "started_since lo p \<Longrightarrow> starts_written lo t \<Longrightarrow> started_since lo (stored_plan p t)"
proof (induction t arbitrary: p)
  case (Cons e t)
  from Cons.prems(2) have "starts_written lo t" by (simp add: starts_written_def)
  moreover have "started_since lo (case e of StatusPatchPlan _ new \<Rightarrow>
      if plan_key new = plan_key p then p\<lparr>plan_Status := plan_Status new\<rparr> else p | _ \<Rightarrow> p)"
    using Cons.prems by (auto simp: starts_written_def started_since_def split: event.split)
  ultimately show ?case by (simp add: Cons.IH)
qed simp

lemma framed_stored: "framed p (stored_plan p t)"
  by (rule framed_same [OF _ _ framed_refl]) (simp_all add: stored_plan_frame)

lemma stored_plan_append: "stored_plan p (xs @ ys) = stored_plan (stored_plan p xs) ys"
  by (induction p xs rule: stored_plan.induct) simp_all

text \<open>The store of \<open>p\<close> since \<open>h0\<close> is in the phase \<open>ph\<close> with the statuses \<open>mss\<close>.\<close>

definition at_plan :: "time \<Rightarrow> history \<Rightarrow> ReOrchestrationPlan \<Rightarrow> PlanPhase \<Rightarrow> MoveStatus list \<Rightarrow> world \<Rightarrow> bool" where
  "at_plan lo h0 p ph mss w \<longleftrightarrow> (\<exists>t. hist w = h0 @ t \<and> starts_written lo t \<and>
     phase_of (stored_plan p t) = ph \<and> statuses (stored_plan p t) = mss)"

lemma at_planE:
  assumes "at_plan lo h0 p ph mss w"
  obtains t where "hist w = h0 @ t" "starts_written lo t" "phase_of (stored_plan p t) = ph" "statuses (stored_plan p t) = mss"
  using assms unfolding at_plan_def by blast

fun patches_plan :: "event \<Rightarrow> bool" where
  "patches_plan (StatusPatchPlan base new) = True"
| "patches_plan e = False"

lemma at_plan_other: "at_plan lo h0 p ph mss w \<Longrightarrow> \<not> patches_plan e \<Longrightarrow> at_plan lo h0 p ph mss (w\<lparr>hist := hist w @ [e]\<rparr>)"
proof -
  assume "at_plan lo h0 p ph mss w" and e: "\<not> patches_plan e"
  then obtain t where t: "hist w = h0 @ t" "starts_written lo t" "phase_of (stored_plan p t) = ph" "statuses (stored_plan p t) = mss"
    by (auto elim: at_planE)
  have "stored_plan p (t @ [e]) = stored_plan p t" unfolding stored_plan_append using e by (cases e) simp_all
  moreover have "starts_written lo (t @ [e])" using t(2) e unfolding starts_written_def by auto
  ultimately show ?thesis using t unfolding at_plan_def by (intro exI [of _ "t @ [e]"]) simp
qed

lemma wp_return_ext: "wp (State_Monad.return x) Q = Q x"
  by (rule ext) (simp add: wp_return)

lemma wp_ifI: "(c \<Longrightarrow> wp m Q w) \<Longrightarrow> (\<not> c \<Longrightarrow> wp m' Q w) \<Longrightarrow> wp (if c then m else m') Q w"
  by simp

lemma at_get_plan:
  assumes "plan_store E h0 p lo" and "at_plan lo h0 p ph mss w"
    and "\<And>r w'. known lo p r \<Longrightarrow> phase_of r = ph \<Longrightarrow> statuses r = mss \<Longrightarrow> at_plan lo h0 p ph mss w' \<Longrightarrow> Q (Inr r) w'"
  shows "wp (get_plan E (plan_key p)) Q w"
proof -
  obtain t where t: "hist w = h0 @ t" "starts_written lo t" "phase_of (stored_plan p t) = ph" "statuses (stored_plan p t) = mss"
    using assms(2) by (rule at_planE)
  obtain q where q: "env_get_plan E (h0 @ t) (plan_key p) = Inr q" "agrees q (stored_plan p t)"
    using assms(1) unfolding plan_store_def single_writer_def by blast
  have "started_since lo q" using assms(1) t(2) q(1) unfolding plan_store_def in_time_def by blast
  then have "known lo p q" using framed_trans [OF framed_stored [of p t] framed_sym [of q]] q(2) by (simp add: agrees_def known_def)
  then show ?thesis
    using assms(3) [of q] q t at_plan_other [OF assms(2), of "GetPlan (plan_key p)"] by (simp add: get_plan_def wp_call agrees_def)
qed

lemma at_write_plan:
  assumes "plan_store E h0 p lo" and "at_plan lo h0 p ph mss w" and "known lo p base" and "phase_of base = ph" and "statuses base = mss"
    and "plan_Meta new = plan_Meta base" and "plan_Spec new = plan_Spec base" and "started_since lo new"
    and "\<And>r w'. known lo p r \<Longrightarrow> phase_of r = phase_of new \<Longrightarrow> statuses r = statuses new \<Longrightarrow>
      at_plan lo h0 p (phase_of new) (statuses new) w' \<Longrightarrow> Q (Inr r) w'"
  shows "wp (write_plan E (StatusPatchPlan base new)) Q w"
proof -
  obtain t where t: "hist w = h0 @ t" "starts_written lo t" "phase_of (stored_plan p t) = ph" "statuses (stored_plan p t) = mss"
    using assms(2) by (rule at_planE)
  have base: "framed p base" using assms(3) by (simp add: known_def)
  have "agrees base (stored_plan p t)" using assms(4,5) t(3,4) framed_trans [OF framed_sym [OF base] framed_stored] by (simp add: agrees_def)
  then obtain q where q: "env_write_plan E (h0 @ t) (StatusPatchPlan base new) = Inr q" "agrees q new"
    using assms(1,6,7) unfolding plan_store_def single_writer_def by blast
  have new: "framed p new" using framed_same [OF assms(6,7) base] .
  have "started_since lo q" using assms(1,8) t(2) q(1) unfolding plan_store_def in_time_def by blast
  then have "known lo p q" using framed_trans [OF new framed_sym] q(2) by (simp add: agrees_def known_def)
  moreover have "plan_key new = plan_key (stored_plan p t)" by (simp add: framed_fields(1) [OF new] framed_fields(1) [OF framed_stored])
  moreover have "starts_written lo (t @ [StatusPatchPlan base new])" using t(2) assms(8) unfolding starts_written_def by auto
  ultimately have "at_plan lo h0 p (phase_of new) (statuses new) (w\<lparr>hist := hist w @ [StatusPatchPlan base new]\<rparr>)"
    using t(1) unfolding at_plan_def
    by (intro exI [of _ "t @ [StatusPatchPlan base new]"]) (simp add: stored_plan_append phase_of_def statuses_def)
  with \<open>known lo p q\<close> show ?thesis using assms(9) [of q] q t(1) by (simp add: write_plan_def wp_call agrees_def)
qed

lemma at_patch_plan:
  assumes "plan_store E h0 p lo" and "at_plan lo h0 p ph mss w" and "known lo p base" and "phase_of base = ph" and "statuses base = mss"
    and "plan_Meta new = plan_Meta base" and "plan_Spec new = plan_Spec base" and "started_since lo new"
  shows "wp (patch_plan E base new) (\<lambda>r w'. r = None \<and> at_plan lo h0 p (phase_of new) (statuses new) w') w"
  unfolding patch_plan_def wp_bind by (rule at_write_plan [OF assms]) (simp add: wp_return)

lemma at_metrics: "at_plan lo h0 p ph mss w \<Longrightarrow> wp (metrics_inc st) (\<lambda>_. at_plan lo h0 p ph mss) w"
  using at_plan_other [of lo h0 p ph mss w "MovesTotalInc st"]
    at_plan_other [of lo h0 p ph mss "w\<lparr>hist := hist w @ [MovesTotalInc st]\<rparr>" MoveDurationObserve]
  by (simp add: metrics_inc_def vcg)

lemma phase_of_frame [simp]:
  "phase_of (set_statuses mss q) = phase_of q" "phase_of (q\<lparr>plan_Status := (plan_Status q)\<lparr>plan_Summary := s\<rparr>\<rparr>) = phase_of q"
  "plan_Meta (set_statuses mss q) = plan_Meta q" "plan_Spec (set_statuses mss q) = plan_Spec q"
  "plan_Meta (finish_plan E ph t q) = plan_Meta q" "plan_Spec (finish_plan E ph t q) = plan_Spec q"
  "phase_of (finish_plan E ph t q) = ph"
  by (simp_all add: phase_of_def set_statuses_def finish_plan_def)

lemma started_frame [simp]:
  "known lo p q \<Longrightarrow> started_since lo (set_statuses mss q)" "known lo p q \<Longrightarrow> started_since lo (finish_plan E ph t q)"
  "known lo p q \<Longrightarrow> started_since lo (q\<lparr>plan_Status := (plan_Status q)\<lparr>plan_Summary := s\<rparr>\<rparr>)"
  "known lo p q \<Longrightarrow> started_since lo (decide_plan E t q)"
  by (simp_all add: known_def started_since_def set_statuses_def finish_plan_def decide_plan_def split: prod.split)

lemma at_recompute:
  assumes "plan_store E h0 p lo" and "at_plan lo h0 p ph mss w" and "plan_key q = plan_key p"
  shows "wp (recomputePlanExecutionSummary E q) (\<lambda>_. at_plan lo h0 p ph mss) w"
  unfolding recomputePlanExecutionSummary_def wp_bind assms(3)
  by (rule at_get_plan [OF assms(1,2)], simp, rule wp_mono [OF at_patch_plan [OF assms(1)]]) auto

subsubsection \<open>The statuses of the moves\<close>

definition move_key :: "PlanMove \<Rightarrow> string \<times> string \<times> int32" where
  "move_key mv = (ref_Name (mv_GlobalDeploymentRef mv), ref_Namespace (mv_GlobalDeploymentRef mv), mv_ReplicaIndex mv)"

definition status_key :: "MoveStatus \<Rightarrow> string \<times> string \<times> int32" where
  "status_key ms = (ref_Name (ms_GlobalDeploymentRef ms), ref_Namespace (ms_GlobalDeploymentRef ms), ms_ReplicaIndex ms)"

lemma status_of_move_key: "status_of_move mv ms \<longleftrightarrow> status_key ms = move_key mv"
  by (auto simp: status_of_move_def status_key_def move_key_def)

definition succeed :: "PlanMove \<Rightarrow> MoveStatus list \<Rightarrow> MoveStatus list" where
  "succeed mv mss = map (\<lambda>ms. if status_key ms = move_key mv
     then ms\<lparr>ms_Status := MoveSucceeded, ms_Message := ''reschedule completed''\<rparr> else ms) mss"

lemma update_first_keyed:
  assumes "distinct (map status_key mss)" and "move_key mv \<in> status_key ` set mss"
  shows "update_first mv MoveSucceeded ''reschedule completed'' mss = Some (succeed mv mss)"
  using assms
proof (induction mss)
  case (Cons ms mss)
  show ?case
  proof (cases "status_key ms = move_key mv")
    case True
    then have "succeed mv mss = mss" unfolding succeed_def using Cons.prems(1) by (intro map_idI) force
    with True show ?thesis by (simp add: status_of_move_key succeed_def)
  next
    case False
    with Cons show ?thesis by (simp add: status_of_move_key succeed_def)
  qed
qed simp

lemma update_if_keys: "update_if mv from to msg mss = Some mss' \<Longrightarrow> map status_key mss' = map status_key mss"
  by (induction mss arbitrary: mss') (auto simp: status_key_def split: if_splits)

lemma initial_keys: "map status_key (initial_statuses mvs) = map move_key mvs"
  by (simp add: initial_statuses_def status_key_def move_key_def)

lemma succeed_keys [simp]: "map status_key (succeed mv mss) = map status_key mss"
  by (simp add: succeed_def status_key_def)

lemma fold_succeed_keys [simp]: "map status_key (fold succeed mvs mss) = map status_key mss"
  by (induction mvs arbitrary: mss) (simp_all del: map_eq_conv)

lemma fold_succeed_marks:
  "ms \<in> set (fold succeed mvs mss) \<Longrightarrow> status_key ms \<in> move_key ` set mvs \<Longrightarrow> ms_Status ms = MoveSucceeded"
proof (induction mvs arbitrary: ms rule: rev_induct)
  case (snoc mv mvs)
  then have "ms \<in> set (succeed mv (fold succeed mvs mss))" by simp
  then obtain ms' where ms': "ms' \<in> set (fold succeed mvs mss)"
    "ms = (if status_key ms' = move_key mv then ms'\<lparr>ms_Status := MoveSucceeded, ms_Message := ''reschedule completed''\<rparr> else ms')"
    unfolding succeed_def [of mv "fold succeed mvs mss"] set_map by blast
  with snoc show ?case by (cases "status_key ms' = move_key mv") auto
qed simp

lemma all_succeeded:
  assumes "map status_key mss = map move_key mvs"
  shows "list_all (\<lambda>ms. ms_Status ms = MoveSucceeded) (fold succeed mvs mss)"
  unfolding list_all_iff
proof
  fix ms assume ms: "ms \<in> set (fold succeed mvs mss)"
  then have "status_key ms \<in> set (map status_key (fold succeed mvs mss))" unfolding set_map by (rule imageI)
  then have "status_key ms \<in> move_key ` set mvs" unfolding fold_succeed_keys assms set_map .
  with ms show "ms_Status ms = MoveSucceeded" by (rule fold_succeed_marks)
qed

subsubsection \<open>The run\<close>

text \<open>Whenever the binding of the move is read, it runs and carries the intent of the plan.\<close>

definition binding_runs :: "env \<Rightarrow> history \<Rightarrow> string \<Rightarrow> PlanMove \<Rightarrow> bool" where
  "binding_runs E h0 tok mv \<longleftrightarrow> (\<forall>t. \<exists>rb. env_get_rb E (h0 @ t) (move_rb_key mv) = Inr rb \<and>
     rb_Phase (rb_Status rb) = Running \<and> \<not> need_patch mv tok rb)"

lemma computeMoveStatus_running:
  "rb_Phase (rb_Status rb) = Running \<Longrightarrow> rb_RescheduleRequest (rb_Spec rb) = buildRescheduleRequestToken p \<Longrightarrow>
    computeMoveStatus p rb = (MoveSucceeded, ''reschedule completed'')"
  by (simp add: computeMoveStatus_def Let_def)

lemma at_get_rb:
  assumes "at_plan lo h0 p ph mss w" and "binding_runs E h0 tok mv"
    and "\<And>rb w'. rb_Phase (rb_Status rb) = Running \<Longrightarrow> \<not> need_patch mv tok rb \<Longrightarrow> at_plan lo h0 p ph mss w' \<Longrightarrow> Q (Inr rb) w'"
  shows "wp (get_rb E (move_rb_key mv)) Q w"
proof -
  obtain t where "hist w = h0 @ t" using assms(1) unfolding at_plan_def by blast
  then obtain rb where "env_get_rb E (hist w) (move_rb_key mv) = Inr rb" "rb_Phase (rb_Status rb) = Running" "\<not> need_patch mv tok rb"
    using assms(2) unfolding binding_runs_def by metis
  with assms(3) [of rb] at_plan_other [OF assms(1)] show ?thesis by (simp add: get_rb_def wp_call)
qed

lemma at_apply_move:
  assumes "plan_store E h0 p lo" and "at_plan lo h0 p ph mss w" and "known lo p q" and "binding_runs E h0 (buildRescheduleRequestToken p) mv"
  shows "wp (apply_move E q mv) (\<lambda>_ w'. \<exists>mss'. map status_key mss' = map status_key mss \<and> at_plan lo h0 p ph mss' w') w"
proof -
  let ?Q = "\<lambda>w'. \<exists>mss'. map status_key mss' = map status_key mss \<and> at_plan lo h0 p ph mss' w'"
  have "wp (patchMoveStatusIf E q mv MovePending MoveInProgress msg) (\<lambda>_. ?Q) w'" if w': "at_plan lo h0 p ph mss w'" for w' msg
    unfolding patchMoveStatusIf_def wp_bind known_fields(1) [OF assms(3)]
  proof (rule at_get_plan [OF assms(1) w'])
    fix r w2 assume r: "known lo p r" "phase_of r = ph" "statuses r = mss" and w2: "at_plan lo h0 p ph mss w2"
    have "wp (patch_plan E r (set_statuses mss' r)) (\<lambda>_. ?Q) w3" if "at_plan lo h0 p ph mss w3" "map status_key mss' = map status_key mss" for w3 mss'
      using r that(2) by (intro wp_mono [OF at_patch_plan [OF assms(1) that(1)]]) auto
    with r w2 show "wp (case Inr r of Inl err \<Rightarrow> State_Monad.return (ignore_not_found err)
        | Inr latest \<Rightarrow> (case update_if mv MovePending MoveInProgress msg (plan_MoveStatuses (plan_Status latest)) of
             None \<Rightarrow> State_Monad.return None
           | Some mss \<Rightarrow> State_Monad.bind (metrics_inc MoveInProgress) (\<lambda>_. patch_plan E latest (set_statuses mss latest)))) (\<lambda>_. ?Q) w2"
      by (auto simp: statuses_fold wp_return wp_bind split: option.split dest: update_if_keys intro!: wp_mono [OF at_metrics])
  qed
  then show ?thesis
    unfolding apply_move_def wp_bind Let_def known_fields(4) [OF assms(3)]
    by (intro at_get_rb [OF assms(2,4)]) (simp add: wp_bind wp_return_ext)
qed

lemma at_track_move:
  assumes "plan_store E h0 p lo" and "at_plan lo h0 p ph mss w" and "known lo p q" and "binding_runs E h0 (buildRescheduleRequestToken p) mv"
    and "distinct (map status_key mss)" and "move_key mv \<in> status_key ` set mss"
  shows "wp (track_move E q mv) (\<lambda>_. at_plan lo h0 p ph (succeed mv mss)) w"
proof -
  have "wp (patchMoveStatus E q mv MoveSucceeded ''reschedule completed'') (\<lambda>_. at_plan lo h0 p ph (succeed mv mss)) w'"
    if w': "at_plan lo h0 p ph mss w'" for w'
    unfolding patchMoveStatus_def wp_bind known_fields(1) [OF assms(3)]
  proof (rule at_get_plan [OF assms(1) w'])
    fix r w2 assume r: "known lo p r" "phase_of r = ph" "statuses r = mss" and w2: "at_plan lo h0 p ph mss w2"
    have "wp (patch_plan E r (set_statuses (succeed mv mss) r)) (\<lambda>_. at_plan lo h0 p ph (succeed mv mss)) w2"
      using r by (intro wp_mono [OF at_patch_plan [OF assms(1) w2]]) auto
    with r show "wp (case Inr r of Inl err \<Rightarrow> State_Monad.return (ignore_not_found err)
        | Inr latest \<Rightarrow> (case update_first mv MoveSucceeded ''reschedule completed'' (plan_MoveStatuses (plan_Status latest)) of
           Some mss \<Rightarrow> patch_plan E latest (set_statuses mss latest)
         | None \<Rightarrow> State_Monad.bind (metrics_inc MoveSucceeded) (\<lambda>_. patch_plan E latest (set_statuses (plan_MoveStatuses (plan_Status latest) @
               [\<lparr>ms_GlobalDeploymentRef = mv_GlobalDeploymentRef mv, ms_ReplicaIndex = mv_ReplicaIndex mv,
                 ms_Status = MoveSucceeded, ms_Message = ''reschedule completed''\<rparr>]) latest))))
        (\<lambda>_. at_plan lo h0 p ph (succeed mv mss)) w2"
      by (simp add: statuses_fold update_first_keyed [OF assms(5,6)])
  qed
  moreover have "computeMoveStatus q rb = (MoveSucceeded, ''reschedule completed'')"
    if "rb_Phase (rb_Status rb) = Running" "\<not> need_patch mv (buildRescheduleRequestToken p) rb" for rb
    using that known_fields(4) [OF assms(3)] by (intro computeMoveStatus_running) (simp_all add: need_patch_def)
  ultimately show ?thesis
    unfolding track_move_def wp_bind Let_def by (intro at_get_rb [OF assms(2,4)]) (simp add: wp_bind wp_return_ext)
qed

lemma at_track_moves:
  assumes "plan_store E h0 p lo" and "at_plan lo h0 p ph mss w" and "known lo p q"
    and "\<And>mv. mv \<in> set mvs \<Longrightarrow> binding_runs E h0 (buildRescheduleRequestToken p) mv"
    and "distinct (map status_key mss)" and "move_key ` set mvs \<subseteq> status_key ` set mss"
  shows "wp (io_each (track_move E q) mvs) (\<lambda>_. at_plan lo h0 p ph (fold succeed mvs mss)) w"
  using assms(2,4-6)
proof (induction mvs arbitrary: mss w)
  case (Cons mv mvs)
  have keys: "status_key ` set (succeed mv mss) = status_key ` set mss" by (metis set_map succeed_keys)
  have "wp (track_move E q mv) (\<lambda>_. at_plan lo h0 p ph (succeed mv mss)) w"
    using Cons.prems by (intro at_track_move [OF assms(1) _ assms(3)]) auto
  then show ?case unfolding io_each.simps wp_bind
    by (rule wp_mono) (use Cons.prems in \<open>auto intro!: Cons.IH simp: keys simp del: map_eq_conv\<close>)
qed (simp add: wp_return)

lemma at_converge:
  assumes "plan_store E h0 p lo" and "at_plan lo h0 p PlanExecuting mss w" and "plan_key q = plan_key p"
    and "list_all (\<lambda>ms. ms_Status ms = MoveSucceeded) mss" and "plan_Moves (plan_Spec p) = [] \<or> mss \<noteq> []"
  shows "wp (convergePlanPhase E q) (\<lambda>r w'. r = (0, None) \<and> at_plan lo h0 p PlanSucceeded mss w') w"
proof -
  let ?Q = "\<lambda>r w'. r = (0, None) \<and> at_plan lo h0 p PlanSucceeded mss w'"
  let ?close = "\<lambda>g. case g of Inl err \<Rightarrow> ignore_missing err
      | Inr latest \<Rightarrow> (let mss = plan_MoveStatuses (plan_Status latest) in
          if plan_Moves (plan_Spec latest) \<noteq> [] \<and> mss = [] then requeue (500 * Millisecond)
          else if \<not> all_terminal mss then requeue (2 * Second)
          else if plan_Phase (plan_Status latest) = final_phase mss \<and> plan_CompletionTime (plan_Status latest) \<noteq> None then done_ok
          else State_Monad.bind (now E) (\<lambda>t. State_Monad.bind (patch_plan E latest (finish_plan E (final_phase mss) t latest))
            (\<lambda>err. State_Monad.return (0, err))))"
  have ends: "final_phase mss = PlanSucceeded" "all_terminal mss"
    using assms(4) by (auto simp: final_phase_def all_terminal_def list_all_iff list_ex_iff)
  have fin: "wp (patch_plan E r (finish_plan E PlanSucceeded t r)) (\<lambda>r w'. r = None \<and> at_plan lo h0 p PlanSucceeded mss w') w3"
    if "known lo p r" "phase_of r = PlanExecuting" "statuses r = mss" "at_plan lo h0 p PlanExecuting mss w3" for r t w3
    using at_patch_plan [OF assms(1) that(4,1,2,3) _ _ started_frame(2) [OF that(1)], of E PlanSucceeded t] that(3) by simp
  have close: "wp (?close (Inr l)) ?Q w3"
    if l: "known lo p l" "phase_of l = PlanExecuting" "statuses l = mss" and w3: "at_plan lo h0 p PlanExecuting mss w3" for l w3
  proof -
    have "plan_Phase (plan_Status l) = PlanExecuting" using l(2) by (simp add: phase_of_def)
    moreover have "(plan_Moves (plan_Spec l) \<noteq> [] \<and> mss = []) = False" using assms(5) known_fields(3) [OF l(1)] by auto
    ultimately show ?thesis
      using ends l(3) fin [OF l w3] by (auto simp: statuses_fold Let_def wp_bind wp_now wp_return_ext)
  qed
  have "wp (State_Monad.bind (recomputePlanExecutionSummary E r) (\<lambda>_. State_Monad.bind (get_plan E (plan_key p)) ?close)) ?Q w'"
    if "known lo p r" "at_plan lo h0 p PlanExecuting mss w'" for r w'
    unfolding wp_bind
    by (rule wp_mono [OF at_recompute [OF assms(1) that(2) known_fields(1) [OF that(1)]]]) (rule at_get_plan [OF assms(1)], assumption, rule close)
  then show ?thesis unfolding convergePlanPhase_def assms(3)
    by (subst wp_bind, intro at_get_plan [OF assms(1,2)]) simp
qed

text \<open>The statuses before \<open>executeMoves\<close> are those of the moves, or there are none yet.\<close>

lemma at_executeMoves:
  assumes "plan_store E h0 p lo" and "at_plan lo h0 p ph mss w" and "known lo p q" and "mvs = plan_Moves (plan_Spec p)"
    and "\<And>mv. mv \<in> set mvs \<Longrightarrow> binding_runs E h0 (buildRescheduleRequestToken p) mv"
    and "mss = [] \<or> map status_key mss = map move_key mvs"
  shows "wp (executeMoves E q) (\<lambda>r w'. r = None \<and> (\<exists>mss'. map status_key mss' = map move_key mvs \<and> at_plan lo h0 p ph mss' w')) w"
proof -
  let ?at = "\<lambda>w'. \<exists>mss'. map status_key mss' = map move_key mvs \<and> at_plan lo h0 p ph mss' w'"
  have moves: "wp (io_each (apply_move E l) mvs) (\<lambda>_. ?at) w'" if "known lo p l" "?at w'" for l w'
    by (rule wp_each [where I = ?at]) (use that assms(5) in \<open>auto intro!: wp_mono [OF at_apply_move [OF assms(1) _ that(1)]]\<close>)
  have recompute: "wp (recomputePlanExecutionSummary E l) (\<lambda>_. ?at) w'" if "known lo p l" "?at w'" for l w'
    using that(2) by (auto intro: wp_mono [OF at_recompute [OF assms(1) _ known_fields(1) [OF that(1)]]])
  have rest: "wp (State_Monad.bind (io_each (apply_move E l) (plan_Moves (plan_Spec l))) (\<lambda>_.
      State_Monad.bind (recomputePlanExecutionSummary E l) (\<lambda>_. State_Monad.return None))) (\<lambda>r w'. r = None \<and> ?at w') w'"
    if l: "known lo p l" and w': "?at w'" for l w'
    unfolding wp_bind wp_return_ext known_fields(3) [OF l] assms(4) [symmetric]
    by (rule wp_mono [OF moves [OF l w']], rule wp_mono [OF recompute [OF l]]) simp_all
  show ?thesis
    unfolding executeMoves_def Let_def known_fields(1) [OF assms(3)]
  proof (subst wp_bind, rule at_get_plan [OF assms(1,2)], unfold sum.case wp_bind [of "now E"] wp_now)
    fix b w' assume b: "known lo p b" "phase_of b = ph" "statuses b = mss" and w': "at_plan lo h0 p ph mss w'"
    let ?st = "plan_Status b" and ?t = "env_now E (hist w')"
    let ?init = "plan_MoveStatuses ?st = [] \<and> plan_Moves (plan_Spec b) \<noteq> []"
    let ?st1 = "if plan_StartTime ?st = None then ?st\<lparr>plan_StartTime := Some ?t\<rparr> else ?st"
    let ?new = "b\<lparr>plan_Status := if ?init then ?st1\<lparr>plan_MoveStatuses := initial_statuses (plan_Moves (plan_Spec b))\<rparr> else ?st1\<rparr>"
    let ?rest = "\<lambda>r. case r of Inl err \<Rightarrow> State_Monad.return (Some err)
      | Inr l \<Rightarrow> State_Monad.bind (io_each (apply_move E l) (plan_Moves (plan_Spec l))) (\<lambda>_.
          State_Monad.bind (recomputePlanExecutionSummary E l) (\<lambda>_. State_Monad.return None))"
    let ?Q = "\<lambda>r w'. r = None \<and> ?at w'"
    have spec: "plan_Moves (plan_Spec b) = mvs" and mss: "plan_MoveStatuses ?st = mss"
      using known_fields(3) [OF b(1)] assms(4) b(3) by (simp_all add: statuses_def)
    have new: "phase_of ?new = ph" "map status_key (statuses ?new) = map move_key mvs"
      using assms(6) b(2) spec mss initial_keys [of mvs] by (auto simp: phase_of_def statuses_def)
    have keys: "map status_key mss = map move_key mvs" if "\<not> ?init" using that assms(6) spec mss by auto
    obtain t where "hist w' = h0 @ t" using w' by (rule at_planE)
    then have "lo \<le> ?t" using assms(1) by (simp add: plan_store_def in_time_def)
    then have start: "started_since lo ?new" using b(1) by (auto simp: known_def started_since_def)
    have patched: "wp (write_plan E (StatusPatchPlan b ?new)) (\<lambda>r. wp (?rest r) ?Q) w'"
    proof (rule at_write_plan [OF assms(1) w' b _ _ start])
      fix l w2 assume l: "known lo p l" and "at_plan lo h0 p (phase_of ?new) (statuses ?new) w2"
      then have "?at w2" using new by metis
      then show "wp (?rest (Inr l)) ?Q w2" unfolding sum.case by (rule rest [OF l])
    qed simp_all
    have kept: "wp (?rest (Inr b)) ?Q w'" if "\<not> ?init" unfolding sum.case by (rule rest [OF b(1)]) (use keys [OF that] w' in blast)
    show "wp (State_Monad.bind (if plan_StartTime ?st = None \<or> ?init then write_plan E (StatusPatchPlan b ?new)
        else State_Monad.return (Inr b)) ?rest) ?Q w'"
      by (subst wp_bind, rule wp_ifI, rule patched, unfold wp_return_ext, rule kept, blast)
  qed
qed

lemma at_in_time:
  assumes "plan_store E h0 p lo" and "at_plan lo h0 p ph mss w" and "known lo p q" and "plan_StartTime (plan_Status q) = Some s"
  shows "sat64 (env_now E (hist w) - s) \<le> plan_timeout E q"
proof -
  obtain t where "hist w = h0 @ t" using assms(2) by (rule at_planE)
  then have "lo \<le> env_now E (hist w)" "env_now E (hist w) - lo \<le> plan_timeout E p"
    using assms(1) by (simp_all add: plan_store_def in_time_def)
  moreover have "lo \<le> s" using assms(3,4) by (simp add: known_def started_since_def)
  ultimately show ?thesis unfolding known_fields(5) [OF assms(3)] by (auto simp: sat64_def)
qed

lemma at_monitor:
  assumes "plan_store E h0 p lo" and "at_plan lo h0 p PlanExecuting mss w"
    and "known lo p q" and "mvs = plan_Moves (plan_Spec p)" and "map status_key mss = map move_key mvs" and "distinct (map move_key mvs)"
    and "\<And>mv. mv \<in> set mvs \<Longrightarrow> binding_runs E h0 (buildRescheduleRequestToken p) mv"
  shows "wp (monitorAndConverge E q) (\<lambda>r w'. r = (0, None) \<and> at_plan lo h0 p PlanSucceeded (fold succeed mvs mss) w') w"
proof -
  let ?Q = "\<lambda>r w'. r = (0, None) \<and> at_plan lo h0 p PlanSucceeded (fold succeed mvs mss) w'"
  have track: "wp (State_Monad.bind (io_each (track_move E l) mvs) (\<lambda>_. convergePlanPhase E l)) ?Q w'"
    if l: "known lo p l" and w': "at_plan lo h0 p PlanExecuting mss w'" for l w'
    unfolding wp_bind
  proof (rule wp_mono [OF at_track_moves [OF assms(1) w' l assms(7)]])
    show "distinct (map status_key mss)" using assms(5,6) by simp
    show "move_key ` set mvs \<subseteq> status_key ` set mss" using assms(5) by (metis order_refl set_map)
    have "map status_key (fold succeed mvs mss) = map move_key mvs" using assms(5) by simp
    then have "plan_Moves (plan_Spec p) = [] \<or> fold succeed mvs mss \<noteq> []" using assms(4) by (metis list.map_disc_iff)
    then show "wp (convergePlanPhase E l) ?Q w2" if "at_plan lo h0 p PlanExecuting (fold succeed mvs mss) w2" for w2
      using at_converge [OF assms(1) that known_fields(1) [OF l] all_succeeded [OF assms(5)]] by blast
  qed simp
  show ?thesis unfolding monitorAndConverge_def known_fields(1) [OF assms(3)]
  proof (subst wp_bind, rule at_get_plan [OF assms(1,2)])
    fix l w' assume l: "known lo p l" "statuses l = mss" and w': "at_plan lo h0 p PlanExecuting mss w'"
    have "\<not> (case plan_StartTime (plan_Status l) of None \<Rightarrow> False | Some s \<Rightarrow> sat64 (env_now E (hist w') - s) > plan_timeout E l)"
      using at_in_time [OF assms(1) w' l(1)] by (auto simp: not_less split: option.split)
    then have "wp (monitor_latest E l) ?Q w'"
      using track [OF l(1) w'] known_fields(3) [OF l(1)] assms(4) by (simp add: monitor_latest_def wp_bind wp_now)
    moreover have "\<not> (plan_Moves (plan_Spec l) \<noteq> [] \<and> plan_MoveStatuses (plan_Status l) = [])"
      using known_fields(3) [OF l(1)] assms(4,5) l(2) by (auto simp: statuses_def)
    ultimately show "wp (case Inr l of Inl err \<Rightarrow> ignore_missing err
        | Inr latest \<Rightarrow> if plan_Moves (plan_Spec latest) \<noteq> [] \<and> plan_MoveStatuses (plan_Status latest) = []
            then State_Monad.bind (patch_plan E latest (set_statuses (initial_statuses (plan_Moves (plan_Spec latest))) latest))
              (\<lambda>err. case err of Some e \<Rightarrow> fail_with e | None \<Rightarrow> State_Monad.bind (get_plan E (plan_key p))
                (\<lambda>g. case g of Inl err \<Rightarrow> ignore_missing err | Inr latest \<Rightarrow> monitor_latest E latest))
            else monitor_latest E latest) ?Q w'" unfolding sum.case by (simp only: if_False)
  qed
qed

text \<open>
  C10: A plan whose bindings run is completed. Let the plan be open, with a strategy that executes it, and let this
  controller be the only writer of its status while the run lasts (the server may number versions and round times);
  let the moves concern different replicas and the recorded statuses be none yet or those of the moves; let no
  clock reading show the timeout passed since the start that the answers show; and let every binding of a move, whenever the run reads it, be Running and carry
  the whole intent of the move: its target, the flag and the token of the plan. Then one run of the controller ends
  without error and without asking to be called again, and afterwards the stored plan has the phase Succeeded and
  every move is Succeeded.
\<close>

theorem plan_completes_when_bindings_run:
  assumes "single_writer E (hist w) p" and "in_time E (hist w) p lo" and "\<not> plan_finished (phase_of p)"
    and "plan_strategy p = ''Conservative'' \<or> plan_strategy p = ''Aggressive''"
    and "distinct (map move_key (plan_Moves (plan_Spec p)))"
    and "statuses p = [] \<or> map status_key (statuses p) = map move_key (plan_Moves (plan_Spec p))"
    and "\<And>mv. mv \<in> set (plan_Moves (plan_Spec p)) \<Longrightarrow> binding_runs E (hist w) (buildRescheduleRequestToken p) mv"
  shows "result (plan_Reconcile E (plan_key p)) w = (0, None) \<and>
    (\<exists>q. env_get_plan E (hist (exec (plan_Reconcile E (plan_key p)) w)) (plan_key p) = Inr q \<and> phase_of q = PlanSucceeded \<and>
      map status_key (statuses q) = map move_key (plan_Moves (plan_Spec q)) \<and> list_all (\<lambda>ms. ms_Status ms = MoveSucceeded) (statuses q))"
proof -
  let ?h0 = "hist w" and ?mvs = "plan_Moves (plan_Spec p)"
  let ?done = "\<lambda>mss w'. map status_key mss = map move_key ?mvs \<and> at_plan lo ?h0 p PlanSucceeded (fold succeed ?mvs mss) w'"
  let ?Q = "\<lambda>r w'. r = (0, None) \<and> (\<exists>mss. ?done mss w')"
  let ?finish = "\<lambda>q. State_Monad.bind (executeMoves E q) (\<lambda>err. case err of Some e \<Rightarrow> fail_with e
     | None \<Rightarrow> State_Monad.bind (monitorAndConverge E q) (\<lambda>res. State_Monad.return (case snd res of Some e \<Rightarrow> (0, Some e) | None \<Rightarrow> res)))"
  have store: "plan_store E ?h0 p lo" using assms(1,2) by (simp add: plan_store_def)
  have start: "at_plan lo ?h0 p (phase_of p) (statuses p) w" unfolding at_plan_def by (intro exI [of _ "[]"]) (simp add: starts_written_def)
  have finish: "wp (?finish q) ?Q w'" if q: "known lo p q" and w': "at_plan lo ?h0 p PlanExecuting (statuses p) w'" for q w'
    unfolding wp_bind
  proof (rule wp_mono [OF at_executeMoves [OF store w' q refl assms(7,6)]])
    fix r :: "api_err option" and w2 assume r: "r = None \<and> (\<exists>mss. map status_key mss = map move_key ?mvs \<and> at_plan lo ?h0 p PlanExecuting mss w2)"
    then obtain mss where mss: "map status_key mss = map move_key ?mvs" "at_plan lo ?h0 p PlanExecuting mss w2" by blast
    have "wp (monitorAndConverge E q) (\<lambda>res. wp (State_Monad.return (case snd res of Some e \<Rightarrow> (0, Some e) | None \<Rightarrow> res)) ?Q) w2"
      by (rule wp_mono [OF at_monitor [OF store mss(2) q refl mss(1) assms(5,7)]]) (use mss(1) in \<open>auto simp: wp_return\<close>)
    with r show "wp (case r of Some e \<Rightarrow> fail_with e | None \<Rightarrow> State_Monad.bind (monitorAndConverge E q)
        (\<lambda>res. State_Monad.return (case snd res of Some e \<Rightarrow> (0, Some e) | None \<Rightarrow> res))) ?Q w2" by (simp add: wp_bind)
  qed
  have decision: "fst (plan_decision (plan_strategy p)) = PlanExecuting" using assms(4) by (auto simp: plan_decision_def)
  have "wp (plan_Reconcile E (plan_key p)) ?Q w" unfolding plan_Reconcile_def Let_def
  proof (subst wp_bind, rule at_get_plan [OF store start])
    fix r w' assume r: "known lo p r" "phase_of r = phase_of p" "statuses r = statuses p" and w': "at_plan lo ?h0 p (phase_of p) (statuses p) w'"
    let ?new = "decide_plan E (env_now E (hist w')) r"
    have dec: "fst (plan_decision (plan_strategy r)) = PlanExecuting" using decision known_fields(2) [OF r(1)] by simp
    then have new: "plan_Meta ?new = plan_Meta r" "plan_Spec ?new = plan_Spec r" "phase_of ?new = PlanExecuting" "statuses ?new = statuses r"
      by (auto simp: decide_plan_def phase_of_def statuses_def split: prod.splits)
    let ?go = "\<lambda>g. case g of Inl err \<Rightarrow> ignore_missing err | Inr plan \<Rightarrow> ?finish plan"
    have patched: "wp (write_plan E (StatusPatchPlan r ?new)) (\<lambda>x. wp (?go x) ?Q) w'"
      by (rule at_write_plan [OF store w' r new(1,2) started_frame(4) [OF r(1)]]) (use new(3,4) r(3) finish in simp)
    have kept: "wp (?go (Inr r)) ?Q w'" if "\<not> plan_Phase (plan_Status r) \<noteq> PlanExecuting"
      using finish [OF r(1), of w'] w' that r(2) by (simp add: phase_of_def)
    have "\<not> plan_finished (plan_Phase (plan_Status r))" using r(2) assms(3) by (simp add: phase_of_def)
    moreover have "wp (State_Monad.bind (if plan_Phase (plan_Status r) \<noteq> PlanExecuting then write_plan E (StatusPatchPlan r ?new)
        else State_Monad.return (Inr r)) ?go) ?Q w'"
      by (subst wp_bind, rule wp_ifI, rule patched, unfold wp_return_ext, rule kept)
    ultimately show "wp (case Inr r of Inl err \<Rightarrow> ignore_missing err
     | Inr plan \<Rightarrow>
         if plan_finished (plan_Phase (plan_Status plan)) then done_ok
         else State_Monad.bind (now E) (\<lambda>t. State_Monad.bind (if plan_Phase (plan_Status plan) \<noteq> fst (plan_decision (plan_strategy plan))
             then write_plan E (StatusPatchPlan plan (decide_plan E t plan)) else State_Monad.return (Inr plan))
           (\<lambda>x. case x of Inl err \<Rightarrow> ignore_missing err
             | Inr pl \<Rightarrow> if fst (plan_decision (plan_strategy plan)) = PlanExecuting then ?finish pl else done_ok))) ?Q w'"
      by (simp only: sum.case if_False dec if_True refl wp_bind [of "now E"] wp_now)
  qed
  then obtain mss where res: "result (plan_Reconcile E (plan_key p)) w = (0, None)" and keys: "map status_key mss = map move_key ?mvs"
    and at: "at_plan lo ?h0 p PlanSucceeded (fold succeed ?mvs mss) (exec (plan_Reconcile E (plan_key p)) w)" by (auto simp: wp_result)
  from at_get_plan [OF store at, where Q = "\<lambda>r _. \<exists>q. r = Inr q \<and> known lo p q \<and> phase_of q = PlanSucceeded \<and> statuses q = fold succeed ?mvs mss"]
  obtain q where q: "env_get_plan E (hist (exec (plan_Reconcile E (plan_key p)) w)) (plan_key p) = Inr q" "known lo p q"
    "phase_of q = PlanSucceeded" "statuses q = fold succeed ?mvs mss" by (auto simp: get_plan_def wp_call)
  have "map status_key (statuses q) = map move_key (plan_Moves (plan_Spec q))" using keys q(4) known_fields(3) [OF q(2)] by simp
  moreover have "list_all (\<lambda>ms. ms_Status ms = MoveSucceeded) (statuses q)" unfolding q(4) by (rule all_succeeded [OF keys])
  ultimately show ?thesis using res q(1,3) by blast
qed

subsection \<open>Sample runs\<close>

definition sample_move :: PlanMove where
  "sample_move = \<lparr>mv_GlobalDeploymentRef = \<lparr>ref_Name = ''web'', ref_Namespace = ''ns''\<rparr>, mv_ReplicaIndex = 0,
     mv_Source = \<lparr>ml_ClusterID = ''west'', ml_ClusterName = '''', ml_NodeName = ''node-1''\<rparr>,
     mv_Destination = \<lparr>ml_ClusterID = ''east'', ml_ClusterName = '''', ml_NodeName = ''node-2''\<rparr>\<rparr>"

definition sample_plan :: "string \<Rightarrow> PlanPhase \<Rightarrow> MoveStatus list \<Rightarrow> ReOrchestrationPlan" where
  "sample_plan strategy ph mss =
    \<lparr>plan_Meta = (sample_meta ''plan'' [])\<lparr>om_Annotations := [(''kubex.io/strategy'', strategy)]\<rparr>,
     plan_Spec = \<lparr>plan_SpecSummary = bare_summary ''policy'', plan_Moves = [sample_move]\<rparr>,
     plan_Status = \<lparr>plan_Phase = ph, plan_Summary = zero_summary, plan_StartTime = Some 0, plan_CompletionTime = None,
       plan_MoveStatuses = mss, plan_Conditions = []\<rparr>\<rparr>"

definition sample_status :: "MoveExecutionStatus \<Rightarrow> MoveStatus" where
  "sample_status st = \<lparr>ms_GlobalDeploymentRef = mv_GlobalDeploymentRef sample_move, ms_ReplicaIndex = 0, ms_Status = st,
     ms_Message = ''reschedule completed''\<rparr>"

definition executing :: "MoveExecutionStatus \<Rightarrow> ReOrchestrationPlan" where
  "executing st = sample_plan ''Aggressive'' PlanExecuting [sample_status st]"

text \<open>The binding of the move runs and carries the token of the sample plan.\<close>

definition moved_rb :: ReplicaBinding where
  "moved_rb = with_intent sample_move (buildRescheduleRequestToken (executing MovePending)) (sample_rb Running)"

definition plan_env :: "ReOrchestrationPlan \<Rightarrow> env" where
  "plan_env p = (sample_env Running)\<lparr>env_get_rb := \<lambda>_ _. Inr moved_rb, env_get_plan := \<lambda>h _. Inr (stored_plan p h),
     env_write_plan := \<lambda>_ e. (case e of StatusPatchPlan _ new \<Rightarrow> Inr new | _ \<Rightarrow> Inl gone)\<rparr>"

definition plan_req :: nskey where
  "plan_req = \<lparr>key_Name = ''plan'', key_Namespace = ''ns''\<rparr>"

theorem plan_finished_untouched_witness:
  "run_state (plan_Reconcile (plan_env (sample_plan ''Aggressive'' PlanFailed [])) plan_req) fresh_world =
    ((0, None), fresh_world\<lparr>hist := hist fresh_world @ [GetPlan plan_req]\<rparr>)"
  by (rule plan_finished_untouched [where plan = "sample_plan ''Aggressive'' PlanFailed []"]) code_simp+

theorem plan_preview_never_executes_witness:
  "trace (plan_Reconcile (plan_env (sample_plan ''Preview'' PlanPhaseNone [])) plan_req) fresh_world =
    GetPlan plan_req # (if phase_of (sample_plan ''Preview'' PlanPhaseNone []) = PlanPending then []
      else [StatusPatchPlan (sample_plan ''Preview'' PlanPhaseNone [])
        (decide_plan (plan_env (sample_plan ''Preview'' PlanPhaseNone []))
          (env_now (plan_env (sample_plan ''Preview'' PlanPhaseNone [])) (hist fresh_world @ [GetPlan plan_req]))
          (sample_plan ''Preview'' PlanPhaseNone []))])"
  by (rule plan_preview_never_executes) code_simp+

theorem plan_summary_counts_witness:
  "let s = count_statuses [sample_status MoveSucceeded, sample_status MovePending] zero_summary in
    TotalMoves s = int (length [sample_status MoveSucceeded, sample_status MovePending]) \<and>
    TotalMoves s = SucceededMoves s + FailedMoves s + PendingMoves s \<and>
    SucceededMoves s = int (length (filter (\<lambda>ms. ms_Status ms = MoveSucceeded) [sample_status MoveSucceeded, sample_status MovePending])) \<and>
    FailedMoves s = int (length (filter (\<lambda>ms. ms_Status ms = MoveFailed) [sample_status MoveSucceeded, sample_status MovePending]))"
  by (rule plan_summary_counts) simp

theorem reschedule_token_identifies_plan_witness:
  "om_UID (plan_Meta (executing MovePending)) = om_UID (plan_Meta (executing MoveFailed))"
  by (rule reschedule_token_identifies_plan) code_simp+

text \<open>An API server that always returns the same plan.\<close>

definition const_env :: "ReOrchestrationPlan \<Rightarrow> env" where
  "const_env p = (plan_env p)\<lparr>env_get_plan := \<lambda>_ _. Inr p\<rparr>"

definition const_trace :: "ReOrchestrationPlan \<Rightarrow> history" where
  "const_trace p = trace (plan_Reconcile (const_env p) plan_req) fresh_world"

lemma const_token_stable:
  "buildRescheduleRequestToken p \<noteq> '''' \<Longrightarrow> token_stable (const_env p) (buildRescheduleRequestToken p)"
  by (simp add: token_stable_def const_env_def)

lemma token_cong: "plan_Meta p = plan_Meta q \<Longrightarrow> plan_Spec p = plan_Spec q \<Longrightarrow>
    buildRescheduleRequestToken p = buildRescheduleRequestToken q"
  unfolding buildRescheduleRequestToken_def by (simp only:)

lemma executing_token: "buildRescheduleRequestToken (executing st) = buildRescheduleRequestToken (executing MovePending)"
  by (rule token_cong) (simp_all add: executing_def sample_plan_def)

lemma moved_rb_done: "\<not> need_patch sample_move (buildRescheduleRequestToken (executing st)) moved_rb"
  unfolding executing_token [of st] by (simp add: need_patch_def moved_rb_def with_intent_def)

lemma moved_rb_runs: "computeMoveStatus (executing st) moved_rb = (MoveSucceeded, ''reschedule completed'')"
  by (rule computeMoveStatus_running) (simp_all add: executing_token [of st] moved_rb_def with_intent_def sample_rb_def)

lemma sample_status_own: "status_of_move sample_move (sample_status st)"
  by (simp add: status_of_move_def sample_move_def sample_status_def)

lemma executing_simps:
  "plan_finished PlanExecuting = False"
  "plan_MoveStatuses (plan_Status (executing st)) = [sample_status st]"
  "plan_Moves (plan_Spec (executing st)) = [sample_move]"
  "plan_StartTime (plan_Status (executing st)) = Some 0"
  "plan_Phase (plan_Status (executing st)) = PlanExecuting"
  "plan_CompletionTime (plan_Status (executing st)) = None"
  "fst (plan_decision (plan_strategy (executing st))) = PlanExecuting"
  "plan_timeout E (executing st) = 600000000000"
  by (simp_all add: executing_def sample_plan_def plan_finished_def plan_decision_def plan_strategy_def mget0_def plan_timeout_def
   sample_meta_def defaultPlanExecutionTimeout_def Second_def)

lemma const_env_simps:
  "env_get_plan (const_env p) h k = Inr p" "env_get_rb (const_env p) h k = Inr moved_rb"
  "env_write_plan (const_env p) h (StatusPatchPlan a b) = Inr b" "env_now (const_env p) h = 7"
  by (simp_all add: const_env_def plan_env_def sample_env_def)

lemma status_update: "(sample_status st)\<lparr>ms_Status := st', ms_Message := ''reschedule completed''\<rparr> = sample_status st'"
  by (simp add: sample_status_def)

lemma sample_status_status: "ms_Status (sample_status st) = st"
  by (simp add: sample_status_def)

lemmas const_simps = sample_status_status const_env_simps executing_simps moved_rb_done moved_rb_runs sample_status_own status_update

lemma recompute_const: "wp (recomputePlanExecutionSummary (const_env p) q) Q w \<longleftrightarrow>
    Q None (w\<lparr>hist := hist w @ [GetPlan (plan_key q), StatusPatchPlan p (p\<lparr>plan_Status := (plan_Status p)\<lparr>plan_Summary :=
         count_statuses (plan_MoveStatuses (plan_Status p)) zero_summary\<rparr>\<rparr>)]\<rparr>)"
  by (simp add: recomputePlanExecutionSummary_def patch_plan_def vcg io_defs const_simps)



definition summary_patch :: "MoveExecutionStatus \<Rightarrow> event" where
  "summary_patch st = StatusPatchPlan (executing st) ((executing st)\<lparr>plan_Status := (plan_Status (executing st))\<lparr>plan_Summary :=
     count_statuses [sample_status st] zero_summary\<rparr>\<rparr>)"

lemma executeMoves_const: "st \<noteq> MovePending \<Longrightarrow> wp (executeMoves (const_env (executing st)) p) Q w \<longleftrightarrow>
   Q None (w\<lparr>hist := hist w @ [GetPlan (plan_key p), GetRB (move_rb_key sample_move), GetPlan (plan_key (executing st)),
     GetPlan (plan_key (executing st)), summary_patch st]\<rparr>)"
  unfolding executeMoves_def apply_move_def patchMoveStatusIf_def
  by (simp add: vcg io_defs const_simps recompute_const summary_patch_def Let_def)

lemma track_const: "wp (track_move (const_env (executing st)) (executing st) sample_move) Q w \<longleftrightarrow>
  Q () (w\<lparr>hist := hist w @ [GetRB (move_rb_key sample_move), GetPlan (plan_key (executing st)),
    StatusPatchPlan (executing st) (set_statuses [sample_status MoveSucceeded] (executing st))]\<rparr>)"
  unfolding track_move_def patchMoveStatus_def
  by (simp add: vcg io_defs const_simps patch_plan_def)

lemma converge_const: "wp (convergePlanPhase (const_env (executing st)) p) Q w \<longleftrightarrow>
  Q (if all_terminal [sample_status st] then 0 else 2 * Second, None) (w\<lparr>hist := hist w @ [GetPlan (plan_key p), GetPlan (plan_key (executing st)), summary_patch st, GetPlan (plan_key p)] @
    (if all_terminal [sample_status st] then [StatusPatchPlan (executing st) 
       (finish_plan (const_env (executing st)) (final_phase [sample_status st]) 7 (executing st))] else [])\<rparr>)"
  unfolding convergePlanPhase_def
  by (simp add: vcg io_defs const_simps patch_plan_def recompute_const summary_patch_def Let_def final_phase_def)

lemma const_run: "st \<noteq> MovePending \<Longrightarrow> const_trace (executing st) =
  [GetPlan plan_req, GetPlan (plan_key (executing st)), GetRB (move_rb_key sample_move), GetPlan (plan_key (executing st)),
     GetPlan (plan_key (executing st)), summary_patch st, GetPlan (plan_key (executing st)), 
   GetRB (move_rb_key sample_move), GetPlan (plan_key (executing st)),
    StatusPatchPlan (executing st) (set_statuses [sample_status MoveSucceeded] (executing st)),
   GetPlan (plan_key (executing st)), GetPlan (plan_key (executing st)), summary_patch st, GetPlan (plan_key (executing st))] @
    (if all_terminal [sample_status st] then [StatusPatchPlan (executing st) 
       (finish_plan (const_env (executing st)) (final_phase [sample_status st]) 7 (executing st))] else [])"
  (is "_ \<Longrightarrow> _ = ?tr")
proof -
  assume "st \<noteq> MovePending"
  then have "wp (plan_Reconcile (const_env (executing st)) plan_req) (\<lambda>_ w'. hist w' = ?tr) fresh_world"
    unfolding plan_Reconcile_def monitorAndConverge_def monitor_latest_def
    by (simp add: vcg io_defs const_simps executeMoves_const track_const converge_const Let_def sat64_def fresh_world_def)
  then show ?thesis by (simp add: const_trace_def trace_def wp_result fresh_world_def)
qed


theorem plan_closes_when_all_moves_ended_witness:
  "let base = executing MoveSucceeded; new = finish_plan (const_env base) (final_phase [sample_status MoveSucceeded]) 7 base in
    all_terminal (statuses base) \<and> (plan_Moves (plan_Spec base) = [] \<or> statuses base \<noteq> []) \<and>
    statuses new = statuses base \<and> plan_CompletionTime (plan_Status new) \<noteq> None \<and>
    phase_of new =
      (if list_all (\<lambda>ms. ms_Status ms = MoveSucceeded) (statuses base) then PlanSucceeded
       else if list_all (\<lambda>ms. ms_Status ms = MoveFailed) (statuses base) then PlanFailed else PlanPartiallyFailed)"
  unfolding Let_def
proof (rule plan_closes_when_all_moves_ended [where E = "const_env (executing MoveSucceeded)" and req = plan_req and w = fresh_world])
  show "StatusPatchPlan (executing MoveSucceeded)
      (finish_plan (const_env (executing MoveSucceeded)) (final_phase [sample_status MoveSucceeded]) 7 (executing MoveSucceeded))
      \<in> set (trace (plan_Reconcile (const_env (executing MoveSucceeded)) plan_req) fresh_world)"
    using const_run [of MoveSucceeded] by (simp add: const_trace_def all_terminal_def sample_status_status)
qed code_simp+

theorem plan_success_has_evidence_witness:
  "observed_running (const_env (executing MoveInProgress)) (buildRescheduleRequestToken (executing MoveInProgress))
    (hist fresh_world @ take 9 (const_trace (executing MoveInProgress))) (sample_status MoveSucceeded)"
proof (rule plan_success_has_evidence)
  show "token_stable (const_env (executing MoveInProgress)) (buildRescheduleRequestToken (executing MoveInProgress))"
    by (rule const_token_stable) code_simp
  show "trace (plan_Reconcile (const_env (executing MoveInProgress)) plan_req) fresh_world =
      take 9 (const_trace (executing MoveInProgress)) @
      StatusPatchPlan (executing MoveInProgress) (set_statuses [sample_status MoveSucceeded] (executing MoveInProgress)) #
      drop 10 (const_trace (executing MoveInProgress))"
    unfolding const_trace_def [symmetric] const_run [of MoveInProgress, simplified] by simp
  show "sample_status MoveSucceeded \<in> set (statuses (set_statuses [sample_status MoveSucceeded] (executing MoveInProgress)))"
    by simp
  show "ms_Status (sample_status MoveSucceeded) = MoveSucceeded"
    by code_simp
  show "sample_status MoveSucceeded \<notin> set (statuses (executing MoveInProgress))"
    by code_simp
qed

definition late_env :: env where
  "late_env = (const_env (executing MoveInProgress))\<lparr>env_now := \<lambda>_. 1000000000000\<rparr>"

fun open_patch :: "event \<Rightarrow> bool" where
  "open_patch (StatusPatchPlan base new) \<longleftrightarrow> \<not> list_all ended (statuses base) \<and> \<not> plan_finished (phase_of base)"
| "open_patch e \<longleftrightarrow> False"

text \<open>The move is done, its binding runs; the plan still does not learn of it.\<close>

theorem plan_timeout_fails_no_move_witness:
  "\<exists>base new. StatusPatchPlan base new \<in> set (trace (plan_Reconcile late_env plan_req) fresh_world) \<and>
    \<not> list_all ended (statuses base) \<and> (\<forall>ms \<in> set (statuses new). ended ms \<longrightarrow> ms \<in> set (statuses base)) \<and> \<not> plan_finished (phase_of new)"
proof -
  have "list_ex open_patch (trace (plan_Reconcile late_env plan_req) fresh_world)" by code_simp
  then obtain e where e: "e \<in> set (trace (plan_Reconcile late_env plan_req) fresh_world)" "open_patch e" unfolding list_ex_iff by blast
  from e(2) obtain base new where "e = StatusPatchPlan base new" and base: "\<not> list_all ended (statuses base)" "\<not> plan_finished (phase_of base)"
    by (cases e) simp_all
  with e(1) have run: "StatusPatchPlan base new \<in> set (trace (plan_Reconcile late_env plan_req) fresh_world)" by simp
  have p: "overdue late_env (hist fresh_world) plan_req [sample_move] (executing MoveInProgress)"
    unfolding overdue_def executing_simps by (simp add: late_env_def sat64_def) code_simp
  have timeout: "plan_timeout late_env q = plan_timeout late_env base" if "plan_Meta q = plan_Meta base" for q base
    using that by (simp only: plan_timeout_def)
  have key: "plan_key q = plan_key base" if "plan_Meta q = plan_Meta base" for q base
    using that by (simp only: plan_key_def)
  have "overdue_store late_env (hist fresh_world) plan_req [sample_move]"
    unfolding overdue_store_def
  proof (intro conjI allI impI)
    show "overdue late_env (hist fresh_world) plan_req [sample_move] q"
      if "env_get_plan late_env (hist fresh_world @ t) plan_req = Inr q" for t q
      using that p by (simp add: late_env_def const_env_simps)
    show "overdue late_env (hist fresh_world) plan_req [sample_move] q"
      if "overdue late_env (hist fresh_world) plan_req [sample_move] base \<and> plan_Meta new = plan_Meta base \<and> plan_Spec new = plan_Spec base \<and>
        plan_StartTime (plan_Status new) = plan_StartTime (plan_Status base) \<and>
        env_write_plan late_env (hist fresh_world @ t) (StatusPatchPlan base new) = Inr q" for t base new q
      using that timeout [of new base] key [of new base] by (auto simp: late_env_def const_env_simps overdue_def)
  qed
  moreover have "bindings_writable late_env (hist fresh_world) [sample_move]"
    by (simp add: bindings_writable_def late_env_def const_env_simps) (simp add: const_env_def plan_env_def sample_env_def)
  ultimately show ?thesis using plan_timeout_fails_no_move [OF _ _ run] run base by blast
qed

text \<open>An API server that numbers the versions of the plan.\<close>

definition numbered :: "nat \<Rightarrow> ReOrchestrationPlan \<Rightarrow> ReOrchestrationPlan" where
  "numbered n q = q\<lparr>plan_Meta := (plan_Meta q)\<lparr>om_ResourceVersion := itoa (int n)\<rparr>\<rparr>"

definition numbering_env :: "ReOrchestrationPlan \<Rightarrow> env" where
  "numbering_env p = (plan_env p)\<lparr>env_get_plan := \<lambda>h _. Inr (numbered (length h) (stored_plan p h)),
     env_write_plan := \<lambda>h e. (case e of StatusPatchPlan _ new \<Rightarrow> Inr (numbered (Suc (length h)) new) | _ \<Rightarrow> Inl gone)\<rparr>"

lemma numbered_simps [simp]:
  "agrees (numbered n q) q" "started_since lo (numbered n q) \<longleftrightarrow> started_since lo q"
  by (simp_all add: numbered_def agrees_def framed_def phase_of_def statuses_def started_since_def)

text \<open>A plan that was just created, with one move whose binding runs at its destination.\<close>

theorem plan_completes_when_bindings_run_witness:
  "let p = sample_plan ''Aggressive'' PlanPending []; E = numbering_env p in
    result (plan_Reconcile E plan_req) fresh_world = (0, None) \<and>
    (\<exists>q. env_get_plan E (hist (exec (plan_Reconcile E plan_req) fresh_world)) plan_req = Inr q \<and> phase_of q = PlanSucceeded \<and>
      map status_key (statuses q) = map move_key (plan_Moves (plan_Spec q)) \<and> list_all (\<lambda>ms. ms_Status ms = MoveSucceeded) (statuses q))"
proof -
  let ?p = "sample_plan ''Aggressive'' PlanPending []" and ?h0 = "hist fresh_world"
  let ?E = "numbering_env ?p"
  have h0: "?h0 = []" by (simp add: fresh_world_def)
  have key: "plan_key ?p = plan_req" by code_simp
  have timeout: "plan_timeout ?E ?p = 600000000000" by code_simp
  have "single_writer ?E ?h0 ?p" by (simp add: single_writer_def h0 numbering_env_def)
  moreover have "started_since 0 ?p" by (simp add: started_since_def sample_plan_def)
  then have "in_time ?E ?h0 ?p 0"
    unfolding in_time_def timeout h0 using started_stored [of 0 ?p]
    by (auto simp: numbering_env_def plan_env_def sample_env_def)
  moreover have "buildRescheduleRequestToken ?p = buildRescheduleRequestToken (executing MovePending)"
    by (rule token_cong) (simp_all add: executing_def sample_plan_def)
  then have "binding_runs ?E ?h0 (buildRescheduleRequestToken ?p) mv" if "mv \<in> set (plan_Moves (plan_Spec ?p))" for mv
    using that moved_rb_done [of MovePending]
    by (auto simp: binding_runs_def numbering_env_def plan_env_def sample_plan_def)
      (simp add: moved_rb_def with_intent_def sample_rb_def)
  moreover have "\<not> plan_finished (phase_of ?p)" "plan_strategy ?p = ''Aggressive''" "statuses ?p = []"
    "distinct (map move_key (plan_Moves (plan_Spec ?p)))" by code_simp+
  ultimately show ?thesis unfolding Let_def key [symmetric]
    by (intro plan_completes_when_bindings_run [where lo = 0]) simp_all
qed

end
