(* ===== verification/Scheduler.thy ===== *)
theory Scheduler
  imports Kube_Model
begin

section \<open>The replica scheduler\<close>

text \<open>
  The scheduling part of \<open>src/controller/internal/controller/globaldeployment_controller.go\<close>: the scheduler's
  view of the member nodes, their order (\<open>buildOrderedNodes\<close>: clusters by name, nodes of a cluster by free
  resources, then one node of every cluster in turn), the resource check, and the choice of the next
  fitting node after a cursor (\<open>pickNextFit\<close>).

  Quantities are rational numbers. \<open>sort.Slice\<close> leaves the order of equal elements open; \<open>sort_slice\<close> is the
  insertion sort it uses for short slices. A cursor is always the index of an earlier choice, or 0.
\<close>

record orderedNode =
  on_ClusterID :: string
  on_NodeName :: string
  on_Ready :: bool
  on_FreeCPU :: quantity
  on_FreeMem :: quantity

record reqResources =
  req_CPU :: quantity
  req_Mem :: quantity

subsection \<open>Candidate nodes\<close>

definition probe_ttl :: int where
  "probe_ttl = 2 * 60 * Second"

definition cluster_usable :: "time \<Rightarrow> Cluster \<Rightarrow> bool" where
  "cluster_usable t c \<longleftrightarrow> cl_Phase c = ClusterReady \<and>
    (case cl_LastProbeTime c of None \<Rightarrow> True | Some p \<Rightarrow> \<not> sat64 (t - p) > probe_ttl)"

definition node_usable :: "NodeSummary \<Rightarrow> bool" where
  "node_usable n \<longleftrightarrow> cn_Ready n \<and> cn_Name n \<noteq> '''' \<and> \<not> (cn_FreeCPU n = 0 \<and> cn_FreeMemory n = 0)"

definition node_view :: "string \<Rightarrow> NodeSummary \<Rightarrow> orderedNode" where
  "node_view clusterID n = \<lparr>on_ClusterID = clusterID, on_NodeName = cn_Name n, on_Ready = cn_Ready n,
     on_FreeCPU = cn_FreeCPU n, on_FreeMem = cn_FreeMemory n\<rparr>"

definition add_node :: "string \<Rightarrow> NodeSummary \<Rightarrow> (string, orderedNode list) gomap \<Rightarrow> (string, orderedNode list) gomap" where
  "add_node cid n grp = (if node_usable n then mput cid (mget0 [] grp cid @ [node_view cid n]) grp else grp)"

definition add_cluster :: "time \<Rightarrow> Cluster \<Rightarrow> (string, orderedNode list) gomap \<Rightarrow> (string, orderedNode list) gomap" where
  "add_cluster t c grp = (if cluster_usable t c then fold (add_node (om_Name (cl_Meta c))) (cl_Nodes c) grp else grp)"

definition group_nodes :: "time \<Rightarrow> Cluster list \<Rightarrow> (string, orderedNode list) gomap" where
  "group_nodes t cs = fold (add_cluster t) cs []"

subsection \<open>Order\<close>

definition node_before :: "orderedNode \<Rightarrow> orderedNode \<Rightarrow> bool" where
  "node_before a b \<longleftrightarrow>
    (if on_FreeCPU a \<noteq> on_FreeCPU b then on_FreeCPU a > on_FreeCPU b else on_FreeMem a > on_FreeMem b)"

definition max_len :: "'a list list \<Rightarrow> nat" where
  "max_len xss = fold (\<lambda>xs m. if length xs > m then length xs else m) xss 0"

definition interleave :: "'a list list \<Rightarrow> 'a list" where
  "interleave xss = concat (map (\<lambda>i. concat (map (\<lambda>xs. if i < length xs then [xs ! i] else []) xss)) [0..<max_len xss])"

definition order_nodes :: "(string, orderedNode list) gomap \<Rightarrow> orderedNode list" where
  "order_nodes grp =
    (let clusterIDs = sort_slice str_less (map fst grp) in
     interleave (map (\<lambda>cid. sort_slice node_before (mget0 [] grp cid)) clusterIDs))"

definition buildOrderedNodes :: "env \<Rightarrow> (api_err + orderedNode list) io" where
  "buildOrderedNodes E = do {
     r \<leftarrow> call ListClusters (\<lambda>h. env_list_clusters E h);
     case r of
       Inl err \<Rightarrow> State_Monad.return (Inl err)
     | Inr cs \<Rightarrow> do {
         t \<leftarrow> now E;
         State_Monad.return (Inr (order_nodes (group_nodes t cs)))
       }
   }"

subsection \<open>Resources\<close>

definition fits :: "orderedNode \<Rightarrow> reqResources \<Rightarrow> bool" where
  "fits n req =
    (if req_CPU req = 0 \<and> req_Mem req = 0 then True
     else if on_FreeCPU n < req_CPU req then False
     else if on_FreeMem n < req_Mem req then False
     else True)"

definition decodeDeploymentSpecFromRaw :: "env \<Rightarrow> string \<Rightarrow> api_err + DeploymentSpec" where
  "decodeDeploymentSpecFromRaw E raw =
    (if raw = '''' then Inl (OtherErr ''empty template'')
     else case env_decode E raw of (Some err, _) \<Rightarrow> Inl err | (None, spec) \<Rightarrow> Inr spec)"

definition add_request :: "Container \<Rightarrow> reqResources \<Rightarrow> reqResources" where
  "add_request c r =
    (let r = (case mget (ct_Requests c) ''cpu'' of Some q \<Rightarrow> r\<lparr>req_CPU := req_CPU r + q\<rparr> | None \<Rightarrow> r)
     in case mget (ct_Requests c) ''memory'' of Some q \<Rightarrow> r\<lparr>req_Mem := req_Mem r + q\<rparr> | None \<Rightarrow> r)"

definition zero_resources :: reqResources where
  "zero_resources = \<lparr>req_CPU = 0, req_Mem = 0\<rparr>"

definition sumDeploymentPodRequests :: "env \<Rightarrow> GlobalDeployment \<Rightarrow> reqResources" where
  "sumDeploymentPodRequests E gd = (case decodeDeploymentSpecFromRaw E (gd_Template (gd_Spec gd)) of
      Inl _ \<Rightarrow> zero_resources
    | Inr spec \<Rightarrow> fold add_request (ds_Containers spec) zero_resources)"

subsection \<open>Next fit\<close>

fun pick_loop :: "orderedNode list \<Rightarrow> (orderedNode \<Rightarrow> bool) \<Rightarrow> nat \<Rightarrow> nat \<Rightarrow> (orderedNode \<times> nat) option" where
  "pick_loop order accepts pos 0 = None"
| "pick_loop order accepts pos (Suc k) =
    (let idx = pos mod length order in
     if accepts (order ! idx) then Some (order ! idx, idx) else pick_loop order accepts (Suc pos) k)"

definition pickNextFit :: "orderedNode list \<Rightarrow> nat \<Rightarrow> (orderedNode \<Rightarrow> bool) \<Rightarrow> string + orderedNode \<times> nat" where
  "pickNextFit order cursor accepts =
    (if order = [] then Inl ''no candidate nodes''
     else case pick_loop order accepts (cursor + 1) (length order) of
       Some r \<Rightarrow> Inr r
     | None \<Rightarrow> Inl ''no fit node'')"

definition getCursor :: "string \<Rightarrow> nat io" where
  "getCursor key = State (\<lambda>w. (mget0 0 (cursors w) key, w))"

definition setCursor :: "string \<Rightarrow> nat \<Rightarrow> unit io" where
  "setCursor key v = State (\<lambda>w. ((), w\<lparr>cursors := mput key v (cursors w)\<rparr>))"

subsection \<open>The choice\<close>

lemma pick_loop_Some:
  "pick_loop order accepts pos k = Some (n, idx) \<longleftrightarrow>
    (\<exists>j < k. idx = (pos + j) mod length order \<and> n = order ! idx \<and> accepts n \<and>
      (\<forall>i < j. \<not> accepts (order ! ((pos + i) mod length order))))"
proof (induction k arbitrary: pos)
  case (Suc k)
  show ?case
  proof (cases "accepts (order ! (pos mod length order))")
    case True
    show ?thesis (is "?l = ?r")
    proof
      assume ?l
      with True show ?r by (intro exI [of _ 0]) (auto simp: Let_def)
    next
      assume ?r
      then obtain j where "idx = (pos + j) mod length order" "n = order ! idx"
          "\<forall>i < j. \<not> accepts (order ! ((pos + i) mod length order))" by blast
      with True show ?l by (cases j) (auto simp: Let_def)
    qed
  next
    case False
    then have "pick_loop order accepts pos (Suc k) = Some (n, idx) \<longleftrightarrow>
        (\<exists>j < k. idx = (Suc pos + j) mod length order \<and> n = order ! idx \<and> accepts n \<and>
          (\<forall>i < j. \<not> accepts (order ! ((Suc pos + i) mod length order))))"
      by (simp add: Suc.IH)
    also have "\<dots> \<longleftrightarrow> (\<exists>j < Suc k. idx = (pos + j) mod length order \<and> n = order ! idx \<and> accepts n \<and>
          (\<forall>i < j. \<not> accepts (order ! ((pos + i) mod length order))))"
      using False by (auto simp: Ex_less_Suc2 All_less_Suc2)
    finally show ?thesis .
  qed
qed simp

lemma pick_loop_None:
  "pick_loop order accepts pos k = None \<longleftrightarrow> (\<forall>j < k. \<not> accepts (order ! ((pos + j) mod length order)))"
proof (induction k arbitrary: pos)
  case (Suc k)
  then show ?case by (auto simp: Let_def All_less_Suc2)
qed simp

text \<open>A full turn from any position visits every index.\<close>

lemma mod_cover:
  assumes "i < n"
  shows "\<exists>j < n. (pos + j) mod n = (i::nat)"
proof -
  have "(pos + (i + (n - pos mod n)) mod n) mod n = (pos mod n + (i + (n - pos mod n))) mod n"
    by (simp add: mod_simps)
  also have "pos mod n + (i + (n - pos mod n)) = i + n"
    using assms mod_less_divisor [of n pos] by linarith
  finally show ?thesis
    using assms by (intro exI [of _ "(i + (n - pos mod n)) mod n"]) simp
qed

lemma all_cyclic: "order \<noteq> [] \<Longrightarrow>
    (\<forall>j < length order. \<not> accepts (order ! ((pos + j) mod length order))) \<longleftrightarrow> (\<forall>n \<in> set order. \<not> accepts n)"
  by (metis in_set_conv_nth length_greater_0_conv mod_cover mod_less_divisor)

text \<open>
  Next fit. With at least one candidate, the scan starting after the cursor and wrapping around returns
  the first accepted node in that cyclic order together with its index; it fails exactly when no candidate
  is accepted.
\<close>

theorem pickNextFit_first_after_cursor:
  assumes "order \<noteq> []"
  shows "case pickNextFit order cursor accepts of
      Inr (n, idx) \<Rightarrow> \<exists>j < length order. idx = (cursor + 1 + j) mod length order \<and> n = order ! idx \<and> accepts n \<and>
        (\<forall>i < j. \<not> accepts (order ! ((cursor + 1 + i) mod length order)))
    | Inl err \<Rightarrow> err = ''no fit node'' \<and> (\<forall>n \<in> set order. \<not> accepts n)"
proof (cases "pick_loop order accepts (cursor + 1) (length order)")
  case None
  moreover from this have "\<forall>n \<in> set order. \<not> accepts n"
    using all_cyclic [OF assms, of accepts "cursor + 1"] unfolding pick_loop_None by blast
  ultimately show ?thesis
    using assms by (simp add: pickNextFit_def)
next
  case (Some r)
  then obtain n idx where "pick_loop order accepts (cursor + 1) (length order) = Some (n, idx)"
    by (cases r) auto
  then show ?thesis
    using assms pick_loop_Some [of order accepts "cursor + 1" "length order" n idx] by (simp add: pickNextFit_def)
qed

lemma pickNextFit_sound: "pickNextFit order cursor accepts = Inr (n, idx) \<Longrightarrow> n \<in> set order \<and> accepts n \<and> idx < length order"
  using pick_loop_Some [of order accepts "cursor + 1" "length order" n idx]
  by (auto simp: pickNextFit_def split: if_splits option.splits)

subsection \<open>The order is a permutation\<close>

definition column :: "nat \<Rightarrow> 'a list \<Rightarrow> 'a list" where
  "column i xs = (if i < length xs then [xs ! i] else [])"

lemma interleave_columns: "interleave xss = concat (map (\<lambda>i. concat (map (column i) xss)) [0..<max_len xss])"
  by (simp add: interleave_def column_def [abs_def])

lemma concat_columns: "concat (map (\<lambda>i. column i xs) [0..<n]) = take n xs"
  by (induction n) (auto simp: column_def take_Suc_conv_app_nth)

lemma mset_concat_append: "mset (concat (map (\<lambda>i. f i @ g i) is)) = mset (concat (map f is)) + mset (concat (map g is))"
  by (induction "is") simp_all

lemma max_len_ge: "xs \<in> set xss \<Longrightarrow> length xs \<le> max_len xss"
proof -
  have "m \<le> fold (\<lambda>xs m. if length xs > m then length xs else m) xss m \<and>
      (xs \<in> set xss \<longrightarrow> length xs \<le> fold (\<lambda>xs m. if length xs > m then length xs else m) xss m)" for m
  proof (induction xss arbitrary: m)
    case (Cons ys xss)
    show ?case using Cons.IH [of m] Cons.IH [of "length ys"] by (auto simp: not_less)
  qed simp
  then show "xs \<in> set xss \<Longrightarrow> length xs \<le> max_len xss" by (simp add: max_len_def)
qed

lemma mset_rows: "mset (concat (map (\<lambda>i. concat (map (column i) xss)) [0..<n])) = sum_list (map (\<lambda>xs. mset (take n xs)) xss)"
  by (induction xss) (simp_all add: mset_concat_append concat_columns)

lemma mset_interleave: "mset (interleave xss) = sum_list (map mset xss)"
  unfolding interleave_columns mset_rows
  by (intro arg_cong [where f = sum_list] map_cong) (simp_all add: max_len_ge)

lemma filter_row:
  assumes "\<forall>x \<in> set xs. P x" and "\<forall>ys \<in> set ass \<union> set bss. \<forall>y \<in> set ys. \<not> P y"
  shows "filter P (concat (map (column i) (ass @ xs # bss))) = column i xs"
proof -
  have "filter P (concat (map (column i) yss)) = []" if "set yss \<subseteq> set ass \<union> set bss" for yss
    unfolding filter_empty_conv
  proof
    fix x assume "x \<in> set (concat (map (column i) yss))"
    then obtain ys where "ys \<in> set yss" and "x \<in> set ys" by (auto simp: column_def split: if_splits)
    with that assms(2) show "\<not> P x" by blast
  qed
  moreover have "filter P (column i xs) = column i xs" using assms(1) by (simp add: column_def)
  ultimately show ?thesis by simp
qed

lemma filter_interleave:
  assumes "\<forall>x \<in> set xs. P x" and "\<forall>ys \<in> set ass \<union> set bss. \<forall>y \<in> set ys. \<not> P y"
  shows "filter P (interleave (ass @ xs # bss)) = xs"
proof -
  have "filter P (interleave (ass @ xs # bss)) =
      concat (map (\<lambda>i. filter P (concat (map (column i) (ass @ xs # bss)))) [0..<max_len (ass @ xs # bss)])"
    unfolding interleave_columns filter_concat map_map o_def ..
  then show ?thesis
    unfolding filter_row [OF assms] concat_columns by (simp add: max_len_ge)
qed

text \<open>Every list of the grouping belongs to its key.\<close>

definition group_ok :: "(string, orderedNode list) gomap \<Rightarrow> bool" where
  "group_ok grp \<longleftrightarrow> wf_map grp \<and> (\<forall>(cid, ns) \<in> set grp. \<forall>n \<in> set ns. on_ClusterID n = cid)"

lemma group_ok_mget0: "group_ok grp \<Longrightarrow> n \<in> set (mget0 [] grp cid) \<Longrightarrow> on_ClusterID n = cid"
  by (cases "mget grp cid") (auto simp: group_ok_def mget0_def dest!: map_of_SomeD)

lemma group_ok_add_node: "group_ok grp \<Longrightarrow> group_ok (add_node cid n grp)"
  using group_ok_mget0 [of grp _ cid]
  by (auto simp: add_node_def group_ok_def node_view_def dest!: set_mput)

lemma group_ok_group_nodes: "group_ok (group_nodes t cs)"
  unfolding group_nodes_def
  by (rule fold_preserves) (auto simp: add_cluster_def group_ok_def [of "[]"] intro: fold_preserves group_ok_add_node)

text \<open>
  The nodes of one cluster that may be candidates: the Ready, named nodes with some free resource of the clusters of
  that name that are Ready and were probed within the last two minutes, or never.
\<close>

definition cluster_nodes :: "time \<Rightarrow> Cluster list \<Rightarrow> string \<Rightarrow> orderedNode list" where
  "cluster_nodes t cs cid = map (node_view cid)
     (filter (\<lambda>n. cn_Ready n \<and> cn_Name n \<noteq> '''' \<and> (cn_FreeCPU n \<noteq> 0 \<or> cn_FreeMemory n \<noteq> 0))
       (concat (map cl_Nodes (filter (\<lambda>c. om_Name (cl_Meta c) = cid \<and> cl_Phase c = ClusterReady \<and>
          (case cl_LastProbeTime c of None \<Rightarrow> True | Some p \<Rightarrow> sat64 (t - p) \<le> 120 * Second)) cs))))"

lemma cluster_nodes_usable:
  "cluster_nodes t cs cid = map (node_view cid) (filter node_usable
     (concat (map cl_Nodes (filter (\<lambda>c. cluster_usable t c \<and> om_Name (cl_Meta c) = cid) cs))))"
proof -
  have "node_usable = (\<lambda>n. cn_Ready n \<and> cn_Name n \<noteq> '''' \<and> (cn_FreeCPU n \<noteq> 0 \<or> cn_FreeMemory n \<noteq> 0))"
    by (auto simp: fun_eq_iff node_usable_def)
  moreover have "(\<lambda>c. cluster_usable t c \<and> om_Name (cl_Meta c) = cid) = (\<lambda>c. om_Name (cl_Meta c) = cid \<and> cl_Phase c = ClusterReady \<and>
      (case cl_LastProbeTime c of None \<Rightarrow> True | Some p \<Rightarrow> sat64 (t - p) \<le> 120 * Second))"
    by (auto simp: fun_eq_iff cluster_usable_def probe_ttl_def not_less split: option.split)
  ultimately show ?thesis unfolding cluster_nodes_def by (simp only:)
qed

lemma mget0_add_node:
  "mget0 [] (add_node cid n grp) c = mget0 [] grp c @ (if c = cid then map (node_view c) (filter node_usable [n]) else [])"
  by (simp add: add_node_def)

lemma mget0_fold_add_node:
  "mget0 [] (fold (add_node cid) ns grp) c = mget0 [] grp c @ (if c = cid then map (node_view c) (filter node_usable ns) else [])"
  by (induction ns arbitrary: grp) (auto simp: mget0_add_node)

lemma mget0_group_nodes: "mget0 [] (group_nodes t cs) cid = cluster_nodes t cs cid"
proof -
  have "mget0 [] (fold (add_cluster t) cs grp) cid = mget0 [] grp cid @ cluster_nodes t cs cid" for grp
    by (induction cs arbitrary: grp) (auto simp: add_cluster_def mget0_fold_add_node cluster_nodes_usable)
  then show ?thesis by (simp add: group_nodes_def)
qed

lemma sort_slice_Nil [simp]: "sort_slice lt [] = []"
  by (simp add: sort_slice_def)

lemma order_nodes_filter:
  assumes "group_ok grp"
  shows "filter (\<lambda>n. on_ClusterID n = cid) (order_nodes grp) = sort_slice node_before (mget0 [] grp cid)"
proof (cases "cid \<in> set (map fst grp)")
  case True
  let ?ids = "sort_slice str_less (map fst grp)" and ?col = "\<lambda>c. sort_slice node_before (mget0 [] grp c)"
  from True have "cid \<in> set ?ids" by simp
  then obtain as bs where ids: "?ids = as @ cid # bs" by (meson split_list)
  have "distinct ?ids"
    using assms mset_eq_imp_distinct_iff [OF mset_sort_slice, of str_less "map fst grp"] unfolding group_ok_def wf_map_def by blast
  then have "cid \<notin> set as \<union> set bs" by (simp add: ids)
  then have "filter (\<lambda>n. on_ClusterID n = cid) (interleave (map ?col as @ ?col cid # map ?col bs)) = ?col cid"
    using group_ok_mget0 [OF assms] by (intro filter_interleave) auto
  then show ?thesis by (simp add: order_nodes_def Let_def ids)
next
  case False
  then have "mget0 [] grp cid = []" by (simp add: mget0_def mget_None_iff [THEN iffD2])
  moreover have "on_ClusterID n \<noteq> cid" if "n \<in> set (order_nodes grp)" for n
  proof -
    have "set (interleave xss) = (\<Union>xs \<in> set xss. set xs)" for xss :: "orderedNode list list"
      unfolding set_mset_mset [symmetric] mset_interleave by (induction xss) auto
    with that obtain c where "c \<in> set (map fst grp)" "n \<in> set (mget0 [] grp c)"
      by (auto simp: order_nodes_def Let_def)
    with False group_ok_mget0 [OF assms] show ?thesis by auto
  qed
  ultimately show ?thesis by (simp add: filter_empty_conv)
qed

subsection \<open>The clusters take turns\<close>

text \<open>The turn of the candidate at a position: how many candidates of its cluster come before it, and the cluster.\<close>

definition turns :: "orderedNode list \<Rightarrow> (nat \<times> string) list" where
  "turns xs = map (\<lambda>p. (length (filter (\<lambda>n. on_ClusterID n = on_ClusterID (xs ! p)) (take p xs)), on_ClusterID (xs ! p))) [0..<length xs]"

definition turn_before :: "nat \<times> string \<Rightarrow> nat \<times> string \<Rightarrow> bool" where
  "turn_before a b \<longleftrightarrow> fst a < fst b \<or> fst a = fst b \<and> str_less (snd a) (snd b)"

lemma turns_round:
  assumes "distinct (map on_ClusterID ys)"
    and "\<And>n. n \<in> set ys \<Longrightarrow> length (filter (\<lambda>m. on_ClusterID m = on_ClusterID n) xs) = i"
  shows "turns (xs @ ys) = turns xs @ map (\<lambda>n. (i, on_ClusterID n)) ys"
proof (rule nth_equalityI)
  fix p assume "p < length (turns (xs @ ys))"
  then have p: "p < length xs + length ys" by (simp add: turns_def)
  show "turns (xs @ ys) ! p = (turns xs @ map (\<lambda>n. (i, on_ClusterID n)) ys) ! p"
  proof (cases "p < length xs")
    case False
    define q where "q = p - length xs"
    have q: "q < length ys" "p = length xs + q" using p False by (simp_all add: q_def)
    have "on_ClusterID m \<noteq> on_ClusterID (ys ! q)" if "m \<in> set (take q ys)" for m
    proof -
      from that obtain r where "r < q" "m = ys ! r" using q(1) by (auto simp: in_set_conv_nth)
      with q(1) nth_eq_iff_index_eq [OF assms(1), of r q] show ?thesis by simp
    qed
    then have "filter (\<lambda>m. on_ClusterID m = on_ClusterID (ys ! q)) (take q ys) = []" by (simp add: filter_empty_conv)
    with q assms(2) [of "ys ! q"] show ?thesis by (simp add: turns_def nth_append)
  qed (simp add: turns_def nth_append)
qed (simp add: turns_def)

lemma sorted_strict: "sorted_wrt (\<lambda>a b. \<not> str_less b a) ids \<Longrightarrow> distinct ids \<Longrightarrow> sorted_wrt str_less ids"
  by (induction ids) (auto, metis str_less_total)

text \<open>The columns \<open>col c\<close> of the clusters \<open>ids\<close>, each with nodes of its own cluster, dealt out in rounds.\<close>

lemma turns_rounds:
  assumes "distinct ids" and "\<And>c n. n \<in> set (col c) \<Longrightarrow> on_ClusterID n = c"
  shows "turns (concat (map (\<lambda>i. concat (map (column i) (map col ids))) [0..<k])) =
    concat (map (\<lambda>i. map (Pair i) (filter (\<lambda>c. i < length (col c)) ids)) [0..<k])"
proof (induction k)
  case (Suc k)
  let ?round = "\<lambda>i. concat (map (column i) (map col ids))"
  have cids: "map on_ClusterID (concat (map (column k) (map col js))) = filter (\<lambda>c. k < length (col c)) js" for js
    by (induction js) (auto simp: column_def assms(2))
  have seen: "length (filter (\<lambda>m. on_ClusterID m = on_ClusterID n) (concat (map ?round [0..<k]))) = k" if "n \<in> set (?round k)" for n
  proof -
    from that obtain c where c: "c \<in> set ids" "n \<in> set (column k (col c))" by auto
    then have n: "on_ClusterID n = c" "k < length (col c)" using assms(2) by (auto simp: column_def split: if_splits)
    from c(1) obtain as bs where ids: "ids = as @ c # bs" by (meson split_list)
    with assms(1) have "c \<notin> set as \<union> set bs" by simp
    then have "filter (\<lambda>m. on_ClusterID m = c) (?round i) = column i (col c)" for i
      using filter_row [of "col c" "\<lambda>m. on_ClusterID m = c" "map col as" "map col bs" i] assms(2) by (auto simp: ids)
    then have "filter (\<lambda>m. on_ClusterID m = c) (concat (map ?round [0..<k])) = take k (col c)"
      by (simp add: filter_concat o_def concat_columns)
    with n show ?thesis by simp
  qed
  have "turns (concat (map ?round [0..<k]) @ ?round k) = turns (concat (map ?round [0..<k])) @ map (\<lambda>n. (k, on_ClusterID n)) (?round k)"
  proof (rule turns_round)
    show "distinct (map on_ClusterID (?round k))" unfolding cids using assms(1) by simp
  qed (rule seen)
  also have "map (\<lambda>n. (k, on_ClusterID n)) (?round k) = map (Pair k) (filter (\<lambda>c. k < length (col c)) ids)"
    unfolding cids [symmetric] map_map o_def ..
  finally show ?case using Suc.IH by simp
qed (simp add: turns_def)

lemma rounds_sorted:
  assumes "sorted_wrt str_less ids"
  shows "sorted_wrt turn_before (concat (map (\<lambda>i. map (Pair i) (filter (P i) ids)) [0..<k]))"
proof (induction k)
  case (Suc k)
  have "sorted_wrt str_less (filter (P k) ids)" using assms by (rule sorted_wrt_filter)
  then have "sorted_wrt turn_before (map (Pair k) (filter (P k) ids))"
    by (simp add: sorted_wrt_map turn_before_def)
  moreover have "turn_before a b" if "a \<in> set (concat (map (\<lambda>i. map (Pair i) (filter (P i) ids)) [0..<k]))"
      and "b \<in> set (map (Pair k) (filter (P k) ids))" for a b
    using that by (auto simp: turn_before_def)
  ultimately show ?case using Suc by (simp only: upt_Suc_append le0 map_append concat_append sorted_wrt_append) simp
qed simp

lemma order_nodes_turns:
  assumes "group_ok grp"
  shows "sorted_wrt turn_before (turns (order_nodes grp))"
proof -
  let ?ids = "sort_slice str_less (map fst grp)" and ?col = "\<lambda>c. sort_slice node_before (mget0 [] grp c)"
  have "distinct ?ids"
    using assms mset_eq_imp_distinct_iff [OF mset_sort_slice, of str_less "map fst grp"] unfolding group_ok_def wf_map_def by blast
  moreover have "weak_order (set (map fst grp)) str_less"
    unfolding weak_order_def by (metis str_less_asym str_less_total str_less_trans)
  then have "sorted_wrt (\<lambda>a b. \<not> str_less b a) ?ids" by (rule sort_slice_sorted)
  ultimately have "sorted_wrt str_less ?ids" "distinct ?ids" by (simp_all add: sorted_strict)
  moreover have "on_ClusterID n = c" if "n \<in> set (?col c)" for c n using that group_ok_mget0 [OF assms] by simp
  ultimately show ?thesis
    unfolding order_nodes_def Let_def interleave_columns using turns_rounds [of ?ids ?col] by (simp add: rounds_sorted)
qed

text \<open>
  C30: The scheduler's candidate list. For every cluster name, the candidates of that cluster are exactly the
  Ready, named nodes with some free resource of the clusters of that name that are Ready and were probed within two
  minutes (or never), each as often as it is reported, in the order of decreasing free CPU and then memory. The
  clusters take turns in the order of their names: first the best node of every cluster, then the second best of
  every cluster that has one, and so on.
\<close>

theorem candidates_are_usable_nodes_sorted:
  "mset (filter (\<lambda>n. on_ClusterID n = cid) (order_nodes (group_nodes t cs))) = mset (cluster_nodes t cs cid) \<and>
    sorted_wrt (\<lambda>a b. on_FreeCPU b < on_FreeCPU a \<or> on_FreeCPU b = on_FreeCPU a \<and> on_FreeMem b \<le> on_FreeMem a)
      (filter (\<lambda>n. on_ClusterID n = cid) (order_nodes (group_nodes t cs))) \<and>
    sorted_wrt turn_before (turns (order_nodes (group_nodes t cs)))"
proof -
  have 1: "filter (\<lambda>n. on_ClusterID n = cid) (order_nodes (group_nodes t cs)) = sort_slice node_before (cluster_nodes t cs cid)"
    using order_nodes_filter [OF group_ok_group_nodes] by (simp add: mget0_group_nodes)
  have "weak_order (set (cluster_nodes t cs cid)) node_before"
    unfolding weak_order_def node_before_def by (auto split: if_splits)
  then have "sorted_wrt (\<lambda>a b. \<not> node_before b a) (sort_slice node_before (cluster_nodes t cs cid))" by (rule sort_slice_sorted)
  moreover have "(\<lambda>a b. \<not> node_before b a) =
      (\<lambda>a b. on_FreeCPU b < on_FreeCPU a \<or> on_FreeCPU b = on_FreeCPU a \<and> on_FreeMem b \<le> on_FreeMem a)"
    by (auto simp: fun_eq_iff node_before_def)
  ultimately show ?thesis using 1 order_nodes_turns [OF group_ok_group_nodes] by simp
qed

definition sample_node :: "string \<Rightarrow> quantity \<Rightarrow> orderedNode" where
  "sample_node n cpu = \<lparr>on_ClusterID = ''east'', on_NodeName = n, on_Ready = True, on_FreeCPU = cpu, on_FreeMem = 8\<rparr>"

theorem pickNextFit_first_after_cursor_witness:
  "case pickNextFit [sample_node ''a'' 4, sample_node ''b'' 1] 0 (\<lambda>n. 2 \<le> on_FreeCPU n) of
      Inr (n, idx) \<Rightarrow> \<exists>j < length [sample_node ''a'' 4, sample_node ''b'' 1].
        idx = (0 + 1 + j) mod length [sample_node ''a'' 4, sample_node ''b'' 1] \<and>
        n = [sample_node ''a'' 4, sample_node ''b'' 1] ! idx \<and> 2 \<le> on_FreeCPU n \<and>
        (\<forall>i < j. \<not> 2 \<le> on_FreeCPU ([sample_node ''a'' 4, sample_node ''b'' 1] ! ((0 + 1 + i) mod length [sample_node ''a'' 4, sample_node ''b'' 1])))
    | Inl err \<Rightarrow> err = ''no fit node'' \<and> (\<forall>n \<in> set [sample_node ''a'' 4, sample_node ''b'' 1]. \<not> 2 \<le> on_FreeCPU n)"
  by (rule pickNextFit_first_after_cursor) simp

end
