(* ===== verification/Global_Deployment.thy ===== *)
theory Global_Deployment
  imports Scheduler "HOL-Library.Sublist"
begin

section \<open>The GlobalDeployment controller\<close>

text \<open>
  \<open>src/controller/internal/controller/globaldeployment_controller.go\<close>: one ReplicaBinding per replica, the
  assignment of pending bindings to member nodes, the aggregated status, and the deletion of the bindings
  before the finalizer goes. \<open>gd_Reconcile\<close> is the whole handler.

  The cursors of the scheduler are part of the world; their lock only serialises accesses. The rolling
  migration handlers of the same file, which the reconcile loop does not call, are in a theory of their own.
\<close>

definition globalDeploymentFinalizer :: string where
  "globalDeploymentFinalizer = ''core.kubex.io/finalizer-globaldeployment''"

definition gd_key :: "GlobalDeployment \<Rightarrow> nskey" where
  "gd_key gd = \<lparr>key_Name = om_Name (gd_Meta gd), key_Namespace = om_Namespace (gd_Meta gd)\<rparr>"

definition rb_key :: "ReplicaBinding \<Rightarrow> nskey" where
  "rb_key b = \<lparr>key_Name = om_Name (rb_Meta b), key_Namespace = om_Namespace (rb_Meta b)\<rparr>"

definition delete_rb :: "env \<Rightarrow> ReplicaBinding \<Rightarrow> api_err option io" where
  "delete_rb E b = call (DeleteRB b) (\<lambda>h. env_delete_rb E h b)"

text \<open>The bindings whose controller reference is the deployment.\<close>

definition owned_by :: "GlobalDeployment \<Rightarrow> ReplicaBinding \<Rightarrow> bool" where
  "owned_by gd b \<longleftrightarrow> list_ex (\<lambda>ref. or_Controller ref = Some True \<and> or_UID ref = om_UID (gd_Meta gd)) (om_OwnerReferences (rb_Meta b))"

definition owned_of :: "GlobalDeployment \<Rightarrow> ReplicaBinding list \<Rightarrow> ReplicaBinding list" where
  "owned_of gd bs = filter (owned_by gd) bs"

subsection \<open>Creating bindings\<close>

definition desired_replicas :: "GlobalDeployment \<Rightarrow> int32" where
  "desired_replicas gd =
    (let replicas = (case gd_Replicas (gd_Spec gd) of None \<Rightarrow> 1 | Some r \<Rightarrow> r) in if replicas < 0 then 0 else replicas)"

definition new_binding :: "GlobalDeployment \<Rightarrow> int32 \<Rightarrow> ReplicaBinding" where
  "new_binding gd i =
    \<lparr>rb_Meta = \<lparr>om_Name = om_Name (gd_Meta gd) @ ''-rb-'' @ itoa i, om_Namespace = om_Namespace (gd_Meta gd), om_UID = '''',
       om_ResourceVersion = '''', om_Generation = 0, om_CreationTimestamp = zero_time,
       om_Labels = [(''core.kubex.io/globaldeploy'', om_Name (gd_Meta gd)), (''core.kubex.io/replica-index'', itoa i)],
       om_Annotations = [], om_DeletionTimestamp = None, om_Finalizers = [], om_OwnerReferences = []\<rparr>,
     rb_Spec = \<lparr>rb_GlobalDeploymentRef = \<lparr>ref_Name = om_Name (gd_Meta gd), ref_Namespace = om_Namespace (gd_Meta gd)\<rparr>,
       rb_ReplicaIndex = i, rb_TargetCluster = '''', rb_TargetNodeName = '''', rb_Reschedule = False, rb_RescheduleRequest = ''''\<rparr>,
     rb_Status = \<lparr>rb_Phase = PhaseNone, rb_LastError = '''', rb_LastTransitionTime = None, rb_NodeName = '''', rb_ClusterName = '''',
       rb_RescheduleStatus = no_reschedule\<rparr>\<rparr>"

text \<open>Body of the creation loop; \<open>Inl\<close> is a return from Reconcile.\<close>

definition ensure_binding :: "env \<Rightarrow> GlobalDeployment \<Rightarrow> int32 set \<Rightarrow> int32 \<Rightarrow> unit \<Rightarrow> (reconcile_out + unit) io" where
  "ensure_binding E gd existing i u =
    (if i \<in> existing then State_Monad.return (Inr ())
     else case env_set_owner E gd (new_binding gd i) of
       Inl err \<Rightarrow> State_Monad.return (Inl (0, Some err))
     | Inr b \<Rightarrow> do {
         t \<leftarrow> now E;
         r \<leftarrow> write_rb E (CreateRB (b\<lparr>rb_Status := (rb_Status b)\<lparr>rb_Phase := Pending, rb_LastTransitionTime := Some t\<rparr>\<rparr>));
         case r of
           Inl err \<Rightarrow> State_Monad.return (Inl (0, Some err))
         | Inr b \<Rightarrow> do {
             r \<leftarrow> write_rb E (StatusUpdateRB b);
             State_Monad.return (case r of Inl err \<Rightarrow> Inl (0, Some err) | Inr _ \<Rightarrow> Inr ())
           }
       })"

subsection \<open>Assigning bindings\<close>

definition accepts_node :: "env \<Rightarrow> GlobalDeployment \<Rightarrow> orderedNode \<Rightarrow> bool" where
  "accepts_node E gd n = (if \<not> on_Ready n then False else fits n (sumDeploymentPodRequests E gd))"

definition assign_binding :: "env \<Rightarrow> string \<Rightarrow> orderedNode \<Rightarrow> nat \<Rightarrow> ReplicaBinding \<Rightarrow> (reconcile_out + nat) io" where
  "assign_binding E key slot nextCursor latest = do {
     r \<leftarrow> (if rb_TargetCluster (rb_Spec latest) \<noteq> on_ClusterID slot \<or> rb_TargetNodeName (rb_Spec latest) \<noteq> on_NodeName slot
           then write_rb E (UpdateRB (latest\<lparr>rb_Spec := (rb_Spec latest)\<lparr>rb_TargetCluster := on_ClusterID slot,
                  rb_TargetNodeName := on_NodeName slot\<rparr>\<rparr>))
           else State_Monad.return (Inr latest));
     case r of
       Inl err \<Rightarrow> State_Monad.return (Inl (0, Some err))
     | Inr updated \<Rightarrow> do {
         t \<leftarrow> now E;
         r \<leftarrow> (if rb_Phase (rb_Status latest) \<noteq> Assigned
               then write_rb E (StatusUpdateRB (updated\<lparr>rb_Status := (rb_Status updated)\<lparr>rb_Phase := Assigned,
                      rb_LastTransitionTime := Some t, rb_LastError := ''''\<rparr>\<rparr>))
               else State_Monad.return (Inr updated));
         case r of
           Inl err \<Rightarrow> State_Monad.return (Inl (0, Some err))
         | Inr _ \<Rightarrow> do {
             _ \<leftarrow> setCursor key nextCursor;
             State_Monad.return (Inr nextCursor)
           }
       }
   }"

definition schedule_binding :: "env \<Rightarrow> GlobalDeployment \<Rightarrow> string \<Rightarrow> orderedNode list \<Rightarrow> ReplicaBinding \<Rightarrow> nat \<Rightarrow> (reconcile_out + nat) io" where
  "schedule_binding E gd key orderedNodes b cursor = do {
     g \<leftarrow> get_rb E (rb_key b);
     case g of
       Inl err \<Rightarrow> State_Monad.return (Inl (0, Some err))
     | Inr latest \<Rightarrow>
         (let phase = (if rb_Phase (rb_Status latest) = PhaseNone then Pending else rb_Phase (rb_Status latest)) in
          if phase \<noteq> Pending then State_Monad.return (Inr cursor)
          else case pickNextFit orderedNodes cursor (accepts_node E gd) of
            Inl _ \<Rightarrow> State_Monad.return (Inr cursor)
          | Inr (slot, nextCursor) \<Rightarrow> assign_binding E key slot nextCursor latest)
   }"

subsection \<open>Status\<close>

text \<open>The counters are int32; Rescheduling, Deleting and unknown phases are not counted.\<close>

definition count_binding :: "ReplicaBinding \<Rightarrow> GlobalDeploymentStatus \<Rightarrow> GlobalDeploymentStatus" where
  "count_binding b st = (case rb_Phase (rb_Status b) of
     Running \<Rightarrow> st\<lparr>gd_Running := wrap32 (gd_Running st + 1)\<rparr>
   | Failed \<Rightarrow> st\<lparr>gd_Failed := wrap32 (gd_Failed st + 1)\<rparr>
   | Applying \<Rightarrow> st\<lparr>gd_Pending := wrap32 (gd_Pending st + 1)\<rparr>
   | Assigned \<Rightarrow> st\<lparr>gd_Pending := wrap32 (gd_Pending st + 1)\<rparr>
   | Pending \<Rightarrow> st\<lparr>gd_Pending := wrap32 (gd_Pending st + 1)\<rparr>
   | PhaseNone \<Rightarrow> st\<lparr>gd_Pending := wrap32 (gd_Pending st + 1)\<rparr>
   | _ \<Rightarrow> st)"

definition aggregate_status :: "int32 \<Rightarrow> time \<Rightarrow> ReplicaBinding list \<Rightarrow> GlobalDeploymentStatus" where
  "aggregate_status replicas t bs =
    (let st = fold count_binding bs \<lparr>gd_Phase = GDPhaseNone, gd_Running = 0, gd_Failed = 0, gd_Pending = 0,
           gd_UpdatedAt = Some t, gd_ObservedRevision = ''''\<rparr>
     in st\<lparr>gd_Phase :=
          (if gd_Running st = replicas \<and> replicas > 0 then GDRunning
           else if gd_Failed st > 0 then GDDegraded
           else if gd_Running st > 0 then GDProgressing
           else GDPending)\<rparr>)"

fun update_status_loop :: "env \<Rightarrow> nskey \<Rightarrow> GlobalDeploymentStatus \<Rightarrow> nat \<Rightarrow> api_err option io" where
  "update_status_loop E key st 0 =
    State_Monad.return (Some (OtherErr ''update globaldeployment status conflict retries exceeded''))"
| "update_status_loop E key st (Suc n) = do {
     g \<leftarrow> get_gd E key;
     case g of
       Inl err \<Rightarrow> State_Monad.return (Some err)
     | Inr latest \<Rightarrow> do {
         r \<leftarrow> write_gd E (StatusUpdateGD (latest\<lparr>gd_Status := st\<rparr>));
         case r of
           Inl err \<Rightarrow>
             if IsConflict err then do {
               _ \<leftarrow> call (Sleep (50 * Millisecond)) (\<lambda>_. ());
               update_status_loop E key st n
             } else State_Monad.return (Some err)
         | Inr _ \<Rightarrow> State_Monad.return None
       }
   }"

definition updateGDStatusWithRetry :: "env \<Rightarrow> nskey \<Rightarrow> GlobalDeploymentStatus \<Rightarrow> api_err option io" where
  "updateGDStatusWithRetry E key st = update_status_loop E key st 5"

subsection \<open>Deletion\<close>

definition request_delete :: "env \<Rightarrow> ReplicaBinding \<Rightarrow> bool \<Rightarrow> (reconcile_out + bool) io" where
  "request_delete E b deletedAny =
    (if om_DeletionTimestamp (rb_Meta b) \<noteq> None then State_Monad.return (Inr deletedAny)
     else if rb_Phase (rb_Status b) = Running \<or> rb_Phase (rb_Status b) = Failed then do {
       err \<leftarrow> delete_rb E b;
       case err of
         Some e \<Rightarrow> if \<not> IsNotFound e then State_Monad.return (Inl (0, Some e)) else State_Monad.return (Inr True)
       | None \<Rightarrow> State_Monad.return (Inr True)
     } else State_Monad.return (Inr deletedAny))"

definition mark_deleting :: "env \<Rightarrow> GlobalDeployment \<Rightarrow> GlobalDeployment io" where
  "mark_deleting E gd =
    (if gd_Phase (gd_Status gd) \<noteq> GDDeleting then do {
       t \<leftarrow> now E;
       let gd' = gd\<lparr>gd_Status := (gd_Status gd)\<lparr>gd_Phase := GDDeleting, gd_UpdatedAt := Some t\<rparr>\<rparr>;
       r \<leftarrow> write_gd E (StatusPatchGD gd gd');
       State_Monad.return (case r of Inl _ \<Rightarrow> gd' | Inr g \<Rightarrow> g)
     } else State_Monad.return gd)"

definition delete_bindings :: "env \<Rightarrow> GlobalDeployment \<Rightarrow> reconcile_out io" where
  "delete_bindings E gd = do {
     l \<leftarrow> list_rb E (om_Namespace (gd_Meta gd));
     case l of
       Inl err \<Rightarrow> fail_with err
     | Inr rbs \<Rightarrow> do {
         d \<leftarrow> io_fold (request_delete E) (owned_of gd rbs) False;
         case d of
           Inl out \<Rightarrow> State_Monad.return out
         | Inr deletedAny \<Rightarrow>
             if deletedAny then requeue (300 * Millisecond)
             else do {
               l2 \<leftarrow> list_rb E (om_Namespace (gd_Meta gd));
               case l2 of
                 Inl err \<Rightarrow> fail_with err
               | Inr rbs2 \<Rightarrow>
                   if length (owned_of gd rbs2) > 0 then requeue (500 * Millisecond)
                   else do {
                     r \<leftarrow> write_gd E (PatchGD gd (gd\<lparr>gd_Meta := RemoveFinalizer E globalDeploymentFinalizer (gd_Meta gd)\<rparr>));
                     case r of Inl err \<Rightarrow> fail_with err | Inr _ \<Rightarrow> done_ok
                   }
             }
       }
   }"

definition reconcileDelete :: "env \<Rightarrow> GlobalDeployment \<Rightarrow> reconcile_out io" where
  "reconcileDelete E gd =
    (if \<not> ContainsFinalizer E (gd_Meta gd) globalDeploymentFinalizer then done_ok
     else do {
       gd \<leftarrow> mark_deleting E gd;
       delete_bindings E gd
     })"

subsection \<open>Reconcile\<close>

text \<open>The part after the bindings exist: schedule, aggregate, write the status.\<close>

definition schedule_and_report :: "env \<Rightarrow> nskey \<Rightarrow> GlobalDeployment \<Rightarrow> ReplicaBinding list \<Rightarrow> reconcile_out io" where
  "schedule_and_report E req gd owned = do {
     nodes \<leftarrow> buildOrderedNodes E;
     case nodes of
       Inl _ \<Rightarrow> requeue (10 * Second)
     | Inr orderedNodes \<Rightarrow> do {
         let key = om_Namespace (gd_Meta gd) @ ''/'' @ om_Name (gd_Meta gd);
         cursor \<leftarrow> getCursor key;
         s \<leftarrow> io_fold (schedule_binding E gd key orderedNodes) owned cursor;
         case s of
           Inl out \<Rightarrow> State_Monad.return out
         | Inr _ \<Rightarrow> do {
             l \<leftarrow> list_rb E (key_Namespace req);
             case l of
               Inl err \<Rightarrow> fail_with err
             | Inr bs \<Rightarrow> do {
                 t \<leftarrow> now E;
                 err \<leftarrow> updateGDStatusWithRetry E req (aggregate_status (desired_replicas gd) t (owned_of gd bs));
                 case err of Some e \<Rightarrow> fail_with e | None \<Rightarrow> requeue (5 * Second)
               }
           }
       }
   }"

definition gd_active :: "env \<Rightarrow> nskey \<Rightarrow> GlobalDeployment \<Rightarrow> reconcile_out io" where
  "gd_active E req gd = do {
     l \<leftarrow> list_rb E (om_Namespace (gd_Meta gd));
     case l of
       Inl err \<Rightarrow> fail_with err
     | Inr bindings \<Rightarrow> do {
         let owned = owned_of gd bindings;
         let existing = set (map (\<lambda>b. rb_ReplicaIndex (rb_Spec b)) owned);
         c \<leftarrow> io_fold (ensure_binding E gd existing) (map int [0..<nat (desired_replicas gd)]) ();
         case c of
           Inl out \<Rightarrow> State_Monad.return out
         | Inr _ \<Rightarrow> schedule_and_report E req gd owned
       }
   }"

definition gd_Reconcile :: "env \<Rightarrow> nskey \<Rightarrow> reconcile_out io" where
  "gd_Reconcile E req = do {
     g \<leftarrow> get_gd E req;
     case g of
       Inl err \<Rightarrow> State_Monad.return (0, ignore_not_found err)
     | Inr gd \<Rightarrow>
         if om_DeletionTimestamp (gd_Meta gd) \<noteq> None then reconcileDelete E gd
         else if \<not> ContainsFinalizer E (gd_Meta gd) globalDeploymentFinalizer then do {
           r \<leftarrow> write_gd E (PatchGD gd (gd\<lparr>gd_Meta := AddFinalizer E globalDeploymentFinalizer (gd_Meta gd)\<rparr>));
           case r of Inl err \<Rightarrow> fail_with err | Inr _ \<Rightarrow> requeue (100 * Millisecond)
         }
         else if gd_ObservedRevision (gd_Status gd) = '''' then do {
           r \<leftarrow> write_gd E (StatusPatchGD gd (gd\<lparr>gd_Status := (gd_Status gd)\<lparr>gd_ObservedRevision := ''v1''\<rparr>\<rparr>));
           case r of Inl err \<Rightarrow> fail_with err | Inr _ \<Rightarrow> requeue (100 * Millisecond)
         }
         else gd_active E req gd
   }"

subsection \<open>What a run may do\<close>

lemma wp_getCursor [vcg]: "wp (getCursor key) Q w = Q (mget0 0 (cursors w) key) w"
  by (simp add: wp_def getCursor_def)

lemma wp_setCursor [vcg]: "wp (setCursor key v) Q w = Q () (w\<lparr>cursors := mput key v (cursors w)\<rparr>)"
  by (simp add: wp_def setCursor_def)

lemma guar_cursor [guar_intros]: "guar G (getCursor key)" "guar G (setCursor key v)"
  by (simp_all add: guar_def exec_def getCursor_def setCursor_def)

text \<open>What the API machinery keeps when it sets an owner.\<close>

definition owner_laws :: "env \<Rightarrow> bool" where
  "owner_laws E \<longleftrightarrow> (\<forall>gd b b'. env_set_owner E gd b = Inr b' \<longrightarrow>
     rb_Spec b' = rb_Spec b \<and> rb_Status b' = rb_Status b \<and> om_Name (rb_Meta b') = om_Name (rb_Meta b) \<and>
     om_Namespace (rb_Meta b') = om_Namespace (rb_Meta b) \<and> owned_by gd b')"

text \<open>
  Evidence. \<open>held\<close>: the deployment a run works with, as it was read or as the server answered the run's status
  patch of it, with a new version. \<open>candidates\<close>: the candidate list of the last cluster list of the history. \<open>observed_pending\<close>: the
  last call, but for the spec update, read a binding that is not yet scheduled. \<open>no_binding_left\<close>: the last
  call listed the bindings and none belongs to the deployment.
\<close>

definition held :: "env \<Rightarrow> GlobalDeployment \<Rightarrow> history \<Rightarrow> GlobalDeployment \<Rightarrow> bool" where
  "held E gd h g \<longleftrightarrow> gd_Meta g = gd_Meta gd \<or>
     (\<exists>h0 new h1. h = h0 @ StatusPatchGD gd new # h1 \<and> env_write_gd E h0 (StatusPatchGD gd new) = Inr g)"

definition candidates :: "env \<Rightarrow> history \<Rightarrow> orderedNode list" where
  "candidates E h = (case dropWhile (\<lambda>e. e \<noteq> ListClusters) (rev h) of
      [] \<Rightarrow> []
    | _ # r \<Rightarrow> (case env_list_clusters E (rev r) of
          Inl _ \<Rightarrow> []
        | Inr cs \<Rightarrow> order_nodes (group_nodes (env_now E (rev r @ [ListClusters])) cs)))"

definition observed_pending :: "env \<Rightarrow> history \<Rightarrow> bool" where
  "observed_pending E h \<longleftrightarrow> (case dropWhile (\<lambda>e. case e of UpdateRB _ \<Rightarrow> True | _ \<Rightarrow> False) (rev h) of
      GetRB k # r \<Rightarrow> (case env_get_rb E (rev r) k of
          Inr rb \<Rightarrow> rb_Phase (rb_Status rb) = PhaseNone \<or> rb_Phase (rb_Status rb) = Pending
        | Inl _ \<Rightarrow> False)
    | _ \<Rightarrow> False)"

definition no_binding_left :: "env \<Rightarrow> GlobalDeployment \<Rightarrow> history \<Rightarrow> bool" where
  "no_binding_left E gd h \<longleftrightarrow> (case rev h of
      ListRB ns # r \<Rightarrow> ns = om_Namespace (gd_Meta gd) \<and>
        (case env_list_rb E (rev r) ns of Inr bs \<Rightarrow> owned_of gd bs = [] | Inl _ \<Rightarrow> False)
    | _ \<Rightarrow> False)"

definition fitting_candidate :: "env \<Rightarrow> GlobalDeployment \<Rightarrow> history \<Rightarrow> ReplicaBinding \<Rightarrow> bool" where
  "fitting_candidate E gd h b \<longleftrightarrow> list_ex (\<lambda>n. accepts_node E gd n \<and>
     on_ClusterID n = rb_TargetCluster (rb_Spec b) \<and> on_NodeName n = rb_TargetNodeName (rb_Spec b)) (candidates E h)"

definition after_create :: "history \<Rightarrow> bool" where
  "after_create h \<longleftrightarrow> (case rev h of CreateRB _ # _ \<Rightarrow> True | _ \<Rightarrow> False)"

text \<open>The guarantee of a run on the deployment \<open>gd\<close>.\<close>

definition gd_guard :: "env \<Rightarrow> GlobalDeployment \<Rightarrow> history \<Rightarrow> event \<Rightarrow> bool" where
  "gd_guard E gd h e = (case e of
     CreateRB b \<Rightarrow> om_DeletionTimestamp (gd_Meta gd) = None \<and> rb_Phase (rb_Status b) = Pending
   | UpdateRB b \<Rightarrow> om_DeletionTimestamp (gd_Meta gd) = None \<and> fitting_candidate E gd h b \<and> observed_pending E h
   | StatusUpdateRB b \<Rightarrow> om_DeletionTimestamp (gd_Meta gd) = None \<and>
       (after_create h \<or> rb_Phase (rb_Status b) = Assigned \<and> observed_pending E h)
   | DeleteRB b \<Rightarrow> om_DeletionTimestamp (gd_Meta gd) \<noteq> None \<and> (\<exists>g. held E gd h g \<and> owned_by g b) \<and> om_DeletionTimestamp (rb_Meta b) = None \<and>
       (rb_Phase (rb_Status b) = Running \<or> rb_Phase (rb_Status b) = Failed)
   | PatchGD base new \<Rightarrow>
       om_DeletionTimestamp (gd_Meta gd) = None \<and> gd_Meta new = AddFinalizer E globalDeploymentFinalizer (gd_Meta gd) \<or>
       om_DeletionTimestamp (gd_Meta gd) \<noteq> None \<and> gd_Meta new = RemoveFinalizer E globalDeploymentFinalizer (gd_Meta base) \<and>
         held E gd h base \<and> no_binding_left E base h
   | StatusUpdateGD g \<Rightarrow> om_DeletionTimestamp (gd_Meta gd) = None \<and> gd_ObservedRevision (gd_Status g) = ''''
   | StatusPatchGD base new \<Rightarrow> gd_Meta new = gd_Meta gd
   | GetGD _ \<Rightarrow> True | GetRB _ \<Rightarrow> True | ListRB _ \<Rightarrow> True | ListClusters \<Rightarrow> True | Sleep _ \<Rightarrow> True
   | _ \<Rightarrow> False)"

lemma gd_guard_simps [simp]:
  "gd_guard E gd h (CreateRB b) \<longleftrightarrow> om_DeletionTimestamp (gd_Meta gd) = None \<and> rb_Phase (rb_Status b) = Pending"
  "gd_guard E gd h (UpdateRB b) \<longleftrightarrow> om_DeletionTimestamp (gd_Meta gd) = None \<and> fitting_candidate E gd h b \<and> observed_pending E h"
  "gd_guard E gd h (StatusUpdateRB b) \<longleftrightarrow> om_DeletionTimestamp (gd_Meta gd) = None \<and>
     (after_create h \<or> rb_Phase (rb_Status b) = Assigned \<and> observed_pending E h)"
  "gd_guard E gd h (DeleteRB b) \<longleftrightarrow> om_DeletionTimestamp (gd_Meta gd) \<noteq> None \<and> (\<exists>g. held E gd h g \<and> owned_by g b) \<and> om_DeletionTimestamp (rb_Meta b) = None \<and>
     (rb_Phase (rb_Status b) = Running \<or> rb_Phase (rb_Status b) = Failed)"
  "gd_guard E gd h (StatusUpdateGD g) \<longleftrightarrow> om_DeletionTimestamp (gd_Meta gd) = None \<and> gd_ObservedRevision (gd_Status g) = ''''"
  "gd_guard E gd h (StatusPatchGD base new) \<longleftrightarrow> gd_Meta new = gd_Meta gd"
  "gd_guard E gd h (GetGD k)" "gd_guard E gd h (GetRB k)" "gd_guard E gd h (ListRB ns)" "gd_guard E gd h ListClusters" "gd_guard E gd h (Sleep d)"
  by (simp_all add: gd_guard_def)

lemma gd_guard_PatchGD:
  "gd_guard E gd h (PatchGD base new) \<longleftrightarrow>
     om_DeletionTimestamp (gd_Meta gd) = None \<and> gd_Meta new = AddFinalizer E globalDeploymentFinalizer (gd_Meta gd) \<or>
     om_DeletionTimestamp (gd_Meta gd) \<noteq> None \<and> gd_Meta new = RemoveFinalizer E globalDeploymentFinalizer (gd_Meta base) \<and>
       held E gd h base \<and> no_binding_left E base h"
  by (simp add: gd_guard_def)

lemma candidates_ext: "ListClusters \<notin> set es \<Longrightarrow> candidates E (h @ es) = candidates E h"
proof -
  assume "ListClusters \<notin> set es"
  then have "dropWhile (\<lambda>e. e \<noteq> ListClusters) (rev es @ rev h) = dropWhile (\<lambda>e. e \<noteq> ListClusters) (rev h)"
    by (intro dropWhile_append2) auto
  then show ?thesis by (simp add: candidates_def)
qed

lemma candidates_snoc [simp]:
  "candidates E (h @ [GetRB k]) = candidates E h" "candidates E (h @ [UpdateRB b]) = candidates E h"
  "candidates E (h @ [GetRB k, UpdateRB b]) = candidates E h" "candidates E (h @ [GetRB k, UpdateRB b, StatusUpdateRB c]) = candidates E h"
  "candidates E (h @ [GetRB k, StatusUpdateRB c]) = candidates E h"
  by (simp_all add: candidates_ext)

lemmas gd_run = vcg io_defs Let_def

lemma ensure_binding_ok:
  assumes "ok (gd_guard E gd) h0 (hist w)" and "om_DeletionTimestamp (gd_Meta gd) = None"
  shows "wp (ensure_binding E gd ex i u) (\<lambda>r w'. ok (gd_guard E gd) h0 (hist w')) w"
  using assms by (auto simp: ensure_binding_def gd_run after_create_def split: sum.split)

lemma schedule_binding_ok:
  assumes "ok (gd_guard E gd) h0 (hist w)" and "om_DeletionTimestamp (gd_Meta gd) = None"
    and "candidates E (hist w) = nodes"
  shows "wp (schedule_binding E gd key nodes b cursor)
    (\<lambda>r w'. ok (gd_guard E gd) h0 (hist w') \<and> candidates E (hist w') = nodes) w"
proof (cases "env_get_rb E (hist w) (rb_key b)")
  case (Inr latest)
  show ?thesis
  proof (cases "rb_Phase (rb_Status latest) = PhaseNone \<or> rb_Phase (rb_Status latest) = Pending")
    case True
    show ?thesis
    proof (cases "pickNextFit nodes cursor (accepts_node E gd)")
      case (Inr r)
      obtain slot nx where r: "r = (slot, nx)" by (cases r)
      with Inr have slot: "slot \<in> set nodes" "accepts_node E gd slot" using pickNextFit_sound by blast+
      with assms True r Inr \<open>env_get_rb E (hist w) (rb_key b) = Inr latest\<close> show ?thesis
        by (auto simp: schedule_binding_def assign_binding_def gd_run observed_pending_def fitting_candidate_def list_ex_iff
            split: sum.split)
    qed (use assms Inr True in \<open>auto simp: schedule_binding_def gd_run\<close>)
  qed (use assms Inr in \<open>auto simp: schedule_binding_def gd_run\<close>)
qed (use assms in \<open>simp add: schedule_binding_def gd_run\<close>)

lemma update_status_loop_ok:
  assumes "ok (gd_guard E gd) h0 (hist w)" and "om_DeletionTimestamp (gd_Meta gd) = None" and "gd_ObservedRevision st = ''''"
  shows "wp (update_status_loop E key st n) (\<lambda>r w'. ok (gd_guard E gd) h0 (hist w')) w"
  using assms(1)
proof (induction n arbitrary: w)
  case (Suc n)
  with assms(2,3) show ?case by (auto simp: gd_run split: sum.split)
qed (simp add: gd_run)

lemma buildOrderedNodes_wp:
  "wp (buildOrderedNodes E) Q w \<longleftrightarrow>
    (let w' = w\<lparr>hist := hist w @ [ListClusters]\<rparr> in
     case env_list_clusters E (hist w) of Inl err \<Rightarrow> Q (Inl err) w' | Inr _ \<Rightarrow> Q (Inr (candidates E (hist w'))) w')"
  by (simp add: buildOrderedNodes_def gd_run candidates_def split: sum.split)

lemma schedule_and_report_ok:
  assumes "ok (gd_guard E gd) h0 (hist w)" and "om_DeletionTimestamp (gd_Meta gd) = None"
  shows "wp (schedule_and_report E req gd owned) (\<lambda>r w'. ok (gd_guard E gd) h0 (hist w')) w"
proof -
  let ?G = "gd_guard E gd"
  have loop: "wp (io_fold (schedule_binding E gd key nodes) owned c)
      (\<lambda>r w'. case r of Inl out \<Rightarrow> ok ?G h0 (hist w') | Inr c' \<Rightarrow> ok ?G h0 (hist w') \<and> candidates E (hist w') = nodes) w1"
    if "ok ?G h0 (hist w1)" and "candidates E (hist w1) = nodes" for key nodes c w1
    by (rule wp_fold) (use that assms(2) in \<open>auto intro!: wp_mono [OF schedule_binding_ok] split: sum.split\<close>)
  have report: "wp (updateGDStatusWithRetry E req (aggregate_status n t bs)) (\<lambda>_ w'. ok ?G h0 (hist w')) w2"
    if "ok ?G h0 (hist w2)" for n t bs w2
  proof -
    have "gd_ObservedRevision (fold count_binding bs st) = gd_ObservedRevision st" for st
      by (induction bs arbitrary: st) (simp_all add: count_binding_def split: ReplicaBindingPhase.split)
    then have "gd_ObservedRevision (aggregate_status n t bs) = ''''" by (simp add: aggregate_status_def Let_def)
    with update_status_loop_ok that assms(2) show ?thesis by (simp add: updateGDStatusWithRetry_def)
  qed
  show ?thesis
    unfolding schedule_and_report_def using assms
    by (auto simp: gd_run buildOrderedNodes_wp list_rb_def split: sum.split option.split
        intro!: wp_mono [OF loop] wp_mono [OF report])
qed

lemma gd_active_ok:
  assumes "ok (gd_guard E gd) h0 (hist w)" and "om_DeletionTimestamp (gd_Meta gd) = None"
  shows "wp (gd_active E req gd) (\<lambda>r w'. ok (gd_guard E gd) h0 (hist w')) w"
proof -
  let ?G = "gd_guard E gd"
  have loop: "wp (io_fold (ensure_binding E gd ex) is u)
      (\<lambda>r w'. case r of Inl out \<Rightarrow> ok ?G h0 (hist w') | Inr s \<Rightarrow> ok ?G h0 (hist w')) w1"
    if "ok ?G h0 (hist w1)" for ex "is" u w1
    by (rule wp_fold) (use that assms(2) in \<open>auto intro!: wp_mono [OF ensure_binding_ok] split: sum.split\<close>)
  show ?thesis
    unfolding gd_active_def using assms
    by (auto simp: gd_run list_rb_def split: sum.split intro!: wp_mono [OF loop] schedule_and_report_ok)
qed

lemma held_self [simp]: "gd_Meta g = gd_Meta gd \<Longrightarrow> held E gd h g"
  by (simp add: held_def)

lemma held_ext [simp]: "held E gd h g \<Longrightarrow> held E gd (h @ es) g"
  unfolding held_def by (metis append.assoc append_Cons)

lemma held_answer: "env_write_gd E h (StatusPatchGD gd new) = Inr g \<Longrightarrow> held E gd (h @ [StatusPatchGD gd new]) g"
  unfolding held_def by blast

lemma mark_deleting_wp:
  assumes "ok (gd_guard E gd) h0 (hist w)"
    and "\<And>g w'. held E gd (hist w') g \<Longrightarrow> ok (gd_guard E gd) h0 (hist w') \<Longrightarrow> Q g w'"
  shows "wp (mark_deleting E gd) Q w"
  using assms by (auto simp: mark_deleting_def gd_run held_answer split: sum.split)

lemma reconcileDelete_ok:
  assumes "ok (gd_guard E gd) h0 (hist w)" and "om_DeletionTimestamp (gd_Meta gd) \<noteq> None"
  shows "wp (reconcileDelete E gd) (\<lambda>r w'. ok (gd_guard E gd) h0 (hist w')) w"
proof -
  let ?G = "gd_guard E gd"
  let ?I = "\<lambda>g w'. ok ?G h0 (hist w') \<and> held E gd (hist w') g"
  have loop: "wp (io_fold (request_delete E) (owned_of g bs) d)
      (\<lambda>r w'. case r of Inl out \<Rightarrow> ?I g w' | Inr s \<Rightarrow> ?I g w') w1"
    if "?I g w1" for g bs d w1
  proof (rule wp_fold)
    fix b s and w' :: world
    assume "b \<in> set (owned_of g bs)" and "?I g w'"
    with assms(2) show "wp (request_delete E b s) (\<lambda>r w'. case r of Inl out \<Rightarrow> ?I g w' | Inr s \<Rightarrow> ?I g w') w'"
      by (auto simp: request_delete_def delete_rb_def gd_run owned_of_def split: option.split)
  qed (rule that)
  have body: "wp (delete_bindings E g) (\<lambda>r w'. ok ?G h0 (hist w')) w1" if "?I g w1" for g w1
    unfolding delete_bindings_def using that assms(2)
    by (auto simp: gd_run list_rb_def gd_guard_PatchGD no_binding_left_def split: sum.split intro!: wp_mono [OF loop])
  show ?thesis
  proof (cases "ContainsFinalizer E (gd_Meta gd) globalDeploymentFinalizer")
    case True
    then show ?thesis
      using assms by (auto simp: reconcileDelete_def wp_bind intro!: mark_deleting_wp body)
  qed (use assms in \<open>simp add: reconcileDelete_def gd_run\<close>)
qed

lemma gd_Reconcile_ok:
  assumes "env_get_gd E (hist w) req = Inr gd"
  shows "wp (gd_Reconcile E req) (\<lambda>r w'. ok (gd_guard E gd) (hist w) (hist w')) w"
  unfolding gd_Reconcile_def using assms
  by (auto simp: gd_run gd_guard_PatchGD split: sum.split intro!: reconcileDelete_ok gd_active_ok)

lemma gd_Reconcile_guarded:
  assumes "env_get_gd E (hist w) req = Inr gd"
  shows "guarded (gd_guard E gd) (hist w) (trace (gd_Reconcile E req) w)"
  using gd_Reconcile_ok [OF assms] by (simp add: wp_result ok_trace)

lemma gd_Reconcile_at:
  assumes "env_get_gd E (hist w) req = Inr gd" and "trace (gd_Reconcile E req) w = pre @ e # post"
  shows "gd_guard E gd (hist w @ pre) e"
  using gd_Reconcile_guarded [OF assms(1)] unfolding assms(2) by (rule guarded_at)

subsection \<open>Correctness of the controller\<close>

text \<open>
  C17: The finalizer of a GlobalDeployment is removed only when no binding is left. A patch that takes the
  finalizer away comes from a run on a deployment that is being deleted. It changes the deployment as the run holds
  it, which is the one that was read or the server's answer to the status patch of this run, and the call just before
  listed the ReplicaBindings of its namespace and found none that it owns. This covers the first deletion run, in
  which the status patch gives the deployment a new version.
\<close>

theorem gd_finalizer_removed_when_no_binding_left:
  assumes "finalizer_laws E" and "env_get_gd E (hist w) req = Inr gd"
    and "trace (gd_Reconcile E req) w = pre @ PatchGD base new # post"
    and "\<not> ContainsFinalizer E (gd_Meta new) globalDeploymentFinalizer"
  shows "om_DeletionTimestamp (gd_Meta gd) \<noteq> None \<and> held E gd (hist w @ pre) base \<and> no_binding_left E base (hist w @ pre)"
  using gd_Reconcile_at [OF assms(2,3)] assms(1,4) by (auto simp: gd_guard_PatchGD finalizer_laws_def)

text \<open>
  Only settled bindings are deleted. A run deletes a ReplicaBinding only while the deployment itself is
  being deleted, and then only one it owns that is Running or Failed and not already being deleted.
\<close>

theorem gd_deletes_only_settled_bindings:
  assumes "env_get_gd E (hist w) req = Inr gd"
    and "trace (gd_Reconcile E req) w = pre @ DeleteRB b # post"
  shows "om_DeletionTimestamp (gd_Meta gd) \<noteq> None \<and> (\<exists>g. held E gd (hist w @ pre) g \<and> owned_by g b) \<and>
    om_DeletionTimestamp (rb_Meta b) = None \<and> (rb_Phase (rb_Status b) = Running \<or> rb_Phase (rb_Status b) = Failed)"
  using gd_Reconcile_at [OF assms] by auto

text \<open>
  C12: A replica is assigned to a node that fits. Every spec update writes a target that is a candidate of
  the cluster list read in the same run, Ready and with at least the free CPU and memory the template
  requests, unless the template requests neither; and it concerns a binding that was just read and found unscheduled.
\<close>

theorem gd_assigns_fitting_candidate:
  assumes "env_get_gd E (hist w) req = Inr gd"
    and "trace (gd_Reconcile E req) w = pre @ UpdateRB b # post"
  shows "observed_pending E (hist w @ pre) \<and> (\<exists>n \<in> set (candidates E (hist w @ pre)).
    on_ClusterID n = rb_TargetCluster (rb_Spec b) \<and> on_NodeName n = rb_TargetNodeName (rb_Spec b) \<and> on_Ready n \<and>
    (let r = sumDeploymentPodRequests E gd in
      req_CPU r = 0 \<and> req_Mem r = 0 \<or> req_CPU r \<le> on_FreeCPU n \<and> req_Mem r \<le> on_FreeMem n))"
  using gd_Reconcile_at [OF assms]
  by (auto simp: fitting_candidate_def list_ex_iff accepts_node_def fits_def Let_def not_less split: if_splits)

subsection \<open>One binding per replica\<close>

definition created_index :: "event \<Rightarrow> int32 option" where
  "created_index e = (case e of CreateRB b \<Rightarrow> Some (rb_ReplicaIndex (rb_Spec b)) | _ \<Rightarrow> None)"

definition created :: "history \<Rightarrow> int32 list" where
  "created h = List.map_filter created_index h"

lemma created_simps [simp]:
  "created [] = []" "created (CreateRB b # h) = rb_ReplicaIndex (rb_Spec b) # created h"
  "created (GetGD k # h) = created h" "created (ListRB ns # h) = created h" "created (StatusUpdateRB b # h) = created h"
  by (simp_all add: created_def created_index_def List.map_filter_def)

lemma created_append [simp]: "created (xs @ ys) = created xs @ created ys"
  by (simp add: created_def map_filter_def)

text \<open>The replica indices without a binding, in order.\<close>

definition missing :: "GlobalDeployment \<Rightarrow> ReplicaBinding list \<Rightarrow> int32 list" where
  "missing gd bs = filter (\<lambda>i. i \<notin> set (map (\<lambda>b. rb_ReplicaIndex (rb_Spec b)) (owned_of gd bs))) (map int [0..<nat (desired_replicas gd)])"

text \<open>From the history \<open>h\<close> to \<open>h'\<close> the missing ones of \<open>is\<close> were created, or a beginning of them and an error.\<close>

definition creates :: "int32 set \<Rightarrow> int32 list \<Rightarrow> (reconcile_out + 's) \<Rightarrow> history \<Rightarrow> history \<Rightarrow> bool" where
  "creates ex is r h h' \<longleftrightarrow> (\<exists>tr. h' = h @ tr \<and>
    (case r of Inl out \<Rightarrow> snd out \<noteq> None \<and> prefix (created tr) (filter (\<lambda>i. i \<notin> ex) is)
     | Inr _ \<Rightarrow> created tr = filter (\<lambda>i. i \<notin> ex) is))"

lemma creates_stop: "creates ex [i] (Inl out) h h' \<Longrightarrow> creates ex (i # is) (Inl out) h h'"
  by (auto simp: creates_def prefix_Cons split: if_splits)

lemma creates_cons: "creates ex [i] (Inr u) h h' \<Longrightarrow> creates ex is r h' h'' \<Longrightarrow> creates ex (i # is) r h h''"
  by (cases r) (auto simp: creates_def)

lemma ensure_binding_creates:
  assumes "owner_laws E"
  shows "wp (ensure_binding E gd ex i u) (\<lambda>r w'. creates ex [i] r (hist w) (hist w')) w"
proof (cases "env_set_owner E gd (new_binding gd i)")
  case (Inr b)
  with assms have "rb_ReplicaIndex (rb_Spec b) = i" by (simp add: owner_laws_def new_binding_def)
  with Inr show ?thesis by (auto simp: ensure_binding_def gd_run creates_def split: sum.split)
qed (simp add: ensure_binding_def gd_run creates_def)

lemma ensure_loop_creates:
  assumes "owner_laws E"
  shows "wp (io_fold (ensure_binding E gd ex) is u) (\<lambda>r w'. creates ex is r (hist w) (hist w')) w"
proof (induction "is" arbitrary: w u)
  case (Cons i "is")
  have "wp (case r of Inl e \<Rightarrow> State_Monad.return (Inl e) | Inr s \<Rightarrow> io_fold (ensure_binding E gd ex) is s)
      (\<lambda>r w''. creates ex (i # is) r (hist w) (hist w'')) w'"
    if "creates ex [i] r (hist w) (hist w')" for r and w' :: world
  proof (cases r)
    case (Inl out)
    with that show ?thesis by (simp add: wp_return creates_stop)
  next
    case (Inr s)
    with that show ?thesis by (auto intro: creates_cons wp_mono [OF Cons.IH])
  qed
  then show ?case
    by (simp only: io_fold.simps wp_bind) (rule wp_mono [OF ensure_binding_creates [OF assms]])
qed (simp add: wp_return creates_def)

text \<open>Scheduling and reporting create nothing.\<close>

abbreviation no_create :: "history \<Rightarrow> event \<Rightarrow> bool" where
  "no_create \<equiv> \<lambda>_ e. created_index e = None"

lemma created_none: "list_all (\<lambda>e. created_index e = None) tr \<Longrightarrow> created tr = []"
  by (induction tr) (simp_all add: created_def List.map_filter_def)

lemma gd_io_guar [guar_intros]:
  "(\<And>h. G h (ListRB ns)) \<Longrightarrow> guar G (list_rb E ns)" "(\<And>h. G h (GetGD k)) \<Longrightarrow> guar G (get_gd E k)"
  "(\<And>h. G h e) \<Longrightarrow> guar G (write_gd E e)" "(\<And>h. G h e) \<Longrightarrow> guar G (write_rb E e)"
  "(\<And>h. G h (GetRB k)) \<Longrightarrow> guar G (get_rb E k)"
  "guar G (requeue d)" "guar G (fail_with err)" "guar G done_ok"
  by (auto simp: list_rb_def get_gd_def write_gd_def write_rb_def get_rb_def requeue_def fail_with_def done_ok_def intro: guar_intros)

lemma created_index_simps [simp]:
  "created_index (ListRB ns) = None" "created_index (GetGD k) = None" "created_index (StatusUpdateGD g) = None"
  "created_index (UpdateRB b) = None" "created_index (StatusUpdateRB b) = None" "created_index (GetRB k) = None"
  "created_index (Sleep d) = None" "created_index ListClusters = None"
  by (simp_all add: created_index_def)

lemma update_status_loop_creates: "guar no_create (update_status_loop E key st n)"
  by (induction n) (auto intro!: guar_intros)

lemma schedule_creates [guar_intros]: "guar no_create (schedule_and_report E req gd owned)"
  unfolding schedule_and_report_def buildOrderedNodes_def schedule_binding_def assign_binding_def updateGDStatusWithRetry_def Let_def
  by (intro guar_intros update_status_loop_creates) simp_all

text \<open>
  C13: One binding per replica. A run that gets past the finalizer and the revision creates ReplicaBindings
  only for the indices from 0 to replicas - 1 that no owned binding has, in ascending order and each at
  most once; a run that ends without error has created all of them.
\<close>

theorem gd_creates_exactly_missing_bindings:
  assumes "owner_laws E" and "env_get_gd E (hist w) req = Inr gd" and "om_DeletionTimestamp (gd_Meta gd) = None"
    and "ContainsFinalizer E (gd_Meta gd) globalDeploymentFinalizer" and "gd_ObservedRevision (gd_Status gd) \<noteq> ''''"
    and "env_list_rb E (hist w @ [GetGD req]) (om_Namespace (gd_Meta gd)) = Inr bs"
  shows "prefix (created (trace (gd_Reconcile E req) w)) (missing gd bs) \<and> distinct (missing gd bs) \<and>
    (snd (result (gd_Reconcile E req) w) = None \<longrightarrow> created (trace (gd_Reconcile E req) w) = missing gd bs)"
proof -
  let ?ex = "set (map (\<lambda>b. rb_ReplicaIndex (rb_Spec b)) (owned_of gd bs))" and ?is = "map int [0..<nat (desired_replicas gd)]"
  let ?w = "w\<lparr>hist := hist w @ [GetGD req, ListRB (om_Namespace (gd_Meta gd))]\<rparr> :: world"
  let ?Q = "\<lambda>r w'. \<exists>tr. hist w' = hist w @ tr \<and> prefix (created tr) (missing gd bs) \<and> (snd r = None \<longrightarrow> created tr = missing gd bs)"
  have "wp (case r of Inl out \<Rightarrow> State_Monad.return out | Inr _ \<Rightarrow> schedule_and_report E req gd (owned_of gd bs)) ?Q w1"
    if "creates ?ex ?is r (hist ?w) (hist w1)" for r :: "reconcile_out + unit" and w1 :: world
  proof (cases r)
    case (Inl out)
    with that show ?thesis
      by (auto simp: wp_return creates_def missing_def)
  next
    case (Inr u)
    with that obtain tr where tr: "hist w1 = hist ?w @ tr" "created tr = missing gd bs"
      by (auto simp: creates_def missing_def)
    have "wp (schedule_and_report E req gd (owned_of gd bs)) ?Q w1"
    proof (rule guar_ok_wp [OF schedule_creates])
      fix out and w2 :: world
      assume "ok no_create (hist w1) (hist w2)"
      then obtain tr' where "hist w2 = hist w1 @ tr'" "created tr' = []"
        by (auto simp: ok_iff guarded_plain created_none)
      with tr show "?Q out w2" by (intro exI [of _ "GetGD req # ListRB (om_Namespace (gd_Meta gd)) # tr @ tr'"]) simp
    qed
    with Inr show ?thesis by simp
  qed
  then have "wp (io_fold (ensure_binding E gd ?ex) ?is ())
      (\<lambda>r. wp (case r of Inl out \<Rightarrow> State_Monad.return out | Inr _ \<Rightarrow> schedule_and_report E req gd (owned_of gd bs)) ?Q) ?w"
    by (rule wp_mono [OF ensure_loop_creates [OF assms(1)]])
  then have "wp (gd_Reconcile E req) ?Q w"
    using assms(2-6) by (simp add: gd_Reconcile_def gd_active_def list_rb_def gd_run)
  then obtain tr where "hist (exec (gd_Reconcile E req) w) = hist w @ tr" "prefix (created tr) (missing gd bs)"
      "snd (result (gd_Reconcile E req) w) = None \<longrightarrow> created tr = missing gd bs"
    by (auto simp: wp_result)
  moreover have "distinct (missing gd bs)" by (simp add: missing_def distinct_map)
  ultimately show ?thesis by (simp add: trace_def)
qed

subsection \<open>The aggregated status\<close>

definition counts_pending :: "ReplicaBinding \<Rightarrow> bool" where
  "counts_pending b \<longleftrightarrow> rb_Phase (rb_Status b) \<in> {Applying, Assigned, Pending, PhaseNone}"

lemma count_bindings_acc:
  assumes "0 \<le> gd_Running st" "0 \<le> gd_Failed st" "0 \<le> gd_Pending st"
    and "gd_Running st + int (length bs) < 2 ^ 31" "gd_Failed st + int (length bs) < 2 ^ 31" "gd_Pending st + int (length bs) < 2 ^ 31"
  shows "fold count_binding bs st = st\<lparr>
    gd_Running := gd_Running st + int (length (filter (\<lambda>b. rb_Phase (rb_Status b) = Running) bs)),
    gd_Failed := gd_Failed st + int (length (filter (\<lambda>b. rb_Phase (rb_Status b) = Failed) bs)),
    gd_Pending := gd_Pending st + int (length (filter counts_pending bs))\<rparr>"
  using assms
proof (induction bs arbitrary: st)
  case (Cons b bs)
  have w [simp]: "wrap32 (gd_Running st + 1) = gd_Running st + 1" "wrap32 (gd_Failed st + 1) = gd_Failed st + 1"
    "wrap32 (gd_Pending st + 1) = gd_Pending st + 1"
    using Cons.prems by (auto simp: in_int32_def intro!: wrap32_id)
  show ?case
    using Cons.prems
    by (cases "rb_Phase (rb_Status b)") (simp_all add: count_binding_def [of b] counts_pending_def [of b] Cons.IH add.assoc)
qed simp

text \<open>
  The aggregated status. With fewer than 2^31 bindings the counters are the numbers of bindings that are
  Running, Failed, and Pending or on their way (Assigned, Applying or without phase), and the phase is
  Running exactly when all of a positive number of replicas run, otherwise Degraded if one failed,
  Progressing if one runs, and Pending if none does.
\<close>

theorem gd_status_counts_bindings:
  assumes "length bs < 2 ^ 31"
  shows "let st = aggregate_status replicas t bs;
      run = int (length (filter (\<lambda>b. rb_Phase (rb_Status b) = Running) bs));
      fail = int (length (filter (\<lambda>b. rb_Phase (rb_Status b) = Failed) bs)) in
    gd_Running st = run \<and> gd_Failed st = fail \<and> gd_Pending st = int (length (filter counts_pending bs)) \<and>
    gd_Running st + gd_Failed st + gd_Pending st \<le> int (length bs) \<and>
    gd_Phase st = (if run = replicas \<and> 0 < replicas then GDRunning else if 0 < fail then GDDegraded
      else if 0 < run then GDProgressing else GDPending)"
proof -
  have "length (filter (\<lambda>b. rb_Phase (rb_Status b) = Running) bs) + length (filter (\<lambda>b. rb_Phase (rb_Status b) = Failed) bs) +
      length (filter counts_pending bs) \<le> length bs"
    by (induction bs) (auto simp: counts_pending_def)
  moreover have "int (length bs) < 2 ^ 31" using assms by simp
  ultimately show ?thesis
    by (auto simp: aggregate_status_def count_bindings_acc Let_def)
qed

subsection \<open>Retries, lost revisions and stuck deletions\<close>

definition status_updates :: "history \<Rightarrow> nat" where
  "status_updates h = length (filter (\<lambda>e. case e of StatusUpdateGD _ \<Rightarrow> True | _ \<Rightarrow> False) h)"

lemma status_updates_simps [simp]:
  "status_updates [] = 0" "status_updates (xs @ ys) = status_updates xs + status_updates ys"
  "status_updates (StatusUpdateGD g # h) = Suc (status_updates h)" "status_updates (GetGD k # h) = status_updates h"
  "status_updates (Sleep d # h) = status_updates h"
  by (simp_all add: status_updates_def)

text \<open>The calls \<open>tr\<close>, made after \<open>h\<close>, end with an accepted update to the status \<open>st\<close>.\<close>

definition accepted_last :: "env \<Rightarrow> GlobalDeploymentStatus \<Rightarrow> history \<Rightarrow> history \<Rightarrow> bool" where
  "accepted_last E st h tr \<longleftrightarrow> (case rev tr of
      StatusUpdateGD g # r \<Rightarrow> gd_Status g = st \<and>
        (case env_write_gd E (h @ rev r) (StatusUpdateGD g) of Inr _ \<Rightarrow> True | Inl _ \<Rightarrow> False)
    | _ \<Rightarrow> False)"

definition attempts :: "env \<Rightarrow> GlobalDeploymentStatus \<Rightarrow> nat \<Rightarrow> api_err option \<Rightarrow> history \<Rightarrow> history \<Rightarrow> bool" where
  "attempts E st n r h tr \<longleftrightarrow> status_updates tr \<le> n \<and> (r = None \<longrightarrow> accepted_last E st h tr)"

lemma accepted_last_append: "accepted_last E st (h @ xs) tr \<Longrightarrow> accepted_last E st h (xs @ tr)"
  by (cases "rev tr") (auto simp: accepted_last_def split: event.splits)

lemma attempts_append: "attempts E st n r (h @ xs) tr \<Longrightarrow> attempts E st (n + status_updates xs) r h (xs @ tr)"
  by (auto simp: attempts_def accepted_last_append)

lemma update_status_loop_bounded:
  "wp (update_status_loop E key st n) (\<lambda>r w'. \<exists>tr. hist w' = hist w @ tr \<and> attempts E st n r (hist w) tr) w"
proof (induction n arbitrary: w)
  case (Suc n)
  have retry: "wp (update_status_loop E key st n) (\<lambda>r w'. \<exists>tr. hist w' = hist w @ tr \<and> attempts E st (Suc n) r (hist w) tr)
      (w\<lparr>hist := hist w @ [GetGD key, StatusUpdateGD g, Sleep d]\<rparr>)" for g d
  proof (rule wp_mono [OF Suc.IH], elim exE conjE)
    fix r and w' :: world and tr
    assume "hist w' = hist (w\<lparr>hist := hist w @ [GetGD key, StatusUpdateGD g, Sleep d]\<rparr>) @ tr"
      and "attempts E st n r (hist (w\<lparr>hist := hist w @ [GetGD key, StatusUpdateGD g, Sleep d]\<rparr>)) tr"
    with attempts_append [of E st n r "hist w" "[GetGD key, StatusUpdateGD g, Sleep d]" tr]
    show "\<exists>tr. hist w' = hist w @ tr \<and> attempts E st (Suc n) r (hist w) tr" by auto
  qed
  show ?case
    by (auto simp: gd_run attempts_def [of _ _ _ _ _ "[_]"] attempts_def [of _ _ _ _ _ "[_, _]"] accepted_last_def
        split: sum.split intro!: retry)
qed (simp add: gd_run attempts_def)

text \<open>
  C32: The status update gives up. It makes at most five attempts, and it reports success only when its last
  call was a status update, carrying exactly the given status, that the server accepted.
\<close>

theorem gd_status_update_bounded:
  "status_updates (trace (updateGDStatusWithRetry E key st) w) \<le> 5 \<and>
    (case result (updateGDStatusWithRetry E key st) w of
       Some _ \<Rightarrow> True
     | None \<Rightarrow> accepted_last E st (hist w) (trace (updateGDStatusWithRetry E key st) w))"
  using update_status_loop_bounded [of E key st 5 w]
  by (auto simp: updateGDStatusWithRetry_def wp_result trace_def attempts_def split: option.split)

text \<open>
  Every status report loses the revision. Each status update of a run carries an empty observed
  revision, so the next run on the stored object (with its finalizer, not being deleted) only writes the
  revision back and schedules nothing.
\<close>

theorem gd_status_report_drops_revision:
  assumes "env_get_gd E (hist w) req = Inr gd" and "StatusUpdateGD g \<in> set (trace (gd_Reconcile E req) w)"
    and "env_get_gd E' (hist w') req' = Inr g" and "om_DeletionTimestamp (gd_Meta g) = None"
    and "ContainsFinalizer E' (gd_Meta g) globalDeploymentFinalizer"
  shows "gd_ObservedRevision (gd_Status g) = '''' \<and>
    trace (gd_Reconcile E' req') w' =
      [GetGD req', StatusPatchGD g (g\<lparr>gd_Status := (gd_Status g)\<lparr>gd_ObservedRevision := ''v1''\<rparr>\<rparr>)]"
proof -
  have 1: "gd_ObservedRevision (gd_Status g) = ''''"
    using guarded_in_set [OF gd_Reconcile_guarded [OF assms(1)] assms(2)] by auto
  have "wp (gd_Reconcile E' req') (\<lambda>_ v. hist v = hist w' @
      [GetGD req', StatusPatchGD g (g\<lparr>gd_Status := (gd_Status g)\<lparr>gd_ObservedRevision := ''v1''\<rparr>\<rparr>)]) w'"
    using 1 assms(3-5) by (simp add: gd_Reconcile_def gd_run split: sum.split)
  with 1 show ?thesis by (simp add: wp_result trace_def)
qed

text \<open>What a server promises of the answer to a status patch: name, namespace and UID of the object.\<close>

definition identity_kept :: "env \<Rightarrow> bool" where
  "identity_kept E \<longleftrightarrow> (\<forall>h base new g. env_write_gd E h (StatusPatchGD base new) = Inr g \<longrightarrow>
     gd_key g = gd_key new \<and> om_UID (gd_Meta g) = om_UID (gd_Meta new))"

text \<open>A binding for which the deletion of its deployment asks no deletion.\<close>

definition unsettled :: "ReplicaBinding \<Rightarrow> bool" where
  "unsettled b \<longleftrightarrow> om_DeletionTimestamp (rb_Meta b) = None \<and> rb_Phase (rb_Status b) \<noteq> Running \<and> rb_Phase (rb_Status b) \<noteq> Failed"

definition waits :: "event \<Rightarrow> bool" where
  "waits e = (case e of PatchGD _ _ \<Rightarrow> False | DeleteRB b \<Rightarrow> \<not> unsettled b | _ \<Rightarrow> True)"

lemma waits_simps [simp]:
  "waits (GetGD k)" "waits (ListRB ns)" "waits (StatusPatchGD a c)" "waits (DeleteRB b) \<longleftrightarrow> \<not> unsettled b"
  by (simp_all add: waits_def)

lemma request_delete_waits:
  "wp (request_delete E b d) (\<lambda>r w'. ok (\<lambda>_. waits) (hist w) (hist w') \<and> (\<forall>out. r = Inl out \<longrightarrow> snd out \<noteq> None)) w"
  by (auto simp: request_delete_def delete_rb_def gd_run unsettled_def split: option.split)

lemma delete_bindings_waits:
  assumes "\<And>h bs. env_list_rb E h (om_Namespace (gd_Meta gd)) = Inr bs \<Longrightarrow> list_ex unsettled (owned_of gd bs)"
    and "ok (\<lambda>_. waits) h0 (hist w)"
  shows "wp (delete_bindings E gd) (\<lambda>r w'. (snd r \<noteq> None \<or> 0 < fst r) \<and> ok (\<lambda>_. waits) h0 (hist w')) w"
proof -
  let ?ok = "\<lambda>w'. ok (\<lambda>_. waits) h0 (hist w')"
  have loop: "wp (io_fold (request_delete E) bs d)
      (\<lambda>r w'. case r of Inl out \<Rightarrow> snd out \<noteq> None \<and> ?ok w' | Inr s \<Rightarrow> ?ok w') w1" if "?ok w1" for bs d w1
  proof (rule wp_fold)
    show "wp (request_delete E b s) (\<lambda>r w'. case r of Inl out \<Rightarrow> snd out \<noteq> None \<and> ?ok w' | Inr s \<Rightarrow> ?ok w') w'" if "?ok w'" for b s w'
      by (rule wp_mono [OF request_delete_waits]) (use that in \<open>auto intro: ok_trans split: sum.split\<close>)
  qed (rule that)
  have "owned_of gd bs \<noteq> []" if "env_list_rb E h (om_Namespace (gd_Meta gd)) = Inr bs" for h bs
    using assms(1) [OF that] by auto
  with assms(2) show ?thesis
    unfolding delete_bindings_def
    by (auto simp: gd_run list_rb_def Millisecond_def split: sum.split intro!: wp_mono [OF loop])
qed

text \<open>
  C40: Deletion waits for ever on a binding that is not settled. As long as every list of the namespace that succeeds
  shows an owned binding without deletion timestamp that is neither Running nor Failed (Pending, for instance), a
  run on the deleted deployment asks for the deletion of settled bindings only, does not remove the finalizer, and ends
  with an error or asks to be called again. The server may give the deployment a new version, but keeps its name,
  namespace and UID.
\<close>

theorem gd_deletion_waits_on_unsettled_binding:
  assumes "identity_kept E" and "env_get_gd E (hist w) req = Inr gd" and "om_DeletionTimestamp (gd_Meta gd) \<noteq> None"
    and "ContainsFinalizer E (gd_Meta gd) globalDeploymentFinalizer"
    and "\<And>h bs. env_list_rb E h (om_Namespace (gd_Meta gd)) = Inr bs \<Longrightarrow> list_ex unsettled (owned_of gd bs)"
  shows "(snd (result (gd_Reconcile E req) w) \<noteq> None \<or> 0 < fst (result (gd_Reconcile E req) w)) \<and>
    list_all (\<lambda>e. case e of PatchGD _ _ \<Rightarrow> False | DeleteRB b \<Rightarrow> \<not> unsettled b | _ \<Rightarrow> True) (trace (gd_Reconcile E req) w)"
proof -
  let ?Q = "\<lambda>r w'. (snd r \<noteq> None \<or> 0 < fst r) \<and> ok (\<lambda>_. waits) (hist w) (hist w')"
  have body: "wp (delete_bindings E g) ?Q w1"
    if "gd_key g = gd_key gd" and "om_UID (gd_Meta g) = om_UID (gd_Meta gd)" and "ok (\<lambda>_. waits) (hist w) (hist w1)" for g w1
  proof (rule delete_bindings_waits)
    have "owned_of g = owned_of gd" "om_Namespace (gd_Meta g) = om_Namespace (gd_Meta gd)"
      using that(1,2) by (simp_all add: fun_eq_iff owned_of_def owned_by_def [abs_def] gd_key_def)
    then show "list_ex unsettled (owned_of g bs)" if "env_list_rb E h (om_Namespace (gd_Meta g)) = Inr bs" for h bs
      using that assms(5) by simp
  qed (rule that(3))
  have "wp (gd_Reconcile E req) ?Q w"
    using assms(1-4) by (auto simp: gd_Reconcile_def reconcileDelete_def mark_deleting_def gd_run identity_kept_def gd_key_def
      split: sum.split intro!: wp_mono [OF body])
  then have "list_all waits (trace (gd_Reconcile E req) w)" "snd (result (gd_Reconcile E req) w) \<noteq> None \<or> 0 < fst (result (gd_Reconcile E req) w)"
    by (simp_all add: wp_result ok_trace_plain)
  then show ?thesis unfolding waits_def [abs_def] by blast
qed

subsection \<open>Sample runs\<close>

definition owned_rb :: "ReplicaBindingPhase \<Rightarrow> ReplicaBinding" where
  "owned_rb ph = own_by sample_gd (sample_rb ph)"

definition deleting_gd :: GlobalDeployment where
  "deleting_gd = sample_gd\<lparr>gd_Meta := (gd_Meta sample_gd)\<lparr>om_DeletionTimestamp := Some 1\<rparr>,
     gd_Status := (gd_Status sample_gd)\<lparr>gd_Phase := GDDeleting\<rparr>\<rparr>"

text \<open>The deployment when its deletion is first seen.\<close>

definition leaving_gd :: GlobalDeployment where
  "leaving_gd = sample_gd\<lparr>gd_Meta := (gd_Meta sample_gd)\<lparr>om_DeletionTimestamp := Some 1\<rparr>\<rparr>"

definition next_version :: "GlobalDeployment \<Rightarrow> GlobalDeployment" where
  "next_version g = g\<lparr>gd_Meta := (gd_Meta g)\<lparr>om_ResourceVersion := CHR ''1'' # om_ResourceVersion (gd_Meta g)\<rparr>\<rparr>"

fun written_gd :: "event \<Rightarrow> api_err + GlobalDeployment" where
  "written_gd (PatchGD _ g) = Inr (next_version g)"
| "written_gd (StatusPatchGD _ g) = Inr (next_version g)"
| "written_gd (StatusUpdateGD g) = Inr (next_version g)"
| "written_gd _ = Inl gone"

text \<open>
  An API server with the given deployment and bindings, and one cluster with one node; every write gives a new
  version.
\<close>

definition gd_env :: "GlobalDeployment \<Rightarrow> ReplicaBinding list \<Rightarrow> env" where
  "gd_env gd bs = (sample_env Pending)\<lparr>env_get_gd := \<lambda>_ _. Inr gd, env_list_rb := \<lambda>_ _. Inr bs,
     env_get_rb := \<lambda>_ _. (case bs of [] \<Rightarrow> Inl gone | b # _ \<Rightarrow> Inr b), env_write_gd := \<lambda>_ e. written_gd e,
     env_list_clusters := \<lambda>_. Inr [sample_cluster ''east''
       [sample_summary ''node-1'' 4 8]]\<rparr>"

definition gd_req :: nskey where
  "gd_req = \<lparr>key_Name = ''web'', key_Namespace = ''ns''\<rparr>"

lemma gd_env_laws: "identity_kept (gd_env gd bs)" "finalizer_laws (gd_env gd bs)" "owner_laws (gd_env gd bs)"
  using sample_finalizer_laws
  by (auto simp: identity_kept_def finalizer_laws_def owner_laws_def gd_env_def sample_env_def own_by_def owned_by_def next_version_def gd_key_def)

definition left_gd :: GlobalDeployment where
  "left_gd = next_version (leaving_gd\<lparr>gd_Status := (gd_Status leaving_gd)\<lparr>gd_Phase := GDDeleting, gd_UpdatedAt := Some 7\<rparr>\<rparr>)"

theorem gd_finalizer_removed_when_no_binding_left_witness:
  "om_ResourceVersion (gd_Meta left_gd) \<noteq> om_ResourceVersion (gd_Meta leaving_gd) \<and>
    held (gd_env leaving_gd []) leaving_gd (hist fresh_world @ take 4 (trace (gd_Reconcile (gd_env leaving_gd []) gd_req) fresh_world)) left_gd \<and>
    no_binding_left (gd_env leaving_gd []) left_gd
      (hist fresh_world @ take 4 (trace (gd_Reconcile (gd_env leaving_gd []) gd_req) fresh_world))"
proof -
  have "om_ResourceVersion (gd_Meta left_gd) \<noteq> om_ResourceVersion (gd_Meta leaving_gd)" by code_simp
  moreover have "om_DeletionTimestamp (gd_Meta leaving_gd) \<noteq> None \<and>
      held (gd_env leaving_gd []) leaving_gd (hist fresh_world @ take 4 (trace (gd_Reconcile (gd_env leaving_gd []) gd_req) fresh_world)) left_gd \<and>
      no_binding_left (gd_env leaving_gd []) left_gd
        (hist fresh_world @ take 4 (trace (gd_Reconcile (gd_env leaving_gd []) gd_req) fresh_world))"
    by (rule gd_finalizer_removed_when_no_binding_left [OF gd_env_laws(2), where req = gd_req and post = "[]"
          and new = "left_gd\<lparr>gd_Meta := RemoveFinalizer (gd_env leaving_gd []) globalDeploymentFinalizer (gd_Meta left_gd)\<rparr>"]) code_simp+
  ultimately show ?thesis by blast
qed

theorem gd_deletes_only_settled_bindings_witness:
  "om_DeletionTimestamp (gd_Meta deleting_gd) \<noteq> None \<and>
    (\<exists>g. held (gd_env deleting_gd [owned_rb Running]) deleting_gd (hist fresh_world @
      take 2 (trace (gd_Reconcile (gd_env deleting_gd [owned_rb Running]) gd_req) fresh_world)) g \<and> owned_by g (owned_rb Running)) \<and>
    om_DeletionTimestamp (rb_Meta (owned_rb Running)) = None \<and>
    (rb_Phase (rb_Status (owned_rb Running)) = Running \<or> rb_Phase (rb_Status (owned_rb Running)) = Failed)"
  by (rule gd_deletes_only_settled_bindings [where req = gd_req and post = "[]"]) code_simp+

theorem gd_creates_exactly_missing_bindings_witness:
  "prefix (created (trace (gd_Reconcile (gd_env sample_gd []) gd_req) fresh_world)) (missing sample_gd []) \<and> distinct (missing sample_gd []) \<and>
    created (trace (gd_Reconcile (gd_env sample_gd []) gd_req) fresh_world) = missing sample_gd []"
proof -
  have "snd (result (gd_Reconcile (gd_env sample_gd []) gd_req) fresh_world) = None" by code_simp
  moreover have "prefix (created (trace (gd_Reconcile (gd_env sample_gd []) gd_req) fresh_world)) (missing sample_gd []) \<and>
    distinct (missing sample_gd []) \<and> (snd (result (gd_Reconcile (gd_env sample_gd []) gd_req) fresh_world) = None \<longrightarrow>
      created (trace (gd_Reconcile (gd_env sample_gd []) gd_req) fresh_world) = missing sample_gd [])"
    by (rule gd_creates_exactly_missing_bindings [OF gd_env_laws(3)]) code_simp+
  ultimately show ?thesis by blast
qed

theorem gd_status_counts_bindings_witness:
  "let st = aggregate_status 2 7 [owned_rb Running, owned_rb Applying];
      run = int (length (filter (\<lambda>b. rb_Phase (rb_Status b) = Running) [owned_rb Running, owned_rb Applying]));
      fail = int (length (filter (\<lambda>b. rb_Phase (rb_Status b) = Failed) [owned_rb Running, owned_rb Applying])) in
    gd_Running st = run \<and> gd_Failed st = fail \<and> gd_Pending st = int (length (filter counts_pending [owned_rb Running, owned_rb Applying])) \<and>
    gd_Running st + gd_Failed st + gd_Pending st \<le> int (length [owned_rb Running, owned_rb Applying]) \<and>
    gd_Phase st = (if run = 2 \<and> 0 < (2::int) then GDRunning else if 0 < fail then GDDegraded
      else if 0 < run then GDProgressing else GDPending)"
  by (rule gd_status_counts_bindings) simp

text \<open>A Pending binding beside a Running one, when the deletion is first seen.\<close>

definition waiting_env :: env where
  "waiting_env = gd_env leaving_gd [owned_rb Pending, owned_rb Running]"

theorem gd_deletion_waits_on_unsettled_binding_witness:
  "DeleteRB (owned_rb Running) \<in> set (trace (gd_Reconcile waiting_env gd_req) fresh_world) \<and>
    0 < fst (result (gd_Reconcile waiting_env gd_req) fresh_world) \<and>
    list_all (\<lambda>e. case e of PatchGD _ _ \<Rightarrow> False | DeleteRB b \<Rightarrow> \<not> unsettled b | _ \<Rightarrow> True)
      (trace (gd_Reconcile waiting_env gd_req) fresh_world)"
proof -
  have "list_ex unsettled (owned_of leaving_gd [owned_rb Pending, owned_rb Running])" by code_simp
  then have lists: "list_ex unsettled (owned_of leaving_gd bs)" if "env_list_rb waiting_env h (om_Namespace (gd_Meta leaving_gd)) = Inr bs" for h bs
    using that by (simp add: waiting_env_def gd_env_def)
  have laws: "identity_kept waiting_env" unfolding waiting_env_def by (rule gd_env_laws)
  have gd: "env_get_gd waiting_env (hist fresh_world) gd_req = Inr leaving_gd" "om_DeletionTimestamp (gd_Meta leaving_gd) \<noteq> None"
    "ContainsFinalizer waiting_env (gd_Meta leaving_gd) globalDeploymentFinalizer" by code_simp+
  have "DeleteRB (owned_rb Running) \<in> set (trace (gd_Reconcile waiting_env gd_req) fresh_world)"
    "snd (result (gd_Reconcile waiting_env gd_req) fresh_world) = None" by code_simp+
  with gd_deletion_waits_on_unsettled_binding [OF laws gd lists] show ?thesis by simp
qed

text \<open>The run on one unscheduled binding.\<close>

definition single_gd :: GlobalDeployment where
  "single_gd = sample_gd\<lparr>gd_Spec := (gd_Spec sample_gd)\<lparr>gd_Replicas := Some 1\<rparr>\<rparr>"

definition single_trace :: history where
  "single_trace = trace (gd_Reconcile (gd_env single_gd [owned_rb Pending]) gd_req) fresh_world"

definition assigned_rb :: ReplicaBinding where
  "assigned_rb = (owned_rb Pending)\<lparr>rb_Spec := (rb_Spec (owned_rb Pending))\<lparr>rb_TargetCluster := ''east'', rb_TargetNodeName := ''node-1''\<rparr>\<rparr>"

theorem gd_assigns_fitting_candidate_witness:
  "observed_pending (gd_env single_gd [owned_rb Pending]) (hist fresh_world @ take 4 single_trace) \<and>
    (\<exists>n \<in> set (candidates (gd_env single_gd [owned_rb Pending]) (hist fresh_world @ take 4 single_trace)).
    on_ClusterID n = rb_TargetCluster (rb_Spec assigned_rb) \<and> on_NodeName n = rb_TargetNodeName (rb_Spec assigned_rb) \<and> on_Ready n \<and>
    (let r = sumDeploymentPodRequests (gd_env single_gd [owned_rb Pending]) single_gd in
      req_CPU r = 0 \<and> req_Mem r = 0 \<or> req_CPU r \<le> on_FreeCPU n \<and> req_Mem r \<le> on_FreeMem n))"
  by (rule gd_assigns_fitting_candidate [where req = gd_req and post = "drop 5 single_trace"]) code_simp+

definition reported_gd :: GlobalDeployment where
  "reported_gd = single_gd\<lparr>gd_Status := aggregate_status 1 7 [owned_rb Pending]\<rparr>"

theorem gd_status_report_drops_revision_witness:
  "gd_ObservedRevision (gd_Status reported_gd) = '''' \<and>
    trace (gd_Reconcile (gd_env reported_gd []) gd_req) fresh_world =
      [GetGD gd_req, StatusPatchGD reported_gd (reported_gd\<lparr>gd_Status := (gd_Status reported_gd)\<lparr>gd_ObservedRevision := ''v1''\<rparr>\<rparr>)]"
  by (rule gd_status_report_drops_revision [where E = "gd_env single_gd [owned_rb Pending]"
        and gd = single_gd and req = gd_req and w = fresh_world]) code_simp+

end
