(* ===== verification/Control_Plane.thy ===== *)
theory Control_Plane
  imports Replica_Binding Plan_Controller Global_Deployment
begin

section \<open>The control plane\<close>

text \<open>
  The controllers that work on bindings together (\<open>src/controller/cmd/main.go\<close> starts them over one API server):
  reconcile runs of the ReplicaBinding, ReOrchestrationPlan and GlobalDeployment controllers on any objects. Their
  guarantees are joined into one phase machine of a binding, which no controller sees on its own, and the names
  under which plans address the bindings are shown to be those of the GlobalDeployment controller.
\<close>

datatype reconcile_request = ReplicaBindingRequest string nskey | PlanRequest nskey | GlobalDeploymentRequest nskey

fun reconcile :: "env \<Rightarrow> reconcile_request \<Rightarrow> reconcile_out io" where
  "reconcile E (ReplicaBindingRequest cns req) = rb_Reconcile E cns req"
| "reconcile E (PlanRequest req) = plan_Reconcile E req"
| "reconcile E (GlobalDeploymentRequest req) = gd_Reconcile E req"

lemma status_loop_keeps:
  assumes "\<And>e a. preserves I (call e a :: (api_err + GlobalDeployment) io)" and "\<And>e a. preserves I (call e a :: unit io)"
  shows "preserves I (update_status_loop E key st n)"
  by (induction n) (auto simp: io_defs Let_def intro!: keep_intros assms)

lemmas plan_bodies = plan_Reconcile_def executeMoves_def apply_move_def apply_intent_def monitorAndConverge_def
  monitor_latest_def track_move_def convergePlanPhase_def recomputePlanExecutionSummary_def patchMoveStatus_def
  patchMoveStatusIf_def patch_plan_def metrics_inc_def ignore_missing_def

lemmas gd_bodies = gd_Reconcile_def gd_active_def schedule_and_report_def schedule_binding_def assign_binding_def
  ensure_binding_def reconcileDelete_def mark_deleting_def delete_bindings_def request_delete_def
  updateGDStatusWithRetry_def buildOrderedNodes_def list_rb_def delete_rb_def

subsection \<open>The phase machine of a binding\<close>

text \<open>
  The phases of a binding under all controllers: the steps of its own controller, the assignment by the
  GlobalDeployment controller and the reschedule intent of the plan controller.
\<close>

inductive phase_step :: "ReplicaBindingPhase \<Rightarrow> ReplicaBindingPhase \<Rightarrow> bool" where
  own: "rb_phase_step ph ph' \<Longrightarrow> phase_step ph ph'"
| reschedule: "ph \<noteq> Rescheduling \<Longrightarrow> phase_step ph Rescheduling"

code_pred phase_step .

inductive_simps phase_step_simps [simp]: "phase_step ph ph'"

text \<open>
  What any call of the system satisfies at its place in the history: status patches follow the machine
  and keep metadata and spec, and Running is only reported when the member Deployment was just seen
  available in the target cluster; a binding is born Pending; the full status updates are those of the
  GlobalDeployment controller, right after a creation or to assign a binding just read as unscheduled;
  a target is only chosen for an unscheduled binding, or with the reschedule flag raised; a binding loses
  its finalizer only in phase Deleting, when its member Deployment was just seen gone, and a deployment
  its own only when no binding of it was just listed; a member
  Deployment has one replica; and a controller deletes only Running and Failed bindings.
\<close>

definition system_guard :: "env \<Rightarrow> history \<Rightarrow> event \<Rightarrow> bool" where
  "system_guard E h e = (case e of
     StatusPatchRB base new \<Rightarrow> rb_Meta new = rb_Meta base \<and> rb_Spec new = rb_Spec base \<and>
       phase_step (rb_Phase (rb_Status base)) (rb_Phase (rb_Status new)) \<and>
       (rb_Phase (rb_Status new) = Running \<longrightarrow>
          rb_ClusterName (rb_Status new) = rb_TargetCluster (rb_Spec new) \<and>
          observed_available E h (rb_TargetCluster (rb_Spec new)))
   | CreateRB b \<Rightarrow> rb_Phase (rb_Status b) = Pending
   | StatusUpdateRB b \<Rightarrow> after_create h \<or> rb_Phase (rb_Status b) = Assigned \<and> observed_pending E h
   | UpdateRB b \<Rightarrow> observed_pending E h
   | PatchRB base new \<Rightarrow> rb_Status new = rb_Status base \<and> (rb_Spec new = rb_Spec base \<or> rb_Reschedule (rb_Spec new)) \<and>
       (ContainsFinalizer E (rb_Meta base) replicaBindingFinalizer \<and> \<not> ContainsFinalizer E (rb_Meta new) replicaBindingFinalizer \<longrightarrow>
          rb_Phase (rb_Status base) = Deleting \<and>
          observed_gone E h (rb_TargetCluster (rb_Spec base)) (om_Namespace (rb_Meta base))
            (member_dep_name (ref_Name (rb_GlobalDeploymentRef (rb_Spec base))) (rb_ReplicaIndex (rb_Spec base))))
   | DeleteRB b \<Rightarrow> rb_Phase (rb_Status b) = Running \<or> rb_Phase (rb_Status b) = Failed
   | PatchGD base new \<Rightarrow> ContainsFinalizer E (gd_Meta base) globalDeploymentFinalizer \<and>
       \<not> ContainsFinalizer E (gd_Meta new) globalDeploymentFinalizer \<longrightarrow> no_binding_left E base h
   | DepCreate cs d \<Rightarrow> ds_Replicas (dep_Spec d) = Some 1
   | _ \<Rightarrow> True)"

lemma rb_guard_system: "finalizer_laws E \<Longrightarrow> rb_guard E rb h e \<Longrightarrow> system_guard E h e"
  by (cases e) (auto simp: rb_guard_def system_guard_def write_ok finalizer_laws_def)

lemma plan_guard_system: "plan_guard e \<Longrightarrow> system_guard E h e"
  by (auto simp: plan_guard_def system_guard_def intent_ok_def reschedule_ok_def split: event.splits)

lemma gd_guard_system: "finalizer_laws E \<Longrightarrow> gd_guard E gd h e \<Longrightarrow> system_guard E h e"
  by (cases e) (auto simp: gd_guard_def system_guard_def finalizer_laws_def)

lemma gd_Reconcile_missing:
  assumes "env_get_gd E (hist w) req = Inl err"
  shows "hist (exec (gd_Reconcile E req) w) = hist w @ [GetGD req]"
  using assms by (simp add: gd_Reconcile_def get_gd_def call_def exec_def fail_with_def done_ok_def State_Monad.bind_def State_Monad.return_def)

text \<open>What follows from the guarantee of each controller holds of every run.\<close>

lemma reconcile_ok:
  assumes "cache_ok w" and rb: "\<And>rb h e. rb_guard E rb h e \<Longrightarrow> G h e"
    and pl: "\<And>h e. plan_guard e \<Longrightarrow> G h e" and gd: "\<And>gd h e. gd_guard E gd h e \<Longrightarrow> G h e"
    and reads: "\<And>h k. G h (GetRB k)" "\<And>h k. G h (GetGD k)"
  shows "ok G (hist w) (hist (exec (reconcile E r) w))"
proof (cases r)
  case (ReplicaBindingRequest cns req)
  show ?thesis
  proof (cases "env_get_rb E (hist w) req")
    case (Inl err)
    with ReplicaBindingRequest show ?thesis by (simp add: exec_def rb_Reconcile_missing reads)
  next
    case (Inr rb)
    from rb_Reconcile_ok [OF assms(1) Inr, of cns]
    have "ok (rb_guard E rb) (hist w) (hist (exec (rb_Reconcile E cns req) w))" by (simp add: wp_result)
    with ReplicaBindingRequest show ?thesis by (simp add: ok_mono [OF _ rb])
  qed
next
  case (PlanRequest req)
  have "ok (\<lambda>_. plan_guard) (hist w) (hist (exec (plan_Reconcile E req) w))"
    using plan_Reconcile_guar by (simp add: guar_def)
  with PlanRequest show ?thesis by (simp add: ok_mono [OF _ pl])
next
  case (GlobalDeploymentRequest req)
  show ?thesis
  proof (cases "env_get_gd E (hist w) req")
    case (Inl err)
    with GlobalDeploymentRequest show ?thesis by (simp add: gd_Reconcile_missing reads)
  next
    case (Inr gd')
    from gd_Reconcile_ok [OF Inr]
    have "ok (gd_guard E gd') (hist w) (hist (exec (gd_Reconcile E req) w))" by (simp add: wp_result)
    with GlobalDeploymentRequest show ?thesis by (simp add: ok_mono [OF _ gd])
  qed
qed

subsection \<open>Names of bindings\<close>

text \<open>A created binding carries the name its reference and index determine.\<close>

definition well_named :: "ReplicaBinding \<Rightarrow> bool" where
  "well_named b \<longleftrightarrow> rb_key b = \<lparr>key_Name = ref_Name (rb_GlobalDeploymentRef (rb_Spec b)) @ ''-rb-'' @ itoa (rb_ReplicaIndex (rb_Spec b)),
     key_Namespace = ref_Namespace (rb_GlobalDeploymentRef (rb_Spec b))\<rparr>"

definition names_guard :: "event \<Rightarrow> bool" where
  "names_guard e = (case e of CreateRB b \<Rightarrow> well_named b | _ \<Rightarrow> True)"

lemma owner_well_named:
  assumes "owner_laws E" and "env_set_owner E gd (new_binding gd i) = Inr b"
  shows "well_named (b\<lparr>rb_Status := st\<rparr>)"
  using assms by (fastforce simp: owner_laws_def well_named_def rb_key_def new_binding_def)

lemma guar_status_loop: "guar (\<lambda>_. names_guard) (update_status_loop E key st n)"
  by (induction n) (auto simp: io_defs Let_def names_guard_def intro!: guar_intros)

lemma gd_names: "owner_laws E \<Longrightarrow> guar (\<lambda>_. names_guard) (gd_Reconcile E req)"
  unfolding gd_bodies io_defs Let_def
  by (intro guar_intros guar_status_loop) (simp_all add: names_guard_def owner_well_named)

lemma itoa_no_b: "CHR ''b'' \<notin> set (itoa i)"
proof -
  have "digit_char d \<noteq> CHR ''b''" if "d < 10" for d
    using lt10_cases [OF that] by (auto simp: digit_char_def)
  then have "CHR ''b'' \<notin> set (nat_digits n)" for n
    using nat_digits_chars [of "CHR ''b''" n] by metis
  then show ?thesis by (simp add: itoa_def)
qed

lemma binding_name_inj: "x @ ''-rb-'' @ itoa i = y @ ''-rb-'' @ itoa j \<longleftrightarrow> x = y \<and> i = j"
proof
  assume "x @ ''-rb-'' @ itoa i = y @ ''-rb-'' @ itoa j"
  then have "(x @ ''-r'') @ CHR ''b'' # (''-'' @ itoa i) = (y @ ''-r'') @ CHR ''b'' # (''-'' @ itoa j)" by simp
  then have "x @ ''-r'' = y @ ''-r'' \<and> ''-'' @ itoa i = ''-'' @ itoa j"
    by (rule append_sep_inj) (simp_all add: itoa_no_b)
  then show "x = y \<and> i = j" by (simp add: itoa_inj)
qed simp

text \<open>
  C31: Plan moves and bindings agree on names. A binding that the GlobalDeployment controller creates is
  the one a move addresses exactly when the move names the same deployment and replica index: no other
  move reaches it, also when deployment names themselves contain the separator.
\<close>

theorem move_addresses_created_binding:
  assumes "owner_laws E" and "CreateRB b \<in> set (trace (gd_Reconcile E req) w)"
  shows "rb_key b = move_rb_key mv \<longleftrightarrow>
    mv_GlobalDeploymentRef mv = rb_GlobalDeploymentRef (rb_Spec b) \<and> mv_ReplicaIndex mv = rb_ReplicaIndex (rb_Spec b)"
proof -
  have "list_all names_guard (trace (gd_Reconcile E req) w)"
    using gd_names [OF assms(1)] by (simp add: guar_def ok_trace_plain)
  with assms(2) have "well_named b" by (auto simp: list_all_iff names_guard_def)
  then show ?thesis by (auto simp: well_named_def move_rb_key_def binding_name_inj [simplified])
qed

theorem move_addresses_created_binding_witness:
  "rb_key (own_by sample_gd ((new_binding sample_gd 0)\<lparr>rb_Status := (rb_Status (new_binding sample_gd 0))\<lparr>rb_Phase := Pending, rb_LastTransitionTime := Some 7\<rparr>\<rparr>))
      = move_rb_key sample_move \<longleftrightarrow>
    mv_GlobalDeploymentRef sample_move = rb_GlobalDeploymentRef (rb_Spec (new_binding sample_gd 0)) \<and>
    mv_ReplicaIndex sample_move = rb_ReplicaIndex (rb_Spec (new_binding sample_gd 0))"
proof -
  let ?b = "own_by sample_gd ((new_binding sample_gd 0)\<lparr>rb_Status := (rb_Status (new_binding sample_gd 0))\<lparr>rb_Phase := Pending, rb_LastTransitionTime := Some 7\<rparr>\<rparr>)"
  have "CreateRB ?b \<in> set (trace (gd_Reconcile (gd_env sample_gd []) gd_req) fresh_world)" by code_simp
  from move_addresses_created_binding [OF gd_env_laws(3) this, of sample_move] show ?thesis by (simp add: own_by_def)
qed

end
