(* ===== verification/Cluster_Controller.thy ===== *)
theory Cluster_Controller
  imports Member_Clients Scheduler
begin

section \<open>The Cluster controller\<close>

text \<open>
  \<open>src/controller/internal/controller/cluster_controller.go\<close>: importing a member cluster, probing it, and
  the node summaries from which the scheduler takes its candidates. Quantities are exact rationals; a
  missing entry of a resource list is zero, as in the accessors of \<open>corev1.ResourceList\<close>. \<open>metav1.Now\<close> is
  read once between two calls. Log output is not modelled.
\<close>

text \<open>\<open>ctrl.Result\<close>: stop, requeue at the rate limiter's pace, or requeue after a delay.\<close>

datatype requeue_result = Stop | Requeue | RequeueAfter int

type_synonym cluster_out = "requeue_result \<times> api_err option"

subsection \<open>Conditions\<close>

fun mergeCondition :: "Condition list \<Rightarrow> Condition \<Rightarrow> Condition list" where
  "mergeCondition [] newCond = [newCond]"
| "mergeCondition (c # conds) newCond =
    (if cond_Type c = cond_Type newCond
     then (if cond_Status c = cond_Status newCond
           then newCond\<lparr>cond_LastTransitionTime := cond_LastTransitionTime c\<rparr> else newCond) # conds
     else c # mergeCondition conds newCond)"

definition setCondition :: "time \<Rightarrow> string \<Rightarrow> bool \<Rightarrow> string \<Rightarrow> string \<Rightarrow> Cluster \<Rightarrow> Cluster" where
  "setCondition t condType status reason message c =
    c\<lparr>cl_Conditions := mergeCondition (cl_Conditions c)
       \<lparr>cond_Type = condType, cond_Status = status, cond_Reason = reason, cond_Message = message,
        cond_ObservedGeneration = om_Generation (cl_Meta c), cond_LastTransitionTime = Some t\<rparr>\<rparr>"

definition touchStatus :: "time \<Rightarrow> Cluster \<Rightarrow> Cluster" where
  "touchStatus t c = c\<lparr>cl_UpdatedAt := Some t\<rparr>"

definition update_cluster :: "env \<Rightarrow> Cluster \<Rightarrow> api_err option io" where
  "update_cluster E c = call (StatusUpdateCluster c) (\<lambda>h. env_write_cluster E h c)"

definition server_version :: "env \<Rightarrow> Clientset \<Rightarrow> api_err option io" where
  "server_version E cs = call (ServerVersion cs) (\<lambda>h. env_server_version E h cs)"

definition nodes_list :: "env \<Rightarrow> Clientset \<Rightarrow> (api_err + Node list) io" where
  "nodes_list E cs = call (NodesList cs) (\<lambda>h. env_nodes E h cs)"

subsection \<open>Clients\<close>

definition getKubeconfigSecret :: "env \<Rightarrow> Cluster \<Rightarrow> (api_err + (string, string) gomap) io" where
  "getKubeconfigSecret E c = get_secret E \<lparr>key_Name = cl_SecretRef c, key_Namespace = om_Namespace (cl_Meta c)\<rparr>"

definition kube_cached :: "string \<Rightarrow> Clientset option io" where
  "kube_cached clusterID = State (\<lambda>w. (mget (kube_clients w) clusterID, w))"

definition kube_store :: "string \<Rightarrow> Clientset \<Rightarrow> Clientset io" where
  "kube_store clusterID newCS = State (\<lambda>w. case mget (kube_clients w) clusterID of
      Some existing \<Rightarrow> (existing, w)
    | None \<Rightarrow> (newCS, w\<lparr>kube_clients := mput clusterID newCS (kube_clients w)\<rparr>))"

definition clearClient :: "string \<Rightarrow> unit io" where
  "clearClient clusterID = State (\<lambda>w. ((), w\<lparr>kube_clients := mdel clusterID (kube_clients w)\<rparr>))"

definition getOrBuildClient :: "env \<Rightarrow> string \<Rightarrow> string \<Rightarrow> (string, string) gomap \<Rightarrow> (api_err + Clientset) io" where
  "getOrBuildClient E clusterID secName data = do {
     cached \<leftarrow> kube_cached clusterID;
     case cached of
       Some cs \<Rightarrow> State_Monad.return (Inr cs)
     | None \<Rightarrow>
         (let kcfg = mget0 '''' data ''kubeconfig'' in
          if kcfg = '''' then State_Monad.return (Inl (OtherErr (''secret '' @ secName @ '' missing data.kubeconfig'')))
          else case env_rest_config E kcfg of
            Some err \<Rightarrow> State_Monad.return (Inl err)
          | None \<Rightarrow> (case env_new_client E kcfg of
                Some err \<Rightarrow> State_Monad.return (Inl err)
              | None \<Rightarrow> do {
                  cs \<leftarrow> kube_store clusterID \<lparr>cs_Cluster = clusterID, cs_Kubeconfig = kcfg\<rparr>;
                  State_Monad.return (Inr cs) }))
   }"

subsection \<open>Resources\<close>

definition rl :: "(string, quantity) gomap \<Rightarrow> string \<Rightarrow> quantity" where
  "rl = mget0 0"

definition sumNodeResources :: "Node list \<Rightarrow> quantity \<times> quantity \<times> quantity \<times> quantity" where
  "sumNodeResources nodes = fold (\<lambda>n (cc, cm, ac, am).
     (cc + rl (nd_Capacity n) ''cpu'', cm + rl (nd_Capacity n) ''memory'',
      ac + rl (nd_Allocatable n) ''cpu'', am + rl (nd_Allocatable n) ''memory'')) nodes (0, 0, 0, 0)"

definition zero_node_resources :: NodeResources where
  "zero_node_resources = \<lparr>nr_CPU = 0, nr_Memory = 0, nr_Pods = 0\<rparr>"

definition add_container :: "Container \<Rightarrow> NodeResources \<Rightarrow> NodeResources" where
  "add_container c agg =
    (let agg = (case mget (ct_Requests c) ''cpu'' of None \<Rightarrow> agg | Some q \<Rightarrow> agg\<lparr>nr_CPU := nr_CPU agg + q\<rparr>)
     in case mget (ct_Requests c) ''memory'' of None \<Rightarrow> agg | Some q \<Rightarrow> agg\<lparr>nr_Memory := nr_Memory agg + q\<rparr>)"

definition max_init_container :: "Container \<Rightarrow> NodeResources \<Rightarrow> NodeResources" where
  "max_init_container c agg =
    (let agg = (case mget (ct_Requests c) ''cpu'' of
           None \<Rightarrow> agg | Some q \<Rightarrow> if nr_CPU agg < q then agg\<lparr>nr_CPU := q\<rparr> else agg)
     in case mget (ct_Requests c) ''memory'' of
          None \<Rightarrow> agg | Some q \<Rightarrow> if nr_Memory agg < q then agg\<lparr>nr_Memory := q\<rparr> else agg)"

definition count_pod :: "Pod \<Rightarrow> (string, NodeResources) gomap \<Rightarrow> (string, NodeResources) gomap" where
  "count_pod p res =
    (if pod_NodeName p = '''' then res
     else if pod_Phase p = ''Succeeded'' \<or> pod_Phase p = ''Failed'' then res
     else let agg = mget0 zero_node_resources res (pod_NodeName p);
              agg = agg\<lparr>nr_Pods := nr_Pods agg + 1\<rparr>;
              agg = fold add_container (pod_Containers p) agg;
              agg = fold max_init_container (pod_InitContainers p) agg
          in mput (pod_NodeName p) agg res)"

definition sumPodRequestsByNode :: "Pod list \<Rightarrow> (string, NodeResources) gomap" where
  "sumPodRequestsByNode pods = fold count_pod pods []"

definition pickNodeLabels :: "(string, string) gomap \<Rightarrow> (string, string) gomap" where
  "pickNodeLabels labels = (case mget labels ''kubernetes.io/hostname'' of
      None \<Rightarrow> [] | Some v \<Rightarrow> if v = '''' then [] else [(''kubernetes.io/hostname'', v)])"

fun node_ready :: "(string \<times> bool) list \<Rightarrow> bool" where
  "node_ready [] = False"
| "node_ready ((ty, st) # cs) = (if ty = ''Ready'' then st else node_ready cs)"

definition node_summary :: "(string, NodeResources) gomap \<Rightarrow> Node \<Rightarrow> NodeSummary" where
  "node_summary requestedByNode n =
    (let req = mget0 zero_node_resources requestedByNode (nd_Name n);
         alloc = \<lparr>nr_CPU = rl (nd_Allocatable n) ''cpu'', nr_Memory = rl (nd_Allocatable n) ''memory'',
           nr_Pods = rl (nd_Allocatable n) ''pods''\<rparr>
     in \<lparr>cn_Name = nd_Name n, cn_UID = nd_UID n, cn_Ready = node_ready (nd_Conditions n), cn_Allocatable = alloc,
         cn_Requested = req,
         cn_Free = \<lparr>nr_CPU = nr_CPU alloc - nr_CPU req, nr_Memory = nr_Memory alloc - nr_Memory req,
           nr_Pods = nr_Pods alloc - nr_Pods req\<rparr>,
         cn_Labels = pickNodeLabels (nd_Labels n)\<rparr>)"

definition buildNodeSummaries :: "Node list \<Rightarrow> (string, NodeResources) gomap \<Rightarrow> NodeSummary list" where
  "buildNodeSummaries nodes requestedByNode = map (node_summary requestedByNode) nodes"

subsection \<open>The phases\<close>

text \<open>A status update whose error is ignored, then a requeue after 30 seconds.\<close>

definition report_and_retry :: "env \<Rightarrow> Cluster \<Rightarrow> cluster_out io" where
  "report_and_retry E c = do {
     _ \<leftarrow> update_cluster E c;
     State_Monad.return (RequeueAfter (30 * Second), None)
   }"

definition import_failed :: "env \<Rightarrow> Cluster \<Rightarrow> cluster_out io" where
  "import_failed E c = do {
     _ \<leftarrow> clearClient (om_Name (cl_Meta c));
     _ \<leftarrow> update_cluster E c;
     State_Monad.return (Stop, None)
   }"

definition reconcileImporting :: "env \<Rightarrow> Cluster \<Rightarrow> cluster_out io" where
  "reconcileImporting E c = do {
     sec \<leftarrow> getKubeconfigSecret E c;
     t \<leftarrow> now E;
     case sec of
       Inl err \<Rightarrow>
         if IsNotFound err then
           (let msg = ''referenced secret not found'';
                c = setCondition t ''Imported'' False ''SecretNotFound'' msg c;
                c = setCondition t ''Ready'' False ''SecretNotFound'' msg c
            in report_and_retry E (touchStatus t (c\<lparr>cl_Phase := NotReady\<rparr>)))
         else State_Monad.return (Stop, Some err)
     | Inr data \<Rightarrow> do {
         cs \<leftarrow> getOrBuildClient E (om_Name (cl_Meta c)) (cl_SecretRef c) data;
         case cs of
           Inl err \<Rightarrow>
             (let c = setCondition t ''Imported'' False ''InvalidKubeconfig'' (err_text err) c;
                  c = setCondition t ''Ready'' False ''InvalidKubeconfig'' (err_text err) c
              in import_failed E (touchStatus t (c\<lparr>cl_Phase := ClusterFailed\<rparr>)))
         | Inr cs \<Rightarrow> do {
             v \<leftarrow> server_version E cs;
             t \<leftarrow> now E;
             case v of
               Some err \<Rightarrow>
                 (let c = setCondition t ''Ready'' False ''Unreachable'' (err_text err) c
                  in import_failed E (touchStatus t (c\<lparr>cl_Phase := ClusterFailed\<rparr>)))
             | None \<Rightarrow>
                 (let c = setCondition t ''Imported'' True ''Imported'' ''cluster credentials secret found'' c;
                      c = setCondition t ''Ready'' True ''Reachable'' ''api server reachable'' c
                  in do {
                    u \<leftarrow> update_cluster E (touchStatus t (c\<lparr>cl_Phase := ClusterReady\<rparr>));
                    State_Monad.return (case u of Some err \<Rightarrow> (Stop, Some err) | None \<Rightarrow> (Requeue, None))
                  })
           }
       }
   }"

text \<open>A probe that fails takes the cluster to NotReady; \<open>keep\<close> says whether the cached client survives.\<close>

definition not_ready :: "env \<Rightarrow> bool \<Rightarrow> string \<Rightarrow> string \<Rightarrow> Cluster \<Rightarrow> cluster_out io" where
  "not_ready E keep reason message c = do {
     t \<leftarrow> now E;
     _ \<leftarrow> (if keep then State_Monad.return () else clearClient (om_Name (cl_Meta c)));
     report_and_retry E (touchStatus t ((setCondition t ''Ready'' False reason message c)\<lparr>cl_Phase := NotReady\<rparr>))
   }"

definition sync_resources :: "env \<Rightarrow> time \<Rightarrow> Node list \<Rightarrow> Pod list \<Rightarrow> Cluster \<Rightarrow> cluster_out io" where
  "sync_resources E t nodes pods c =
    (case sumNodeResources nodes of (capacityCPU, capacityMem, allocCPU, allocMem) \<Rightarrow>
      (let c = c\<lparr>cl_Resources := \<lparr>res_CapacityCPU = capacityCPU, res_CapacityMemory = capacityMem,
             res_AllocatableCPU = allocCPU, res_AllocatableMemory = allocMem,
             res_NodeCount = int (length nodes), res_PodCount = int (length pods)\<rparr>\<rparr>;
           c = c\<lparr>cl_Nodes := buildNodeSummaries nodes (sumPodRequestsByNode pods), cl_LastProbeTime := Some t\<rparr>;
           c = setCondition t ''Imported'' True ''Imported'' ''cluster imported'' c
       in do {
         u \<leftarrow> update_cluster E (touchStatus t c);
         State_Monad.return (case u of Some err \<Rightarrow> (Stop, Some err) | None \<Rightarrow> (RequeueAfter (60 * Second), None))
       }))"

definition reconcileReady :: "env \<Rightarrow> Cluster \<Rightarrow> cluster_out io" where
  "reconcileReady E c = do {
     sec \<leftarrow> getKubeconfigSecret E c;
     case sec of
       Inl err \<Rightarrow>
         if IsNotFound err then not_ready E False ''SecretNotFound'' ''referenced secret not found'' c
         else State_Monad.return (Stop, Some err)
     | Inr data \<Rightarrow> do {
         cs \<leftarrow> getOrBuildClient E (om_Name (cl_Meta c)) (cl_SecretRef c) data;
         case cs of
           Inl err \<Rightarrow> not_ready E False ''InvalidKubeconfig'' (err_text err) c
         | Inr cs \<Rightarrow> do {
             v \<leftarrow> server_version E cs;
             case v of
               Some err \<Rightarrow> not_ready E True ''Unreachable'' (err_text err) c
             | None \<Rightarrow> do {
                 t \<leftarrow> now E;
                 let c = setCondition t ''Ready'' True ''Reachable'' ''api server reachable'' c;
                 ns \<leftarrow> nodes_list E cs;
                 case ns of
                   Inl err \<Rightarrow> not_ready E True ''ListNodesFailed'' (err_text err) c
                 | Inr nodes \<Rightarrow> do {
                     ps \<leftarrow> pods_list E cs '''' '''';
                     case ps of
                       Inl err \<Rightarrow> not_ready E True ''ListPodsFailed'' (err_text err) c
                     | Inr pods \<Rightarrow> do {
                         t \<leftarrow> now E;
                         sync_resources E t nodes pods c
                       }
                   }
               }
           }
       }
   }"

definition still_not_ready :: "env \<Rightarrow> bool \<Rightarrow> string \<Rightarrow> string \<Rightarrow> Cluster \<Rightarrow> cluster_out io" where
  "still_not_ready E keep reason message c = do {
     t \<leftarrow> now E;
     _ \<leftarrow> (if keep then State_Monad.return () else clearClient (om_Name (cl_Meta c)));
     report_and_retry E (touchStatus t (setCondition t ''Ready'' False reason message c))
   }"

definition reconcileNotReady :: "env \<Rightarrow> Cluster \<Rightarrow> cluster_out io" where
  "reconcileNotReady E c = do {
     sec \<leftarrow> getKubeconfigSecret E c;
     case sec of
       Inl err \<Rightarrow>
         if IsNotFound err then still_not_ready E True ''SecretNotFound'' ''referenced secret not found'' c
         else State_Monad.return (Stop, Some err)
     | Inr data \<Rightarrow> do {
         cs \<leftarrow> getOrBuildClient E (om_Name (cl_Meta c)) (cl_SecretRef c) data;
         case cs of
           Inl err \<Rightarrow> still_not_ready E False ''InvalidKubeconfig'' (err_text err) c
         | Inr cs \<Rightarrow> do {
             v \<leftarrow> server_version E cs;
             case v of
               Some err \<Rightarrow> still_not_ready E True ''Unreachable'' (err_text err) c
             | None \<Rightarrow> do {
                 t \<leftarrow> now E;
                 u \<leftarrow> update_cluster E (touchStatus t
                        ((setCondition t ''Ready'' True ''Reachable'' ''api server reachable'' c)\<lparr>cl_Phase := ClusterReady\<rparr>));
                 State_Monad.return (case u of Some err \<Rightarrow> (Stop, Some err) | None \<Rightarrow> (RequeueAfter (60 * Second), None))
               }
           }
       }
   }"

definition invalid_spec :: "env \<Rightarrow> Cluster \<Rightarrow> cluster_out io" where
  "invalid_spec E c = do {
     t \<leftarrow> now E;
     let msg = ''apiEndpoint/secretRef is required'';
     let c = setCondition t ''Imported'' False ''InvalidSpec'' msg c;
     let c = setCondition t ''Ready'' False ''InvalidSpec'' msg c;
     let c = touchStatus t (c\<lparr>cl_Phase := ClusterFailed\<rparr>);
     _ \<leftarrow> clearClient (om_Name (cl_Meta c));
     u \<leftarrow> update_cluster E c;
     State_Monad.return (Stop, u)
   }"

definition default_phase :: "Cluster \<Rightarrow> Cluster" where
  "default_phase c = (if cl_Phase c = ClusterPhaseNone then c\<lparr>cl_Phase := Importing\<rparr> else c)"

definition cluster_Reconcile :: "env \<Rightarrow> nskey \<Rightarrow> cluster_out io" where
  "cluster_Reconcile E req = do {
     g \<leftarrow> get_cluster E req;
     case g of
       Inl err \<Rightarrow> State_Monad.return (Stop, ignore_not_found err)
     | Inr c0 \<Rightarrow>
         (let c = default_phase c0 in
          if cl_APIEndpoint c = '''' \<or> cl_SecretRef c = '''' then invalid_spec E c
          else case cl_Phase c of
            ClusterFailed \<Rightarrow> do {
              _ \<leftarrow> clearClient (om_Name (cl_Meta c));
              State_Monad.return (Stop, None)
            }
          | Importing \<Rightarrow> reconcileImporting E c
          | ClusterReady \<Rightarrow> reconcileReady E c
          | NotReady \<Rightarrow> reconcileNotReady E c
          | _ \<Rightarrow> do {
              t \<leftarrow> now E;
              u \<leftarrow> update_cluster E (touchStatus t (c\<lparr>cl_Phase := Importing\<rparr>));
              State_Monad.return (case u of Some err \<Rightarrow> (Stop, Some err) | None \<Rightarrow> (Requeue, None))
            })
   }"

subsection \<open>The client cache of the controller\<close>

lemma wp_kube_cached [vcg]: "wp (kube_cached c) Q w = Q (mget (kube_clients w) c) w"
  by (simp add: wp_def kube_cached_def)

lemma wp_kube_store [vcg]:
  "wp (kube_store c cs) Q w =
    (case mget (kube_clients w) c of Some x \<Rightarrow> Q x w | None \<Rightarrow> Q cs (w\<lparr>kube_clients := mput c cs (kube_clients w)\<rparr>))"
  by (simp add: wp_def kube_store_def split: option.split)

lemma wp_clearClient [vcg]: "wp (clearClient c) Q w = Q () (w\<lparr>kube_clients := mdel c (kube_clients w)\<rparr>)"
  by (simp add: wp_def clearClient_def)

lemma guar_kube [guar_intros]: "guar G (kube_cached c)" "guar G (kube_store c cs)" "guar G (clearClient c)"
  by (auto simp: guar_def exec_def kube_cached_def kube_store_def clearClient_def split: option.split)

definition kube_ok :: "world \<Rightarrow> bool" where
  "kube_ok w \<longleftrightarrow> clients_ok (kube_clients w)"

lemma kube_ok_hist [simp]: "kube_ok (w\<lparr>hist := h\<rparr>) = kube_ok w"
  by (simp add: kube_ok_def)

lemma clients_ok_mdel: "clients_ok m \<Longrightarrow> clients_ok (mdel c m)"
  by (auto simp: clients_ok_def mdel_def)

lemma kube_ok_clear [simp]: "kube_ok w \<Longrightarrow> kube_ok (w\<lparr>kube_clients := mdel c (kube_clients w)\<rparr>)"
  by (simp add: kube_ok_def clients_ok_mdel)

lemmas getOrBuildClient_vcg = getOrBuildClient_def vcg Let_def

lemma getOrBuildClient_stores:
  "wp (getOrBuildClient E c n data) (\<lambda>r w'. \<forall>cs. r = Inr cs \<longrightarrow> mget (kube_clients w') c = Some cs) w"
  by (simp add: getOrBuildClient_vcg split: option.split)

lemma run_getOrBuildClient_hit:
  "mget (kube_clients w) c = Some cs \<Longrightarrow> run_state (getOrBuildClient E c n data) w = (Inr cs, w)"
  by (simp add: getOrBuildClient_def kube_cached_def State_Monad.bind_def State_Monad.return_def)

text \<open>This cache meets the same contract as the member client cache, for any secret.\<close>

interpretation kube: client_provider "\<lambda>_ c. getOrBuildClient E c n data" kube_ok for E n data
proof
  show "guar (\<lambda>_. client_read) (getOrBuildClient E c n data)" for c
    unfolding getOrBuildClient_def Let_def by (intro guar_intros)
  show "wp (getOrBuildClient E c n data) (\<lambda>r w'. kube_ok w' \<and> (\<forall>cs. r = Inr cs \<longrightarrow> cs_Cluster cs = c)) w"
    if "kube_ok w" for w c
    using that clients_ok_mget clients_ok_mput
    by (simp add: getOrBuildClient_vcg kube_ok_def split: option.split)
  show "wp (getOrBuildClient E c n data) (\<lambda>r w'. \<forall>cs. r = Inr cs \<longrightarrow> run_state (getOrBuildClient E c n data) w' = (Inr cs, w')) w"
    if "ns' \<noteq> ''''" for ns' c w
    by (rule wp_mono [OF getOrBuildClient_stores]) (simp add: run_getOrBuildClient_hit)
qed

subsection \<open>What a run may do\<close>

text \<open>The phase machine, for a valid or invalid spec.\<close>

inductive cluster_step :: "bool \<Rightarrow> ClusterPhase \<Rightarrow> ClusterPhase \<Rightarrow> bool" where
  invalid: "cluster_step False ph ClusterFailed"
| imported: "ph \<in> {ClusterPhaseNone, Importing} \<Longrightarrow> ph' \<in> {ClusterReady, NotReady, ClusterFailed} \<Longrightarrow> cluster_step True ph ph'"
| probed: "ph \<in> {ClusterReady, NotReady} \<Longrightarrow> ph' \<in> {ClusterReady, NotReady} \<Longrightarrow> cluster_step True ph ph'"
| unknown: "cluster_step True (ClusterPhaseOther s) Importing"

inductive_simps cluster_step_simps [simp]: "cluster_step v ph ph'"

text \<open>
  Evidence. \<open>reached\<close>: the last call, but for the node and pod lists, asked the cluster for its version and
  got an answer. \<open>summarised\<close>: the last two calls listed the nodes and pods of the cluster, and the summaries
  are those of their answers.
\<close>

fun is_member_list :: "event \<Rightarrow> bool" where
  "is_member_list (NodesList _) = True"
| "is_member_list (PodsList _ _ _) = True"
| "is_member_list _ = False"

definition reached :: "env \<Rightarrow> history \<Rightarrow> string \<Rightarrow> bool" where
  "reached E h c \<longleftrightarrow> (case dropWhile is_member_list (rev h) of
      ServerVersion cs # r \<Rightarrow> cs_Cluster cs = c \<and> env_server_version E (rev r) cs = None
    | _ \<Rightarrow> False)"

definition summarised :: "env \<Rightarrow> history \<Rightarrow> string \<Rightarrow> NodeSummary list \<Rightarrow> bool" where
  "summarised E h c ns \<longleftrightarrow> (case rev h of
      PodsList cs sp sel # NodesList cs' # r \<Rightarrow> cs_Cluster cs = c \<and> cs' = cs \<and> sp = '''' \<and> sel = '''' \<and>
        (case (env_nodes E (rev r) cs, env_pods E (rev (NodesList cs' # r)) cs '''' '''') of
           (Inr nodes, Inr pods) \<Rightarrow> ns = buildNodeSummaries nodes (sumPodRequestsByNode pods)
         | _ \<Rightarrow> False)
    | _ \<Rightarrow> False)"

definition cluster_valid :: "Cluster \<Rightarrow> bool" where
  "cluster_valid c \<longleftrightarrow> cl_APIEndpoint c \<noteq> '''' \<and> cl_SecretRef c \<noteq> ''''"

definition cluster_write_ok :: "env \<Rightarrow> Cluster \<Rightarrow> history \<Rightarrow> Cluster \<Rightarrow> bool" where
  "cluster_write_ok E c0 h c \<longleftrightarrow>
    cl_Meta c = cl_Meta c0 \<and> cl_APIEndpoint c = cl_APIEndpoint c0 \<and> cl_SecretRef c = cl_SecretRef c0 \<and>
    cluster_step (cluster_valid c0) (cl_Phase c0) (cl_Phase c) \<and>
    (cl_Phase c = ClusterReady \<longrightarrow> reached E h (om_Name (cl_Meta c0))) \<and>
    (cl_Nodes c = cl_Nodes c0 \<and> cl_LastProbeTime c = cl_LastProbeTime c0 \<or>
       cl_Phase c = ClusterReady \<and> summarised E h (om_Name (cl_Meta c0)) (cl_Nodes c))"

definition cluster_guard :: "env \<Rightarrow> Cluster \<Rightarrow> history \<Rightarrow> event \<Rightarrow> bool" where
  "cluster_guard E c0 h e = (case e of
     StatusUpdateCluster c \<Rightarrow> cluster_write_ok E c0 h c
   | ServerVersion cs \<Rightarrow> cs_Cluster cs = om_Name (cl_Meta c0)
   | NodesList cs \<Rightarrow> cs_Cluster cs = om_Name (cl_Meta c0)
   | PodsList cs _ _ \<Rightarrow> cs_Cluster cs = om_Name (cl_Meta c0)
   | GetCluster _ \<Rightarrow> True | GetSecret _ \<Rightarrow> True
   | _ \<Rightarrow> False)"

lemma cluster_guard_simps [simp]:
  "cluster_guard E c0 h (StatusUpdateCluster c) \<longleftrightarrow> cluster_write_ok E c0 h c"
  "cluster_guard E c0 h (ServerVersion cs) \<longleftrightarrow> cs_Cluster cs = om_Name (cl_Meta c0)"
  "cluster_guard E c0 h (NodesList cs) \<longleftrightarrow> cs_Cluster cs = om_Name (cl_Meta c0)"
  "cluster_guard E c0 h (PodsList cs sp sel) \<longleftrightarrow> cs_Cluster cs = om_Name (cl_Meta c0)"
  "cluster_guard E c0 h (GetCluster k)" "cluster_guard E c0 h (GetSecret k)"
  by (simp_all add: cluster_guard_def)

lemma client_read_cluster_guard: "client_read e \<Longrightarrow> cluster_guard E c0 h e"
  by (cases e) simp_all

lemma setCondition_fields [simp]:
  "cl_Meta (setCondition t ty st re m c) = cl_Meta c" "cl_APIEndpoint (setCondition t ty st re m c) = cl_APIEndpoint c"
  "cl_SecretRef (setCondition t ty st re m c) = cl_SecretRef c" "cl_Phase (setCondition t ty st re m c) = cl_Phase c"
  "cl_Nodes (setCondition t ty st re m c) = cl_Nodes c" "cl_LastProbeTime (setCondition t ty st re m c) = cl_LastProbeTime c"
  by (simp_all add: setCondition_def)

lemma touchStatus_fields [simp]:
  "cl_Meta (touchStatus t c) = cl_Meta c" "cl_APIEndpoint (touchStatus t c) = cl_APIEndpoint c"
  "cl_SecretRef (touchStatus t c) = cl_SecretRef c" "cl_Phase (touchStatus t c) = cl_Phase c"
  "cl_Nodes (touchStatus t c) = cl_Nodes c" "cl_LastProbeTime (touchStatus t c) = cl_LastProbeTime c"
  by (simp_all add: touchStatus_def)

abbreviation cluster_post :: "env \<Rightarrow> Cluster \<Rightarrow> history \<Rightarrow> 'a \<Rightarrow> world \<Rightarrow> bool" where
  "cluster_post E c0 hs r w \<equiv> kube_ok w \<and> ok (cluster_guard E c0) hs (hist w)"

lemmas cluster_run = vcg update_cluster_def server_version_def nodes_list_def pods_list_def getKubeconfigSecret_def
  get_secret_def get_cluster_def report_and_retry_def import_failed_def not_ready_def still_not_ready_def Let_def

lemma client_wp:
  assumes "kube_ok w" and "ok (cluster_guard E c0) hs (hist w)"
    and "\<And>err w'. kube_ok w' \<Longrightarrow> ok (cluster_guard E c0) hs (hist w') \<Longrightarrow> Q (Inl err) w'"
    and "\<And>cs w'. kube_ok w' \<Longrightarrow> ok (cluster_guard E c0) hs (hist w') \<Longrightarrow> cs_Cluster cs = c \<Longrightarrow> Q (Inr cs) w'"
  shows "wp (getOrBuildClient E c n data) Q w"
  by (rule kube.get_wp_ok [OF assms(1,2) client_read_cluster_guard assms(3,4)])

lemma reconcileImporting_ok:
  assumes "kube_ok w" and "ok (cluster_guard E c0) hs (hist w)" and "cluster_valid c0"
    and "cl_Phase c0 = ClusterPhaseNone \<or> cl_Phase c0 = Importing"
  shows "wp (reconcileImporting E (default_phase c0)) (cluster_post E c0 hs) w"
  using assms unfolding reconcileImporting_def
  by (auto simp: cluster_run default_phase_def cluster_write_ok_def reached_def
      intro!: client_wp [where hs = hs and ?c0.0 = c0] split: sum.split option.split)

lemma reconcileNotReady_ok:
  assumes "kube_ok w" and "ok (cluster_guard E c0) hs (hist w)" and "cluster_valid c0" and "cl_Phase c0 = NotReady"
  shows "wp (reconcileNotReady E c0) (cluster_post E c0 hs) w"
  using assms unfolding reconcileNotReady_def
  by (auto simp: cluster_run cluster_write_ok_def reached_def intro!: client_wp [where hs = hs and ?c0.0 = c0] split: sum.split option.split)

lemma reconcileReady_ok:
  assumes "kube_ok w" and "ok (cluster_guard E c0) hs (hist w)" and "cluster_valid c0" and "cl_Phase c0 = ClusterReady"
  shows "wp (reconcileReady E c0) (cluster_post E c0 hs) w"
  using assms unfolding reconcileReady_def sync_resources_def
  by (auto simp: cluster_run cluster_write_ok_def reached_def summarised_def
      intro!: client_wp [where hs = hs and ?c0.0 = c0] split: sum.split option.split prod.split)

lemma cluster_Reconcile_ok:
  assumes "kube_ok w" and "env_get_cluster E (hist w) req = Inr c0"
  shows "wp (cluster_Reconcile E req) (cluster_post E c0 (hist w)) w"
proof -
  let ?w = "w\<lparr>hist := hist w @ [GetCluster req]\<rparr> :: world"
  have start: "kube_ok ?w" "ok (cluster_guard E c0) (hist w) (hist ?w)" using assms by simp_all
  show ?thesis
  proof (cases "cluster_valid c0")
    case False
    with assms show ?thesis
      by (auto simp: cluster_Reconcile_def invalid_spec_def cluster_run cluster_valid_def default_phase_def cluster_write_ok_def)
  next
    case True
    then have "\<not> (cl_APIEndpoint (default_phase c0) = '''' \<or> cl_SecretRef (default_phase c0) = '''')"
      by (simp add: cluster_valid_def default_phase_def)
    with True assms start reconcileImporting_ok [OF start True] reconcileNotReady_ok [OF start True] reconcileReady_ok [OF start True]
    show ?thesis
      by (cases "cl_Phase c0")
        (auto simp: cluster_Reconcile_def cluster_run default_phase_def cluster_write_ok_def kube_ok_def clients_ok_mdel)
  qed
qed

lemma cluster_Reconcile_at:
  assumes "kube_ok w" and "env_get_cluster E (hist w) req = Inr c0" and "trace (cluster_Reconcile E req) w = pre @ e # post"
  shows "cluster_guard E c0 (hist w @ pre) e"
proof -
  have "guarded (cluster_guard E c0) (hist w) (trace (cluster_Reconcile E req) w)"
    using cluster_Reconcile_ok [OF assms(1,2)] by (simp add: wp_result ok_trace)
  then show ?thesis unfolding assms(3) by (rule guarded_at)
qed

subsection \<open>Correctness of the controller\<close>

text \<open>
  C22: The phases of a cluster. A run that read the cluster \<open>c0\<close> only writes the status of that cluster, along
  the phase machine: importing ends in Ready, NotReady or Failed, probing moves between Ready and NotReady,
  and Failed is entered from there only with an invalid spec. Ready is only reported after the API server of
  that very cluster has just answered, and new node summaries and a new probe time are only written together,
  as computed from the node and pod lists that the cluster has just returned.
\<close>

theorem cluster_status_follows_probes:
  assumes "kube_ok w" and "env_get_cluster E (hist w) req = Inr c0"
    and "trace (cluster_Reconcile E req) w = pre @ StatusUpdateCluster c # post"
  shows "cl_Meta c = cl_Meta c0 \<and> cl_APIEndpoint c = cl_APIEndpoint c0 \<and> cl_SecretRef c = cl_SecretRef c0 \<and>
    cluster_step (cluster_valid c0) (cl_Phase c0) (cl_Phase c) \<and>
    (cl_Phase c = ClusterReady \<longrightarrow> reached E (hist w @ pre) (om_Name (cl_Meta c0))) \<and>
    (cl_Nodes c = cl_Nodes c0 \<and> cl_LastProbeTime c = cl_LastProbeTime c0 \<or>
       cl_Phase c = ClusterReady \<and> summarised E (hist w @ pre) (om_Name (cl_Meta c0)) (cl_Nodes c))"
  using cluster_Reconcile_at [OF assms] by (simp add: cluster_write_ok_def)

text \<open>A cluster that is Failed is left alone.\<close>

lemma cluster_failed_final:
  assumes "env_get_cluster E (hist w) req = Inr c" and "cl_Phase c = ClusterFailed" and "cluster_valid c"
  shows "result (cluster_Reconcile E req) w = (Stop, None) \<and> trace (cluster_Reconcile E req) w = [GetCluster req]"
proof -
  have "wp (cluster_Reconcile E req) (\<lambda>r w'. r = (Stop, None) \<and> hist w' = hist w @ [GetCluster req]) w"
    using assms by (simp add: cluster_Reconcile_def cluster_run default_phase_def cluster_valid_def)
  then show ?thesis by (simp add: wp_result trace_def)
qed

subsection \<open>A cached client outlives its kubeconfig\<close>

definition probes_with :: "Clientset \<Rightarrow> event \<Rightarrow> bool" where
  "probes_with cs e = (case e of ServerVersion cs' \<Rightarrow> cs' = cs | NodesList cs' \<Rightarrow> cs' = cs | PodsList cs' _ _ \<Rightarrow> cs' = cs | _ \<Rightarrow> True)"

lemma getOrBuildClient_hit_wp:
  "mget (kube_clients w) c = Some cs \<Longrightarrow> wp (getOrBuildClient E c n data) Q w = Q (Inr cs) w"
  by (simp add: getOrBuildClient_vcg)

text \<open>
  A new kubeconfig is not picked up. As long as a client for the cluster is cached, every probe of a run
  uses that client, whatever the Secret now holds: the cache is keyed by the cluster alone, and a cluster
  that is unreachable keeps its client.
\<close>

theorem cluster_probes_use_cached_client:
  assumes "env_get_cluster E (hist w) req = Inr c" and "mget (kube_clients w) (om_Name (cl_Meta c)) = Some cs"
  shows "list_all (probes_with cs) (trace (cluster_Reconcile E req) w)"
proof -
  have "wp (cluster_Reconcile E req) (\<lambda>r w'. ok (\<lambda>_. probes_with cs) (hist w) (hist w')) w"
    using assms
    by (auto simp: cluster_Reconcile_def invalid_spec_def reconcileImporting_def reconcileReady_def reconcileNotReady_def
        sync_resources_def cluster_run default_phase_def getOrBuildClient_hit_wp probes_with_def
        split: sum.split option.split ClusterPhase.split prod.split)
  then show ?thesis by (auto simp: wp_result intro: ok_trace_plain)
qed

subsection \<open>Resource accounting\<close>

text \<open>The specification: what the active pods of a node request.\<close>

definition active_on :: "string \<Rightarrow> Pod \<Rightarrow> bool" where
  "active_on n p \<longleftrightarrow> pod_NodeName p = n \<and> pod_Phase p \<noteq> ''Succeeded'' \<and> pod_Phase p \<noteq> ''Failed''"

definition pod_request :: "string \<Rightarrow> Pod \<Rightarrow> quantity" where
  "pod_request res p = (\<Sum>c\<leftarrow>pod_Containers p. rl (ct_Requests c) res)"

definition pods_request :: "string \<Rightarrow> Pod list \<Rightarrow> string \<Rightarrow> quantity" where
  "pods_request res pods n = (\<Sum>p\<leftarrow>filter (active_on n) pods. pod_request res p)"

lemma add_container_fields:
  "nr_CPU (add_container c agg) = nr_CPU agg + rl (ct_Requests c) ''cpu''"
  "nr_Memory (add_container c agg) = nr_Memory agg + rl (ct_Requests c) ''memory''"
  "nr_Pods (add_container c agg) = nr_Pods agg"
  by (simp_all add: add_container_def rl_def mget0_def Let_def split: option.split)

lemma add_containers_fields:
  "nr_CPU (fold add_container cs agg) = nr_CPU agg + (\<Sum>c\<leftarrow>cs. rl (ct_Requests c) ''cpu'')"
  "nr_Memory (fold add_container cs agg) = nr_Memory agg + (\<Sum>c\<leftarrow>cs. rl (ct_Requests c) ''memory'')"
  "nr_Pods (fold add_container cs agg) = nr_Pods agg"
  by (induction cs arbitrary: agg) (simp_all add: add_container_fields)

lemma max_init_container_fields:
  "nr_CPU agg \<le> nr_CPU (max_init_container c agg)" "nr_Memory agg \<le> nr_Memory (max_init_container c agg)"
  "nr_Pods (max_init_container c agg) = nr_Pods agg"
  by (simp_all add: max_init_container_def Let_def split: option.split)

lemma max_init_containers_fields:
  "nr_CPU agg \<le> nr_CPU (fold max_init_container cs agg)" "nr_Memory agg \<le> nr_Memory (fold max_init_container cs agg)"
  "nr_Pods (fold max_init_container cs agg) = nr_Pods agg"
proof (induction cs arbitrary: agg)
  case (Cons c cs)
  { case 1 show ?case using order_trans [OF max_init_container_fields(1) Cons.IH(1)] by simp }
  { case 2 show ?case using order_trans [OF max_init_container_fields(2) Cons.IH(2)] by simp }
  { case 3 show ?case by (simp add: Cons.IH(3) max_init_container_fields(3)) }
qed simp_all

text \<open>\<open>accounted exact req n pods agg\<close>: \<open>agg\<close> counts the active pods of \<open>n\<close> and holds at least their requests.\<close>

definition accounted :: "Pod list \<Rightarrow> string \<Rightarrow> NodeResources \<Rightarrow> bool" where
  "accounted pods n agg \<longleftrightarrow>
    nr_Pods agg = of_nat (length (filter (active_on n) pods)) \<and>
    pods_request ''cpu'' pods n \<le> nr_CPU agg \<and> pods_request ''memory'' pods n \<le> nr_Memory agg \<and>
    (list_all (\<lambda>p. pod_InitContainers p = []) pods \<longrightarrow>
       nr_CPU agg = pods_request ''cpu'' pods n \<and> nr_Memory agg = pods_request ''memory'' pods n)"

lemma accounted_other:
  "\<not> active_on n p \<Longrightarrow> accounted pods n agg \<Longrightarrow> accounted (pods @ [p]) n agg"
  by (simp add: accounted_def pods_request_def)

lemma accounted_active:
  assumes "active_on n p" and "accounted pods n agg"
  shows "accounted (pods @ [p]) n
    (fold max_init_container (pod_InitContainers p) (fold add_container (pod_Containers p) (agg\<lparr>nr_Pods := nr_Pods agg + 1\<rparr>)))"
proof -
  let ?a = "fold add_container (pod_Containers p) (agg\<lparr>nr_Pods := nr_Pods agg + 1\<rparr>)"
  have *: "nr_CPU ?a = nr_CPU agg + pod_request ''cpu'' p" "nr_Memory ?a = nr_Memory agg + pod_request ''memory'' p"
    "nr_Pods ?a = nr_Pods agg + 1"
    by (simp_all add: add_containers_fields pod_request_def)
  show ?thesis
    using assms * max_init_containers_fields(1) [of ?a "pod_InitContainers p"] max_init_containers_fields(2) [of ?a "pod_InitContainers p"]
    by (auto simp: accounted_def pods_request_def max_init_containers_fields(3))
qed

lemma accounted_step:
  assumes "n \<noteq> ''''" and "accounted pods n (mget0 zero_node_resources res n)"
  shows "accounted (pods @ [p]) n (mget0 zero_node_resources (count_pod p res) n)"
proof (cases "active_on n p")
  case True
  with accounted_active [OF True assms(2)] assms(1) show ?thesis by (simp add: count_pod_def active_on_def Let_def)
next
  case False
  moreover have "mget0 zero_node_resources (count_pod p res) n = mget0 zero_node_resources res n"
    using False by (auto simp: count_pod_def active_on_def Let_def)
  ultimately show ?thesis using accounted_other assms(2) by simp
qed

lemma sumPodRequestsByNode_accounted:
  assumes "n \<noteq> ''''"
  shows "accounted pods n (mget0 zero_node_resources (sumPodRequestsByNode pods) n)"
proof (induction pods rule: rev_induct)
  case Nil
  then show ?case by (simp add: sumPodRequestsByNode_def accounted_def zero_node_resources_def pods_request_def)
next
  case (snoc p pods)
  then show ?case using accounted_step [OF assms] by (simp add: sumPodRequestsByNode_def)
qed

text \<open>
  Node summaries account for every active pod. For each named node, free and requested resources add up
  to the allocatable ones, the pod count is exact, the requested CPU and memory are at least the sum over the
  containers of the active pods, and they are exactly that sum when no pod has init containers.
\<close>

theorem node_summaries_account_for_pods:
  assumes "s \<in> set (buildNodeSummaries nodes (sumPodRequestsByNode pods))" and "cn_Name s \<noteq> ''''"
  shows "accounted pods (cn_Name s) (cn_Requested s) \<and>
    nr_CPU (cn_Free s) + nr_CPU (cn_Requested s) = nr_CPU (cn_Allocatable s) \<and>
    nr_Memory (cn_Free s) + nr_Memory (cn_Requested s) = nr_Memory (cn_Allocatable s) \<and>
    nr_Pods (cn_Free s) + nr_Pods (cn_Requested s) = nr_Pods (cn_Allocatable s)"
  using assms sumPodRequestsByNode_accounted by (auto simp: buildNodeSummaries_def node_summary_def Let_def)

text \<open>
  C23: What the scheduler's resource check means. When a node summary that the Cluster controller built passes the
  check for a template that requests CPU or memory, the requests of the active pods on the node and the new request
  together fit into the allocatable CPU and memory of the node; the converse holds without init containers, whose
  requests are counted on top of the other pods. A template that requests neither CPU nor memory is accepted by every
  node, also by an overcommitted one.
\<close>

theorem accepted_node_has_room:
  assumes "s \<in> set (buildNodeSummaries nodes (sumPodRequestsByNode pods))" and "cn_Name s \<noteq> []"
    and "room \<longleftrightarrow> pods_request ''cpu'' pods (cn_Name s) + req_CPU r \<le> nr_CPU (cn_Allocatable s) \<and>
      pods_request ''memory'' pods (cn_Name s) + req_Mem r \<le> nr_Memory (cn_Allocatable s)"
  shows "(fits (node_view cid s) r \<longrightarrow> req_CPU r = 0 \<and> req_Mem r = 0 \<or> room) \<and>
    (req_CPU r = 0 \<and> req_Mem r = 0 \<longrightarrow> fits (node_view cid s) r) \<and>
    (list_all (\<lambda>p. pod_InitContainers p = []) pods \<and> room \<longrightarrow> fits (node_view cid s) r)"
proof -
  have "accounted pods (cn_Name s) (cn_Requested s)" and
    "nr_CPU (cn_Free s) + nr_CPU (cn_Requested s) = nr_CPU (cn_Allocatable s)"
    "nr_Memory (cn_Free s) + nr_Memory (cn_Requested s) = nr_Memory (cn_Allocatable s)"
    using assms(1,2) sumPodRequestsByNode_accounted by (auto simp: buildNodeSummaries_def node_summary_def Let_def)
  then show ?thesis
    unfolding assms(3) by (auto simp: fits_def node_view_def accounted_def not_less)
qed

subsection \<open>Witnesses\<close>

definition sample_node_object :: Node where
  "sample_node_object = \<lparr>nd_Name = ''node-1'', nd_UID = ''u1'', nd_Labels = [(''kubernetes.io/hostname'', ''node-1'')],
     nd_Capacity = [(''cpu'', 8), (''memory'', 32)], nd_Allocatable = [(''cpu'', 7), (''memory'', 30), (''pods'', 110)],
     nd_Conditions = [(''Ready'', True)]\<rparr>"

definition sample_pod_object :: Pod where
  "sample_pod_object = \<lparr>pod_Name = ''web-1'', pod_Phase = ''Running'', pod_NodeName = ''node-1'', pod_Conditions = [],
     pod_ContainerReady = [], pod_Containers = [\<lparr>ct_Requests = [(''cpu'', 2), (''memory'', 4)]\<rparr>],
     pod_InitContainers = [\<lparr>ct_Requests = [(''cpu'', 3)]\<rparr>]\<rparr>"

definition cluster_env :: env where
  "cluster_env = (sample_env Running)\<lparr>env_nodes := \<lambda>_ _. Inr [sample_node_object], env_pods := \<lambda>_ _ _ _. Inr [sample_pod_object]\<rparr>"

definition cluster_req :: nskey where
  "cluster_req = \<lparr>key_Name = ''east'', key_Namespace = ''ns''\<rparr>"

definition probed_cluster :: Cluster where
  "probed_cluster = (sample_cluster ''east'' [])\<lparr>cl_UpdatedAt := Some 7, cl_LastProbeTime := Some 7,
     cl_Nodes := buildNodeSummaries [sample_node_object] (sumPodRequestsByNode [sample_pod_object]),
     cl_Resources := \<lparr>res_CapacityCPU = 8, res_CapacityMemory = 32, res_AllocatableCPU = 7, res_AllocatableMemory = 30,
       res_NodeCount = 1, res_PodCount = 1\<rparr>,
     cl_Conditions := [\<lparr>cond_Type = ''Ready'', cond_Status = True, cond_Reason = ''Reachable'', cond_Message = ''api server reachable'',
         cond_ObservedGeneration = 1, cond_LastTransitionTime = Some 7\<rparr>,
       \<lparr>cond_Type = ''Imported'', cond_Status = True, cond_Reason = ''Imported'', cond_Message = ''cluster imported'',
         cond_ObservedGeneration = 1, cond_LastTransitionTime = Some 7\<rparr>]\<rparr>"

theorem cluster_status_follows_probes_witness:
  "cluster_step (cluster_valid (sample_cluster ''east'' [])) ClusterReady (cl_Phase probed_cluster) \<and>
    reached cluster_env (hist fresh_world @ take 5 (trace (cluster_Reconcile cluster_env cluster_req) fresh_world)) ''east'' \<and>
    summarised cluster_env (hist fresh_world @ take 5 (trace (cluster_Reconcile cluster_env cluster_req) fresh_world)) ''east'' (cl_Nodes probed_cluster)"
proof -
  have "trace (cluster_Reconcile cluster_env cluster_req) fresh_world =
      take 5 (trace (cluster_Reconcile cluster_env cluster_req) fresh_world) @ StatusUpdateCluster probed_cluster # []"
    by code_simp
  moreover have "kube_ok fresh_world" by code_simp
  moreover have "env_get_cluster cluster_env (hist fresh_world) cluster_req = Inr (sample_cluster ''east'' [])" by code_simp
  ultimately show ?thesis
    using cluster_status_follows_probes [of fresh_world cluster_env cluster_req "sample_cluster ''east'' []"]
    by (fastforce simp: probed_cluster_def sample_cluster_def sample_meta_def)
qed

theorem cluster_probes_use_cached_client_witness:
  "list_all (probes_with sample_cs) (trace (cluster_Reconcile cluster_env cluster_req)
     (fresh_world\<lparr>kube_clients := [(''east'', sample_cs)]\<rparr>))"
  by (rule cluster_probes_use_cached_client [where c = "sample_cluster ''east'' []"]) code_simp+

theorem node_summaries_account_for_pods_witness:
  "accounted [sample_pod_object] ''node-1'' \<lparr>nr_CPU = 3, nr_Memory = 4, nr_Pods = 1\<rparr>"
proof -
  let ?s = "node_summary (sumPodRequestsByNode [sample_pod_object]) sample_node_object"
  have "?s \<in> set (buildNodeSummaries [sample_node_object] (sumPodRequestsByNode [sample_pod_object]))" and "cn_Name ?s \<noteq> ''''"
    by (simp_all add: buildNodeSummaries_def node_summary_def sample_node_object_def Let_def)
  from node_summaries_account_for_pods [OF this]
  have "accounted [sample_pod_object] (cn_Name ?s) (cn_Requested ?s)" by blast
  moreover have "cn_Name ?s = ''node-1''" and "cn_Requested ?s = \<lparr>nr_CPU = 3, nr_Memory = 4, nr_Pods = 1\<rparr>" by code_simp+
  ultimately show ?thesis by simp
qed

theorem accepted_node_has_room_witness:
  "let s = node_summary (sumPodRequestsByNode [sample_pod_object]) sample_node_object in
    fits (node_view ''east'' s) \<lparr>req_CPU = 2, req_Mem = 4\<rparr> \<and> \<not> fits (node_view ''east'' s) \<lparr>req_CPU = 5, req_Mem = 0\<rparr> \<and>
    pods_request ''cpu'' [sample_pod_object] ''node-1'' + 2 \<le> 7 \<and> pods_request ''memory'' [sample_pod_object] ''node-1'' + 4 \<le> 30"
proof -
  let ?s = "node_summary (sumPodRequestsByNode [sample_pod_object]) sample_node_object"
  have s: "?s \<in> set (buildNodeSummaries [sample_node_object] (sumPodRequestsByNode [sample_pod_object]))" and "cn_Name ?s \<noteq> []"
    by (simp_all add: buildNodeSummaries_def node_summary_def sample_node_object_def Let_def)
  moreover have f: "fits (node_view ''east'' ?s) \<lparr>req_CPU = 2, req_Mem = 4\<rparr>" "\<not> fits (node_view ''east'' ?s) \<lparr>req_CPU = 5, req_Mem = 0\<rparr>"
    by code_simp+
  ultimately have "pods_request ''cpu'' [sample_pod_object] (cn_Name ?s) + 2 \<le> nr_CPU (cn_Allocatable ?s) \<and>
      pods_request ''memory'' [sample_pod_object] (cn_Name ?s) + 4 \<le> nr_Memory (cn_Allocatable ?s)"
    using accepted_node_has_room [OF s _ refl, where r = "\<lparr>req_CPU = 2, req_Mem = 4\<rparr>" and cid = "''east''"] by simp
  moreover have "cn_Name ?s = ''node-1''" "nr_CPU (cn_Allocatable ?s) = 7" "nr_Memory (cn_Allocatable ?s) = 30" by code_simp+
  ultimately show ?thesis using f by (simp add: Let_def)
qed

end
