(* ===== verification/Policy_Status.thy ===== *)
theory Policy_Status
  imports Plan_Controller Member_Clients
begin

section \<open>The OptimizationPolicy controller: validation, lock, layout and timer\<close>

text \<open>
  \<open>src/controller/internal/controller/optimizationpolicy_controller.go\<close>, the part that Reconcile runs: it
  validates the spec, competes for the lock shared by all policies, records which replicas exist and which of
  them may be moved, and arms the timer of the next evaluation. The evaluation itself is
  \<open>Policy_Evaluation\<close>.

  The configuration of the reconciler is \<open>policy_cfg\<close>; \<open>cfg_duration_error\<close> is the text of the error of
  \<open>time.ParseDuration\<close>, \<open>cfg_Recorder\<close> says whether an event recorder is set. A method that changes the policy it
  is given returns the changed policy. A timer is its delay; cancelling removes it. Log output and the mutexes
  are not modelled.
\<close>

record policy_cfg =
  cfg_LockNamespace :: string
  cfg_LockName :: string
  cfg_LeaseDurationSeconds :: int32
  cfg_ProfilesNamespace :: string
  cfg_ControlNamespace :: string
  cfg_SolverTimeout :: int64
  cfg_Recorder :: bool
  cfg_duration_error :: "string \<Rightarrow> string"

definition getLockNamespace :: "policy_cfg \<Rightarrow> string" where
  "getLockNamespace C = (if cfg_LockNamespace C \<noteq> '''' then cfg_LockNamespace C else ''kubex-system'')"

definition getLockName :: "policy_cfg \<Rightarrow> string" where
  "getLockName C = (if cfg_LockName C \<noteq> '''' then cfg_LockName C else ''kubex-optimization-policy-lock'')"

definition getLeaseDurationSeconds :: "policy_cfg \<Rightarrow> int32" where
  "getLeaseDurationSeconds C = (if cfg_LeaseDurationSeconds C > 0 then cfg_LeaseDurationSeconds C else 15)"

definition getProfilesNamespace :: "policy_cfg \<Rightarrow> string" where
  "getProfilesNamespace C = (if cfg_ProfilesNamespace C \<noteq> '''' then cfg_ProfilesNamespace C else ''kubex-system'')"

definition controller_identity :: "env \<Rightarrow> string" where
  "controller_identity E = (if env_pod_name E \<noteq> '''' then env_pod_name E else ''kubeX-controller'')"

definition self_id :: "env \<Rightarrow> OptimizationPolicy \<Rightarrow> string" where
  "self_id E pol = controller_identity E @ '':'' @ om_Namespace (pol_Meta pol) @ ''/'' @ om_Name (pol_Meta pol)"

definition get_policy :: "env \<Rightarrow> nskey \<Rightarrow> (api_err + OptimizationPolicy) io" where
  "get_policy E k = call (GetPolicy k) (\<lambda>h. env_get_policy E h k)"

definition get_lease :: "env \<Rightarrow> nskey \<Rightarrow> (api_err + Lease) io" where
  "get_lease E k = call (GetLease k) (\<lambda>h. env_get_lease E h k)"

definition write_lease :: "env \<Rightarrow> event \<Rightarrow> api_err option io" where
  "write_lease E e = call e (\<lambda>h. env_write_lease E h e)"

definition list_gd :: "env \<Rightarrow> string option \<Rightarrow> (api_err + GlobalDeployment list) io" where
  "list_gd E sel = call (ListGD sel) (\<lambda>h. env_list_gd E h sel)"

definition record_event :: "policy_cfg \<Rightarrow> string \<Rightarrow> string \<Rightarrow> unit io" where
  "record_event C reason message = (if cfg_Recorder C then call (RecordEvent reason message) (\<lambda>_. ()) else State_Monad.return ())"

text \<open>
  A status patch of the policy. On success the object is what the server stored; on failure the changes
  made in memory stay.
\<close>

definition patch_policy :: "env \<Rightarrow> OptimizationPolicy \<Rightarrow> OptimizationPolicy \<Rightarrow> (api_err option \<times> OptimizationPolicy) io" where
  "patch_policy E base new = do {
     r \<leftarrow> call (StatusPatchPolicy base new) (\<lambda>h. env_write_policy E h (StatusPatchPolicy base new));
     State_Monad.return (case r of Inl err \<Rightarrow> (Some err, new) | Inr stored \<Rightarrow> (None, stored))
   }"

subsection \<open>Validation\<close>

definition policy_condition :: "OptimizationPolicy \<Rightarrow> time \<Rightarrow> string \<Rightarrow> bool \<Rightarrow> string \<Rightarrow> string \<Rightarrow> Condition" where
  "policy_condition pol t ty st reason message =
    \<lparr>cond_Type = ty, cond_Status = st, cond_Reason = reason, cond_Message = message,
     cond_ObservedGeneration = om_Generation (pol_Meta pol), cond_LastTransitionTime = Some t\<rparr>"

definition allowedGoals :: "string list" where
  "allowedGoals = [''Cost'', ''Latency'', ''Communication'', ''Energy'', ''Migration'']"

definition sumEps :: f64 where
  "sumEps = to_f64 (1 / 1000000)"

definition weight_sum :: "OptimizationGoal list \<Rightarrow> f64" where
  "weight_sum goals = fold (\<lambda>g s. if flt f0 (og_Weight g) then fadd s (og_Weight g) else s) goals f0"

text \<open>The first goal of an unknown type, with its index.\<close>

definition bad_goal :: "OptimizationGoal list \<Rightarrow> (nat \<times> OptimizationGoal) option" where
  "bad_goal goals = find (\<lambda>(i, g). og_Type g \<notin> set allowedGoals) (enumerate 0 goals)"

text \<open>\<open>Inl\<close> is the condition of a Failed phase, \<open>Inr\<close> a valid spec.\<close>

definition validateOptimizationPolicySpec :: "policy_cfg \<Rightarrow> env \<Rightarrow> time \<Rightarrow> OptimizationPolicy \<Rightarrow> Condition + unit" where
  "validateOptimizationPolicySpec C E t pol =
    (let spec = pol_Spec pol; goals = pol_OptimizationGoals spec;
         invalid = (\<lambda>reason message. Inl (policy_condition pol t ''SpecValid'' False reason message)) in
     case bad_goal goals of
       Some (i, g) \<Rightarrow> invalid ''InvalidGoalType''
         (''goal['' @ itoa (int i) @ ''].type='' @ go_quote (og_Type g) @ '' is not supported'')
     | None \<Rightarrow>
         if goals \<noteq> [] \<and> flt sumEps (fabs (fsub (weight_sum goals) (Fin 1))) then
           invalid ''InvalidGoalWeights'' (''sum(weights where weight>0) must be 1 (eps='' @ env_format_g E sumEps @
             ''), got '' @ env_format_g E (weight_sum goals))
         else if pol_RunMode spec = ''Periodic'' \<and> pol_RebalancePoint spec = '''' then
           invalid ''InvalidRebalancePoint'' ''rebalancePoint is required when runMode=Periodic''
         else if pol_RunMode spec = ''Periodic'' \<and> env_parse_duration E (pol_RebalancePoint spec) = None then
           invalid ''InvalidRebalancePoint'' (''rebalancePoint '' @ go_quote (pol_RebalancePoint spec) @
             '' is not a valid duration: '' @ cfg_duration_error C (pol_RebalancePoint spec))
         else if pol_Strategy spec = ''Conservative'' \<and>
             (pol_ImprovementThresholdPercent spec < 0 \<or> pol_ImprovementThresholdPercent spec > 100) then
           invalid ''InvalidImprovementThreshold'' (''improvementThresholdPercent must be in [0,100], got '' @
             itoa (pol_ImprovementThresholdPercent spec))
         else Inr ())"

subsection \<open>Status\<close>

definition same_condition :: "Condition \<Rightarrow> Condition \<Rightarrow> bool" where
  "same_condition cond c \<longleftrightarrow> cond_Type c = cond_Type cond \<and> cond_Status c = cond_Status cond \<and>
     cond_Reason c = cond_Reason cond \<and> cond_Message c = cond_Message cond \<and>
     cond_ObservedGeneration c = cond_ObservedGeneration cond"

fun need_condition :: "Condition \<Rightarrow> Condition list \<Rightarrow> bool \<Rightarrow> bool" where
  "need_condition cond [] needUpdate = needUpdate"
| "need_condition cond (c # cs) needUpdate = (if same_condition cond c then False else need_condition cond cs True)"

definition setStatusPhaseAndCondition ::
  "env \<Rightarrow> OptimizationPolicy \<Rightarrow> OptimizationPolicyPhase \<Rightarrow> Condition \<Rightarrow> (api_err option \<times> OptimizationPolicy) io" where
  "setStatusPhaseAndCondition E pol phase cond =
    (if pol_Phase (pol_Status pol) \<noteq> phase \<or> need_condition cond (pol_Conditions (pol_Status pol)) False then
       patch_policy E pol (pol\<lparr>pol_Status := (pol_Status pol)\<lparr>pol_Phase := phase,
         pol_Conditions := env_set_condition E cond (pol_Conditions (pol_Status pol))\<rparr>\<rparr>)
     else State_Monad.return (None, pol))"

subsection \<open>The lock\<close>

definition lease_key :: "policy_cfg \<Rightarrow> nskey" where
  "lease_key C = \<lparr>key_Name = getLockName C, key_Namespace = getLockNamespace C\<rparr>"

definition new_lease :: "policy_cfg \<Rightarrow> string \<Rightarrow> time \<Rightarrow> Lease" where
  "new_lease C holder t = \<lparr>le_Name = getLockName C, le_Namespace = getLockNamespace C, le_HolderIdentity = Some holder,
     le_LeaseDurationSeconds = Some (getLeaseDurationSeconds C), le_AcquireTime = Some t, le_RenewTime = Some t\<rparr>"

definition lease_current :: "policy_cfg \<Rightarrow> time \<Rightarrow> Lease \<Rightarrow> bool" where
  "lease_current C t lease = (case le_RenewTime lease of
      None \<Rightarrow> False
    | Some renewTime \<Rightarrow>
        (let leaseDur = (case le_LeaseDurationSeconds lease of Some d \<Rightarrow> d | None \<Rightarrow> getLeaseDurationSeconds C)
         in sat64 (t - renewTime) \<le> leaseDur * Second))"

definition tryAcquirePolicyLease :: "policy_cfg \<Rightarrow> env \<Rightarrow> OptimizationPolicy \<Rightarrow> (api_err + bool \<times> string) io" where
  "tryAcquirePolicyLease C E pol = do {
     g \<leftarrow> get_lease E (lease_key C);
     t \<leftarrow> now E;
     case g of
       Inl err \<Rightarrow>
         if \<not> IsNotFound err then State_Monad.return (Inl err)
         else do {
           r \<leftarrow> write_lease E (CreateLease (new_lease C (self_id E pol) t));
           State_Monad.return (case r of Some err \<Rightarrow> Inl err | None \<Rightarrow> Inr (True, self_id E pol))
         }
     | Inr lease \<Rightarrow>
         (let holder = (case le_HolderIdentity lease of Some h \<Rightarrow> h | None \<Rightarrow> '''') in
          if holder = self_id E pol then do {
            r \<leftarrow> write_lease E (PatchLease lease (lease\<lparr>le_RenewTime := Some t,
                   le_LeaseDurationSeconds := Some (getLeaseDurationSeconds C)\<rparr>));
            State_Monad.return (case r of Some err \<Rightarrow> Inl err | None \<Rightarrow> Inr (True, self_id E pol))
          }
          else if lease_current C t lease then State_Monad.return (Inr (False, holder))
          else do {
            r \<leftarrow> write_lease E (PatchLease lease (lease\<lparr>le_HolderIdentity := Some (self_id E pol), le_AcquireTime := Some t,
                   le_RenewTime := Some t, le_LeaseDurationSeconds := Some (getLeaseDurationSeconds C)\<rparr>));
            State_Monad.return (case r of Some err \<Rightarrow> Inl err | None \<Rightarrow> Inr (True, self_id E pol))
          })
   }"

subsection \<open>Observed deployments and the current layout\<close>

definition selector_of :: "env \<Rightarrow> OptimizationPolicy \<Rightarrow> api_err + string option" where
  "selector_of E pol = (case pol_TargetSelector (pol_Spec pol) of
      None \<Rightarrow> Inr None
    | Some s \<Rightarrow> (case env_selector E s of Inl err \<Rightarrow> Inl err | Inr sel \<Rightarrow> Inr (Some sel)))"

definition reconcileObservedDeployments :: "env \<Rightarrow> OptimizationPolicy \<Rightarrow> (api_err option \<times> OptimizationPolicy) io" where
  "reconcileObservedDeployments E pol = (case selector_of E pol of
      Inl err \<Rightarrow> State_Monad.return (Some err, pol)
    | Inr sel \<Rightarrow> do {
        l \<leftarrow> list_gd E sel;
        case l of
          Inl err \<Rightarrow> State_Monad.return (Some err, pol)
        | Inr gds \<Rightarrow>
            (let observed = wrap32 (int (length gds)) in
             if pol_ObservedDeployments (pol_Status pol) = observed then State_Monad.return (None, pol)
             else patch_policy E pol (pol\<lparr>pol_Status := (pol_Status pol)\<lparr>pol_ObservedDeployments := observed\<rparr>\<rparr>))
      })"

fun volume_blocker :: "Volume list \<Rightarrow> string option" where
  "volume_blocker [] = None"
| "volume_blocker (v # vs) =
    (if vol_HostPath v then Some ''NonMigratableHostPath''
     else if vol_PersistentVolumeClaim v then Some ''NonMigratablePVC''
     else volume_blocker vs)"

text \<open>\<open>None\<close> means migratable, otherwise the reason.\<close>

definition globalDeploymentMigratable :: "env \<Rightarrow> GlobalDeployment \<Rightarrow> string option" where
  "globalDeploymentMigratable E gd =
    (if gd_Template (gd_Spec gd) = '''' then None
     else let spec = env_json_spec E (gd_Template (gd_Spec gd)) in
       if (case ds_Affinity spec of None \<Rightarrow> False | Some a \<Rightarrow>
             (case aff_NodeAffinity a of None \<Rightarrow> False | Some na \<Rightarrow> na_Required na \<noteq> None))
       then Some ''NonMigratableRequiredNodeAffinity''
       else volume_blocker (ds_Volumes spec))"

definition gd_text :: "string \<Rightarrow> string \<Rightarrow> string" where
  "gd_text ns n = ns @ ''/'' @ n"

definition index_binding ::
  "ReplicaBinding \<Rightarrow> (string, (int32, ReplicaBinding) gomap) gomap \<Rightarrow> (string, (int32, ReplicaBinding) gomap) gomap" where
  "index_binding rb idx =
    (let key = gd_text (ref_Namespace (rb_GlobalDeploymentRef (rb_Spec rb))) (ref_Name (rb_GlobalDeploymentRef (rb_Spec rb)))
     in mput key (mput (rb_ReplicaIndex (rb_Spec rb)) rb (mget0 [] idx key)) idx)"

definition locate :: "GlobalDeployment \<Rightarrow> int32 \<Rightarrow> ReplicaBinding \<Rightarrow> CurrentReplicaLocation" where
  "locate gd idx rb =
    (let st = rb_Status rb; sp = rb_Spec rb;
         loc = (\<lambda>cl nd src. \<lparr>crl_Name = om_Name (gd_Meta gd), crl_Namespace = om_Namespace (gd_Meta gd), crl_ReplicaIndex = idx,
           crl_ClusterId = cl, crl_NodeName = nd, crl_Source = src, crl_Stable = False, crl_UnstableReason = ''''\<rparr>) in
     if rb_NodeName st \<noteq> '''' \<or> rb_ClusterName st \<noteq> '''' then loc (rb_ClusterName st) (rb_NodeName st) ''RBStatus''
     else if rb_TargetNodeName sp \<noteq> '''' \<or> rb_TargetCluster sp \<noteq> '''' then loc (rb_TargetCluster sp) (rb_TargetNodeName sp) ''RBSpecFallback''
     else loc '''' '''' ''Unknown'')"

definition judge :: "string option \<Rightarrow> ReplicaBindingPhase \<Rightarrow> CurrentReplicaLocation \<Rightarrow> CurrentReplicaLocation" where
  "judge blocked ph loc =
    (let unstable = (\<lambda>reason. loc\<lparr>crl_Stable := False, crl_UnstableReason := reason\<rparr>) in
     case blocked of
       Some reason \<Rightarrow> unstable reason
     | None \<Rightarrow>
         if crl_ClusterId loc = '''' then unstable ''ClusterIdEmpty''
         else if crl_NodeName loc = '''' then unstable ''NodeNameEmpty''
         else if ph \<noteq> Running then unstable ''ReplicaNotRunning''
         else loc\<lparr>crl_Stable := True\<rparr>)"

definition deployment_layout :: "env \<Rightarrow> (string, (int32, ReplicaBinding) gomap) gomap \<Rightarrow> GlobalDeployment \<Rightarrow> CurrentReplicaLocation list" where
  "deployment_layout E rbIndex gd =
    (case mget rbIndex (gd_text (om_Namespace (gd_Meta gd)) (om_Name (gd_Meta gd))) of
       None \<Rightarrow> []
     | Some m \<Rightarrow> map (\<lambda>(idx, rb). judge (globalDeploymentMigratable E gd) (rb_Phase (rb_Status rb)) (locate gd idx rb)) m)"

definition count_location ::
  "CurrentReplicaLocation \<Rightarrow> int32 \<times> int32 \<times> (string, int32) gomap \<Rightarrow> int32 \<times> int32 \<times> (string, int32) gomap" where
  "count_location loc s = (case s of (stableCount, unstableCount, reasons) \<Rightarrow>
     if crl_Stable loc then (wrap32 (stableCount + 1), unstableCount, reasons)
     else (stableCount, wrap32 (unstableCount + 1),
       mput (crl_UnstableReason loc) (wrap32 (mget0 0 reasons (crl_UnstableReason loc) + 1)) reasons))"

definition equalStringInt32Map :: "(string, int32) gomap \<Rightarrow> (string, int32) gomap \<Rightarrow> bool" where
  "equalStringInt32Map a b \<longleftrightarrow> length a = length b \<and> list_all (\<lambda>(k, av). mget b k = Some av) a"

type_synonym location_sig = "string \<times> string \<times> int32 \<times> string \<times> string \<times> string"

definition location_sig :: "CurrentReplicaLocation \<Rightarrow> location_sig" where
  "location_sig v = (crl_Namespace v, crl_Name v, crl_ReplicaIndex v, crl_ClusterId v, crl_NodeName v, crl_Source v)"

definition sig_counts :: "CurrentReplicaLocation list \<Rightarrow> (location_sig, int64) gomap" where
  "sig_counts a = fold (\<lambda>v ma. mput (location_sig v) (mget0 0 ma (location_sig v) + 1) ma) a []"

fun drain_sigs :: "CurrentReplicaLocation list \<Rightarrow> (location_sig, int64) gomap \<Rightarrow> (location_sig, int64) gomap option" where
  "drain_sigs [] ma = Some ma"
| "drain_sigs (v # b) ma =
    (let s = location_sig v in if mget0 0 ma s = 0 then None else drain_sigs b (mput s (mget0 0 ma s - 1) ma))"

definition equalCurrentLayout :: "CurrentReplicaLocation list \<Rightarrow> CurrentReplicaLocation list \<Rightarrow> bool" where
  "equalCurrentLayout a b \<longleftrightarrow> length a = length b \<and>
    (case drain_sigs b (sig_counts a) of None \<Rightarrow> False | Some ma \<Rightarrow> list_all (\<lambda>(_, c). c = 0) ma)"

definition layout_of :: "env \<Rightarrow> GlobalDeployment list \<Rightarrow> ReplicaBinding list \<Rightarrow> CurrentReplicaLocation list" where
  "layout_of E gds rbs = concat (map (deployment_layout E (fold index_binding rbs [])) gds)"

definition report_layout :: "env \<Rightarrow> OptimizationPolicy \<Rightarrow> CurrentReplicaLocation list \<Rightarrow> (api_err option \<times> OptimizationPolicy) io" where
  "report_layout E pol items =
    (case fold count_location items (0, 0, []) of (stableCount, unstableCount, reasonCounts) \<Rightarrow>
      (let st = pol_Status pol; observedReplicas = wrap32 (int (length items)) in
       if pol_ObservedReplicas st = observedReplicas \<and> pol_StableReplicas st = stableCount \<and>
          pol_UnstableReplicas st = unstableCount \<and> equalStringInt32Map (pol_UnstableReasonsCount st) reasonCounts \<and>
          equalCurrentLayout (pol_CurrentLayout st) items
       then State_Monad.return (None, pol)
       else patch_policy E pol (pol\<lparr>pol_Status := st\<lparr>pol_ObservedReplicas := observedReplicas, pol_CurrentLayout := items,
              pol_StableReplicas := stableCount, pol_UnstableReplicas := unstableCount,
              pol_UnstableReasonsCount := reasonCounts\<rparr>\<rparr>)))"

definition reconcileCurrentLayout :: "env \<Rightarrow> OptimizationPolicy \<Rightarrow> (api_err option \<times> OptimizationPolicy) io" where
  "reconcileCurrentLayout E pol = (case selector_of E pol of
      Inl err \<Rightarrow> State_Monad.return (Some err, pol)
    | Inr sel \<Rightarrow> do {
        l \<leftarrow> list_gd E sel;
        case l of
          Inl err \<Rightarrow> State_Monad.return (Some err, pol)
        | Inr gds \<Rightarrow> do {
            b \<leftarrow> list_rb E '''';
            case b of
              Inl err \<Rightarrow> State_Monad.return (Some err, pol)
            | Inr rbs \<Rightarrow> report_layout E pol (layout_of E gds rbs)
          }
      })"

subsection \<open>The timer\<close>

definition policy_key :: "OptimizationPolicy \<Rightarrow> nskey" where
  "policy_key pol = \<lparr>key_Name = om_Name (pol_Meta pol), key_Namespace = om_Namespace (pol_Meta pol)\<rparr>"

definition cancelTimer :: "nskey \<Rightarrow> unit io" where
  "cancelTimer key = State (\<lambda>w. ((), w\<lparr>timers := mdel key (timers w)\<rparr>))"

definition startTimer :: "nskey \<Rightarrow> int \<Rightarrow> unit io" where
  "startTimer key delay = State (\<lambda>w. ((), w\<lparr>timers := mput key delay (timers w)\<rparr>))"

text \<open>The next trigger: \<open>None\<close> for no timer.\<close>

definition next_trigger :: "policy_cfg \<Rightarrow> env \<Rightarrow> time \<Rightarrow> OptimizationPolicy \<Rightarrow> api_err + time option" where
  "next_trigger C E t pol =
    (if pol_RunMode (pol_Spec pol) = ''Once'' then
       Inr (case pol_LastEvaluationTime (pol_Status pol) of None \<Rightarrow> Some t | Some _ \<Rightarrow> None)
     else if pol_RunMode (pol_Spec pol) = ''Periodic'' then
       (case env_parse_duration E (pol_RebalancePoint (pol_Spec pol)) of
          None \<Rightarrow> Inl (OtherErr (cfg_duration_error C (pol_RebalancePoint (pol_Spec pol))))
        | Some d \<Rightarrow> (case pol_LastEvaluationTime (pol_Status pol) of
            None \<Rightarrow> Inr (Some (t + d))
          | Some lastEval \<Rightarrow> Inr (Some (if lastEval + d \<le> t then t else lastEval + d))))
     else Inr None)"

definition ensureTimer :: "policy_cfg \<Rightarrow> env \<Rightarrow> OptimizationPolicy \<Rightarrow> api_err option io" where
  "ensureTimer C E pol = do {
     t \<leftarrow> now E;
     case next_trigger C E t pol of
       Inl err \<Rightarrow> State_Monad.return (Some err)
     | Inr None \<Rightarrow> do { _ \<leftarrow> cancelTimer (policy_key pol); State_Monad.return None }
     | Inr (Some next_t) \<Rightarrow> do {
         let delay = (if sat64 (next_t - t) < 0 then 0 else sat64 (next_t - t));
         _ \<leftarrow> cancelTimer (policy_key pol);
         _ \<leftarrow> startTimer (policy_key pol) delay;
         State_Monad.return None
       }
   }"

subsection \<open>Reconcile\<close>

definition conflict_message :: "policy_cfg \<Rightarrow> string \<Rightarrow> string" where
  "conflict_message C holder = ''conflict: another policy holds lease '' @ getLockNamespace C @ ''/'' @ getLockName C @ '': '' @ holder"

definition policy_active :: "policy_cfg \<Rightarrow> env \<Rightarrow> OptimizationPolicy \<Rightarrow> reconcile_out io" where
  "policy_active C E pol = do {
     t \<leftarrow> now E;
     (err, pol) \<leftarrow> setStatusPhaseAndCondition E pol PolicyActive
        (policy_condition pol t ''LeaseAcquired'' True ''Acquired'' ''lease acquired'');
     case err of
       Some e \<Rightarrow> fail_with e
     | None \<Rightarrow> do {
         (err, pol) \<leftarrow> reconcileObservedDeployments E pol;
         case err of
           Some e \<Rightarrow> fail_with e
         | None \<Rightarrow> do {
             (err, pol) \<leftarrow> reconcileCurrentLayout E pol;
             case err of
               Some e \<Rightarrow> fail_with e
             | None \<Rightarrow> do {
                 err \<leftarrow> ensureTimer C E pol;
                 case err of
                   Some e \<Rightarrow> fail_with e
                 | None \<Rightarrow> requeue ((getLeaseDurationSeconds C div 2) * Second)
               }
           }
       }
   }"

definition policy_conflict :: "policy_cfg \<Rightarrow> env \<Rightarrow> nskey \<Rightarrow> OptimizationPolicy \<Rightarrow> string \<Rightarrow> reconcile_out io" where
  "policy_conflict C E req pol holder = do {
     _ \<leftarrow> cancelTimer req;
     t \<leftarrow> now E;
     _ \<leftarrow> setStatusPhaseAndCondition E pol PolicyFailed
        (policy_condition pol t ''LeaseAcquired'' False ''Conflict'' (conflict_message C holder));
     _ \<leftarrow> record_event C ''Conflict'' (conflict_message C holder);
     done_ok
   }"

definition policy_enabled :: "policy_cfg \<Rightarrow> env \<Rightarrow> nskey \<Rightarrow> OptimizationPolicy \<Rightarrow> reconcile_out io" where
  "policy_enabled C E req pol = do {
     a \<leftarrow> tryAcquirePolicyLease C E pol;
     case a of
       Inl err \<Rightarrow> fail_with err
     | Inr (acquired, holder) \<Rightarrow> if \<not> acquired then policy_conflict C E req pol holder else policy_active C E pol
   }"

definition policy_Reconcile :: "policy_cfg \<Rightarrow> env \<Rightarrow> nskey \<Rightarrow> reconcile_out io" where
  "policy_Reconcile C E req = do {
     g \<leftarrow> get_policy E req;
     t \<leftarrow> now E;
     case g of
       Inl err \<Rightarrow>
         if IsNotFound err then do { _ \<leftarrow> cancelTimer req; done_ok }
         else State_Monad.return (0, ignore_not_found err)
     | Inr pol \<Rightarrow>
         (case validateOptimizationPolicySpec C E t pol of
            Inl cond \<Rightarrow> do {
              _ \<leftarrow> setStatusPhaseAndCondition E pol PolicyFailed cond;
              _ \<leftarrow> record_event C (cond_Reason cond) (cond_Message cond);
              done_ok
            }
          | Inr _ \<Rightarrow>
              if \<not> pol_Enabled (pol_Spec pol) then do {
                _ \<leftarrow> cancelTimer req;
                (err, _) \<leftarrow> setStatusPhaseAndCondition E pol PolicyDisabled
                   (policy_condition pol t ''SpecValid'' True ''Valid'' ''spec is valid'');
                case err of Some e \<Rightarrow> fail_with e | None \<Rightarrow> done_ok
              } else policy_enabled C E req pol)
   }"

subsection \<open>The lock is respected\<close>

lemma wp_cancelTimer [vcg]: "wp (cancelTimer key) Q w = Q () (w\<lparr>timers := mdel key (timers w)\<rparr>)"
  by (simp add: wp_def cancelTimer_def)

lemma wp_startTimer [vcg]: "wp (startTimer key d) Q w = Q () (w\<lparr>timers := mput key d (timers w)\<rparr>)"
  by (simp add: wp_def startTimer_def)

lemma guar_timer [guar_intros]: "guar G (cancelTimer key)" "guar G (startTimer key d)"
  by (simp_all add: guar_def exec_def cancelTimer_def startTimer_def)

text \<open>
  Evidence. \<open>lease_read\<close>: the last call read the lease. \<open>lease_held\<close>: the last call wrote the lease with this
  holder, and the server accepted it.
\<close>

definition lease_read :: "env \<Rightarrow> nskey \<Rightarrow> history \<Rightarrow> (api_err + Lease) option" where
  "lease_read E k h = (case rev h of GetLease k' # r \<Rightarrow> if k' = k then Some (env_get_lease E (rev r) k) else None | _ \<Rightarrow> None)"

definition written_holder :: "event \<Rightarrow> string option" where
  "written_holder e = (case e of CreateLease l \<Rightarrow> le_HolderIdentity l | PatchLease _ l \<Rightarrow> le_HolderIdentity l | _ \<Rightarrow> None)"

definition lease_held :: "env \<Rightarrow> string \<Rightarrow> history \<Rightarrow> bool" where
  "lease_held E holder h \<longleftrightarrow> (case rev h of e # r \<Rightarrow> written_holder e = Some holder \<and> env_write_lease E (rev r) e = None | [] \<Rightarrow> False)"

definition lease_write_ok :: "policy_cfg \<Rightarrow> env \<Rightarrow> OptimizationPolicy \<Rightarrow> history \<Rightarrow> Lease \<Rightarrow> Lease \<Rightarrow> bool" where
  "lease_write_ok C E pol h base new \<longleftrightarrow> lease_read E (lease_key C) h = Some (Inr base) \<and>
     le_HolderIdentity new = Some (self_id E pol) \<and> le_RenewTime new = Some (env_now E h) \<and>
     (le_HolderIdentity base = Some (self_id E pol) \<or> \<not> lease_current C (env_now E h) base)"

definition policy_write_ok :: "env \<Rightarrow> OptimizationPolicy \<Rightarrow> history \<Rightarrow> OptimizationPolicy \<Rightarrow> OptimizationPolicy \<Rightarrow> bool" where
  "policy_write_ok E pol h base new \<longleftrightarrow> pol_Meta new = pol_Meta base \<and> pol_Spec new = pol_Spec base \<and>
     pol_LastEvaluationTime (pol_Status new) = pol_LastEvaluationTime (pol_Status base) \<and>
     (pol_Phase (pol_Status new) = pol_Phase (pol_Status base) \<or> pol_Phase (pol_Status new) = PolicyFailed \<or>
      \<not> pol_Enabled (pol_Spec pol) \<and> pol_Phase (pol_Status new) = PolicyDisabled \<or>
      pol_Enabled (pol_Spec pol) \<and> base = pol \<and> pol_Phase (pol_Status new) = PolicyActive \<and> lease_held E (self_id E pol) h)"

definition policy_guard :: "policy_cfg \<Rightarrow> env \<Rightarrow> OptimizationPolicy \<Rightarrow> history \<Rightarrow> event \<Rightarrow> bool" where
  "policy_guard C E pol h e = (case e of
     CreateLease l \<Rightarrow> le_HolderIdentity l = Some (self_id E pol) \<and>
       (case lease_read E (lease_key C) h of Some (Inl err) \<Rightarrow> IsNotFound err | _ \<Rightarrow> False)
   | PatchLease base new \<Rightarrow> lease_write_ok C E pol h base new
   | StatusPatchPolicy base new \<Rightarrow> policy_write_ok E pol h base new
   | GetPolicy _ \<Rightarrow> True | GetLease _ \<Rightarrow> True | ListGD _ \<Rightarrow> True | ListRB _ \<Rightarrow> True | RecordEvent _ _ \<Rightarrow> True
   | _ \<Rightarrow> False)"

lemma policy_guard_simps [simp]:
  "policy_guard C E pol h (CreateLease l) \<longleftrightarrow> le_HolderIdentity l = Some (self_id E pol) \<and>
     (case lease_read E (lease_key C) h of Some (Inl err) \<Rightarrow> IsNotFound err | _ \<Rightarrow> False)"
  "policy_guard C E pol h (PatchLease base new) \<longleftrightarrow> lease_write_ok C E pol h base new"
  "policy_guard C E pol h (StatusPatchPolicy p q) \<longleftrightarrow> policy_write_ok E pol h p q"
  "policy_guard C E pol h (GetPolicy k)" "policy_guard C E pol h (GetLease k)" "policy_guard C E pol h (ListGD s)"
  "policy_guard C E pol h (ListRB ns)" "policy_guard C E pol h (RecordEvent r m)"
  by (simp_all add: policy_guard_def)

lemmas policy_run = vcg io_defs get_policy_def get_lease_def write_lease_def list_gd_def list_rb_def record_event_def patch_policy_def Let_def

lemma reconcileObservedDeployments_ok:
  assumes "ok (policy_guard C E pol) hs (hist w)"
  shows "wp (reconcileObservedDeployments E p) (\<lambda>r w'. ok (policy_guard C E pol) hs (hist w')) w"
  using assms
  by (auto simp: reconcileObservedDeployments_def policy_run policy_write_ok_def split: sum.split)

lemma report_layout_ok:
  assumes "ok (policy_guard C E pol) hs (hist w)"
  shows "wp (report_layout E p items) (\<lambda>r w'. ok (policy_guard C E pol) hs (hist w')) w"
  using assms by (auto simp: report_layout_def policy_run policy_write_ok_def split: prod.split)

lemma reconcileCurrentLayout_ok:
  assumes "ok (policy_guard C E pol) hs (hist w)"
  shows "wp (reconcileCurrentLayout E p) (\<lambda>r w'. ok (policy_guard C E pol) hs (hist w')) w"
  using assms
  by (auto simp: reconcileCurrentLayout_def policy_run split: sum.split intro!: report_layout_ok)

lemma ensureTimer_ok:
  assumes "ok (policy_guard C E pol) hs (hist w)"
  shows "wp (ensureTimer C E p) (\<lambda>r w'. ok (policy_guard C E pol) hs (hist w')) w"
  using assms by (auto simp: ensureTimer_def policy_run split: sum.split option.split)

lemma setStatus_ok:
  assumes "ok (policy_guard C E pol) hs (hist w)"
    and "\<And>new. pol_Meta new = pol_Meta p \<Longrightarrow> pol_Spec new = pol_Spec p \<Longrightarrow> pol_Phase (pol_Status new) = ph \<Longrightarrow>
      pol_LastEvaluationTime (pol_Status new) = pol_LastEvaluationTime (pol_Status p) \<Longrightarrow> policy_write_ok E pol (hist w) p new"
  shows "wp (setStatusPhaseAndCondition E p ph cond) (\<lambda>r w'. ok (policy_guard C E pol) hs (hist w')) w"
  using assms by (auto simp: setStatusPhaseAndCondition_def policy_run)

lemma policy_active_ok:
  assumes "ok (policy_guard C E pol) hs (hist w)" and "lease_held E (self_id E pol) (hist w)" and "pol_Enabled (pol_Spec pol)"
  shows "wp (policy_active C E pol) (\<lambda>r w'. ok (policy_guard C E pol) hs (hist w')) w"
  unfolding policy_active_def using assms
  by (auto simp: vcg io_defs policy_write_ok_def case_prod_unfold split: option.split
      intro!: wp_mono [OF setStatus_ok [where hs = hs and C = C and pol = pol]]
        wp_mono [OF reconcileObservedDeployments_ok [where hs = hs and C = C and pol = pol]]
        wp_mono [OF reconcileCurrentLayout_ok [where hs = hs and C = C and pol = pol]]
        wp_mono [OF ensureTimer_ok [where hs = hs and C = C and pol = pol]])

lemma self_id_ne [simp]: "self_id E pol \<noteq> []" "[] \<noteq> self_id E pol"
  by (simp_all add: self_id_def)

lemma tryAcquirePolicyLease_ok:
  assumes "ok (policy_guard C E pol) hs (hist w)"
  shows "wp (tryAcquirePolicyLease C E pol) (\<lambda>r w'. ok (policy_guard C E pol) hs (hist w') \<and>
    (\<forall>h. r = Inr (True, h) \<longrightarrow> lease_held E (self_id E pol) (hist w'))) w"
proof (cases "env_get_lease E (hist w) (lease_key C)")
  case (Inl err)
  with assms show ?thesis
    by (auto simp: tryAcquirePolicyLease_def policy_run lease_read_def lease_held_def written_holder_def new_lease_def
        split: option.split)
next
  case (Inr lease)
  with assms show ?thesis
    by (cases "le_HolderIdentity lease = Some (self_id E pol)")
      (auto simp: tryAcquirePolicyLease_def policy_run lease_read_def lease_write_ok_def lease_held_def written_holder_def
        split: option.split)
qed

lemma policy_conflict_ok:
  assumes "ok (policy_guard C E pol) hs (hist w)"
  shows "wp (policy_conflict C E req pol holder) (\<lambda>r w'. ok (policy_guard C E pol) hs (hist w')) w"
  unfolding policy_conflict_def using assms
  by (auto simp: policy_run policy_write_ok_def intro!: wp_mono [OF setStatus_ok [where hs = hs and C = C and pol = pol]])

lemma policy_enabled_ok:
  assumes "ok (policy_guard C E pol) hs (hist w)" and "pol_Enabled (pol_Spec pol)"
  shows "wp (policy_enabled C E req pol) (\<lambda>r w'. ok (policy_guard C E pol) hs (hist w')) w"
  unfolding policy_enabled_def wp_bind
  by (rule wp_mono [OF tryAcquirePolicyLease_ok [OF assms(1)]])
    (auto simp: fail_with_def wp_return assms(2) split: sum.split intro!: policy_conflict_ok policy_active_ok)

lemma policy_Reconcile_ok:
  assumes "env_get_policy E (hist w) req = Inr pol"
  shows "wp (policy_Reconcile C E req) (\<lambda>r w'. ok (policy_guard C E pol) (hist w) (hist w')) w"
  unfolding policy_Reconcile_def using assms
  by (auto simp: policy_run policy_write_ok_def split: sum.split option.split
      intro!: policy_enabled_ok wp_mono [OF setStatus_ok [where hs = "hist w" and C = C and pol = pol]])

lemma policy_Reconcile_at:
  assumes "env_get_policy E (hist w) req = Inr pol" and "trace (policy_Reconcile C E req) w = pre @ e # post"
  shows "policy_guard C E pol (hist w @ pre) e"
proof -
  have "guarded (policy_guard C E pol) (hist w) (trace (policy_Reconcile C E req) w)"
    using policy_Reconcile_ok [OF assms(1)] by (simp add: wp_result ok_trace)
  then show ?thesis unfolding assms(2) by (rule guarded_at)
qed

text \<open>
  C20: A policy becomes Active only as the holder of the lock. When a run changes the phase of a policy to
  Active, the policy is enabled and the call just before wrote the lease with this policy as holder and was
  accepted.
\<close>

theorem policy_active_holds_lease:
  assumes "env_get_policy E (hist w) req = Inr pol"
    and "trace (policy_Reconcile C E req) w = pre @ StatusPatchPolicy base new # post"
    and "pol_Phase (pol_Status new) = PolicyActive" and "pol_Phase (pol_Status base) \<noteq> PolicyActive"
  shows "base = pol \<and> pol_Enabled (pol_Spec pol) \<and> lease_held E (self_id E pol) (hist w @ pre)"
  using policy_Reconcile_at [OF assms(1,2)] assms(3,4) by (auto simp: policy_write_ok_def)

text \<open>
  C21: The lock of another policy is taken only when it has expired. Every lease a run patches was read by the
  call just before, is written with this policy as holder and the current time as renewal, and was either
  already held by this policy or no longer current.
\<close>

theorem policy_takes_only_expired_lease:
  assumes "env_get_policy E (hist w) req = Inr pol"
    and "trace (policy_Reconcile C E req) w = pre @ PatchLease base new # post"
  shows "lease_read E (lease_key C) (hist w @ pre) = Some (Inr base) \<and>
    le_HolderIdentity new = Some (self_id E pol) \<and> le_RenewTime new = Some (env_now E (hist w @ pre)) \<and>
    (le_HolderIdentity base = Some (self_id E pol) \<or> \<not> lease_current C (env_now E (hist w @ pre)) base)"
  using policy_Reconcile_at [OF assms] by (simp add: lease_write_ok_def)

subsection \<open>The layout\<close>

definition binding_key :: "ReplicaBinding \<Rightarrow> string \<times> int32" where
  "binding_key rb = (gd_text (ref_Namespace (rb_GlobalDeploymentRef (rb_Spec rb))) (ref_Name (rb_GlobalDeploymentRef (rb_Spec rb))),
     rb_ReplicaIndex (rb_Spec rb))"

definition last_binding :: "ReplicaBinding list \<Rightarrow> string \<times> int32 \<Rightarrow> ReplicaBinding option" where
  "last_binding rbs k = find (\<lambda>rb. binding_key rb = k) (rev rbs)"

definition index_get :: "(string, (int32, ReplicaBinding) gomap) gomap \<Rightarrow> string \<times> int32 \<Rightarrow> ReplicaBinding option" where
  "index_get idx k = mget (mget0 [] idx (fst k)) (snd k)"

definition index_wf :: "(string, (int32, ReplicaBinding) gomap) gomap \<Rightarrow> bool" where
  "index_wf idx \<longleftrightarrow> (\<forall>g m. mget idx g = Some m \<longrightarrow> wf_map m)"

lemma index_binding_get: "index_get (index_binding rb idx) k = (if k = binding_key rb then Some rb else index_get idx k)"
  by (cases k) (simp add: index_get_def index_binding_def binding_key_def Let_def)

lemma index_binding_wf: "index_wf idx \<Longrightarrow> index_wf (index_binding rb idx)"
  by (auto simp: index_wf_def index_binding_def Let_def mget0_def split: option.split)

lemma index_fold_wf: "index_wf (fold index_binding rbs [])"
  by (rule fold_preserves [where P = index_wf]) (simp_all add: index_binding_wf, simp add: index_wf_def)

lemma index_fold_get: "index_get (fold index_binding rbs []) k = last_binding rbs k"
  by (induction rbs rule: rev_induct) (auto simp: last_binding_def index_binding_get, simp add: index_get_def)

definition gd_id :: "GlobalDeployment \<Rightarrow> string" where
  "gd_id gd = gd_text (om_Namespace (gd_Meta gd)) (om_Name (gd_Meta gd))"

lemma deployment_layout_set:
  "loc \<in> set (deployment_layout E (fold index_binding rbs []) gd) \<longleftrightarrow>
    (\<exists>i rb. last_binding rbs (gd_id gd, i) = Some rb \<and>
      loc = judge (globalDeploymentMigratable E gd) (rb_Phase (rb_Status rb)) (locate gd i rb))"
proof -
  let ?idx = "fold index_binding rbs []"
  have get: "last_binding rbs (gd_id gd, i) = mget (mget0 [] ?idx (gd_id gd)) i" for i
    using index_fold_get [of rbs "(gd_id gd, i)"] by (simp add: index_get_def)
  show ?thesis
  proof (cases "mget ?idx (gd_id gd)")
    case None
    then show ?thesis by (simp add: deployment_layout_def gd_id_def [symmetric] get mget0_def)
  next
    case (Some m)
    then have "wf_map m" using index_fold_wf by (auto simp: index_wf_def)
    then have "(i, rb) \<in> set m \<longleftrightarrow> mget m i = Some rb" for i rb by (auto simp: wf_map_def)
    with Some show ?thesis by (auto simp: deployment_layout_def gd_id_def [symmetric] get mget0_def)
  qed
qed

definition location_key :: "CurrentReplicaLocation \<Rightarrow> string \<times> int32" where
  "location_key loc = (gd_text (crl_Namespace loc) (crl_Name loc), crl_ReplicaIndex loc)"

lemma judge_fields [simp]:
  "crl_Name (judge b ph loc) = crl_Name loc" "crl_Namespace (judge b ph loc) = crl_Namespace loc"
  "crl_ReplicaIndex (judge b ph loc) = crl_ReplicaIndex loc" "crl_ClusterId (judge b ph loc) = crl_ClusterId loc"
  "crl_NodeName (judge b ph loc) = crl_NodeName loc" "crl_Source (judge b ph loc) = crl_Source loc"
  "crl_Stable (judge b ph loc) \<longleftrightarrow> b = None \<and> crl_ClusterId loc \<noteq> '''' \<and> crl_NodeName loc \<noteq> '''' \<and> ph = Running"
  by (simp_all add: judge_def Let_def split: option.split)

lemma locate_fields [simp]:
  "crl_Name (locate gd i rb) = om_Name (gd_Meta gd)" "crl_Namespace (locate gd i rb) = om_Namespace (gd_Meta gd)"
  "crl_ReplicaIndex (locate gd i rb) = i"
  by (simp_all add: locate_def Let_def)

lemma last_binding_Some: "last_binding rbs k = Some rb \<Longrightarrow> rb \<in> set rbs \<and> binding_key rb = k"
  by (auto simp: last_binding_def find_Some_iff set_rev [symmetric, of rbs] simp del: set_rev)

lemma last_binding_exists: "rb \<in> set rbs \<Longrightarrow> \<exists>rb'. last_binding rbs (binding_key rb) = Some rb'"
  unfolding last_binding_def by (cases "find (\<lambda>r. binding_key r = binding_key rb) (rev rbs)") (auto simp: find_None_iff)

lemma deployment_layout_keys:
  "map location_key (deployment_layout E (fold index_binding rbs []) gd) =
    map (\<lambda>(i, rb). (gd_id gd, i)) (mget0 [] (fold index_binding rbs []) (gd_id gd))"
  by (auto simp: deployment_layout_def mget0_def gd_id_def location_key_def split: option.split)

lemma layout_keys_distinct:
  assumes "distinct (map gd_id gds)"
  shows "distinct (map location_key (layout_of E gds rbs))"
  using assms
proof (induction gds)
  case (Cons gd gds)
  let ?idx = "fold index_binding rbs []"
  have "wf_map (mget0 [] ?idx (gd_id gd))" using index_fold_wf [of rbs] by (auto simp: index_wf_def mget0_def split: option.split)
  then have "distinct (map location_key (deployment_layout E ?idx gd))"
    by (auto simp: deployment_layout_keys wf_map_def distinct_map case_prod_unfold inj_on_def)
  moreover have "location_key l \<noteq> location_key l'"
    if "l \<in> set (deployment_layout E ?idx gd)" "gd' \<in> set gds" "l' \<in> set (deployment_layout E ?idx gd')" for l gd' l'
  proof -
    have "fst (location_key l) = gd_id gd" "fst (location_key l') = gd_id gd'"
      using that(1,3) by (auto simp: deployment_layout_set location_key_def gd_id_def)
    moreover have "gd_id gd' \<in> gd_id ` set gds" using that(2) by (rule imageI)
    then have "gd_id gd' \<noteq> gd_id gd" using Cons.prems by auto
    ultimately show ?thesis by metis
  qed
  then have "location_key ` set (deployment_layout E ?idx gd) \<inter> location_key ` set (layout_of E gds rbs) = {}"
    unfolding layout_of_def by (auto simp: disjoint_iff) metis
  ultimately show ?case using Cons by (simp add: layout_of_def)
qed (simp add: layout_of_def)

text \<open>
  C26: The layout lists every replica of the selected deployments once. With deployments of distinct names: every
  entry comes from a binding that references a selected deployment with that index, every such binding has an
  entry, no deployment and index occur twice, and an entry is stable exactly when the template may be moved,
  cluster and node are known and the binding is Running.
\<close>

theorem layout_classifies_replicas:
  assumes "distinct (map gd_id gds)"
  shows "(\<forall>loc. loc \<in> set (layout_of E gds rbs) \<longrightarrow> (\<exists>gd \<in> set gds. \<exists>rb \<in> set rbs.
        binding_key rb = (gd_id gd, crl_ReplicaIndex loc) \<and>
        crl_Name loc = om_Name (gd_Meta gd) \<and> crl_Namespace loc = om_Namespace (gd_Meta gd) \<and>
        (crl_Stable loc \<longleftrightarrow> globalDeploymentMigratable E gd = None \<and> crl_ClusterId loc \<noteq> '''' \<and> crl_NodeName loc \<noteq> '''' \<and>
           rb_Phase (rb_Status rb) = Running))) \<and>
    (\<forall>gd rb i. gd \<in> set gds \<longrightarrow> rb \<in> set rbs \<longrightarrow> binding_key rb = (gd_id gd, i) \<longrightarrow>
        (gd_id gd, i) \<in> location_key ` set (layout_of E gds rbs)) \<and>
    distinct (map location_key (layout_of E gds rbs))"
proof (intro conjI allI impI)
  fix loc assume "loc \<in> set (layout_of E gds rbs)"
  then obtain gd i rb where "gd \<in> set gds" "last_binding rbs (gd_id gd, i) = Some rb"
    "loc = judge (globalDeploymentMigratable E gd) (rb_Phase (rb_Status rb)) (locate gd i rb)"
    by (auto simp: layout_of_def deployment_layout_set)
  with last_binding_Some show "\<exists>gd \<in> set gds. \<exists>rb \<in> set rbs. binding_key rb = (gd_id gd, crl_ReplicaIndex loc) \<and>
        crl_Name loc = om_Name (gd_Meta gd) \<and> crl_Namespace loc = om_Namespace (gd_Meta gd) \<and>
        (crl_Stable loc \<longleftrightarrow> globalDeploymentMigratable E gd = None \<and> crl_ClusterId loc \<noteq> '''' \<and> crl_NodeName loc \<noteq> '''' \<and>
           rb_Phase (rb_Status rb) = Running)"
    by (intro bexI [of _ gd] bexI [of _ rb]) auto
next
  fix gd rb i assume "gd \<in> set gds" "rb \<in> set rbs" "binding_key rb = (gd_id gd, i)"
  with last_binding_exists obtain rb' where "last_binding rbs (gd_id gd, i) = Some rb'" by metis
  with \<open>gd \<in> set gds\<close> show "(gd_id gd, i) \<in> location_key ` set (layout_of E gds rbs)"
    by (force simp: layout_of_def deployment_layout_set location_key_def gd_id_def)
qed (rule layout_keys_distinct [OF assms])

subsection \<open>Comparing layouts\<close>

definition counts_of :: "('a, int64) gomap \<Rightarrow> 'a multiset \<Rightarrow> bool" where
  "counts_of ma M \<longleftrightarrow> wf_map ma \<and> (\<forall>s. mget0 0 ma s = int (count M s))"

lemma counts_of_inc: "counts_of ma M \<Longrightarrow> counts_of (mput s (mget0 0 ma s + 1) ma) (add_mset s M)"
  by (auto simp: counts_of_def)

lemma counts_of_dec: "counts_of ma (add_mset s N) \<Longrightarrow> mget0 0 ma s \<noteq> 0 \<and> counts_of (mput s (mget0 0 ma s - 1) ma) N"
  by (auto simp: counts_of_def)

lemma counts_of_out: "counts_of ma M \<Longrightarrow> s \<notin># M \<Longrightarrow> mget0 0 ma s = 0"
  by (simp add: counts_of_def not_in_iff)

lemma counts_of_zero: "counts_of ma M \<Longrightarrow> list_all (\<lambda>(_, c). c = 0) ma \<longleftrightarrow> M = {#}"
proof -
  assume c: "counts_of ma M"
  then have get: "(s, x) \<in> set ma \<longleftrightarrow> mget ma s = Some x" for s x
    by (simp add: counts_of_def wf_map_def)
  have "list_all (\<lambda>(_, x). x = 0) ma \<longleftrightarrow> (\<forall>s x. mget ma s = Some x \<longrightarrow> x = 0)"
    by (auto simp: list_all_iff get)
  also have "\<dots> \<longleftrightarrow> (\<forall>s. mget0 0 ma s = 0)" by (simp add: mget0_def split: option.split)
  finally show ?thesis using c by (simp add: counts_of_def multiset_eq_iff)
qed

lemma counts_of_sig_counts: "counts_of (sig_counts a) (mset (map location_sig a))"
proof (induction a rule: rev_induct)
  case (snoc v a)
  then show ?case using counts_of_inc [of "sig_counts a" _ "location_sig v"] by (simp add: sig_counts_def)
qed (simp add: sig_counts_def counts_of_def)

lemma drain_sigs_counts:
  "counts_of ma M \<Longrightarrow>
    (if mset (map location_sig b) \<subseteq># M then \<exists>ma'. drain_sigs b ma = Some ma' \<and> counts_of ma' (M - mset (map location_sig b))
     else drain_sigs b ma = None)"
proof (induction b arbitrary: ma M)
  case (Cons v b)
  let ?s = "location_sig v"
  show ?case
  proof (cases "?s \<in># M")
    case True
    then obtain N where N: "M = add_mset ?s N" by (metis multi_member_split)
    have "mget0 0 ma ?s \<noteq> 0 \<and> counts_of (mput ?s (mget0 0 ma ?s - 1) ma) N"
      by (rule counts_of_dec) (use Cons.prems N in simp)
    then have "counts_of (mput ?s (mget0 0 ma ?s - 1) ma) N" and "mget0 0 ma ?s \<noteq> 0" by simp_all
    with Cons.IH [of "mput ?s (mget0 0 ma ?s - 1) ma" N] N show ?thesis
      by (simp add: Let_def split: if_split_asm)
  next
    case False
    then have "mget0 0 ma ?s = 0" by (rule counts_of_out [OF Cons.prems])
    moreover have "\<not> mset (map location_sig (v # b)) \<subseteq># M" using False mset_subset_eqD [of "mset (map location_sig (v # b))" M ?s] by auto
    ultimately show ?thesis by (simp add: Let_def)
  qed
qed simp

text \<open>
  C27: Layouts are compared up to order. Two layouts count as equal exactly when they hold the same replicas at
  the same places with the same source, each equally often, whatever the order.
\<close>

theorem equalCurrentLayout_iff: "equalCurrentLayout a b \<longleftrightarrow> mset (map location_sig a) = mset (map location_sig b)"
proof -
  let ?A = "mset (map location_sig a)" and ?B = "mset (map location_sig b)"
  have d: "if ?B \<subseteq># ?A then \<exists>ma'. drain_sigs b (sig_counts a) = Some ma' \<and> counts_of ma' (?A - ?B)
      else drain_sigs b (sig_counts a) = None"
    by (rule drain_sigs_counts [OF counts_of_sig_counts])
  have len: "length a = size ?A" "length b = size ?B" by simp_all
  show ?thesis
  proof (cases "?B \<subseteq># ?A")
    case True
    with d obtain ma' where ma: "drain_sigs b (sig_counts a) = Some ma'" "counts_of ma' (?A - ?B)" by auto
    have "equalCurrentLayout a b \<longleftrightarrow> length a = length b \<and> ?A - ?B = {#}"
      unfolding equalCurrentLayout_def ma(1) by (simp add: counts_of_zero [OF ma(2), simplified])
    also have "\<dots> \<longleftrightarrow> ?A = ?B"
      using True len by (metis Diff_eq_empty_iff_mset subset_mset.antisym subset_mset.order_refl)
    finally show ?thesis .
  next
    case False
    with d have "drain_sigs b (sig_counts a) = None" by simp
    with False show ?thesis unfolding equalCurrentLayout_def by (metis option.simps(4) subset_mset.order_refl)
  qed
qed

subsection \<open>Counters\<close>

lemma count_location_fold:
  assumes "int (length items) < 2 ^ 31"
  shows "case fold count_location items (0, 0, []) of (sc, uc, reasons) \<Rightarrow>
    sc = int (length (filter crl_Stable items)) \<and> uc = int (length (filter (\<lambda>l. \<not> crl_Stable l) items)) \<and> sc + uc = int (length items) \<and>
    (\<forall>r. mget0 0 reasons r = int (length (filter (\<lambda>l. \<not> crl_Stable l \<and> crl_UnstableReason l = r) items)))"
  using assms
proof (induction items rule: rev_induct)
  case (snoc l items)
  have w: "wrap32 (int (length (filter P items)) + 1) = int (length (filter P items)) + 1" for P
  proof -
    have "int (length items) + 1 < 2 ^ 31" using snoc.prems by simp
    moreover have "int (length (filter P items)) \<le> int (length items)" by simp
    ultimately have "int (length (filter P items)) + 1 < 2 ^ 31" by linarith
    then show ?thesis by (simp add: wrap32_id in_int32_def)
  qed
  obtain sc uc rs where "fold count_location items (0, 0, []) = (sc, uc, rs)" by (metis prod_cases3)
  with snoc w show ?case by (auto simp: count_location_def)
qed simp

subsection \<open>The timer\<close>

text \<open>The delay until the next evaluation that the run mode asks for, \<open>None\<close> for no evaluation.\<close>

definition due_in :: "env \<Rightarrow> time \<Rightarrow> OptimizationPolicy \<Rightarrow> int option" where
  "due_in E t p = (case (pol_RunMode (pol_Spec p) = ''Once'', pol_LastEvaluationTime (pol_Status p)) of
      (True, None) \<Rightarrow> Some 0
    | (True, Some _) \<Rightarrow> None
    | (False, lastEval) \<Rightarrow>
        if pol_RunMode (pol_Spec p) \<noteq> ''Periodic'' then None
        else case env_parse_duration E (pol_RebalancePoint (pol_Spec p)) of
          None \<Rightarrow> None
        | Some d \<Rightarrow> Some (case lastEval of None \<Rightarrow> max 0 (sat64 d) | Some l \<Rightarrow> max 0 (sat64 (l + d - t))))"

lemma overdue_now: "max 0 (sat64 ((if x \<le> t then t else x) - t)) = max 0 (sat64 (x - t))"
  by (auto simp: sat64_def max_def min_def)

lemma clamp_delay: "(if sat64 x < 0 then 0 else sat64 x) = max 0 (sat64 x)"
  by simp

lemma ensureTimer_wp:
  "wp (ensureTimer C E p) (\<lambda>r w'. r = None \<longrightarrow> hist w' = hist w \<and>
     mget (timers w') = (mget (timers w))(policy_key p := due_in E (env_now E (hist w)) p)) w"
proof -
  have *: "sat64 0 = 0" by (simp add: sat64_def)
  show ?thesis
    unfolding ensureTimer_def clamp_delay
    by (auto simp: vcg Let_def next_trigger_def due_in_def fun_eq_iff * overdue_now simp del: max.absorb1 max.absorb2 split: option.split)
qed

text \<open>
  The timer follows the run mode. When the timer of a policy is set without error, no call is made, the timers
  of other policies stay, and its own is: for Once, immediate if the policy was never evaluated and none
  otherwise; for Periodic, the period after the last evaluation, immediate when that has passed, and a full
  period from now when there was none; for any other mode, none.
\<close>

theorem timer_follows_run_mode:
  assumes "result (ensureTimer C E p) w = None"
  shows "trace (ensureTimer C E p) w = [] \<and>
    mget (timers (exec (ensureTimer C E p) w)) = (mget (timers w))(policy_key p := due_in E (env_now E (hist w)) p)"
  using ensureTimer_wp [of C E p w] assms by (simp add: wp_result trace_def)

subsection \<open>Conditions that are not written\<close>

lemma need_condition_iff:
  "need_condition cond cs b \<longleftrightarrow> \<not> list_ex (same_condition cond) cs \<and> (cs \<noteq> [] \<or> b)"
  by (induction cs arbitrary: b) auto

text \<open>
  A first condition is lost. On a policy that has the phase already and no conditions yet, setting a condition
  makes no call at all, so the failure it would report is not recorded; with other conditions present the same
  call writes.
\<close>

theorem first_condition_not_written:
  assumes "pol_Phase (pol_Status pol) = ph" and "pol_Conditions (pol_Status pol) = []"
  shows "run_state (setStatusPhaseAndCondition E pol ph cond) w = ((None, pol), w) \<and>
    (\<forall>other. \<not> same_condition cond other \<longrightarrow>
       trace (setStatusPhaseAndCondition E (pol\<lparr>pol_Status := (pol_Status pol)\<lparr>pol_Conditions := [other]\<rparr>\<rparr>) ph cond) w \<noteq> [])"
proof -
  have "trace (setStatusPhaseAndCondition E (pol\<lparr>pol_Status := (pol_Status pol)\<lparr>pol_Conditions := [other]\<rparr>\<rparr>) ph cond) w \<noteq> []"
    if "\<not> same_condition cond other" for other
    using assms that
    by (simp add: trace_def exec_def setStatusPhaseAndCondition_def patch_policy_def call_def State_Monad.bind_def State_Monad.return_def
        split: sum.split)
  with assms show ?thesis by (simp add: setStatusPhaseAndCondition_def State_Monad.return_def)
qed

subsection \<open>Witnesses\<close>

definition sample_cfg :: policy_cfg where
  "sample_cfg = \<lparr>cfg_LockNamespace = '''', cfg_LockName = '''', cfg_LeaseDurationSeconds = 0, cfg_ProfilesNamespace = '''',
     cfg_ControlNamespace = ''kubex-system'', cfg_SolverTimeout = 0, cfg_Recorder = False, cfg_duration_error = (\<lambda>_. '''')\<rparr>"

definition sample_policy :: "OptimizationPolicyPhase \<Rightarrow> OptimizationPolicy" where
  "sample_policy ph = \<lparr>pol_Meta = sample_meta ''policy'' [],
     pol_Spec = \<lparr>pol_Enabled = True, pol_TargetSelector = None,
       pol_OptimizationGoals = [\<lparr>og_Type = ''Cost'', og_Weight = Fin 1, og_SourceCity = '''', og_TopologyRef = ''''\<rparr>],
       pol_RunMode = ''Once'', pol_RebalancePoint = '''', pol_Strategy = ''Conservative'', pol_ImprovementThresholdPercent = 10\<rparr>,
     pol_Status = \<lparr>pol_Phase = ph, pol_ObservedDeployments = 0, pol_ObservedReplicas = 0, pol_CurrentLayout = [],
       pol_StableReplicas = 0, pol_UnstableReplicas = 0, pol_UnstableReasonsCount = [], pol_LastEvaluationTime = None,
       pol_LatestPlanRef = None, pol_Conditions = []\<rparr>\<rparr>"

definition old_lease :: Lease where
  "old_lease = (new_lease sample_cfg ''other:ns/old'' (- 100 * Second))"

fun written_policy :: "event \<Rightarrow> api_err + OptimizationPolicy" where
  "written_policy (StatusPatchPolicy b p) = Inr p"
| "written_policy (StatusUpdatePolicy p) = Inr p"
| "written_policy e = Inl gone"

definition policy_env :: env where
  "policy_env = (sample_env Running)\<lparr>env_get_policy := \<lambda>_ _. Inr (sample_policy PolicyPending), env_get_lease := \<lambda>_ _. Inr old_lease,
     env_list_rb := \<lambda>_ _. Inr [sample_rb Running], env_write_policy := \<lambda>_ e. written_policy e\<rparr>"

definition policy_req :: nskey where
  "policy_req = \<lparr>key_Name = ''policy'', key_Namespace = ''ns''\<rparr>"

definition activated :: OptimizationPolicy where
  "activated = (let p = sample_policy PolicyPending in p\<lparr>pol_Status := (pol_Status p)\<lparr>pol_Phase := PolicyActive,
     pol_Conditions := [policy_condition p 7 ''LeaseAcquired'' True ''Acquired'' ''lease acquired'']\<rparr>\<rparr>)"

theorem policy_active_holds_lease_witness:
  "sample_policy PolicyPending = sample_policy PolicyPending \<and> pol_Enabled (pol_Spec (sample_policy PolicyPending)) \<and>
    lease_held policy_env (self_id policy_env (sample_policy PolicyPending))
      (hist fresh_world @ take 3 (trace (policy_Reconcile sample_cfg policy_env policy_req) fresh_world))"
  by (rule policy_active_holds_lease [where C = sample_cfg and req = policy_req and new = activated
        and post = "drop 4 (trace (policy_Reconcile sample_cfg policy_env policy_req) fresh_world)"]) code_simp+

lemma conj_take3: "A \<and> B \<and> C \<and> D \<Longrightarrow> A \<and> B \<and> C"
  by blast

theorem policy_takes_only_expired_lease_witness:
  "lease_read policy_env (lease_key sample_cfg) (hist fresh_world @ take 2 (trace (policy_Reconcile sample_cfg policy_env policy_req) fresh_world))
      = Some (Inr old_lease) \<and>
    le_HolderIdentity (new_lease sample_cfg (self_id policy_env (sample_policy PolicyPending)) 7) =
      Some (self_id policy_env (sample_policy PolicyPending)) \<and>
    le_RenewTime (new_lease sample_cfg (self_id policy_env (sample_policy PolicyPending)) 7) =
      Some (env_now policy_env (hist fresh_world @ take 2 (trace (policy_Reconcile sample_cfg policy_env policy_req) fresh_world)))"
proof -
  let ?tr = "trace (policy_Reconcile sample_cfg policy_env policy_req) fresh_world"
  let ?pol = "sample_policy PolicyPending"
  have "env_get_policy policy_env (hist fresh_world) policy_req = Inr ?pol" by code_simp
  moreover have "?tr = take 2 ?tr @ PatchLease old_lease (new_lease sample_cfg (self_id policy_env ?pol) 7) # drop 3 ?tr" by code_simp
  ultimately show ?thesis by (rule policy_takes_only_expired_lease [THEN conj_take3])
qed

theorem layout_classifies_replicas_witness:
  "\<exists>gd \<in> {sample_gd}. \<exists>rb \<in> {sample_rb Running}. binding_key rb = (gd_id gd, 0) \<and>
    (crl_Stable (judge None Running (locate sample_gd 0 (sample_rb Running))) \<longleftrightarrow>
      globalDeploymentMigratable policy_env gd = None \<and> crl_ClusterId (locate sample_gd 0 (sample_rb Running)) \<noteq> '''' \<and>
      crl_NodeName (locate sample_gd 0 (sample_rb Running)) \<noteq> '''' \<and> rb_Phase (rb_Status rb) = Running)"
proof -
  let ?loc = "judge None Running (locate sample_gd 0 (sample_rb Running))"
  have "?loc \<in> set (layout_of policy_env [sample_gd] [sample_rb Running])" by code_simp
  moreover have "crl_ReplicaIndex ?loc = 0" "crl_ClusterId ?loc = crl_ClusterId (locate sample_gd 0 (sample_rb Running))"
    "crl_NodeName ?loc = crl_NodeName (locate sample_gd 0 (sample_rb Running))" by simp_all
  ultimately show ?thesis
    using layout_classifies_replicas [of "[sample_gd]" policy_env "[sample_rb Running]"] by fastforce
qed

theorem timer_follows_run_mode_witness:
  "trace (ensureTimer sample_cfg policy_env (sample_policy PolicyActive)) fresh_world = [] \<and>
    mget (timers (exec (ensureTimer sample_cfg policy_env (sample_policy PolicyActive)) fresh_world)) =
      (mget (timers fresh_world))(policy_key (sample_policy PolicyActive) :=
        due_in policy_env (env_now policy_env (hist fresh_world)) (sample_policy PolicyActive))"
  by (rule timer_follows_run_mode) code_simp

theorem first_condition_not_written_witness:
  "run_state (setStatusPhaseAndCondition policy_env (sample_policy PolicyActive) PolicyActive
      (policy_condition (sample_policy PolicyActive) 7 ''RebalanceSucceeded'' False ''SolverError'' ''boom'')) fresh_world =
    ((None, sample_policy PolicyActive), fresh_world)"
proof -
  have "pol_Phase (pol_Status (sample_policy PolicyActive)) = PolicyActive" and "pol_Conditions (pol_Status (sample_policy PolicyActive)) = []"
    by code_simp+
  from first_condition_not_written [OF this] show ?thesis by blast
qed

end
