(* ===== verification/Optimizer_Base.thy ===== *)
theory Optimizer_Base
  imports Float64
begin

section \<open>Optimizer data model and normalisation\<close>

text \<open>
  The data the optimizer package shares between its plugins, its plan computation and its ILP model
  (\<open>src/controller/internal/optimizer/types.go\<close>, \<open>plugins.go\<close>): node and replica identities, resource
  quantities, the plugin context, the score matrix, and the two helpers every plugin goes through,
  \<open>normalizeTo0_100\<close> and the running minimum and maximum of the raw scores.

  An error of the package is a value of \<open>opt_error\<close>, one constructor for each message the sources
  build, with the arguments they interpolate.
\<close>

subsection \<open>Identities and quantities (types.go)\<close>

record ClusterNodeID =
  ClusterID :: string
  NodeName :: string

definition ClusterNodeID_String :: "ClusterNodeID \<Rightarrow> string" where
  "ClusterNodeID_String i =
     (if ClusterID i = '''' then NodeName i
      else if NodeName i = '''' then ClusterID i
      else ClusterID i @ ''/'' @ NodeName i)"

record ResourceQuantity =
  MilliCPU :: int64
  MemoryMi :: int64

record ReplicaKey =
  rk_Namespace :: string
  rk_Name :: string
  rk_ReplicaIndex :: int32

text \<open>The digit loop of \<open>itoa32\<close>: digits are written from the right into the buffer.\<close>

function itoa32_loop :: "int32 \<Rightarrow> string \<Rightarrow> string" where
  "itoa32_loop v buf =
     (if 0 < v then itoa32_loop (v div 10) (digit_char (nat (v mod 10)) # buf) else buf)"
  by pat_completeness auto
termination
  by (relation "measure (\<lambda>(v, buf). nat v)") auto

declare itoa32_loop.simps [simp del]

definition itoa32 :: "int32 \<Rightarrow> string" where
  "itoa32 v0 =
     (if v0 = 0 then ''0''
      else let neg = v0 < 0;
               v = (if neg then wrap32 (- v0) else v0);
               buf = itoa32_loop v []
           in if neg then ''-'' @ buf else buf)"

definition ReplicaKey_String :: "ReplicaKey \<Rightarrow> string" where
  "ReplicaKey_String k = rk_Namespace k @ ''/'' @ rk_Name k @ ''/'' @ itoa32 (rk_ReplicaIndex k)"

record NamespacedName =
  nn_Namespace :: string
  nn_Name :: string

subsection \<open>Plugin context (plugins.go)\<close>

record NodeContext =
  nc_ID :: ClusterNodeID
  Labels :: "(string, string) gomap"
  Region :: string
  CPUFreeMilli :: int64
  CPUAllocatableMilli :: int64
  MemoryAllocatableMi :: int64

record PluginContext =
  Replicas :: "ReplicaKey list"
  Nodes :: "NodeContext list"
  ReplicaRequests :: "(ReplicaKey, ResourceQuantity) gomap option"
  CurrentPlacement :: "(ReplicaKey, ClusterNodeID) gomap"

type_synonym node_scores = "(ClusterNodeID, f64) gomap"
type_synonym score_matrix = "(ReplicaKey, node_scores) gomap"

subsection \<open>Errors\<close>

datatype (plugins only: size code) opt_error =
    NilPlugin string
  | EmptyInput string
  | MustBeNonEmpty string
  | MissingLabel string ClusterNodeID
  | MissingPrice string ClusterNodeID
  | InvalidPrice string f64
  | MissingLatencyRow string
  | MissingRegion ClusterNodeID
  | MissingLatency string string ClusterNodeID
  | InvalidLatency string string f64
  | MissingPowerCurve string ClusterNodeID
  | InvalidCPUAllocatable ClusterNodeID
  | MissingReplicaRequest ReplicaKey
  | InvalidReplicaCPU ReplicaKey int64
  | InvalidReplicaMemory ReplicaKey int64
  | InvalidTotalCores f64
  | TooFewSamples
  | InvalidUtil f64
  | DuplicateUtil
  | NoUtilSegment
  | InvalidPenalty f64
  | MissingRegionRow string
  | MissingRegionValue string string
  | InvalidRegionValue string string f64
  | NoCurrentReplicaRegions NamespacedName
  | NoCandidateRegions
  | MissingReplicaService ReplicaKey
  | CommCostErr ReplicaKey opt_error
  | PluginErr string opt_error
  | InvalidWeight string f64
  | UnknownGoal string
  | NoCandidateNodes
  | TooManyVariables int int
  | MissingNodeCapacity ClusterNodeID
  | InvalidNodeCPU ClusterNodeID int64
  | InvalidNodeMemory ClusterNodeID int64
  | NodeContextsEmpty
  | ForeignNodeContext ClusterNodeID
  | MigrationWithoutPlacement
  | PlacementScoresNil
  | ReadableErr string opt_error
  | NoSolverConfigured
  | SolverNotImplemented
  | ORToolsDisabled
  | BackendError string
  | ORToolsInfeasible
  | ORToolsNotSolved
  | DeadlineExceeded
  | NoAssignmentFor ReplicaKey

type_synonym 'a result = "opt_error + 'a"

definition requireNonEmpty :: "string \<Rightarrow> string \<Rightarrow> unit result" where
  "requireNonEmpty name v = (if v = '''' then Inl (MustBeNonEmpty name) else Inr ())"

subsection \<open>Normalisation (plugins.go)\<close>

definition normalizeTo0_100 :: "f64 \<Rightarrow> f64 \<Rightarrow> f64 \<Rightarrow> f64" where
  "normalizeTo0_100 v0 mn mx =
     (if isNaN v0 \<or> isInf v0 then f100
      else if fle mx mn then f0
      else let v1 = (if flt v0 mn then mn else v0);
               v = (if flt mx v1 then mx else v1)
           in fdiv (fmul (fsub v mn) f100) (fsub mx mn))"

text \<open>
  One step of the running minimum and maximum that the Cost, Latency, Energy and Communication
  plugins keep over their raw values: the first value initialises both.
\<close>

definition track_minmax :: "f64 \<Rightarrow> f64 \<times> f64 \<times> bool \<Rightarrow> f64 \<times> f64 \<times> bool" where
  "track_minmax v s = (case s of (mn, mx, init) \<Rightarrow>
     if \<not> init then (v, v, True)
     else (if flt v mn then v else mn, if flt mx v then v else mx, True))"

text \<open>\<open>getPlacementScore\<close> (plan.go): the entry of a score matrix, \<open>None\<close> for the second result \<open>false\<close>.\<close>

definition getPlacementScore :: "score_matrix \<Rightarrow> ReplicaKey \<Rightarrow> ClusterNodeID \<Rightarrow> f64 option" where
  "getPlacementScore scores r n = (case mget scores r of None \<Rightarrow> None | Some m \<Rightarrow> mget m n)"

subsection \<open>Lemmas: rendering of identities\<close>

lemma itoa32_loop_digits: "0 < v \<Longrightarrow> itoa32_loop v buf = nat_digits (nat v) @ buf"
proof (induction v buf rule: itoa32_loop.induct)
  case (1 v buf)
  have dm: "nat v div 10 = nat (v div 10)" "nat v mod 10 = nat (v mod 10)"
    using "1.prems" by (simp_all add: nat_div_distrib nat_mod_distrib)
  show ?case
  proof (cases "v < 10")
    case True
    then have "v div 10 = 0" "v mod 10 = v" using "1.prems" by simp_all
    with True "1.prems" show ?thesis
      by (simp add: itoa32_loop.simps [of v] itoa32_loop.simps [of 0] nat_digits.simps [of "nat v"])
  next
    case False
    then have "0 < v div 10" by linarith
    with "1.IH" "1.prems" have "itoa32_loop (v div 10) (digit_char (nat (v mod 10)) # buf)
        = nat_digits (nat (v div 10)) @ digit_char (nat (v mod 10)) # buf" by simp
    moreover have "\<not> nat v < 10" using False by simp
    ultimately show ?thesis using "1.prems"
      by (simp add: itoa32_loop.simps [of v] nat_digits.simps [of "nat v"] dm)
  qed
qed

lemma itoa32_itoa: "in_int32 v \<Longrightarrow> v \<noteq> - (2 ^ 31) \<Longrightarrow> itoa32 v = itoa v"
proof -
  assume v: "in_int32 v" "v \<noteq> - (2 ^ 31)"
  then have "in_int32 (- v)" by (simp add: in_int32_def)
  then have w: "wrap32 (- v) = - v" by simp
  consider "v = 0" | "0 < v" | "v < 0" by linarith
  then show ?thesis
  proof cases
    case 1
    then show ?thesis by (simp add: itoa32_def itoa_def nat_digits.simps [of 0] digit_char_def)
  next
    case 2
    then show ?thesis by (simp add: itoa32_def itoa_def Let_def itoa32_loop_digits)
  next
    case 3
    then show ?thesis using w by (simp add: itoa32_def itoa_def Let_def itoa32_loop_digits)
  qed
qed

lemma itoa32_no_slash: "in_int32 v \<Longrightarrow> CHR ''/'' \<notin> set (itoa32 v)"
proof (cases "v = - (2 ^ 31)")
  case True
  then show ?thesis
    by (simp add: itoa32_def wrap32_def itoa32_loop.simps)
next
  case False
  moreover assume "in_int32 v"
  ultimately show ?thesis by (simp add: itoa32_itoa itoa_no_slash)
qed

subsection \<open>Lemmas: normalisation\<close>

lemma repr64_grid: "repr64 q \<Longrightarrow> \<exists>n. q = of_int n * pw2 (- 1074)"
proof (cases "q = 0")
  case True
  then show ?thesis by (intro exI [of _ 0]) simp
next
  case False
  assume "repr64 q"
  then have "q = of_int (rne (q / pw2 (ulp_exp q))) * pw2 (ulp_exp q)"
    using False by (simp add: repr64_def rnd64_def Let_def)
  moreover have "pw2 (ulp_exp q) = of_int (2 ^ nat (ulp_exp q + 1074)) * pw2 (- 1074)"
  proof -
    have "0 \<le> ulp_exp q + 1074" by (simp add: ulp_exp_def)
    from pw2_nat [OF this] show ?thesis
      using pw2_add [of "ulp_exp q + 1074" "- 1074"] by simp
  qed
  ultimately have "q = of_int (rne (q / pw2 (ulp_exp q)) * 2 ^ nat (ulp_exp q + 1074)) * pw2 (- 1074)"
    by (metis mult.assoc of_int_mult)
  then show ?thesis by blast
qed

text \<open>Magnitudes up to \<open>2^1000\<close>: no sum, difference or product with 100 of them overflows.\<close>

definition moderate :: "rat \<Rightarrow> bool" where
  "moderate q \<longleftrightarrow> repr64 q \<and> \<bar>q\<bar> \<le> pw2 1000"

lemma to_f64_Fin: "\<bar>q\<bar> \<le> pw2 1023 \<Longrightarrow> to_f64 q = Fin (rnd64 q)"
  by (rule fbound_to_f64(2) [where e = 1023]) simp_all

lemma fbound_moderate: "fbound 1000 x \<Longrightarrow> \<exists>q. x = Fin q \<and> moderate q"
  by (cases x) (auto simp: moderate_def)

lemma moderate_diff: "moderate a \<Longrightarrow> moderate b \<Longrightarrow> \<bar>b - a\<bar> \<le> pw2 1001"
proof -
  assume "moderate a" and "moderate b"
  moreover have "pw2 1001 = pw2 1000 + pw2 1000"
    using pw2_add [of 1000 1] by (simp add: pw2_def [of 1] ipow2.simps)
  ultimately show ?thesis unfolding moderate_def by linarith
qed

text \<open>The spread \<open>max - min\<close> of two moderate numbers.\<close>

lemma spread_rnd:
  assumes "moderate a" and "moderate b" and "a < b"
  shows "0 < rnd64 (b - a)" and "rnd64 (b - a) \<le> pw2 1001" and "to_f64 (b - a) = Fin (rnd64 (b - a))"
    and "repr64 (rnd64 (b - a))"
proof -
  obtain m n where mn: "a = of_int m * pw2 (- 1074)" "b = of_int n * pw2 (- 1074)"
    using assms(1,2) repr64_grid unfolding moderate_def by blast
  have "m < n"
  proof (rule ccontr)
    assume "\<not> m < n"
    then have "(of_int n :: rat) \<le> of_int m" by simp
    then have "b \<le> a" unfolding mn by (simp add: mult_right_mono less_imp_le)
    with assms(3) show False by simp
  qed
  then have "(1 :: rat) \<le> of_int (n - m)" by (simp only: of_int_1_le_iff)
  then have "pw2 (- 1074) \<le> b - a" unfolding mn
    using mult_right_mono [of 1 "of_int (n - m)" "pw2 (- 1074)"] by (simp add: left_diff_distrib less_imp_le)
  then have "pw2 (- 1074) \<le> rnd64 (b - a)" by (intro r64.rnd_ge_fix rnd64_pw2) simp_all
  then show "0 < rnd64 (b - a)" using pw2_pos [of "- 1074"] by linarith
  have d: "\<bar>b - a\<bar> \<le> pw2 1001" using assms(1,2) by (rule moderate_diff)
  then show "rnd64 (b - a) \<le> pw2 1001"
    using r64.rnd_abs_le_fix [OF rnd64_pw2 [of 1001] d] by simp
  have "\<bar>b - a\<bar> \<le> pw2 1023" using d pw2_mono [of 1001 1023] by simp
  then show t: "to_f64 (b - a) = Fin (rnd64 (b - a))" by (rule to_f64_Fin)
  show "repr64 (rnd64 (b - a))" using wf_to_f64 [of "b - a"] unfolding t by simp
qed

lemma f100_repr: "rnd64 100 = 100"
  using rnd64_int [of 100] by simp

text \<open>The scaled spread \<open>100 * b\<close> after rounding: the relative error is at most \<open>2^-53\<close>.\<close>

lemma scaled_rel:
  assumes "repr64 b" and "0 < b"
  shows "rnd64 (b * 100) \<le> b * 100 * (1 + pw2 (- 53))"
    and "b * 100 * (1 - pw2 (- 53)) \<le> rnd64 (b * 100)"
proof -
  have "\<bar>rnd64 (b * 100) - b * 100\<bar> \<le> b * 100 * pw2 (- 53)"
  proof (cases "pw2 (- 1022) \<le> b * 100")
    case True
    then show ?thesis using rnd64_rel_error [of "b * 100"] assms(2) by simp
  next
    case False
    obtain n where n: "b = of_int n * pw2 (- 1074)" using assms(1) repr64_grid by blast
    then have e: "b * 100 = of_int (n * 100) * pw2 (- 1074)" by simp
    have "of_int (n * 100) * pw2 (- 1074) < of_int (2 ^ 52) * pw2 (- 1074)"
    proof -
      have "pw2 (- 1022) = pw2 52 * pw2 (- 1074)" by (simp add: pw2_add [symmetric])
      then show ?thesis using False pw2_nat [of 52] unfolding e by simp
    qed
    then have "(of_int (n * 100) :: rat) < of_int (2 ^ 52)" by (simp only: mult_less_cancel_right_pos [OF pw2_pos])
    moreover have "0 < n" using assms(2) unfolding n using pw2_pos [of "- 1074"] by (auto simp: zero_less_mult_iff)
    ultimately have "\<bar>n * 100\<bar> < 2 ^ 53" by (simp only: of_int_less_iff) simp
    then have "rnd64 (b * 100) = b * 100" by (intro rnd64_fix [OF e]) simp_all
    then show ?thesis using assms(2) by (simp add: less_imp_le)
  qed
  then show "rnd64 (b * 100) \<le> b * 100 * (1 + pw2 (- 53))"
    and "b * 100 * (1 - pw2 (- 53)) \<le> rnd64 (b * 100)"
    by (simp_all add: distrib_left right_diff_distrib abs_if split: if_splits)
qed

text \<open>The neighbours of 100 in the format.\<close>

lemma pw2_neg46: "pw2 (- 46) = 1 / 70368744177664"
  by (simp add: pw2_powi power_int_minus inverse_eq_divide)

lemma pw2_neg53: "pw2 (- 53) = 1 / 9007199254740992"
  by (simp add: pw2_powi power_int_minus inverse_eq_divide)

lemma rnd64_above: "rnd64 (100 + pw2 (- 46)) = 100 + pw2 (- 46)"
  by (rule rnd64_fix [of _ "7036874417766401" "- 46"]) (simp_all add: pw2_neg46)

lemma rnd64_below: "rnd64 (100 - pw2 (- 46)) = 100 - pw2 (- 46)"
  by (rule rnd64_fix [of _ "7036874417766399" "- 46"]) (simp_all add: pw2_neg46)

text \<open>
  The quotient \<open>rnd (rnd (a * 100) / b)\<close> for \<open>0 \<le> a \<le> b\<close>, which the code computes for a value at
  distance \<open>a\<close> from the minimum.
\<close>

definition scaled :: "rat \<Rightarrow> rat \<Rightarrow> rat" where
  "scaled a b = rnd64 (rnd64 (a * 100) / b)"

lemma scaled_0 [simp]: "scaled 0 b = 0"
  by (simp add: scaled_def)

lemma scaled_mono: "0 < b \<Longrightarrow> a \<le> a' \<Longrightarrow> scaled a b \<le> scaled a' b"
  unfolding scaled_def by (intro rnd64_mono divide_right_mono) simp_all

lemma scaled_nonneg: "0 < b \<Longrightarrow> 0 \<le> a \<Longrightarrow> 0 \<le> scaled a b"
  using scaled_mono [of b 0 a] by simp

lemma scaled_top:
  assumes "repr64 b" and "0 < b"
  shows "scaled b b \<le> 100 + pw2 (- 46)" and "100 - pw2 (- 46) \<le> scaled b b"
proof -
  have "rnd64 (b * 100) / b \<le> 100 * (1 + pw2 (- 53))"
    using scaled_rel(1) [OF assms] assms(2) by (simp add: divide_le_eq mult_ac)
  also have "\<dots> \<le> 100 + pw2 (- 46)" by (simp add: pw2_neg46 pw2_neg53)
  finally show "scaled b b \<le> 100 + pw2 (- 46)"
    unfolding scaled_def by (rule r64.rnd_le_fix [OF rnd64_above])
  have "100 * (1 - pw2 (- 53)) \<le> rnd64 (b * 100) / b"
    using scaled_rel(2) [OF assms] assms(2) by (simp add: le_divide_eq mult_ac)
  moreover have "100 - pw2 (- 46) \<le> 100 * (1 - pw2 (- 53))" by (simp add: pw2_neg46 pw2_neg53)
  ultimately have "100 - pw2 (- 46) \<le> rnd64 (b * 100) / b" by linarith
  then show "100 - pw2 (- 46) \<le> scaled b b"
    unfolding scaled_def by (rule r64.rnd_ge_fix [OF rnd64_below])
qed

definition clamp :: "rat \<Rightarrow> rat \<Rightarrow> rat \<Rightarrow> rat" where
  "clamp lo hi v = (if v < lo then lo else if hi < v then hi else v)"

text \<open>Normalisation of moderate finite values, in closed form.\<close>

lemma normalize_Fin:
  assumes "moderate lo" and "moderate hi" and "lo < hi"
  shows "normalizeTo0_100 (Fin v) (Fin lo) (Fin hi)
    = Fin (scaled (rnd64 (clamp lo hi v - lo)) (rnd64 (hi - lo)))"
proof -
  define c where "c = clamp lo hi v"
  define a where "a = rnd64 (c - lo)"
  define b where "b = rnd64 (hi - lo)"
  note sp = spread_rnd [OF assms, folded b_def]
  have c: "lo \<le> c" "c \<le> hi" using assms(3) by (auto simp: c_def clamp_def)
  have cv: "(let v1 = (if flt (Fin v) (Fin lo) then Fin lo else Fin v)
      in if flt (Fin hi) v1 then Fin hi else v1) = Fin c"
    using assms(3) by (simp add: c_def clamp_def Let_def)
  have a: "0 \<le> a" "a \<le> b" unfolding a_def b_def using c by (auto intro: rnd64_mono rnd64_nonneg)
  have "\<bar>c - lo\<bar> \<le> \<bar>hi - lo\<bar>" using c by simp
  then have fa: "to_f64 (c - lo) = Fin a"
  proof -
    assume "\<bar>c - lo\<bar> \<le> \<bar>hi - lo\<bar>"
    also have "\<bar>hi - lo\<bar> \<le> pw2 1001"
      using moderate_diff assms(1,2) by simp
    also have "pw2 1001 \<le> pw2 1023" by (rule pw2_mono) simp
    finally show ?thesis unfolding a_def by (rule to_f64_Fin)
  qed
  have "\<bar>a * 100\<bar> \<le> pw2 1023"
  proof -
    have "a * 100 \<le> pw2 1001 * 100" using a sp(2) by simp
    also have "\<dots> \<le> pw2 1001 * pw2 7" by (simp add: pw2_def [of 7] ipow2.simps)
    also have "\<dots> \<le> pw2 1023" by (simp add: pw2_add [symmetric] pw2_mono)
    finally show ?thesis using a by simp
  qed
  then have fm: "to_f64 (a * 100) = Fin (rnd64 (a * 100))" by (rule to_f64_Fin)
  have s: "scaled a b \<le> 100 + pw2 (- 46)" "0 \<le> scaled a b"
    using scaled_mono [OF sp(1) a(2)] scaled_top(1) [OF sp(4,1)] scaled_nonneg [OF sp(1) a(1)] by auto
  have "to_f64 (rnd64 (a * 100) / b) = Fin (scaled a b)"
  proof -
    have "pw2 7 \<le> pw2 1024" by (rule pw2_mono) simp
    then have "\<bar>scaled a b\<bar> < pw2 1024" using s by (simp add: pw2_neg46 pw2_def [of 7] ipow2.simps)
    then show ?thesis by (simp add: to_f64_cases scaled_def)
  qed
  then have "fdiv (fmul (fsub (Fin c) (Fin lo)) f100) (fsub (Fin hi) (Fin lo)) = Fin (scaled a b)"
    using sp fa fm by (simp add: fsub_def b_def)
  then show ?thesis using cv assms(3)
    by (simp add: normalizeTo0_100_def isNaN_def isInf_def Let_def a_def b_def c_def)
qed

lemma normalize_degenerate: "fle mx mn \<Longrightarrow> is_fin v \<Longrightarrow> normalizeTo0_100 v mn mx = f0"
  by (cases v) (auto simp: normalizeTo0_100_def isNaN_def isInf_def)

text \<open>Order, range and end points of normalised values.\<close>

lemma clamp_mono: "lo \<le> hi \<Longrightarrow> v \<le> w \<Longrightarrow> clamp lo hi v \<le> clamp lo hi w"
  by (auto simp: clamp_def)

lemma clamp_bounds: "lo \<le> hi \<Longrightarrow> lo \<le> clamp lo hi v \<and> clamp lo hi v \<le> hi"
  by (auto simp: clamp_def)

lemma normalize_range:
  assumes "moderate lo" and "moderate hi"
  shows "\<exists>s. normalizeTo0_100 (Fin v) (Fin lo) (Fin hi) = Fin s \<and> 0 \<le> s \<and> s \<le> 100 + pw2 (- 46)"
proof (cases "lo < hi")
  case False
  then show ?thesis
    by (intro exI [of _ 0]) (simp add: normalize_degenerate pw2_pos [THEN less_imp_le])
next
  case True
  let ?a = "rnd64 (clamp lo hi v - lo)" and ?b = "rnd64 (hi - lo)"
  note sp = spread_rnd [OF assms True]
  have a: "0 \<le> ?a" "?a \<le> ?b"
    using clamp_bounds [of lo hi v] True by (auto intro: rnd64_nonneg rnd64_mono)
  have "scaled ?a ?b \<le> 100 + pw2 (- 46)"
    using scaled_mono [OF sp(1) a(2)] scaled_top(1) [OF sp(4,1)] by linarith
  then show ?thesis
    using normalize_Fin [OF assms True, of v] scaled_nonneg [OF sp(1) a(1)] by blast
qed

lemma normalize_mono:
  assumes "moderate lo" and "moderate hi" and "v \<le> w"
  shows "fle (normalizeTo0_100 (Fin v) (Fin lo) (Fin hi)) (normalizeTo0_100 (Fin w) (Fin lo) (Fin hi))"
proof (cases "lo < hi")
  case False
  then show ?thesis by (simp add: normalize_degenerate)
next
  case True
  have "clamp lo hi v - lo \<le> clamp lo hi w - lo"
    using clamp_mono [of lo hi v w] True assms(3) by simp
  then have "scaled (rnd64 (clamp lo hi v - lo)) (rnd64 (hi - lo))
      \<le> scaled (rnd64 (clamp lo hi w - lo)) (rnd64 (hi - lo))"
    by (intro scaled_mono spread_rnd(1) rnd64_mono assms True)
  then show ?thesis by (simp add: normalize_Fin assms True)
qed

lemma normalize_at_min: "moderate lo \<Longrightarrow> moderate hi \<Longrightarrow> normalizeTo0_100 (Fin lo) (Fin lo) (Fin hi) = f0"
  by (cases "lo < hi") (simp_all add: normalize_degenerate normalize_Fin clamp_def)

lemma normalize_at_max:
  assumes "moderate lo" and "moderate hi" and "lo < hi"
  shows "\<exists>s. normalizeTo0_100 (Fin hi) (Fin lo) (Fin hi) = Fin s \<and> 100 - pw2 (- 46) \<le> s \<and> s \<le> 100 + pw2 (- 46)"
proof -
  note sp = spread_rnd [OF assms]
  have "clamp lo hi hi = hi" using assms(3) by (simp add: clamp_def)
  then show ?thesis
    using normalize_Fin [OF assms, of hi] scaled_top [OF sp(4,1)] by auto
qed

subsection \<open>Lemmas: the running minimum and maximum\<close>

lemma track_minmax_init [simp]: "track_minmax v (mn, mx, False) = (v, v, True)"
  by (simp add: track_minmax_def)

text \<open>
  After a run over NaN-free values the pair brackets every value seen, and both ends are values seen.
\<close>

definition brackets :: "f64 set \<Rightarrow> f64 \<times> f64 \<times> bool \<Rightarrow> bool" where
  "brackets V s \<longleftrightarrow> (case s of (mn, mx, init) \<Rightarrow>
     (init \<longleftrightarrow> V \<noteq> {}) \<and> (init \<longrightarrow> mn \<in> V \<and> mx \<in> V \<and> (\<forall>v \<in> V. fle mn v \<and> fle v mx)))"

lemma brackets_start [simp]: "brackets {} (a, b, False)"
  by (simp add: brackets_def)

lemma brackets_track:
  assumes "brackets V s" and "NaN \<notin> V" and "v \<noteq> NaN"
  shows "brackets (insert v V) (track_minmax v s)"
proof -
  obtain mn mx i where s: "s = (mn, mx, i)" by (cases s) auto
  show ?thesis
  proof (cases i)
    case False
    then show ?thesis using assms s fle_refl by (auto simp: brackets_def track_minmax_def)
  next
    case True
    with assms(1) s have h: "mn \<in> V" "mx \<in> V" "\<forall>v \<in> V. fle mn v \<and> fle v mx"
      by (auto simp: brackets_def)
    then have nn: "mn \<noteq> NaN" "mx \<noteq> NaN" using assms(2) by auto
    define mn' where "mn' = (if flt v mn then v else mn)"
    define mx' where "mx' = (if flt mx v then v else mx)"
    have lo: "fle mn' v" "fle mn' mn" and hi: "fle v mx'" "fle mx mx'"
      using nn assms(3) not_flt fle_refl by (auto simp: mn'_def mx'_def flt_iff)
    then have "\<forall>u \<in> insert v V. fle mn' u \<and> fle u mx'" using h(3) fle_trans by blast
    moreover have "mn' \<in> insert v V" "mx' \<in> insert v V" using h by (auto simp: mn'_def mx'_def)
    ultimately show ?thesis
      using True s by (simp add: brackets_def track_minmax_def mn'_def mx'_def)
  qed
qed

subsection \<open>The contract of a linear scoring plugin\<close>

text \<open>
  \<open>LinearScorePlugin\<close> (plugins.go) is the interface between the objective and the goal plugins. What its
  comment promises, and the objective relies on: a successful plugin returns one score for every
  replica and candidate node and for nothing else, and on sane inputs every score is finite and in the
  normalised range. The range ends one unit in the last place above 100, because the quotient of the
  normalisation is rounded.
\<close>

definition wf_matrix :: "score_matrix \<Rightarrow> bool" where
  "wf_matrix m \<longleftrightarrow> wf_map m \<and> (\<forall>row \<in> snd ` set m. wf_map row)"

definition score_max :: rat where
  "score_max = 100 + pw2 (- 46)"

fun in_score_range :: "f64 \<Rightarrow> bool" where
  "in_score_range (Fin q) = (0 \<le> q \<and> q \<le> score_max)"
| "in_score_range _ = False"

lemma in_score_range_conv: "in_score_range s \<longleftrightarrow> (\<exists>q. s = Fin q \<and> 0 \<le> q \<and> q \<le> score_max)"
  by (cases s) auto

lemma in_score_range_normalize:
  "moderate lo \<Longrightarrow> moderate hi \<Longrightarrow> in_score_range (normalizeTo0_100 (Fin v) (Fin lo) (Fin hi))"
  using normalize_range [of lo hi v] by (auto simp: score_max_def)

text \<open>Input values that need no overflow argument: finite, representable and at most \<open>2^1000\<close>.\<close>

fun bounded_f64 :: "f64 \<Rightarrow> bool" where
  "bounded_f64 (Fin q) = (repr64 q \<and> q \<le> pw2 1000)"
| "bounded_f64 _ = False"

lemma bounded_moderate: "bounded_f64 v \<Longrightarrow> \<not> flt v f0 \<Longrightarrow> \<exists>q. v = Fin q \<and> moderate q \<and> 0 \<le> q"
  by (cases v) (auto simp: moderate_def)

definition complete_for :: "PluginContext \<Rightarrow> score_matrix \<Rightarrow> bool" where
  "complete_for ctx m \<longleftrightarrow> (\<forall>r a. getPlacementScore m r a \<noteq> None \<longleftrightarrow>
     r \<in> set (Replicas ctx) \<and> a \<in> nc_ID ` set (Nodes ctx))"

locale linear_score_plugin =
  fixes score :: "PluginContext \<Rightarrow> score_matrix result"
    and sane :: "PluginContext \<Rightarrow> bool"
  assumes score_wf: "score ctx = Inr m \<Longrightarrow> wf_matrix m"
    and score_complete: "score ctx = Inr m \<Longrightarrow> complete_for ctx m"
    and score_range: "score ctx = Inr m \<Longrightarrow> sane ctx \<Longrightarrow> getPlacementScore m r a = Some s \<Longrightarrow> in_score_range s"
begin

lemma score_total:
  assumes "score ctx = Inr m" and "sane ctx" and "r \<in> set (Replicas ctx)" and "n \<in> set (Nodes ctx)"
  shows "\<exists>q. getPlacementScore m r (nc_ID n) = Some (Fin q) \<and> 0 \<le> q \<and> q \<le> score_max"
proof -
  obtain s where s: "getPlacementScore m r (nc_ID n) = Some s"
    using score_complete [OF assms(1)] assms(3,4) unfolding complete_for_def by blast
  with score_range [OF assms(1,2)] show ?thesis by (auto simp: in_score_range_conv)
qed

lemma score_outside:
  assumes "score ctx = Inr m" and "a \<notin> nc_ID ` set (Nodes ctx) \<or> r \<notin> set (Replicas ctx)"
  shows "getPlacementScore m r a = None"
  using score_complete [OF assms(1)] assms(2) unfolding complete_for_def by blast

end

lemma wf_matrix_Nil [simp]: "wf_matrix []"
  by (simp add: wf_matrix_def)

lemma complete_for_empty: "Replicas ctx = [] \<or> Nodes ctx = [] \<Longrightarrow> complete_for ctx []"
  by (auto simp: complete_for_def getPlacementScore_def)

lemma getPlacementScore_wf:
  assumes "wf_matrix m"
  shows "getPlacementScore m r a = Some v \<longleftrightarrow> (\<exists>row. (r, row) \<in> set m \<and> (a, v) \<in> set row)"
proof
  assume "getPlacementScore m r a = Some v"
  then obtain row where "mget m r = Some row" "mget row a = Some v"
    by (auto simp: getPlacementScore_def split: option.splits)
  then show "\<exists>row. (r, row) \<in> set m \<and> (a, v) \<in> set row" by (meson map_of_SomeD)
next
  assume "\<exists>row. (r, row) \<in> set m \<and> (a, v) \<in> set row"
  then obtain row where row: "(r, row) \<in> set m" "(a, v) \<in> set row" by blast
  have "wf_map m" "wf_map row" using assms row(1) by (force simp: wf_matrix_def)+
  with row show "getPlacementScore m r a = Some v"
    by (simp add: getPlacementScore_def mget_Some_wf [THEN iffD2])
qed

subsection \<open>Sample values\<close>

text \<open>Concrete identities on which the theorems are exercised.\<close>

definition sample_r1 :: ReplicaKey where
  "sample_r1 = \<lparr>rk_Namespace = ''shop'', rk_Name = ''cart'', rk_ReplicaIndex = 0\<rparr>"

definition sample_r2 :: ReplicaKey where
  "sample_r2 = \<lparr>rk_Namespace = ''shop'', rk_Name = ''web'', rk_ReplicaIndex = 1\<rparr>"

definition sample_n1 :: ClusterNodeID where
  "sample_n1 = \<lparr>ClusterID = ''east'', NodeName = ''a''\<rparr>"

definition sample_n2 :: ClusterNodeID where
  "sample_n2 = \<lparr>ClusterID = ''west'', NodeName = ''b''\<rparr>"

definition sample_node1 :: NodeContext where
  "sample_node1 = \<lparr>nc_ID = sample_n1, Labels = [(''node.kubex.io/type'', ''small'')], Region = ''eu'',
     CPUFreeMilli = 3000, CPUAllocatableMilli = 4000, MemoryAllocatableMi = 8192\<rparr>"

definition sample_node2 :: NodeContext where
  "sample_node2 = \<lparr>nc_ID = sample_n2, Labels = [(''node.kubex.io/type'', ''large'')], Region = ''us'',
     CPUFreeMilli = 2000, CPUAllocatableMilli = 8000, MemoryAllocatableMi = 16384\<rparr>"

definition sample_ctx :: PluginContext where
  "sample_ctx = \<lparr>Replicas = [sample_r1, sample_r2], Nodes = [sample_node1, sample_node2],
     ReplicaRequests = Some [(sample_r1, \<lparr>MilliCPU = 500, MemoryMi = 256\<rparr>), (sample_r2, \<lparr>MilliCPU = 1500, MemoryMi = 1024\<rparr>)],
     CurrentPlacement = [(sample_r1, sample_n1), (sample_r2, sample_n1)]\<rparr>"

subsection \<open>Properties\<close>

text \<open>
  Normalisation is monotone on the values between the minimum and the maximum, maps the minimum to
  exactly 0 and stays between 0 and one unit in the last place above 100 (\<open>score_max\<close>).
\<close>

theorem normalize_monotone_bounded:
  assumes "moderate lo" and "moderate hi" and "lo \<le> v" and "v \<le> w" and "w \<le> hi"
  shows "\<exists>s t. normalizeTo0_100 (Fin v) (Fin lo) (Fin hi) = Fin s \<and> normalizeTo0_100 (Fin w) (Fin lo) (Fin hi) = Fin t \<and>
    0 \<le> s \<and> s \<le> t \<and> t \<le> score_max \<and> normalizeTo0_100 (Fin lo) (Fin lo) (Fin hi) = f0"
  using normalize_range [OF assms(1,2), of v] normalize_range [OF assms(1,2), of w]
    normalize_mono [OF assms(1,2,4)] normalize_at_min [OF assms(1,2)]
  by (auto simp: score_max_def)

theorem normalize_monotone_bounded_witness:
  "\<exists>s t. normalizeTo0_100 (Fin 3) (Fin 1) (Fin 5) = Fin s \<and> normalizeTo0_100 (Fin 4) (Fin 1) (Fin 5) = Fin t \<and>
    0 \<le> s \<and> s \<le> t \<and> t \<le> score_max \<and> normalizeTo0_100 (Fin 1) (Fin 1) (Fin 5) = f0"
proof (rule normalize_monotone_bounded)
  show "moderate 1" and "moderate 5" by code_simp+
qed simp_all

text \<open>
  The comment of \<open>normalizeTo0_100\<close> promises a value in [0,100]; the rounded quotient can end one unit
  in the last place above 100.
\<close>

theorem normalize_exceeds_100:
  "normalizeTo0_100 (Fin 9007199254740976) (Fin 0) (Fin 9007199254740976) = Fin score_max \<and> 100 < score_max"
  by code_simp

text \<open>
  The printed key of a replica identifies it: namespaces and names contain no slash, and the
  replica index is an \<open>int32\<close> other than its minimum (for which \<open>itoa32\<close> prints no digits).
\<close>

theorem ReplicaKey_String_inj:
  fixes j k :: ReplicaKey
  assumes "ReplicaKey_String j = ReplicaKey_String k"
    and "CHR ''/'' \<notin> set (rk_Namespace j) \<union> set (rk_Namespace k) \<union> set (rk_Name j) \<union> set (rk_Name k)"
    and "in_int32 (rk_ReplicaIndex j)" and "in_int32 (rk_ReplicaIndex k)"
    and "rk_ReplicaIndex j \<noteq> - (2 ^ 31)" and "rk_ReplicaIndex k \<noteq> - (2 ^ 31)"
  shows "j = k"
proof -
  have "rk_Namespace j @ CHR ''/'' # (rk_Name j @ CHR ''/'' # itoa32 (rk_ReplicaIndex j))
      = rk_Namespace k @ CHR ''/'' # (rk_Name k @ CHR ''/'' # itoa32 (rk_ReplicaIndex k))"
    using assms(1) by (simp add: ReplicaKey_String_def)
  then have ns: "rk_Namespace j = rk_Namespace k"
    and rest: "rk_Name j @ CHR ''/'' # itoa32 (rk_ReplicaIndex j) = rk_Name k @ CHR ''/'' # itoa32 (rk_ReplicaIndex k)"
    using append_sep_first assms(2) by (metis UnCI)+
  have "rk_Name j = rk_Name k \<and> itoa32 (rk_ReplicaIndex j) = itoa32 (rk_ReplicaIndex k)"
    by (rule append_sep_first [OF rest]) (use assms(2) in simp_all)
  with ns assms(3-6) show ?thesis by (cases j; cases k) (simp add: itoa32_itoa itoa_inj)
qed

theorem ReplicaKey_String_inj_witness:
  "sample_r1 = \<lparr>rk_Namespace = ''shop'', rk_Name = ''cart'', rk_ReplicaIndex = 0\<rparr>"
  by (rule ReplicaKey_String_inj) (simp_all add: sample_r1_def in_int32_def)

end
