(* ===== verification/Node_Scoring.thy ===== *)
theory Node_Scoring
  imports Optimizer_Base
begin

section \<open>Plugins that score a node by one value: Cost, Latency; and the Migration penalty\<close>

text \<open>
  \<open>CostPlugin.ScorePlacement\<close> (\<open>plugin_cost.go\<close>) and \<open>LatencyPlugin.ScorePlacement\<close>
  (\<open>plugin_latency.go\<close>) have the same shape: a first loop validates each candidate node, records its
  raw value and tracks the minimum and maximum; a second loop gives every replica the normalised
  value of every node. The shape is written once (\<open>node_value_step\<close>, \<open>replicate_scores\<close>), with the
  per-node value as a parameter; the contract of that parameter is the locale \<open>node_scorer\<close>, in
  which the properties of the scores are proved once and which both plugins interpret.
\<close>

definition LabelInstanceType :: string where
  "LabelInstanceType = ''node.kubex.io/type''"

record CostPlugin =
  InstancePrice :: "(string, f64) gomap"

record LatencyPlugin =
  SourceCity :: string
  LatencyMs :: "(string, (string, f64) gomap) gomap"

record MigrationPlugin =
  Penalty :: f64

subsection \<open>The two loops\<close>

definition node_value_step ::
  "(NodeContext \<Rightarrow> f64 result) \<Rightarrow> NodeContext \<Rightarrow> node_scores \<times> f64 \<times> f64 \<times> bool
     \<Rightarrow> (node_scores \<times> f64 \<times> f64 \<times> bool) result" where
  "node_value_step value n s = (case s of (byNode, mm) \<Rightarrow>
     rbind (value n) (\<lambda>v. Inr (mput (nc_ID n) v byNode, track_minmax v mm)))"

definition node_row :: "NodeContext list \<Rightarrow> node_scores \<Rightarrow> f64 \<Rightarrow> f64 \<Rightarrow> node_scores" where
  "node_row nodes byNode mn mx =
     fold (\<lambda>n m. mput (nc_ID n) (normalizeTo0_100 (mget0 f0 byNode (nc_ID n)) mn mx) m) nodes []"

definition replicate_scores :: "PluginContext \<Rightarrow> node_scores \<Rightarrow> f64 \<Rightarrow> f64 \<Rightarrow> score_matrix" where
  "replicate_scores ctx byNode mn mx =
     fold (\<lambda>r out. mput r (node_row (Nodes ctx) byNode mn mx) out) (Replicas ctx) []"

definition score_by_value :: "(NodeContext \<Rightarrow> f64 result) \<Rightarrow> PluginContext \<Rightarrow> score_matrix result" where
  "score_by_value value ctx =
     rbind (fold_r (node_value_step value) (Nodes ctx) ([], f0, f0, False))
       (\<lambda>(byNode, mn, mx, _). Inr (replicate_scores ctx byNode mn mx))"

subsection \<open>Cost\<close>

definition cost_value :: "CostPlugin \<Rightarrow> NodeContext \<Rightarrow> f64 result" where
  "cost_value p n =
     (let it = mget0 '''' (Labels n) LabelInstanceType in
      if it = '''' then Inl (MissingLabel LabelInstanceType (nc_ID n))
      else case mget (InstancePrice p) it of
        None \<Rightarrow> Inl (MissingPrice it (nc_ID n))
      | Some price \<Rightarrow> if flt price f0 then Inl (InvalidPrice it price) else Inr price)"

definition CostPlugin_ScorePlacement :: "CostPlugin option \<Rightarrow> PluginContext \<Rightarrow> score_matrix result" where
  "CostPlugin_ScorePlacement p0 ctx =
     (if Replicas ctx = [] \<or> Nodes ctx = [] then Inr []
      else case p0 of
        None \<Rightarrow> Inl (NilPlugin ''CostPlugin'')
      | Some p \<Rightarrow>
          if InstancePrice p = [] then Inl (EmptyInput ''InstancePrice'')
          else score_by_value (cost_value p) ctx)"

subsection \<open>Latency\<close>

definition latency_value :: "LatencyPlugin \<Rightarrow> (string, f64) gomap \<Rightarrow> NodeContext \<Rightarrow> f64 result" where
  "latency_value p row n =
     (if Region n = '''' then Inl (MissingRegion (nc_ID n))
      else case mget row (Region n) of
        None \<Rightarrow> Inl (MissingLatency (SourceCity p) (Region n) (nc_ID n))
      | Some lat \<Rightarrow> if flt lat f0 then Inl (InvalidLatency (SourceCity p) (Region n) lat) else Inr lat)"

definition LatencyPlugin_ScorePlacement :: "LatencyPlugin option \<Rightarrow> PluginContext \<Rightarrow> score_matrix result" where
  "LatencyPlugin_ScorePlacement p0 ctx =
     (if Replicas ctx = [] \<or> Nodes ctx = [] then Inr []
      else case p0 of
        None \<Rightarrow> Inl (NilPlugin ''LatencyPlugin'')
      | Some p \<Rightarrow>
          rbind (requireNonEmpty ''SourceCity'' (SourceCity p)) (\<lambda>_.
            case mget (LatencyMs p) (SourceCity p) of
              None \<Rightarrow> Inl (MissingLatencyRow (SourceCity p))
            | Some row \<Rightarrow>
                if row = [] then Inl (MissingLatencyRow (SourceCity p))
                else score_by_value (latency_value p row) ctx))"

subsection \<open>Migration\<close>

definition MigrationPlugin_ScoreMigration ::
  "MigrationPlugin option \<Rightarrow> PluginContext \<Rightarrow> (ReplicaKey, f64) gomap result" where
  "MigrationPlugin_ScoreMigration p0 ctx =
     (if Replicas ctx = [] then Inr []
      else case p0 of
        None \<Rightarrow> Inl (NilPlugin ''MigrationPlugin'')
      | Some p \<Rightarrow>
          (let pen = (if feq (Penalty p) f0 then f100 else Penalty p) in
           if flt pen f0 then Inl (InvalidPenalty pen)
           else Inr (fold (\<lambda>r out. mput r pen out) (Replicas ctx) [])))"

subsection \<open>Lemmas: what the loops build\<close>

lemma mget_node_row:
  "mget (node_row nodes byNode mn mx) a =
     (if a \<in> nc_ID ` set nodes then Some (normalizeTo0_100 (mget0 f0 byNode a) mn mx) else None)"
  unfolding node_row_def
  by (subst mget_fold_mput [where k = nc_ID and f = "\<lambda>a. normalizeTo0_100 (mget0 f0 byNode a) mn mx"]) simp

lemma replicate_scores_get:
  "getPlacementScore (replicate_scores ctx byNode mn mx) r a =
     (if r \<in> set (Replicas ctx) \<and> a \<in> nc_ID ` set (Nodes ctx)
      then Some (normalizeTo0_100 (mget0 f0 byNode a) mn mx) else None)"
  by (simp add: getPlacementScore_def replicate_scores_def mget_fold_const mget_node_row)

text \<open>
  What the first loop leaves behind: the value of every node (for distinct node identities), and the
  bracket of the values.
\<close>

lemma node_value_step_Inr:
  "node_value_step value n (m0, s0) = Inr t \<longleftrightarrow>
     (\<exists>v. value n = Inr v \<and> t = (mput (nc_ID n) v m0, track_minmax v s0))"
  by (auto simp: node_value_step_def rbind_eq_Inr)

lemma node_value_loop:
  assumes "fold_r (node_value_step value) ns (m0, s0) = Inr (m, s)"
    and "distinct (map nc_ID ns)" and "nc_ID ` set ns \<inter> mkeys m0 = {}"
    and "brackets V s0" and "NaN \<notin> V"
    and "\<forall>n \<in> set ns. \<forall>v. value n = Inr v \<longrightarrow> v \<noteq> NaN"
  shows "(\<forall>n \<in> set ns. \<exists>v. value n = Inr v \<and> mget m (nc_ID n) = Some v)
    \<and> (\<forall>a. a \<notin> nc_ID ` set ns \<longrightarrow> mget m a = mget m0 a)
    \<and> brackets (V \<union> {v. \<exists>n \<in> set ns. value n = Inr v}) s"
  using assms
proof (induction ns arbitrary: m0 s0 V)
  case Nil
  then show ?case by simp
next
  case (Cons n ns)
  from Cons.prems(1) obtain v where v: "value n = Inr v"
    and rest: "fold_r (node_value_step value) ns (mput (nc_ID n) v m0, track_minmax v s0) = Inr (m, s)"
    by (auto simp: node_value_step_Inr split: sum.splits)
  have nn: "v \<noteq> NaN" using Cons.prems(6) v by simp
  have dis: "distinct (map nc_ID ns)" "nc_ID ` set ns \<inter> mkeys (mput (nc_ID n) v m0) = {}"
    using Cons.prems(2,3) by auto
  have br: "brackets (insert v V) (track_minmax v s0)"
    using Cons.prems(4,5) nn by (rule brackets_track)
  have "NaN \<notin> insert v V" using nn Cons.prems(5) by simp
  note ih = Cons.IH [OF rest dis br this] 
  have "\<forall>n \<in> set ns. \<forall>v. value n = Inr v \<longrightarrow> v \<noteq> NaN" using Cons.prems(6) by simp
  note ih = ih [OF this]
  have "insert v V \<union> {v. \<exists>n \<in> set ns. value n = Inr v} = V \<union> {v. \<exists>n' \<in> set (n # ns). value n' = Inr v}"
    using v by auto
  moreover have "nc_ID n \<notin> nc_ID ` set ns" using Cons.prems(2) by simp
  ultimately show ?case using ih v by simp
qed

lemma wf_replicate_scores: "wf_matrix (replicate_scores ctx byNode mn mx)"
proof -
  have "wf_map (node_row ns byNode mn mx)" for ns
    unfolding node_row_def by (rule wf_map_fold_mput) simp
  moreover have "x = v \<or> x \<in> snd ` set m0" if "x \<in> snd ` set (fold (\<lambda>r. mput r v) rs m0)"
    for v x :: node_scores and rs and m0 :: score_matrix
    using that
  proof (induction rs arbitrary: m0)
    case (Cons r rs)
    then have "x = v \<or> x \<in> snd ` set (mput r v m0)" by simp
    then show ?case using mvals_mput by metis
  qed simp
  ultimately have "wf_map x" if "x \<in> snd ` set (replicate_scores ctx byNode mn mx)" for x
    using that unfolding replicate_scores_def by fastforce
  then show ?thesis
    unfolding wf_matrix_def using wf_map_fold_mput [OF wf_map_Nil, of "\<lambda>r. r"]
    by (simp add: replicate_scores_def)
qed

subsection \<open>The contract of a per-node value\<close>

text \<open>
  Both plugins reject negative values before they use them, which is the law of the locale. With it,
  a node context is sane when its node identities are distinct and every value the plugin reads is
  bounded.
\<close>

definition value_sane :: "(NodeContext \<Rightarrow> f64 result) \<Rightarrow> PluginContext \<Rightarrow> bool" where
  "value_sane value ctx \<longleftrightarrow> distinct (map nc_ID (Nodes ctx)) \<and>
     (\<forall>n \<in> set (Nodes ctx). case value n of Inr v \<Rightarrow> bounded_f64 v | Inl _ \<Rightarrow> True)"

definition scored_between ::
  "(NodeContext \<Rightarrow> f64 result) \<Rightarrow> PluginContext \<Rightarrow> score_matrix \<Rightarrow> rat \<Rightarrow> rat \<Rightarrow> bool" where
  "scored_between value ctx m lo hi \<longleftrightarrow> moderate lo \<and> moderate hi \<and> lo \<le> hi \<and>
     (\<exists>n \<in> set (Nodes ctx). value n = Inr (Fin lo)) \<and> (\<exists>n \<in> set (Nodes ctx). value n = Inr (Fin hi)) \<and>
     (\<forall>n \<in> set (Nodes ctx). \<exists>q. value n = Inr (Fin q) \<and> lo \<le> q \<and> q \<le> hi \<and>
        (\<forall>r \<in> set (Replicas ctx).
           getPlacementScore m r (nc_ID n) = Some (normalizeTo0_100 (Fin q) (Fin lo) (Fin hi))))"

locale node_scorer =
  fixes "value" :: "NodeContext \<Rightarrow> f64 result"
  assumes value_nonneg: "value n = Inr v \<Longrightarrow> \<not> flt v f0"
begin

lemma value_moderate:
  assumes "value_sane value ctx" and "n \<in> set (Nodes ctx)" and "value n = Inr v"
  shows "\<exists>q. v = Fin q \<and> moderate q \<and> 0 \<le> q"
  using bounded_moderate [OF _ value_nonneg [OF assms(3)]] assms
  unfolding value_sane_def by fastforce

text \<open>
  The scores of a successful run: there are a smallest and a largest value among the nodes, and every
  replica gets for every node the node's value normalised between them.
\<close>

lemma scores_explicit:
  assumes "score_by_value value ctx = Inr m" and "value_sane value ctx" and "Nodes ctx \<noteq> []"
  shows "\<exists>lo hi. scored_between value ctx m lo hi"
proof -
  from assms(1) obtain byNode mn mx i where
    loop: "fold_r (node_value_step value) (Nodes ctx) ([], f0, f0, False) = Inr (byNode, mn, mx, i)"
    and m: "m = replicate_scores ctx byNode mn mx"
    by (auto simp: score_by_value_def rbind_eq_Inr)
  have nn: "\<forall>n \<in> set (Nodes ctx). \<forall>v. value n = Inr v \<longrightarrow> v \<noteq> NaN"
    using value_moderate [OF assms(2)] by fastforce
  have "distinct (map nc_ID (Nodes ctx))" using assms(2) by (simp add: value_sane_def)
  note inv = node_value_loop [OF loop this _ brackets_start _ nn, simplified]
  define V where "V = {v. \<exists>n \<in> set (Nodes ctx). value n = Inr v}"
  have br: "brackets V (mn, mx, i)" using inv by (simp add: V_def)
  obtain n0 where "n0 \<in> set (Nodes ctx)" using assms(3) by (cases "Nodes ctx") auto
  with inv have "V \<noteq> {}" unfolding V_def by blast
  with br have V: "mn \<in> V" "mx \<in> V" "\<forall>v \<in> V. fle mn v \<and> fle v mx" by (auto simp: brackets_def)
  from V(1) obtain lo where lo: "mn = Fin lo" "moderate lo" and nlo: "\<exists>n \<in> set (Nodes ctx). value n = Inr (Fin lo)"
    unfolding V_def using value_moderate [OF assms(2)] by blast
  from V(2) obtain hi where hi: "mx = Fin hi" "moderate hi" and nhi: "\<exists>n \<in> set (Nodes ctx). value n = Inr (Fin hi)"
    unfolding V_def using value_moderate [OF assms(2)] by blast
  have "lo \<le> hi" using V lo hi by fastforce
  moreover have "\<exists>q. value n = Inr (Fin q) \<and> lo \<le> q \<and> q \<le> hi \<and> (\<forall>r \<in> set (Replicas ctx).
      getPlacementScore m r (nc_ID n) = Some (normalizeTo0_100 (Fin q) (Fin lo) (Fin hi)))"
    if n: "n \<in> set (Nodes ctx)" for n
  proof -
    from inv n obtain v where v: "value n = Inr v" "mget byNode (nc_ID n) = Some v" by blast
    obtain q where q: "v = Fin q" using value_moderate [OF assms(2) n v(1)] by blast
    have "v \<in> V" using n v(1) by (auto simp: V_def)
    then have "lo \<le> q" "q \<le> hi" using V(3) q lo hi by auto
    then show ?thesis using v q n lo hi by (auto simp: m replicate_scores_get mget0_def)
  qed
  ultimately show ?thesis unfolding scored_between_def using lo(2) hi(2) nlo nhi by blast
qed

lemma scored_between_at:
  assumes "scored_between value ctx m lo hi" and "n \<in> set (Nodes ctx)" and "r \<in> set (Replicas ctx)"
  shows "\<exists>q. value n = Inr (Fin q) \<and> lo \<le> q \<and> q \<le> hi \<and>
    getPlacementScore m r (nc_ID n) = Some (normalizeTo0_100 (Fin q) (Fin lo) (Fin hi))"
  using assms unfolding scored_between_def by blast

lemma value_scores_range:
  assumes "score_by_value value ctx = Inr m" and "value_sane value ctx" and "Nodes ctx \<noteq> []"
    and "getPlacementScore m r a = Some s"
  shows "in_score_range s"
proof -
  obtain lo hi where e: "scored_between value ctx m lo hi"
    using scores_explicit [OF assms(1,2,3)] by blast
  have "r \<in> set (Replicas ctx)" "a \<in> nc_ID ` set (Nodes ctx)"
    using assms(1,4) by (auto simp: score_by_value_def rbind_eq_Inr replicate_scores_get split: if_splits)
  then obtain n where n: "n \<in> set (Nodes ctx)" "a = nc_ID n" by auto
  obtain q where "s = normalizeTo0_100 (Fin q) (Fin lo) (Fin hi)"
    using scored_between_at [OF e n(1) \<open>r \<in> set (Replicas ctx)\<close>] assms(4) n(2) by auto
  with e show ?thesis by (simp add: in_score_range_normalize scored_between_def)
qed

text \<open>Lower values never score worse, the best node scores exactly 0 and the worst about 100.\<close>

lemma value_scores_order:
  assumes "score_by_value value ctx = Inr m" and "value_sane value ctx"
    and "n1 \<in> set (Nodes ctx)" and "n2 \<in> set (Nodes ctx)" and "r \<in> set (Replicas ctx)"
    and "value n1 = Inr v1" and "value n2 = Inr v2" and "fle v1 v2"
  shows "\<exists>s1 s2. getPlacementScore m r (nc_ID n1) = Some s1 \<and> getPlacementScore m r (nc_ID n2) = Some s2 \<and> fle s1 s2"
proof -
  have ne: "Nodes ctx \<noteq> []" using assms(3) by auto
  obtain lo hi where e: "scored_between value ctx m lo hi"
    using scores_explicit [OF assms(1,2) ne] by blast
  have "moderate lo" "moderate hi" using e by (simp_all add: scored_between_def)
  with scored_between_at [OF e assms(3,5)] scored_between_at [OF e assms(4,5)] assms(6-8)
  show ?thesis by (auto intro!: normalize_mono)
qed

lemma value_scores_best:
  assumes "score_by_value value ctx = Inr m" and "value_sane value ctx"
    and "n \<in> set (Nodes ctx)" and "r \<in> set (Replicas ctx)" and "value n = Inr v"
    and "\<forall>n' \<in> set (Nodes ctx). \<forall>v'. value n' = Inr v' \<longrightarrow> fle v v'"
  shows "getPlacementScore m r (nc_ID n) = Some f0"
proof -
  have ne: "Nodes ctx \<noteq> []" using assms(3) by auto
  obtain lo hi where e: "scored_between value ctx m lo hi"
    using scores_explicit [OF assms(1,2) ne] by blast
  have m: "moderate lo" "moderate hi" "\<exists>n \<in> set (Nodes ctx). value n = Inr (Fin lo)"
    using e by (simp_all add: scored_between_def)
  from scored_between_at [OF e assms(3,4)] obtain q where q: "value n = Inr (Fin q)" "lo \<le> q"
    "getPlacementScore m r (nc_ID n) = Some (normalizeTo0_100 (Fin q) (Fin lo) (Fin hi))" by blast
  have "v = Fin q" using q(1) assms(5) by simp
  with m(3) assms(6) have "q \<le> lo" by fastforce
  with q(2) have "q = lo" by simp
  with q(3) m(1,2) show ?thesis by (simp add: normalize_at_min)
qed

end

sublocale node_scorer < lin: linear_score_plugin "score_by_value value" "value_sane value"
proof
  fix ctx m
  assume "score_by_value value ctx = Inr m"
  then obtain byNode mn mx where m: "m = replicate_scores ctx byNode mn mx"
    by (auto simp: score_by_value_def rbind_eq_Inr)
  show "wf_matrix m" unfolding m by (rule wf_replicate_scores)
  show "complete_for ctx m" unfolding m complete_for_def by (simp add: replicate_scores_get)
next
  fix ctx m r a s
  assume h: "score_by_value value ctx = Inr m" "value_sane value ctx" "getPlacementScore m r a = Some s"
  then have "Nodes ctx \<noteq> []"
    by (auto simp: score_by_value_def rbind_eq_Inr replicate_scores_get split: if_splits)
  with h show "in_score_range s" by (auto intro: value_scores_range)
qed

subsection \<open>Cost and Latency meet both contracts\<close>

lemma cost_value_nonneg: "cost_value p n = Inr v \<Longrightarrow> \<not> flt v f0"
  by (auto simp: cost_value_def Let_def split: if_splits option.splits)

lemma latency_value_nonneg: "latency_value p row n = Inr v \<Longrightarrow> \<not> flt v f0"
  by (auto simp: latency_value_def split: if_splits option.splits)

interpretation cost: node_scorer "cost_value p" for p
  by unfold_locales (rule cost_value_nonneg)

interpretation latency: node_scorer "latency_value p row" for p row
  by unfold_locales (rule latency_value_nonneg)

text \<open>The inputs on which the range of the two plugins is guaranteed.\<close>

definition cost_sane :: "CostPlugin option \<Rightarrow> PluginContext \<Rightarrow> bool" where
  "cost_sane p0 ctx = (case p0 of None \<Rightarrow> True | Some p \<Rightarrow> value_sane (cost_value p) ctx)"

definition latency_sane :: "LatencyPlugin option \<Rightarrow> PluginContext \<Rightarrow> bool" where
  "latency_sane p0 ctx = (case p0 of None \<Rightarrow> True | Some p \<Rightarrow>
     value_sane (latency_value p (mget0 [] (LatencyMs p) (SourceCity p))) ctx)"

lemma Cost_Inr:
  "CostPlugin_ScorePlacement p0 ctx = Inr m \<longleftrightarrow>
     (if Replicas ctx = [] \<or> Nodes ctx = [] then m = []
      else \<exists>p. p0 = Some p \<and> InstancePrice p \<noteq> [] \<and> score_by_value (cost_value p) ctx = Inr m)"
  by (auto simp: CostPlugin_ScorePlacement_def split: option.splits if_splits)

lemma Latency_Inr:
  "LatencyPlugin_ScorePlacement p0 ctx = Inr m \<longleftrightarrow>
     (if Replicas ctx = [] \<or> Nodes ctx = [] then m = []
      else \<exists>p row. p0 = Some p \<and> SourceCity p \<noteq> [] \<and> mget (LatencyMs p) (SourceCity p) = Some row \<and>
        row \<noteq> [] \<and> score_by_value (latency_value p row) ctx = Inr m)"
  by (auto simp: LatencyPlugin_ScorePlacement_def requireNonEmpty_def rbind_eq_Inr
      split: option.splits if_splits)

lemma no_score_Nil [simp]: "getPlacementScore [] r a = None"
  by (simp add: getPlacementScore_def)

interpretation cost_plugin: linear_score_plugin "CostPlugin_ScorePlacement p0" "cost_sane p0" for p0
  by unfold_locales
    (auto simp: Cost_Inr cost_sane_def complete_for_empty split: if_splits
      intro: cost.lin.score_wf cost.lin.score_complete cost.lin.score_range)

interpretation latency_plugin: linear_score_plugin "LatencyPlugin_ScorePlacement p0" "latency_sane p0" for p0
  by unfold_locales
    (auto simp: Latency_Inr latency_sane_def complete_for_empty mget0_def split: if_splits
      intro: latency.lin.score_wf latency.lin.score_complete latency.lin.score_range)

subsection \<open>Properties\<close>

definition sample_prices :: CostPlugin where
  "sample_prices = \<lparr>InstancePrice = [(''small'', Fin (1 / 4)), (''large'', Fin 1)]\<rparr>"

definition sample_latency :: LatencyPlugin where
  "sample_latency = \<lparr>SourceCity = ''Berlin'', LatencyMs = [(''Berlin'', [(''eu'', Fin 12), (''us'', Fin 95)])]\<rparr>"

text \<open>
  A successful Cost run scores every replica on every node in the normalised range, and a node with
  a price that is not higher never gets a higher score.
\<close>

theorem cost_scores_follow_prices:
  assumes "CostPlugin_ScorePlacement (Some p) ctx = Inr m" and "cost_sane (Some p) ctx"
    and "r \<in> set (Replicas ctx)" and "n1 \<in> set (Nodes ctx)" and "n2 \<in> set (Nodes ctx)"
    and "cost_value p n1 = Inr v1" and "cost_value p n2 = Inr v2" and "fle v1 v2"
  shows "\<exists>s1 s2. getPlacementScore m r (nc_ID n1) = Some s1 \<and> getPlacementScore m r (nc_ID n2) = Some s2 \<and>
    fle s1 s2 \<and> in_score_range s1 \<and> in_score_range s2"
proof -
  have "score_by_value (cost_value p) ctx = Inr m" using assms(1,3,4) by (auto simp: Cost_Inr split: if_splits)
  moreover have "value_sane (cost_value p) ctx" using assms(2) by (simp add: cost_sane_def)
  ultimately obtain s1 s2 where "getPlacementScore m r (nc_ID n1) = Some s1"
    "getPlacementScore m r (nc_ID n2) = Some s2" "fle s1 s2"
    using cost.value_scores_order assms(3-8) by blast
  with cost_plugin.score_range [OF assms(1,2)] show ?thesis by blast
qed

theorem cost_scores_follow_prices_witness:
  "\<exists>m s1 s2. CostPlugin_ScorePlacement (Some sample_prices) sample_ctx = Inr m \<and>
    getPlacementScore m sample_r2 (nc_ID sample_node1) = Some s1 \<and>
    getPlacementScore m sample_r2 (nc_ID sample_node2) = Some s2 \<and>
    fle s1 s2 \<and> in_score_range s1 \<and> in_score_range s2"
proof -
  have ok: "\<not> isl (CostPlugin_ScorePlacement (Some sample_prices) sample_ctx)" by code_simp
  then obtain m where m: "CostPlugin_ScorePlacement (Some sample_prices) sample_ctx = Inr m"
    by (cases "CostPlugin_ScorePlacement (Some sample_prices) sample_ctx") auto
  have "cost_sane (Some sample_prices) sample_ctx" by code_simp
  moreover have "sample_r2 \<in> set (Replicas sample_ctx)" "sample_node1 \<in> set (Nodes sample_ctx)"
    "sample_node2 \<in> set (Nodes sample_ctx)" by (simp_all add: sample_ctx_def)
  moreover have "cost_value sample_prices sample_node1 = Inr (Fin (1 / 4))"
    "cost_value sample_prices sample_node2 = Inr (Fin 1)" by code_simp+
  ultimately show ?thesis using cost_scores_follow_prices [OF m] m by fastforce
qed

text \<open>
  In a successful Latency run the node with the smallest latency from the source city scores
  exactly 0 for every replica, and every score is in the normalised range.
\<close>

theorem latency_nearest_scores_zero:
  assumes "LatencyPlugin_ScorePlacement (Some p) ctx = Inr m" and "latency_sane (Some p) ctx"
    and "r \<in> set (Replicas ctx)" and "n \<in> set (Nodes ctx)"
    and "latency_value p (mget0 [] (LatencyMs p) (SourceCity p)) n = Inr v"
    and "\<forall>n' \<in> set (Nodes ctx). \<forall>v'. latency_value p (mget0 [] (LatencyMs p) (SourceCity p)) n' = Inr v' \<longrightarrow> fle v v'"
  shows "getPlacementScore m r (nc_ID n) = Some f0 \<and>
    (\<forall>r' a s. getPlacementScore m r' a = Some s \<longrightarrow> in_score_range s)"
proof -
  let ?row = "mget0 [] (LatencyMs p) (SourceCity p)"
  have "score_by_value (latency_value p ?row) ctx = Inr m"
    using assms(1,3,4) by (auto simp: Latency_Inr mget0_def split: if_splits)
  moreover have "value_sane (latency_value p ?row) ctx" using assms(2) by (simp add: latency_sane_def)
  ultimately have "getPlacementScore m r (nc_ID n) = Some f0"
    using latency.value_scores_best assms(3-6) by blast
  with latency_plugin.score_range [OF assms(1,2)] show ?thesis by blast
qed

theorem latency_nearest_scores_zero_witness:
  "\<exists>m. LatencyPlugin_ScorePlacement (Some sample_latency) sample_ctx = Inr m \<and>
    getPlacementScore m sample_r1 (nc_ID sample_node1) = Some f0"
proof -
  have ok: "\<not> isl (LatencyPlugin_ScorePlacement (Some sample_latency) sample_ctx)" by code_simp
  then obtain m where m: "LatencyPlugin_ScorePlacement (Some sample_latency) sample_ctx = Inr m"
    by (cases "LatencyPlugin_ScorePlacement (Some sample_latency) sample_ctx") auto
  let ?row = "mget0 [] (LatencyMs sample_latency) (SourceCity sample_latency)"
  have s: "latency_sane (Some sample_latency) sample_ctx" by code_simp
  have v: "latency_value sample_latency ?row sample_node1 = Inr (Fin 12)"
    "latency_value sample_latency ?row sample_node2 = Inr (Fin 95)" by code_simp+
  have "getPlacementScore m sample_r1 (nc_ID sample_node1) = Some f0 \<and>
      (\<forall>r' a s. getPlacementScore m r' a = Some s \<longrightarrow> in_score_range s)"
    by (rule latency_nearest_scores_zero [OF m s _ _ v(1)]) (auto simp: sample_ctx_def v)
  with m show ?thesis by blast
qed

end
