(* ===== verification/Matrix_Scoring.thy ===== *)
theory Matrix_Scoring
  imports Node_Scoring
begin

section \<open>Plugins that score every replica on every node\<close>

text \<open>
  \<open>EnergyPlugin.ScorePlacement\<close> and \<open>CommunicationPlugin.ScorePlacement\<close> share a second shape: after a
  preparation phase, a loop over replicas computes one raw value per node, tracking the minimum and
  maximum over the whole matrix, and a last loop over the raw map normalises every entry. The shape is
  written once here (\<open>raw_matrix\<close>, \<open>normalize_matrix\<close>), the contract of the preparation phase is the
  locale \<open>matrix_scorer\<close>, and every instance of it is a \<open>linear_score_plugin\<close>.

  The raw value of a node is looked up by the node's identity in both sources, so a row is a function
  on \<open>ClusterNodeID\<close>.
\<close>

type_synonym row_fun = "ReplicaKey \<Rightarrow> (ClusterNodeID \<Rightarrow> f64 result) result"

definition raw_row_step ::
  "row_fun \<Rightarrow> NodeContext list \<Rightarrow> ReplicaKey \<Rightarrow> score_matrix \<times> f64 \<times> f64 \<times> bool
     \<Rightarrow> (score_matrix \<times> f64 \<times> f64 \<times> bool) result" where
  "raw_row_step row nodes r s = (case s of (raw, mm) \<Rightarrow>
     rbind (row r) (\<lambda>cell.
       rbind (fold_r (node_value_step (\<lambda>n. cell (nc_ID n))) nodes ([], mm))
         (\<lambda>(m, mm'). Inr (mput r m raw, mm'))))"

definition raw_matrix :: "row_fun \<Rightarrow> PluginContext \<Rightarrow> (score_matrix \<times> f64 \<times> f64 \<times> bool) result" where
  "raw_matrix row ctx = fold_r (raw_row_step row (Nodes ctx)) (Replicas ctx) ([], f0, f0, False)"

definition normalize_row :: "f64 \<Rightarrow> f64 \<Rightarrow> node_scores \<Rightarrow> node_scores" where
  "normalize_row mn mx m = fold (\<lambda>(nid, v) nm. mput nid (normalizeTo0_100 v mn mx) nm) m []"

definition normalize_matrix :: "f64 \<Rightarrow> f64 \<Rightarrow> score_matrix \<Rightarrow> score_matrix" where
  "normalize_matrix mn mx raw = fold (\<lambda>(r, m) out. mput r (normalize_row mn mx m) out) raw []"

definition matrix_score :: "row_fun \<Rightarrow> PluginContext \<Rightarrow> score_matrix result" where
  "matrix_score row ctx =
     rbind (raw_matrix row ctx) (\<lambda>(raw, mn, mx, _). Inr (normalize_matrix mn mx raw))"

subsection \<open>The normalising loop\<close>

text \<open>A loop over a map that writes the image of every entry under the same key.\<close>

lemma mget_map_entries:
  assumes "wf_map m"
  shows "mget (fold (\<lambda>(k, v) out. mput k (g v) out) m m0) a =
    (case mget m a of Some v \<Rightarrow> Some (g v) | None \<Rightarrow> mget m0 a)"
  using assms
proof (induction m arbitrary: m0)
  case (Cons e m)
  obtain k v where e: "e = (k, v)" by (cases e)
  with Cons.prems have "wf_map m" "mget m k = None"
    by (auto simp: wf_map_def map_of_eq_None_iff)
  with Cons.IH [of "mput k (g v) m0"] e show ?case by (auto split: option.splits)
qed simp

lemma wf_map_entries:
  "wf_map m0 \<Longrightarrow> wf_map (fold (\<lambda>(k, v) out. mput k (g v) out) m m0)"
  by (induction m arbitrary: m0) auto

lemma values_map_entries:
  "x \<in> snd ` set (fold (\<lambda>(k, v) out. mput k (g v) out) m m0) \<Longrightarrow> (\<exists>v. x = g v) \<or> x \<in> snd ` set m0"
proof (induction m arbitrary: m0)
  case (Cons e m)
  obtain k v where "e = (k, v)" by (cases e)
  with Cons have "(\<exists>v. x = g v) \<or> x \<in> snd ` set (mput k (g v) m0)" by simp
  then show ?case using mvals_mput by metis
qed simp

lemma normalize_row_get:
  "wf_map m \<Longrightarrow> mget (normalize_row mn mx m) a = map_option (\<lambda>v. normalizeTo0_100 v mn mx) (mget m a)"
  unfolding normalize_row_def
  by (subst mget_map_entries [where g = "\<lambda>v. normalizeTo0_100 v mn mx"]) (auto split: option.splits)

lemma normalize_matrix_get:
  assumes "wf_matrix raw"
  shows "getPlacementScore (normalize_matrix mn mx raw) r a =
    map_option (\<lambda>v. normalizeTo0_100 v mn mx) (getPlacementScore raw r a)"
proof -
  have w: "wf_map raw" "\<And>row. mget raw r = Some row \<Longrightarrow> wf_map row"
    using assms by (auto simp: wf_matrix_def dest!: map_of_SomeD)
  show ?thesis
    unfolding getPlacementScore_def normalize_matrix_def
    by (subst mget_map_entries [OF w(1), where g = "normalize_row mn mx"])
      (auto split: option.splits simp: normalize_row_get w(2))
qed

lemma wf_normalize_matrix: "wf_matrix (normalize_matrix mn mx raw)"
proof -
  have "wf_map (normalize_row mn mx m)" for m
    unfolding normalize_row_def by (rule wf_map_entries) simp
  moreover have "\<exists>m. x = normalize_row mn mx m" if "x \<in> snd ` set (normalize_matrix mn mx raw)" for x
    using that values_map_entries [of x "normalize_row mn mx" raw "[]"]
    by (simp add: normalize_matrix_def)
  moreover have "wf_map (normalize_matrix mn mx raw)"
    unfolding normalize_matrix_def by (rule wf_map_entries) simp
  ultimately show ?thesis unfolding wf_matrix_def by metis
qed

subsection \<open>The raw loop\<close>

text \<open>One row: every node of the list gets its cell, and the bracket grows by the cells.\<close>

lemma raw_row_loop:
  assumes "fold_r (node_value_step (\<lambda>n. cell (nc_ID n))) ns (m0, s0) = Inr (m, s)"
    and "wf_map m0" and "\<forall>a v. mget m0 a = Some v \<longrightarrow> cell a = Inr v"
  shows "wf_map m \<and> (\<forall>a v. mget m a = Some v \<longrightarrow> cell a = Inr v) \<and> mkeys m = mkeys m0 \<union> nc_ID ` set ns \<and>
    (\<forall>V. brackets V s0 \<and> NaN \<notin> V \<and> (\<forall>n \<in> set ns. cell (nc_ID n) \<noteq> Inr NaN) \<longrightarrow>
       brackets (V \<union> {v. \<exists>n \<in> set ns. cell (nc_ID n) = Inr v}) s)"
  using assms
proof (induction ns arbitrary: m0 s0)
  case Nil
  then show ?case by auto
next
  case (Cons n ns)
  from Cons.prems(1) obtain v where v: "cell (nc_ID n) = Inr v"
    and rest: "fold_r (node_value_step (\<lambda>n. cell (nc_ID n))) ns
      (mput (nc_ID n) v m0, track_minmax v s0) = Inr (m, s)"
    by (auto simp: node_value_step_Inr split: sum.splits)
  have "\<forall>a u. mget (mput (nc_ID n) v m0) a = Some u \<longrightarrow> cell a = Inr u"
    using Cons.prems(3) v by auto
  from Cons.IH [OF rest wf_map_mput [OF Cons.prems(2)] this]
  have ih: "wf_map m" "\<forall>a v. mget m a = Some v \<longrightarrow> cell a = Inr v"
    "mkeys m = mkeys (mput (nc_ID n) v m0) \<union> nc_ID ` set ns"
    and br: "\<forall>V. brackets V (track_minmax v s0) \<and> NaN \<notin> V \<and> (\<forall>n \<in> set ns. cell (nc_ID n) \<noteq> Inr NaN) \<longrightarrow>
       brackets (V \<union> {v. \<exists>n \<in> set ns. cell (nc_ID n) = Inr v}) s" by simp_all
  have "brackets (V \<union> {v. \<exists>n' \<in> set (n # ns). cell (nc_ID n') = Inr v}) s"
    if V: "brackets V s0" "NaN \<notin> V" "\<forall>n' \<in> set (n # ns). cell (nc_ID n') \<noteq> Inr NaN" for V
  proof -
    have "v \<noteq> NaN" using V(3) v by auto
    with V have "brackets (insert v V) (track_minmax v s0)" by (simp add: brackets_track)
    with V \<open>v \<noteq> NaN\<close> have "brackets (insert v V \<union> {v. \<exists>n \<in> set ns. cell (nc_ID n) = Inr v}) s"
      by (intro br [rule_format]) simp
    moreover have "insert v V \<union> {v. \<exists>n \<in> set ns. cell (nc_ID n) = Inr v}
        = V \<union> {v. \<exists>n' \<in> set (n # ns). cell (nc_ID n') = Inr v}" using v by auto
    ultimately show ?thesis by simp
  qed
  with ih show ?case by auto
qed

text \<open>The value the raw matrix holds for a replica and a node, when both loops reach it.\<close>

definition cell_of :: "row_fun \<Rightarrow> ReplicaKey \<Rightarrow> ClusterNodeID \<Rightarrow> f64 result" where
  "cell_of row r a = rbind (row r) (\<lambda>cell. cell a)"

definition cells :: "row_fun \<Rightarrow> ReplicaKey set \<Rightarrow> ClusterNodeID set \<Rightarrow> f64 set" where
  "cells row R A = {v. \<exists>r \<in> R. \<exists>a \<in> A. cell_of row r a = Inr v}"

definition raw_inv ::
  "row_fun \<Rightarrow> ReplicaKey set \<Rightarrow> ClusterNodeID set \<Rightarrow> score_matrix \<times> f64 \<times> f64 \<times> bool \<Rightarrow> bool" where
  "raw_inv row R A s \<longleftrightarrow> (case s of (raw, mm) \<Rightarrow>
     wf_matrix raw \<and> mkeys raw = R \<and>
     (\<forall>r \<in> R. \<forall>a. getPlacementScore raw r a \<noteq> None \<longleftrightarrow> a \<in> A) \<and>
     (\<forall>r a v. getPlacementScore raw r a = Some v \<longrightarrow> cell_of row r a = Inr v) \<and>
     (NaN \<notin> cells row R A \<longrightarrow> brackets (cells row R A) mm))"

lemma wf_matrix_mput:
  "wf_matrix raw \<Longrightarrow> wf_map m \<Longrightarrow> wf_matrix (mput r m raw)"
  unfolding wf_matrix_def using mvals_mput [of _ r m raw] by (metis wf_map_mput)

lemma getPlacementScore_mput:
  "getPlacementScore (mput r m raw) r' a = (if r' = r then mget m a else getPlacementScore raw r' a)"
  by (simp add: getPlacementScore_def)

lemma raw_inv_step:
  assumes "raw_inv row R (nc_ID ` set ns) s" and "raw_row_step row ns r s = Inr s'"
  shows "raw_inv row (insert r R) (nc_ID ` set ns) s'"
proof -
  let ?A = "nc_ID ` set ns"
  obtain raw mm where s: "s = (raw, mm)" by (cases s)
  from assms(2) obtain cell m mm' where c: "row r = Inr cell"
    and loop: "fold_r (node_value_step (\<lambda>n. cell (nc_ID n))) ns ([], mm) = Inr (m, mm')"
    and s': "s' = (mput r m raw, mm')"
    by (auto simp: s raw_row_step_def rbind_eq_Inr)
  from raw_row_loop [OF loop] have
    m: "wf_map m" "\<forall>a v. mget m a = Some v \<longrightarrow> cell a = Inr v" "mkeys m = ?A"
    and br: "\<forall>V. brackets V mm \<and> NaN \<notin> V \<and> (\<forall>n \<in> set ns. cell (nc_ID n) \<noteq> Inr NaN) \<longrightarrow>
       brackets (V \<union> {v. \<exists>n \<in> set ns. cell (nc_ID n) = Inr v}) mm'" by simp_all
  have inv: "wf_matrix raw" "mkeys raw = R" "\<forall>r \<in> R. \<forall>a. getPlacementScore raw r a \<noteq> None \<longleftrightarrow> a \<in> ?A"
    "\<forall>r a v. getPlacementScore raw r a = Some v \<longrightarrow> cell_of row r a = Inr v"
    "NaN \<notin> cells row R ?A \<Longrightarrow> brackets (cells row R ?A) mm"
    using assms(1) unfolding raw_inv_def s prod.case by blast+
  have ca: "cell_of row r a = cell a" for a by (simp add: cell_of_def c)
  have ins: "cells row (insert r R) ?A = cells row R ?A \<union> {v. \<exists>n \<in> set ns. cell (nc_ID n) = Inr v}"
    by (auto simp: cells_def ca)
  have "brackets (cells row (insert r R) ?A) mm'" if "NaN \<notin> cells row (insert r R) ?A"
    using that inv(5) unfolding ins by (intro br [rule_format]) auto
  moreover have "\<forall>r' \<in> insert r R. \<forall>a. getPlacementScore (mput r m raw) r' a \<noteq> None \<longleftrightarrow> a \<in> ?A"
    using inv(3) m(3) mget_None_iff [of m] by (simp add: getPlacementScore_mput del: not_None_eq)
  moreover have "\<forall>r' a v. getPlacementScore (mput r m raw) r' a = Some v \<longrightarrow> cell_of row r' a = Inr v"
    using inv(4) m(2) ca by (auto simp: getPlacementScore_mput)
  ultimately show ?thesis
    unfolding raw_inv_def s' using wf_matrix_mput [OF inv(1) m(1)] inv(2) by simp
qed

lemma raw_inv_loop:
  "fold_r (raw_row_step row ns) rs s = Inr s' \<Longrightarrow> raw_inv row R (nc_ID ` set ns) s
    \<Longrightarrow> raw_inv row (R \<union> set rs) (nc_ID ` set ns) s'"
proof (induction rs arbitrary: R s)
  case (Cons r rs)
  then obtain t where t: "raw_row_step row ns r s = Inr t" "fold_r (raw_row_step row ns) rs t = Inr s'"
    by (auto split: sum.splits)
  from Cons.IH [OF t(2) raw_inv_step [OF Cons.prems(2) t(1)]] show ?case by simp
qed simp

lemma raw_matrix_inv:
  assumes "raw_matrix row ctx = Inr s"
  shows "raw_inv row (set (Replicas ctx)) (nc_ID ` set (Nodes ctx)) s"
proof -
  have "raw_inv row {} (nc_ID ` set (Nodes ctx)) ([], f0, f0, False)"
    by (simp add: raw_inv_def getPlacementScore_def cells_def)
  from raw_inv_loop [OF assms [unfolded raw_matrix_def] this] show ?thesis by simp
qed

text \<open>What a successful run returns, with or without the sanity of its cells.\<close>

lemma matrix_score_get:
  assumes "matrix_score row ctx = Inr m"
  obtains mn mx i where "wf_matrix m" and "complete_for ctx m"
    and "\<And>r a. r \<in> set (Replicas ctx) \<Longrightarrow> a \<in> nc_ID ` set (Nodes ctx) \<Longrightarrow>
      \<exists>v. cell_of row r a = Inr v \<and> getPlacementScore m r a = Some (normalizeTo0_100 v mn mx)"
    and "NaN \<notin> cells row (set (Replicas ctx)) (nc_ID ` set (Nodes ctx)) \<Longrightarrow>
      brackets (cells row (set (Replicas ctx)) (nc_ID ` set (Nodes ctx))) (mn, mx, i)"
proof -
  let ?R = "set (Replicas ctx)" and ?A = "nc_ID ` set (Nodes ctx)"
  from assms obtain raw mn mx i where raw: "raw_matrix row ctx = Inr (raw, mn, mx, i)"
    and m: "m = normalize_matrix mn mx raw"
    by (auto simp: matrix_score_def rbind_eq_Inr)
  have inv: "wf_matrix raw" "mkeys raw = ?R" "\<forall>r \<in> ?R. \<forall>a. getPlacementScore raw r a \<noteq> None \<longleftrightarrow> a \<in> ?A"
    "\<forall>r a v. getPlacementScore raw r a = Some v \<longrightarrow> cell_of row r a = Inr v"
    "NaN \<notin> cells row ?R ?A \<Longrightarrow> brackets (cells row ?R ?A) (mn, mx, i)"
    using raw_matrix_inv [OF raw] unfolding raw_inv_def prod.case by blast+
  have get: "getPlacementScore m r a = map_option (\<lambda>v. normalizeTo0_100 v mn mx) (getPlacementScore raw r a)" for r a
    unfolding m by (rule normalize_matrix_get [OF inv(1)])
  have out: "getPlacementScore raw r a = None" if "r \<notin> ?R" for r a
    using inv(2) that mget_None_iff [of raw r] by (simp add: getPlacementScore_def)
  have "complete_for ctx m"
    unfolding complete_for_def get option.map_disc_iff
  proof (intro allI)
    fix r a
    show "getPlacementScore raw r a \<noteq> None \<longleftrightarrow> r \<in> ?R \<and> a \<in> ?A"
      using inv(3) out by (cases "r \<in> ?R") simp_all
  qed
  moreover have "\<exists>v. cell_of row r a = Inr v \<and> getPlacementScore m r a = Some (normalizeTo0_100 v mn mx)"
    if "r \<in> ?R" "a \<in> ?A" for r a
  proof -
    have "getPlacementScore raw r a \<noteq> None" using inv(3) that by simp
    then obtain v where v: "getPlacementScore raw r a = Some v" by auto
    then show ?thesis using inv(4) get by simp
  qed
  ultimately show thesis
    using wf_normalize_matrix [of mn mx raw, folded m] inv(5) by (intro that [of mn mx i])
qed

subsection \<open>The contract of a preparation phase\<close>

text \<open>
  A plugin of this shape is its preparation phase \<open>prep\<close>, which fails or yields the row function. What
  the range of the scores needs from it: on sane contexts every cell that is computed is a moderate
  finite number.
\<close>

definition prepared_score :: "(PluginContext \<Rightarrow> row_fun result) \<Rightarrow> PluginContext \<Rightarrow> score_matrix result" where
  "prepared_score prep ctx = rbind (prep ctx) (\<lambda>row. matrix_score row ctx)"

locale matrix_scorer =
  fixes prep :: "PluginContext \<Rightarrow> row_fun result"
    and sane :: "PluginContext \<Rightarrow> bool"
  assumes cell_moderate: "sane ctx \<Longrightarrow> prep ctx = Inr row \<Longrightarrow> r \<in> set (Replicas ctx) \<Longrightarrow>
    n \<in> set (Nodes ctx) \<Longrightarrow> cell_of row r (nc_ID n) = Inr v \<Longrightarrow> \<exists>q. v = Fin q \<and> moderate q"
begin

text \<open>
  The scores of a successful run on a sane context: a smallest and a largest cell exist, and every
  score is its cell normalised between them.
\<close>

lemma matrix_explicit:
  assumes "sane ctx" and "prep ctx = Inr row" and "matrix_score row ctx = Inr m"
    and "Replicas ctx \<noteq> []" and "Nodes ctx \<noteq> []"
  shows "\<exists>lo hi. moderate lo \<and> moderate hi \<and> lo \<le> hi \<and>
    (\<forall>r \<in> set (Replicas ctx). \<forall>n \<in> set (Nodes ctx). \<exists>q. cell_of row r (nc_ID n) = Inr (Fin q) \<and>
       lo \<le> q \<and> q \<le> hi \<and>
       getPlacementScore m r (nc_ID n) = Some (normalizeTo0_100 (Fin q) (Fin lo) (Fin hi)))"
proof -
  let ?R = "set (Replicas ctx)" and ?A = "nc_ID ` set (Nodes ctx)"
  let ?V = "cells row ?R ?A"
  obtain mn mx i where "wf_matrix m" "complete_for ctx m" and get: "\<And>r a. r \<in> ?R \<Longrightarrow> a \<in> ?A \<Longrightarrow>
      \<exists>v. cell_of row r a = Inr v \<and> getPlacementScore m r a = Some (normalizeTo0_100 v mn mx)"
    and br: "NaN \<notin> ?V \<Longrightarrow> brackets ?V (mn, mx, i)"
    by (rule matrix_score_get [OF assms(3)]) blast
  have mod: "\<exists>q. v = Fin q \<and> moderate q" if "v \<in> ?V" for v
    using that cell_moderate [OF assms(1,2)] by (auto simp: cells_def)
  then have "NaN \<notin> ?V" by fastforce
  note br = br [OF this]
  have r0: "hd (Replicas ctx) \<in> ?R" "nc_ID (hd (Nodes ctx)) \<in> ?A"
    using assms(4,5) by simp_all
  with get [OF r0] have "?V \<noteq> {}" unfolding cells_def by blast
  with br have V: "mn \<in> ?V" "mx \<in> ?V" "\<forall>v \<in> ?V. fle mn v \<and> fle v mx" by (auto simp: brackets_def)
  obtain lo where lo: "mn = Fin lo" "moderate lo" using mod [OF V(1)] by blast
  obtain hi where hi: "mx = Fin hi" "moderate hi" using mod [OF V(2)] by blast
  have "lo \<le> hi" using V lo hi by auto
  moreover have "\<exists>q. cell_of row r (nc_ID n) = Inr (Fin q) \<and> lo \<le> q \<and> q \<le> hi \<and>
      getPlacementScore m r (nc_ID n) = Some (normalizeTo0_100 (Fin q) (Fin lo) (Fin hi))"
    if rn: "r \<in> ?R" "n \<in> set (Nodes ctx)" for r n
  proof -
    have "nc_ID n \<in> ?A" using rn(2) by simp
    from get [OF rn(1) this] obtain v where v: "cell_of row r (nc_ID n) = Inr v"
      "getPlacementScore m r (nc_ID n) = Some (normalizeTo0_100 v mn mx)" by blast
    have "v \<in> ?V" using v(1) rn \<open>nc_ID n \<in> ?A\<close> unfolding cells_def by blast
    with mod obtain q where q: "v = Fin q" by blast
    have "fle mn v \<and> fle v mx" using V(3) \<open>v \<in> ?V\<close> by (rule bspec)
    then show ?thesis using v q lo hi by auto
  qed
  ultimately show ?thesis using lo(2) hi(2) by blast
qed

lemma matrix_range:
  assumes "sane ctx" and "prep ctx = Inr row" and "matrix_score row ctx = Inr m"
    and "getPlacementScore m r a = Some s"
  shows "in_score_range s"
proof -
  have "complete_for ctx m" using matrix_score_get [OF assms(3)] by metis
  then have ra: "r \<in> set (Replicas ctx)" "a \<in> nc_ID ` set (Nodes ctx)"
    using assms(4) unfolding complete_for_def by (metis option.discI)+
  then obtain n where n: "n \<in> set (Nodes ctx)" "a = nc_ID n" by auto
  have ne: "Replicas ctx \<noteq> []" "Nodes ctx \<noteq> []" using ra n by auto
  obtain lo hi q where "moderate lo" "moderate hi"
    "getPlacementScore m r (nc_ID n) = Some (normalizeTo0_100 (Fin q) (Fin lo) (Fin hi))"
    using matrix_explicit [OF assms(1-3) ne] ra(1) n(1) by blast
  with assms(4) n(2) show ?thesis using in_score_range_normalize by fastforce
qed

text \<open>A cheaper cell never gets a worse score, across replicas as well as nodes.\<close>

lemma matrix_order:
  assumes "sane ctx" and "prep ctx = Inr row" and "matrix_score row ctx = Inr m"
    and "r1 \<in> set (Replicas ctx)" and "n1 \<in> set (Nodes ctx)" and "cell_of row r1 (nc_ID n1) = Inr v1"
    and "r2 \<in> set (Replicas ctx)" and "n2 \<in> set (Nodes ctx)" and "cell_of row r2 (nc_ID n2) = Inr v2"
    and "fle v1 v2"
  shows "\<exists>s1 s2. getPlacementScore m r1 (nc_ID n1) = Some s1 \<and>
    getPlacementScore m r2 (nc_ID n2) = Some s2 \<and> fle s1 s2"
proof -
  have ne: "Replicas ctx \<noteq> []" "Nodes ctx \<noteq> []" using assms(4,5) by auto
  obtain lo hi where lh: "moderate lo" "moderate hi"
    and e: "\<And>r n. r \<in> set (Replicas ctx) \<Longrightarrow> n \<in> set (Nodes ctx) \<Longrightarrow> \<exists>q. cell_of row r (nc_ID n) = Inr (Fin q) \<and>
       getPlacementScore m r (nc_ID n) = Some (normalizeTo0_100 (Fin q) (Fin lo) (Fin hi))"
    using matrix_explicit [OF assms(1-3) ne] by blast
  obtain q1 q2 where "v1 = Fin q1" "v2 = Fin q2"
    "getPlacementScore m r1 (nc_ID n1) = Some (normalizeTo0_100 (Fin q1) (Fin lo) (Fin hi))"
    "getPlacementScore m r2 (nc_ID n2) = Some (normalizeTo0_100 (Fin q2) (Fin lo) (Fin hi))"
    using e [OF assms(4,5)] e [OF assms(7,8)] assms(6,9) by auto
  then show ?thesis using assms(10) normalize_mono [OF lh] by simp
qed

end

sublocale matrix_scorer < mlin: linear_score_plugin "prepared_score prep" sane
proof
  fix ctx m
  assume "prepared_score prep ctx = Inr m"
  then obtain row where row: "prep ctx = Inr row" "matrix_score row ctx = Inr m"
    by (auto simp: prepared_score_def rbind_eq_Inr)
  show "wf_matrix m" using matrix_score_get [OF row(2)] by metis
  show "complete_for ctx m" using matrix_score_get [OF row(2)] by metis
  show "in_score_range s" if "sane ctx" "getPlacementScore m r a = Some s" for r a s
    by (rule matrix_range [OF that(1) row that(2)])
qed

end
