(* ===== verification/Energy.thy ===== *)
theory Energy
  imports Matrix_Scoring
begin

section \<open>Energy plugin\<close>

text \<open>
  \<open>plugin_energy.go\<close>: a node's marginal power at its current utilisation, in watts per core, is read
  off a sampled power curve (\<open>marginalWattsPerCore\<close>); a replica's raw score on a node is that number
  times the replica's CPU request, and the matrix is normalised by the shared loop of
  \<open>Matrix_Scoring\<close>.
\<close>

record PowerSample =
  Util :: f64
  Power :: f64

record PowerCurve =
  Samples :: "PowerSample list"

record EnergyPlugin =
  InstancePower :: "(string, PowerCurve) gomap"
  InstanceTypeLabelKey :: string

subsection \<open>Marginal power\<close>

text \<open>The difference quotient over one segment, divided by the number of cores.\<close>

definition segment_slope :: "PowerSample \<Rightarrow> PowerSample \<Rightarrow> f64 \<Rightarrow> f64 result" where
  "segment_slope a b totalCores =
     (let du = fsub (Util b) (Util a) in
      if fle du f0 then Inl DuplicateUtil
      else Inr (fdiv (fdiv (fsub (Power b) (Power a)) du) totalCores))"

text \<open>The loop that looks for the segment containing the utilisation.\<close>

fun find_segment :: "PowerSample list \<Rightarrow> f64 \<Rightarrow> f64 \<Rightarrow> f64 result" where
  "find_segment (a # b # s) util totalCores =
     (if fle (Util a) util \<and> fle util (Util b) then segment_slope a b totalCores
      else find_segment (b # s) util totalCores)"
| "find_segment _ util totalCores = Inl NoUtilSegment"

definition check_util :: "PowerSample \<Rightarrow> unit \<Rightarrow> unit result" where
  "check_util p _ = (if flt (Util p) f0 \<or> flt (Fin 1) (Util p) then Inl (InvalidUtil (Util p)) else Inr ())"

definition marginalWattsPerCore :: "PowerCurve \<Rightarrow> f64 \<Rightarrow> f64 \<Rightarrow> f64 result" where
  "marginalWattsPerCore curve util totalCores =
     (if fle totalCores f0 then Inl (InvalidTotalCores totalCores)
      else if length (Samples curve) < 2 then Inl TooFewSamples
      else let s = sort_slice (\<lambda>a b. flt (Util a) (Util b)) (Samples curve) in
        rbind (fold_r check_util s ()) (\<lambda>_.
          if fle util (Util (s ! 0)) then segment_slope (s ! 0) (s ! 1) totalCores
          else if fle (Util (s ! (length s - 1))) util
          then segment_slope (s ! (length s - 2)) (s ! (length s - 1)) totalCores
          else find_segment s util totalCores))"

subsection \<open>Placement scores\<close>

definition node_util :: "NodeContext \<Rightarrow> f64" where
  "node_util n =
     (let used0 = wrap64 (CPUAllocatableMilli n - CPUFreeMilli n);
          used = (if used0 < 0 then 0 else used0);
          util = fdiv (of_int64 used) (of_int64 (CPUAllocatableMilli n));
          util1 = (if flt util f0 then f0 else util)
      in if flt (Fin 1) util1 then Fin 1 else util1)"

definition energy_coeff_step :: "EnergyPlugin \<Rightarrow> string \<Rightarrow> NodeContext \<Rightarrow> node_scores \<Rightarrow> node_scores result" where
  "energy_coeff_step p key n coeff =
     (let it = mget0 '''' (Labels n) key in
      if it = '''' then Inl (MissingLabel key (nc_ID n))
      else case mget (InstancePower p) it of
        None \<Rightarrow> Inl (MissingPowerCurve it (nc_ID n))
      | Some curve \<Rightarrow>
          if CPUAllocatableMilli n \<le> 0 then Inl (InvalidCPUAllocatable (nc_ID n))
          else rbind (marginalWattsPerCore curve (node_util n)
                 (fdiv (of_int64 (CPUAllocatableMilli n)) (Fin 1000)))
                 (\<lambda>w. Inr (mput (nc_ID n) w coeff)))"

definition energy_row :: "(ReplicaKey, ResourceQuantity) gomap \<Rightarrow> node_scores \<Rightarrow> row_fun" where
  "energy_row reqs coeff r =
     (case mget reqs r of
        None \<Rightarrow> Inl (MissingReplicaRequest r)
      | Some req \<Rightarrow>
          if MilliCPU req \<le> 0 then Inl (InvalidReplicaCPU r (MilliCPU req))
          else Inr (\<lambda>a. Inr (fmul (mget0 f0 coeff a) (fdiv (of_int64 (MilliCPU req)) (Fin 1000)))))"

text \<open>The checks and the coefficient loop that precede the score matrix.\<close>

definition energy_prepare :: "EnergyPlugin option \<Rightarrow> PluginContext \<Rightarrow> row_fun result" where
  "energy_prepare p0 ctx =
     (case p0 of
        None \<Rightarrow> Inl (NilPlugin ''EnergyPlugin'')
      | Some p \<Rightarrow>
          if InstancePower p = [] then Inl (EmptyInput ''InstancePower'')
          else let key = (if InstanceTypeLabelKey p = '''' then LabelInstanceType else InstanceTypeLabelKey p) in
            case ReplicaRequests ctx of
              None \<Rightarrow> Inl (EmptyInput ''ReplicaRequests'')
            | Some reqs \<Rightarrow>
                rbind (fold_r (energy_coeff_step p key) (Nodes ctx) []) (\<lambda>coeff. Inr (energy_row reqs coeff)))"

definition EnergyPlugin_ScorePlacement :: "EnergyPlugin option \<Rightarrow> PluginContext \<Rightarrow> score_matrix result" where
  "EnergyPlugin_ScorePlacement p0 ctx =
     (if Replicas ctx = [] \<or> Nodes ctx = [] then Inr []
      else prepared_score (energy_prepare p0) ctx)"

subsection \<open>Lemmas: the segment search\<close>

text \<open>
  A curve the code accepts: at least two samples, utilisations in the unit interval and pairwise
  different.
\<close>

definition valid_curve :: "PowerCurve \<Rightarrow> bool" where
  "valid_curve c \<longleftrightarrow> 2 \<le> length (Samples c) \<and>
     (\<forall>p \<in> set (Samples c). case Util p of Fin u \<Rightarrow> 0 \<le> u \<and> u \<le> 1 \<and> repr64 u | _ \<Rightarrow> False) \<and>
     distinct (map Util (Samples c))"

definition sorted_samples :: "PowerCurve \<Rightarrow> PowerSample list" where
  "sorted_samples c = sort_slice (\<lambda>a b. flt (Util a) (Util b)) (Samples c)"

definition util_val :: "PowerSample \<Rightarrow> rat" where
  "util_val p = (case Util p of Fin u \<Rightarrow> u | _ \<Rightarrow> 0)"

lemma valid_util:
  assumes "valid_curve c" and "p \<in> set (Samples c)"
  shows "Util p = Fin (util_val p)" and "0 \<le> util_val p" and "util_val p \<le> 1" and "repr64 (util_val p)"
proof -
  obtain u where "Util p = Fin u" "0 \<le> u" "u \<le> 1" "repr64 u"
    using assms unfolding valid_curve_def by (cases "Util p") fastforce+
  then show "Util p = Fin (util_val p)" and "0 \<le> util_val p" and "util_val p \<le> 1" and "repr64 (util_val p)"
    by (simp_all add: util_val_def)
qed

text \<open>
  The facts about the sorted samples that the searches need: two or more, all utilisations finite and
  representable in the unit interval, strictly increasing.
\<close>

definition sorted_curve :: "PowerSample list \<Rightarrow> bool" where
  "sorted_curve s \<longleftrightarrow> 2 \<le> length s \<and>
     (\<forall>p \<in> set s. Util p = Fin (util_val p) \<and> 0 \<le> util_val p \<and> util_val p \<le> 1 \<and> repr64 (util_val p)) \<and>
     sorted_wrt (\<lambda>a b. util_val a < util_val b) s"

lemma strict_of_weak:
  assumes "sorted_wrt (\<lambda>a b. \<not> flt (Util b) (Util a)) s" and "distinct (map Util s)"
    and "\<And>p. p \<in> set s \<Longrightarrow> Util p = Fin (util_val p)"
  shows "sorted_wrt (\<lambda>a b. util_val a < util_val b) s"
  using assms
proof (induction s)
  case (Cons a s)
  have "util_val a < util_val b" if b: "b \<in> set s" for b
  proof -
    have u: "Util a = Fin (util_val a)" "Util b = Fin (util_val b)" using Cons.prems(3) b by simp_all
    have "Util a \<noteq> Util b" using Cons.prems(2) b by auto
    moreover have "\<not> flt (Util b) (Util a)" using Cons.prems(1) b by simp
    ultimately show ?thesis by (simp add: u)
  qed
  with Cons show ?case by simp
qed simp

lemma valid_sorted_curve:
  assumes "valid_curve c"
  shows "sorted_curve (sorted_samples c)"
proof -
  have st: "set (sorted_samples c) = set (Samples c)" by (simp add: sorted_samples_def)
  have w: "weak_order (set (Samples c)) (\<lambda>a b. flt (Util a) (Util b))"
    unfolding weak_order_def by (auto simp: valid_util(1) [OF assms])
  have "mset (map Util (sorted_samples c)) = mset (map Util (Samples c))"
    by (simp add: sorted_samples_def)
  then have "distinct (map Util (sorted_samples c))"
    using assms mset_eq_imp_distinct_iff unfolding valid_curve_def by blast
  moreover have "sorted_wrt (\<lambda>a b. \<not> flt (Util b) (Util a)) (sorted_samples c)"
    unfolding sorted_samples_def by (rule sort_slice_sorted [OF w])
  ultimately have "sorted_wrt (\<lambda>a b. util_val a < util_val b) (sorted_samples c)"
    by (intro strict_of_weak) (simp_all add: st valid_util(1) [OF assms])
  moreover have "2 \<le> length (sorted_samples c)" using assms by (simp add: sorted_samples_def valid_curve_def)
  ultimately show ?thesis unfolding sorted_curve_def st using valid_util [OF assms] by blast
qed

lemma sorted_curve_less: "sorted_curve s \<Longrightarrow> i < j \<Longrightarrow> j < length s \<Longrightarrow> util_val (s ! i) < util_val (s ! j)"
  unfolding sorted_curve_def by (simp add: sorted_wrt_iff_nth_less)

text \<open>Two neighbouring samples give a quotient: their rounded distance is positive.\<close>

lemma segment_slope_ok:
  assumes "sorted_curve s" and "Suc i < length s"
  shows "segment_slope (s ! i) (s ! Suc i) tc =
    Inr (fdiv (fdiv (fsub (Power (s ! Suc i)) (Power (s ! i))) (fsub (Util (s ! Suc i)) (Util (s ! i)))) tc)"
    and "fsub (Util (s ! Suc i)) (Util (s ! i)) = Fin (rnd64 (util_val (s ! Suc i) - util_val (s ! i)))"
    and "0 < rnd64 (util_val (s ! Suc i) - util_val (s ! i))"
proof -
  let ?a = "s ! i" and ?b = "s ! Suc i"
  have in_s: "?a \<in> set s" "?b \<in> set s" using assms(2) by simp_all
  then have u: "Util ?a = Fin (util_val ?a)" "Util ?b = Fin (util_val ?b)"
    and m: "moderate (util_val ?a)" "moderate (util_val ?b)"
    using assms(1) pw2_mono [of 0 1000] by (auto simp: sorted_curve_def moderate_def pw2_powi)
  have lt: "util_val ?a < util_val ?b" using assms by (intro sorted_curve_less) simp_all
  note sp = spread_rnd [OF m lt]
  show d: "fsub (Util ?b) (Util ?a) = Fin (rnd64 (util_val ?b - util_val ?a))"
    unfolding u using sp(3) by (simp add: fsub_def)
  show p: "0 < rnd64 (util_val ?b - util_val ?a)" by (rule sp(1))
  show "segment_slope ?a ?b tc = Inr (fdiv (fdiv (fsub (Power ?b) (Power ?a)) (fsub (Util ?b) (Util ?a))) tc)"
    unfolding segment_slope_def Let_def d using p by simp
qed

text \<open>The search loop finds a segment that contains the utilisation.\<close>

lemma find_segment_hit:
  assumes "Suc 0 < length s" and "fle (Util (s ! 0)) u" and "fle u (Util (last s))"
    and "\<forall>p \<in> set s. Util p \<noteq> NaN"
  shows "\<exists>i. Suc i < length s \<and> fle (Util (s ! i)) u \<and> fle u (Util (s ! Suc i)) \<and>
    find_segment s u tc = segment_slope (s ! i) (s ! Suc i) tc"
  using assms
proof (induction s)
  case (Cons a s)
  then obtain b t where s: "s = b # t" by (cases s) auto
  show ?case
  proof (cases "fle u (Util b)")
    case True
    then show ?thesis using Cons.prems(2) s by (intro exI [of _ 0]) simp
  next
    case False
    then have "fle (Util b) u" using Cons.prems(2,4) s fle_total fle_not_NaN by fastforce
    moreover have "t \<noteq> []" using False Cons.prems(3) s by auto
    ultimately obtain i where "Suc i < length s" "fle (Util (s ! i)) u" "fle u (Util (s ! Suc i))"
      "find_segment s u tc = segment_slope (s ! i) (s ! Suc i) tc"
      using Cons.IH Cons.prems(3,4) s by (auto split: if_splits)
    then show ?thesis using False s by (intro exI [of _ "Suc i"]) simp
  qed
qed simp

text \<open>
  On a valid curve the routine always returns a quotient, of a segment that contains the utilisation
  or of the first or last segment when the utilisation lies outside the samples.
\<close>

definition covers :: "PowerSample list \<Rightarrow> nat \<Rightarrow> f64 \<Rightarrow> bool" where
  "covers s i u \<longleftrightarrow> (fle (Util (s ! i)) u \<or> i = 0 \<and> fle u (Util (s ! 0))) \<and>
     (fle u (Util (s ! Suc i)) \<or> Suc (Suc i) = length s \<and> fle (Util (last s)) u)"

lemma check_util_ok:
  assumes "sorted_curve s"
  shows "fold_r check_util s () = Inr ()"
proof -
  have "\<exists>t'. check_util p t = Inr t'" if "p \<in> set s" for p t
    using assms that unfolding sorted_curve_def check_util_def by auto
  from fold_r_total [of s check_util "()"] this show ?thesis by auto
qed

lemma marginal_segment:
  assumes "valid_curve c" and "u \<noteq> NaN" and "flt f0 tc"
  defines "s \<equiv> sorted_samples c"
  shows "\<exists>i. Suc i < length s \<and> covers s i u \<and>
    marginalWattsPerCore c u tc = segment_slope (s ! i) (s ! Suc i) tc"
proof -
  have sc: "sorted_curve s" unfolding s_def using assms(1) by (rule valid_sorted_curve)
  then have len: "2 \<le> length s" and nn: "\<forall>p \<in> set s. Util p \<noteq> NaN" by (auto simp: sorted_curve_def)
  have ls: "last s = s ! (length s - 1)" using len by (intro last_conv_nth) auto
  have "\<not> fle tc f0" using assms(3) fle_antisym flt_iff by blast
  moreover have "\<not> length (Samples c) < 2" using assms(1) by (simp add: valid_curve_def)
  ultimately have m: "marginalWattsPerCore c u tc =
      (if fle u (Util (s ! 0)) then segment_slope (s ! 0) (s ! 1) tc
       else if fle (Util (s ! (length s - 1))) u
       then segment_slope (s ! (length s - 2)) (s ! (length s - 1)) tc
       else find_segment s u tc)"
    using check_util_ok [OF sc]
    by (simp add: marginalWattsPerCore_def s_def sorted_samples_def Let_def)
  have le_or: "fle (Util p) u \<or> fle u (Util p)" if "p \<in> set s" for p
    using that nn assms(2) fle_total by blast
  consider (lo) "fle u (Util (s ! 0))" | (hi) "\<not> fle u (Util (s ! 0))" "fle (Util (last s)) u"
    | (mid) "\<not> fle u (Util (s ! 0))" "\<not> fle (Util (last s)) u" by blast
  then show ?thesis
  proof cases
    case lo
    have "util_val (s ! 0) < util_val (s ! 1)" using sc len by (intro sorted_curve_less) simp_all
    moreover have "s ! 0 \<in> set s" "s ! 1 \<in> set s" using len by (auto intro!: nth_mem)
    ultimately have "fle (Util (s ! 0)) (Util (s ! 1))" using sc unfolding sorted_curve_def by simp
    with lo have "fle u (Util (s ! 1))" using fle_trans by blast
    with lo len show ?thesis by (intro exI [of _ 0]) (simp add: m covers_def)
  next
    case hi
    let ?i = "length s - 2"
    have i: "Suc ?i = length s - 1" "Suc (Suc ?i) = length s" using len by simp_all
    have "fle (Util (s ! ?i)) (Util (last s))"
    proof -
      have "util_val (s ! ?i) < util_val (s ! Suc ?i)" using sc len by (intro sorted_curve_less) simp_all
      moreover have "s ! ?i \<in> set s" "s ! Suc ?i \<in> set s" using len by simp_all
      ultimately show ?thesis using sc i unfolding sorted_curve_def ls by simp
    qed
    with hi(2) have "fle (Util (s ! ?i)) u" using fle_trans by blast
    with hi ls i len show ?thesis by (intro exI [of _ ?i]) (simp add: m covers_def)
  next
    case mid
    have "fle (Util (s ! 0)) u" "fle u (Util (last s))"
      using mid le_or len ls by (metis One_nat_def Suc_le_lessD diff_less less_le_trans nth_mem numeral_2_eq_2 zero_less_Suc)+
    from find_segment_hit [OF _ this nn, of tc] len mid ls show ?thesis
      by (auto simp: m covers_def)
  qed
qed

lemma flt_f0_cases: "flt f0 tc \<Longrightarrow> (\<exists>t. tc = Fin t \<and> 0 < t) \<or> tc = PInf"
  by (cases tc) auto

text \<open>Power that grows with utilisation gives a marginal power that is not negative.\<close>

definition monotone_curve :: "PowerCurve \<Rightarrow> bool" where
  "monotone_curve c \<longleftrightarrow> (\<forall>p \<in> set (Samples c). is_fin (Power p)) \<and>
     (\<forall>p \<in> set (Samples c). \<forall>q \<in> set (Samples c). flt (Util p) (Util q) \<longrightarrow> fle (Power p) (Power q))"

lemma fdiv_nonneg: "fle f0 x \<Longrightarrow> 0 < d \<Longrightarrow> fle f0 (fdiv x (Fin d))"
  by (cases x) (auto intro: to_f64_nonneg)

lemma marginal_nonneg:
  assumes "valid_curve c" and "monotone_curve c" and "u \<noteq> NaN" and "0 < t"
  shows "\<exists>w. marginalWattsPerCore c u (Fin t) = Inr w \<and> fle f0 w"
proof -
  let ?s = "sorted_samples c"
  obtain i where i: "Suc i < length ?s"
    and m: "marginalWattsPerCore c u (Fin t) = segment_slope (?s ! i) (?s ! Suc i) (Fin t)"
    using marginal_segment [OF assms(1,3), of "Fin t"] assms(4) by auto
  have sc: "sorted_curve ?s" using assms(1) by (rule valid_sorted_curve)
  note sl = segment_slope_ok [OF sc i]
  have mem: "?s ! i \<in> set (Samples c)" "?s ! Suc i \<in> set (Samples c)"
    using i nth_mem [of i ?s] nth_mem [of "Suc i" ?s] by (simp_all add: sorted_samples_def)
  then have "flt (Util (?s ! i)) (Util (?s ! Suc i))"
    using sorted_curve_less [OF sc, of i "Suc i"] i valid_util(1) [OF assms(1)] by simp
  then have "fle (Power (?s ! i)) (Power (?s ! Suc i))" "is_fin (Power (?s ! i))" "is_fin (Power (?s ! Suc i))"
    using assms(2) mem unfolding monotone_curve_def by blast+
  then have "fle f0 (fsub (Power (?s ! Suc i)) (Power (?s ! i)))"
    by (auto simp: is_fin_conv fsub_def intro!: to_f64_nonneg simp del: fle.simps) simp
  then have "fle f0 (fdiv (fdiv (fsub (Power (?s ! Suc i)) (Power (?s ! i))) (fsub (Util (?s ! Suc i)) (Util (?s ! i)))) (Fin t))"
    using sl(2,3) assms(4) by (simp add: fdiv_nonneg)
  then show ?thesis unfolding m sl(1) by blast
qed

subsection \<open>Sane inputs and the scoring contract\<close>

text \<open>
  Inputs for which no intermediate result overflows: valid curves whose powers are below \<open>2^100\<close> and
  whose utilisations differ by at least \<open>2^-100\<close>, and quantities that are \<open>int64\<close>. They leave all
  room a real profile needs.
\<close>

definition tame_curve :: "PowerCurve \<Rightarrow> bool" where
  "tame_curve c \<longleftrightarrow> valid_curve c \<and> (\<forall>p \<in> set (Samples c). fbound 100 (Power p)) \<and>
     (\<forall>p \<in> set (Samples c). \<forall>q \<in> set (Samples c). util_val p < util_val q \<longrightarrow> pw2 (- 100) \<le> util_val q - util_val p)"

definition energy_sane :: "EnergyPlugin option \<Rightarrow> PluginContext \<Rightarrow> bool" where
  "energy_sane p0 ctx \<longleftrightarrow>
     (case p0 of None \<Rightarrow> True | Some p \<Rightarrow> \<forall>c \<in> snd ` set (InstancePower p). tame_curve c) \<and>
     (\<forall>n \<in> set (Nodes ctx). in_int64 (CPUAllocatableMilli n)) \<and>
     (case ReplicaRequests ctx of None \<Rightarrow> True | Some reqs \<Rightarrow> \<forall>q \<in> snd ` set reqs. in_int64 (MilliCPU q))"

lemma milli_to_cores:
  assumes "0 < i" and "in_int64 i"
  shows "\<exists>t. fdiv (of_int64 i) (Fin 1000) = Fin t \<and> pw2 (- 10) \<le> t"
    and "fbound 54 (fdiv (of_int64 i) (Fin 1000))"
proof -
  have b: "fbound 63 (of_int64 i)" using assms by (intro fbound_of_int64) (simp add: in_int64_def)
  have "fbound (63 - 9) (fdiv (of_int64 i) (Fin 1000))"
    by (rule fbound_fdiv [OF b refl]) (simp_all add: pw2_nat)
  then show fb: "fbound 54 (fdiv (of_int64 i) (Fin 1000))" by simp
  obtain p where p: "of_int64 i = Fin p" using b by (rule fboundE)
  have "\<bar>of_int i\<bar> \<le> pw2 63"
  proof -
    have "(of_int \<bar>i\<bar> :: rat) \<le> of_int (2 ^ 63)" using assms by (simp only: of_int_le_iff) (simp add: in_int64_def)
    then show ?thesis by (simp add: pw2_nat)
  qed
  then have "p = rnd64 (of_int i)" using p fbound_to_f64(2) [of "of_int i" 63] by (simp add: of_int64_def)
  moreover have "1 \<le> rnd64 (of_int i)" using assms(1) rnd64_int [of 1] by (intro r64.rnd_ge_fix) simp_all
  ultimately have "1 \<le> p" by simp
  then have "pw2 (- 10) \<le> p / 1000" by (simp add: pw2_powi power_int_minus)
  then have "pw2 (- 10) \<le> rnd64 (p / 1000)" by (intro r64.rnd_ge_fix rnd64_pw2) simp_all
  moreover obtain t where t: "fdiv (of_int64 i) (Fin 1000) = Fin t" using fb by (rule fboundE)
  moreover have "t = rnd64 (p / 1000)" using t p by (simp add: to_f64_cases split: if_splits)
  ultimately show "\<exists>t. fdiv (of_int64 i) (Fin 1000) = Fin t \<and> pw2 (- 10) \<le> t" by blast
qed

lemma marginal_bound:
  assumes "tame_curve c" and "u \<noteq> NaN" and "pw2 (- 10) \<le> t"
  shows "\<exists>w. marginalWattsPerCore c u (Fin t) = Inr w \<and> fbound 211 w"
proof -
  let ?s = "sorted_samples c"
  have v: "valid_curve c" using assms(1) by (simp add: tame_curve_def)
  have "0 < t" using assms(3) pw2_pos [of "- 10"] by linarith
  then obtain i where i: "Suc i < length ?s"
    and m: "marginalWattsPerCore c u (Fin t) = segment_slope (?s ! i) (?s ! Suc i) (Fin t)"
    using marginal_segment [OF v assms(2), of "Fin t"] by auto
  have sc: "sorted_curve ?s" using v by (rule valid_sorted_curve)
  note sl = segment_slope_ok [OF sc i]
  have mem: "?s ! i \<in> set (Samples c)" "?s ! Suc i \<in> set (Samples c)"
    using i nth_mem [of i ?s] nth_mem [of "Suc i" ?s] by (simp_all add: sorted_samples_def)
  have "util_val (?s ! i) < util_val (?s ! Suc i)" using sc i by (intro sorted_curve_less) simp_all
  then have "pw2 (- 100) \<le> util_val (?s ! Suc i) - util_val (?s ! i)"
    using assms(1) mem unfolding tame_curve_def by blast
  then have d: "pw2 (- 100) \<le> rnd64 (util_val (?s ! Suc i) - util_val (?s ! i))"
    by (intro r64.rnd_ge_fix rnd64_pw2) simp_all
  have "fbound (100 + 1) (fsub (Power (?s ! Suc i)) (Power (?s ! i)))"
    using assms(1) mem unfolding tame_curve_def by (intro fbound_fsub) simp_all
  from fbound_fdiv [OF this sl(2) d]
  have "fbound 201 (fdiv (fsub (Power (?s ! Suc i)) (Power (?s ! i))) (fsub (Util (?s ! Suc i)) (Util (?s ! i))))"
    by simp
  from fbound_fdiv [OF this refl assms(3)] show ?thesis unfolding m sl(1) by simp
qed

lemma node_util_not_NaN:
  assumes "0 < CPUAllocatableMilli n" and "in_int64 (CPUAllocatableMilli n)"
  shows "node_util n \<noteq> NaN"
proof -
  let ?u0 = "wrap64 (CPUAllocatableMilli n - CPUFreeMilli n)"
  let ?u = "if ?u0 < 0 then 0 else ?u0"
  have "fbound 63 (of_int64 ?u)"
    using wrap64_range [of "CPUAllocatableMilli n - CPUFreeMilli n"]
    by (intro fbound_of_int64) (auto simp: in_int64_def)
  moreover have "fbound 63 (of_int64 (CPUAllocatableMilli n))"
    using assms by (intro fbound_of_int64) (simp add: in_int64_def)
  moreover have "fle (Fin 1) (of_int64 (CPUAllocatableMilli n))"
  proof -
    have "to_f64 1 = Fin 1" using to_f64_repr [OF repr64_int [of 1]] by simp
    moreover have "fle (to_f64 1) (to_f64 (of_int (CPUAllocatableMilli n)))"
      using assms(1) by (intro to_f64_mono) simp
    ultimately show ?thesis by (simp add: of_int64_def)
  qed
  ultimately have "fdiv (of_int64 ?u) (of_int64 (CPUAllocatableMilli n)) \<noteq> NaN"
    by (auto elim!: fboundE)
  then show ?thesis unfolding node_util_def Let_def by (auto split: if_splits)
qed

lemma energy_coeffs_bounded:
  assumes "fold_r (energy_coeff_step p key) ns [] = Inr coeff"
    and "\<forall>c \<in> snd ` set (InstancePower p). tame_curve c" and "\<forall>n \<in> set ns. in_int64 (CPUAllocatableMilli n)"
  shows "\<forall>a w. mget coeff a = Some w \<longrightarrow> fbound 211 w"
  using assms(1)
proof (rule fold_r_invariant)
  fix n m m'
  assume n: "n \<in> set ns" and inv: "\<forall>a w. mget m a = Some w \<longrightarrow> fbound 211 w"
    and step: "energy_coeff_step p key n m = Inr m'"
  from step obtain it curve w where pos: "0 < CPUAllocatableMilli n"
    and c: "mget (InstancePower p) it = Some curve"
    and w: "marginalWattsPerCore curve (node_util n) (fdiv (of_int64 (CPUAllocatableMilli n)) (Fin 1000)) = Inr w"
    and m': "m' = mput (nc_ID n) w m"
    by (auto simp: energy_coeff_step_def Let_def rbind_eq_Inr split: if_splits option.splits)
  have i64: "in_int64 (CPUAllocatableMilli n)" using assms(3) n by blast
  obtain t where t: "fdiv (of_int64 (CPUAllocatableMilli n)) (Fin 1000) = Fin t" "pw2 (- 10) \<le> t"
    using milli_to_cores(1) [OF pos i64] by blast
  have "tame_curve curve" using assms(2) map_of_SomeD [OF c] by (metis image_eqI snd_conv)
  from marginal_bound [OF this node_util_not_NaN [OF pos i64] t(2)] w have "fbound 211 w"
    by (simp add: t(1))
  with inv show "\<forall>a w. mget m' a = Some w \<longrightarrow> fbound 211 w" by (simp add: m')
qed simp

lemma energy_prepare_Inr:
  "energy_prepare p0 ctx = Inr row \<Longrightarrow> \<exists>p key reqs coeff. p0 = Some p \<and> ReplicaRequests ctx = Some reqs \<and>
     fold_r (energy_coeff_step p key) (Nodes ctx) [] = Inr coeff \<and> row = energy_row reqs coeff"
  by (auto simp: energy_prepare_def Let_def rbind_eq_Inr split: option.splits if_splits)

interpretation energy: matrix_scorer "energy_prepare p0" "energy_sane p0" for p0
proof
  fix ctx row r n v
  assume sane: "energy_sane p0 ctx" and prep: "energy_prepare p0 ctx = Inr row"
    and "r \<in> set (Replicas ctx)" and "n \<in> set (Nodes ctx)" and cell: "cell_of row r (nc_ID n) = Inr v"
  from energy_prepare_Inr [OF prep] obtain p key reqs coeff where p: "p0 = Some p"
    and reqs: "ReplicaRequests ctx = Some reqs"
    and loop: "fold_r (energy_coeff_step p key) (Nodes ctx) [] = Inr coeff"
    and row: "row = energy_row reqs coeff" by blast
  from cell obtain req where req: "mget reqs r = Some req" "0 < MilliCPU req"
    and v: "v = fmul (mget0 f0 coeff (nc_ID n)) (fdiv (of_int64 (MilliCPU req)) (Fin 1000))"
    by (auto simp: cell_of_def row energy_row_def rbind_eq_Inr split: option.splits if_splits)
  have "\<forall>a w. mget coeff a = Some w \<longrightarrow> fbound 211 w"
    using energy_coeffs_bounded [OF loop] sane by (simp add: energy_sane_def p)
  then have c: "fbound 211 (mget0 f0 coeff (nc_ID n))"
    using repr64_int [of 0] by (simp add: mget0_def less_imp_le split: option.splits)
  have "in_int64 (MilliCPU req)"
    using sane map_of_SomeD [OF req(1)] by (force simp: energy_sane_def reqs)
  with req(2) have "fbound 54 (fdiv (of_int64 (MilliCPU req)) (Fin 1000))" by (rule milli_to_cores(2))
  from fbound_fmul [OF c this] have "fbound 265 v" by (simp add: v)
  then show "\<exists>q. v = Fin q \<and> moderate q" using fbound_mono [of 265 v 1000] by (intro fbound_moderate) simp
qed

interpretation energy_plugin: linear_score_plugin "EnergyPlugin_ScorePlacement p0" "energy_sane p0" for p0
  by unfold_locales
    (auto simp: EnergyPlugin_ScorePlacement_def complete_for_empty split: if_splits
      intro: energy.mlin.score_wf energy.mlin.score_complete energy.mlin.score_range)

subsection \<open>Properties\<close>

definition sample_curve :: PowerCurve where
  "sample_curve = \<lparr>Samples = [\<lparr>Util = Fin 1, Power = Fin 200\<rparr>, \<lparr>Util = Fin 0, Power = Fin 80\<rparr>,
     \<lparr>Util = Fin (1 / 2), Power = Fin 150\<rparr>]\<rparr>"

definition sample_energy :: EnergyPlugin where
  "sample_energy = \<lparr>InstancePower = [(''small'', sample_curve), (''large'', sample_curve)], InstanceTypeLabelKey = ''''\<rparr>"

text \<open>
  On a valid power curve (two or more samples, different utilisations in the unit interval) and a
  positive number of cores, \<open>marginalWattsPerCore\<close> never fails: it returns the slope of a segment of the
  sorted samples that contains the utilisation, the first or last segment outside the sampled range,
  divided by the number of cores. In particular the error \<open>cannot find util segment\<close> is unreachable.
\<close>

theorem marginalWattsPerCore_total:
  assumes "valid_curve c" and "u \<noteq> NaN" and "flt f0 cores"
  shows "\<exists>i. Suc i < length (sorted_samples c) \<and> covers (sorted_samples c) i u \<and>
    (let a = sorted_samples c ! i; b = sorted_samples c ! Suc i in
     marginalWattsPerCore c u cores = Inr (fdiv (fdiv (fsub (Power b) (Power a)) (fsub (Util b) (Util a))) cores))"
  using marginal_segment [OF assms] segment_slope_ok(1) [OF valid_sorted_curve [OF assms(1)]]
  by (metis (no_types, lifting))

theorem marginalWattsPerCore_total_witness:
  "\<exists>i. Suc i < length (sorted_samples sample_curve) \<and> covers (sorted_samples sample_curve) i (Fin (1 / 4)) \<and>
    (let a = sorted_samples sample_curve ! i; b = sorted_samples sample_curve ! Suc i in
     marginalWattsPerCore sample_curve (Fin (1 / 4)) (Fin 4) =
       Inr (fdiv (fdiv (fsub (Power b) (Power a)) (fsub (Util b) (Util a))) (Fin 4)))"
proof (rule marginalWattsPerCore_total)
  show "valid_curve sample_curve" by code_simp
qed simp_all

text \<open>
  Where power does not fall with utilisation, the marginal power of a node is not negative, so a
  larger CPU request never scores better than a smaller one on the same node.
\<close>

theorem marginal_power_nonneg:
  assumes "valid_curve c" and "monotone_curve c" and "u \<noteq> NaN" and "0 < t"
  shows "\<exists>w. marginalWattsPerCore c u (Fin t) = Inr w \<and> fle f0 w"
  using assms by (rule marginal_nonneg)

theorem marginal_power_nonneg_witness:
  "\<exists>w. marginalWattsPerCore sample_curve (Fin (1 / 4)) (Fin 4) = Inr w \<and> fle f0 w"
proof (rule marginal_power_nonneg)
  show "valid_curve sample_curve" by code_simp
  show "monotone_curve sample_curve" by code_simp
qed simp_all

end
