(* ===== verification/Communication.thy ===== *)
theory Communication
  imports Matrix_Scoring
begin

section \<open>Communication plugin\<close>

text \<open>
  \<open>plugin_communication.go\<close>: services depend on services; for every service that is depended on, the
  region with the smallest average latency to its current replicas is its centroid, and a replica's
  raw cost on a node is the sum of the latencies from the node's region to the centroids of its
  service's dependencies. \<open>AverageCommunicationLatencyMs\<close> is the metric in milliseconds of one
  placement, computed from the same data. The logger of \<open>scorePlacementWithLogger\<close> is absent
  (\<open>lg == nil\<close>), which is how \<open>ScorePlacement\<close> calls it.
\<close>

type_synonym region_latency = "(string, (string, f64) gomap) gomap"

record CommunicationPlugin =
  Dependencies :: "(NamespacedName, NamespacedName list) gomap"
  RegionLatencyMs :: region_latency
  ReplicaService :: "(ReplicaKey, NamespacedName) gomap"
  NodeRegion :: "(ClusterNodeID, string) gomap"
  CurrentReplicaRegion :: "(ReplicaKey, string) gomap"

definition lookupRegionLatency :: "region_latency \<Rightarrow> string \<Rightarrow> string \<Rightarrow> f64 result" where
  "lookupRegionLatency mat a b =
     (case mget mat a of
        None \<Rightarrow> Inl (MissingRegionRow a)
      | Some row \<Rightarrow>
          (case mget row b of
             None \<Rightarrow> Inl (MissingRegionValue a b)
           | Some v \<Rightarrow> if flt v f0 then Inl (InvalidRegionValue a b v) else Inr v))"

subsection \<open>Centroids\<close>

text \<open>The regions of the current replicas of a service; an empty namespace matches every namespace.\<close>

definition service_matches :: "NamespacedName \<Rightarrow> NamespacedName \<Rightarrow> bool" where
  "service_matches svc s = (if nn_Namespace svc = '''' then nn_Name s = nn_Name svc else s = svc)"

definition service_regions ::
  "NamespacedName \<Rightarrow> (ReplicaKey, string) gomap \<Rightarrow> (ReplicaKey, NamespacedName) gomap \<Rightarrow> string list" where
  "service_regions svc currentReplicaRegion replicaService =
     fold (\<lambda>(rk, s) regions.
        if \<not> service_matches svc s then regions
        else let reg = mget0 '''' currentReplicaRegion rk in
          if reg = '''' then regions else regions @ [reg]) replicaService []"

text \<open>The average latency from a candidate region to the regions of the replicas.\<close>

definition sum_latencies :: "region_latency \<Rightarrow> string \<Rightarrow> string list \<Rightarrow> f64 result" where
  "sum_latencies mat cand regions =
     fold_r (\<lambda>r sum. rbind (lookupRegionLatency mat cand r) (\<lambda>v. Inr (fadd sum v))) regions f0"

definition avg_latency :: "region_latency \<Rightarrow> string \<Rightarrow> string list \<Rightarrow> f64 result" where
  "avg_latency mat cand regions =
     rbind (sum_latencies mat cand regions) (\<lambda>sum. Inr (fdiv sum (of_int64 (int (length regions)))))"

definition centroid_step ::
  "region_latency \<Rightarrow> string list \<Rightarrow> string \<times> (string, f64) gomap \<Rightarrow> string \<times> f64 \<Rightarrow> (string \<times> f64) result" where
  "centroid_step mat regions entry s = (case s of (best, bestAvg) \<Rightarrow>
     rbind (avg_latency mat (fst entry) regions) (\<lambda>avg.
       Inr (if best = '''' \<or> flt avg bestAvg then (fst entry, avg) else (best, bestAvg))))"

definition computeServiceCentroidRegion ::
  "NamespacedName \<Rightarrow> (ReplicaKey, string) gomap \<Rightarrow> (ReplicaKey, NamespacedName) gomap \<Rightarrow> region_latency
     \<Rightarrow> string result" where
  "computeServiceCentroidRegion svc currentReplicaRegion replicaService mat =
     (let regions = service_regions svc currentReplicaRegion replicaService in
      if regions = [] then Inl (NoCurrentReplicaRegions svc)
      else rbind (fold_r (centroid_step mat regions) mat ('''', f0)) (\<lambda>(best, _).
        if best = '''' then Inl NoCandidateRegions else Inr best))"

subsection \<open>The shared preparation of scoring and of the metric\<close>

definition node_region_step ::
  "CommunicationPlugin \<Rightarrow> NodeContext \<Rightarrow> (ClusterNodeID, string) gomap \<Rightarrow> (ClusterNodeID, string) gomap result" where
  "node_region_step p n nodeRegion =
     (let reg = (case mget (NodeRegion p) (nc_ID n) of Some r \<Rightarrow> r | None \<Rightarrow> Region n) in
      if reg = '''' then Inl (MissingRegion (nc_ID n)) else Inr (mput (nc_ID n) reg nodeRegion))"

definition resolve_current_regions ::
  "CommunicationPlugin \<Rightarrow> (ClusterNodeID, string) gomap \<Rightarrow> PluginContext \<Rightarrow> (ReplicaKey, string) gomap" where
  "resolve_current_regions p nodeRegion ctx =
     (let given = fold (\<lambda>(k, v) m. mput k v m) (CurrentReplicaRegion p) [] in
      if given = []
      then fold (\<lambda>(rk, nid) m. case mget nodeRegion nid of Some reg \<Rightarrow> mput rk reg m | None \<Rightarrow> m)
             (CurrentPlacement ctx) []
      else given)"

definition centroid_of_dep ::
  "CommunicationPlugin \<Rightarrow> (ReplicaKey, string) gomap \<Rightarrow> NamespacedName \<Rightarrow> (NamespacedName, string) gomap
     \<Rightarrow> (NamespacedName, string) gomap result" where
  "centroid_of_dep p currentRegion dep centroid =
     (if mget centroid dep \<noteq> None then Inr centroid
      else rbind (computeServiceCentroidRegion dep currentRegion (ReplicaService p) (RegionLatencyMs p))
        (\<lambda>cr. Inr (mput dep cr centroid)))"

definition service_centroids ::
  "CommunicationPlugin \<Rightarrow> (ReplicaKey, string) gomap \<Rightarrow> (NamespacedName, string) gomap result" where
  "service_centroids p currentRegion =
     fold_r (\<lambda>(svc, _). fold_r (centroid_of_dep p currentRegion) (mget0 [] (Dependencies p) svc))
       (Dependencies p) []"

text \<open>The checks on the plugin's inputs, then node regions, current regions and centroids.\<close>

definition comm_inputs ::
  "CommunicationPlugin option \<Rightarrow> PluginContext
     \<Rightarrow> (CommunicationPlugin \<times> (ClusterNodeID, string) gomap \<times> (NamespacedName, string) gomap) result" where
  "comm_inputs p0 ctx =
     (case p0 of
        None \<Rightarrow> Inl (NilPlugin ''CommunicationPlugin'')
      | Some p \<Rightarrow>
          if Dependencies p = [] then Inl (EmptyInput ''Dependencies'')
          else if RegionLatencyMs p = [] then Inl (EmptyInput ''RegionLatencyMs'')
          else if ReplicaService p = [] then Inl (EmptyInput ''ReplicaService'')
          else rbind (fold_r (node_region_step p) (Nodes ctx) []) (\<lambda>nodeRegion.
            rbind (service_centroids p (resolve_current_regions p nodeRegion ctx)) (\<lambda>centroid.
              Inr (p, nodeRegion, centroid))))"

subsection \<open>Scoring\<close>

definition comm_cost ::
  "CommunicationPlugin \<Rightarrow> (NamespacedName, string) gomap \<Rightarrow> string \<Rightarrow> NamespacedName list \<Rightarrow> f64 result" where
  "comm_cost p centroid regJ deps =
     fold_r (\<lambda>dep sum. rbind (lookupRegionLatency (RegionLatencyMs p) regJ (mget0 '''' centroid dep))
       (\<lambda>lat. Inr (fadd sum lat))) deps f0"

definition comm_row ::
  "CommunicationPlugin \<Rightarrow> (ClusterNodeID, string) gomap \<Rightarrow> (NamespacedName, string) gomap \<Rightarrow> row_fun" where
  "comm_row p nodeRegion centroid r =
     (case mget (ReplicaService p) r of
        None \<Rightarrow> Inl (MissingReplicaService r)
      | Some svc \<Rightarrow> Inr (\<lambda>a.
          case comm_cost p centroid (mget0 '''' nodeRegion a) (mget0 [] (Dependencies p) svc) of
            Inl e \<Rightarrow> Inl (CommCostErr r e)
          | Inr cost \<Rightarrow> Inr cost))"

definition comm_prepare :: "CommunicationPlugin option \<Rightarrow> PluginContext \<Rightarrow> row_fun result" where
  "comm_prepare p0 ctx =
     rbind (comm_inputs p0 ctx) (\<lambda>(p, nodeRegion, centroid). Inr (comm_row p nodeRegion centroid))"

definition CommunicationPlugin_ScorePlacement ::
  "CommunicationPlugin option \<Rightarrow> PluginContext \<Rightarrow> score_matrix result" where
  "CommunicationPlugin_ScorePlacement p0 ctx =
     (if Replicas ctx = [] \<or> Nodes ctx = [] then Inr []
      else prepared_score (comm_prepare p0) ctx)"

subsection \<open>The metric in milliseconds\<close>

text \<open>The loop over the dependencies of one replica keeps the sum and the count of the latencies.\<close>

definition dep_latency_step ::
  "CommunicationPlugin \<Rightarrow> (NamespacedName, string) gomap \<Rightarrow> string \<Rightarrow> NamespacedName \<Rightarrow> f64 \<times> int
     \<Rightarrow> (f64 \<times> int) result" where
  "dep_latency_step p centroid regJ dep s = (case s of (rs, rc) \<Rightarrow>
     (case mget centroid dep of
        None \<Rightarrow> Inr (rs, rc)
      | Some cr \<Rightarrow> rbind (lookupRegionLatency (RegionLatencyMs p) regJ cr) (\<lambda>lat. Inr (fadd rs lat, rc + 1))))"

definition replica_latency_step ::
  "CommunicationPlugin \<Rightarrow> (ClusterNodeID, string) gomap \<Rightarrow> (NamespacedName, string) gomap \<Rightarrow> PluginContext
     \<Rightarrow> ReplicaKey \<Rightarrow> f64 \<times> int \<Rightarrow> (f64 \<times> int) result" where
  "replica_latency_step p nodeRegion centroid ctx r s = (case s of (tot, cnt) \<Rightarrow>
     (case mget (ReplicaService p) r of
        None \<Rightarrow> Inr s
      | Some svc \<Rightarrow>
          let deps = mget0 [] (Dependencies p) svc in
          if deps = [] then Inr s
          else case mget (CurrentPlacement ctx) r of
            None \<Rightarrow> Inr s
          | Some nid \<Rightarrow>
              (case mget nodeRegion nid of
                 None \<Rightarrow> Inr s
               | Some regJ \<Rightarrow>
                   rbind (fold_r (dep_latency_step p centroid regJ) deps (f0, 0)) (\<lambda>(rs, rc).
                     if rc = 0 then Inr s else Inr (fadd tot (fdiv rs (of_int64 rc)), cnt + 1)))))"

definition AverageCommunicationLatencyMs :: "CommunicationPlugin option \<Rightarrow> PluginContext \<Rightarrow> f64 result" where
  "AverageCommunicationLatencyMs p0 ctx =
     (if Replicas ctx = [] then Inr f0
      else rbind (comm_inputs p0 ctx) (\<lambda>(p, nodeRegion, centroid).
        rbind (fold_r (replica_latency_step p nodeRegion centroid ctx) (Replicas ctx) (f0, 0)) (\<lambda>(tot, cnt).
          if cnt = 0 then Inr f0 else Inr (fdiv tot (of_int64 cnt)))))"

subsection \<open>Lemmas: latencies and averages are not negative\<close>

definition no_NaN :: "region_latency \<Rightarrow> bool" where
  "no_NaN mat \<longleftrightarrow> (\<forall>row \<in> snd ` set mat. NaN \<notin> snd ` set row)"

lemma lookup_Inr:
  "lookupRegionLatency mat a b = Inr v \<longleftrightarrow>
     (\<exists>row. mget mat a = Some row \<and> mget row b = Some v \<and> \<not> flt v f0)"
  by (auto simp: lookupRegionLatency_def split: option.splits if_splits)

lemma lookup_value:
  assumes "lookupRegionLatency mat a b = Inr v"
  shows "\<exists>row \<in> snd ` set mat. v \<in> snd ` set row" and "\<not> flt v f0"
proof -
  obtain row where "mget mat a = Some row" "mget row b = Some v" "\<not> flt v f0"
    using assms by (auto simp: lookup_Inr)
  then show "\<exists>row \<in> snd ` set mat. v \<in> snd ` set row" and "\<not> flt v f0"
    by (metis image_eqI map_of_SomeD snd_conv)+
qed

lemma lookup_nonneg:
  assumes "no_NaN mat" and "lookupRegionLatency mat a b = Inr v"
  shows "fle f0 v"
proof -
  have "v \<noteq> NaN" using lookup_value(1) [OF assms(2)] assms(1) unfolding no_NaN_def by blast
  then show ?thesis using lookup_value(2) [OF assms(2)] not_flt [of v f0] by simp
qed

lemma fadd_nonneg: "fle f0 x \<Longrightarrow> fle f0 y \<Longrightarrow> fle f0 (fadd x y)"
  by (cases x; cases y) (auto intro: to_f64_nonneg)

lemma fdiv_len_nonneg:
  assumes "fle f0 x" and "0 < k" and "k < 2 ^ 53"
  shows "fle f0 (fdiv x (of_int64 k))"
proof -
  have "of_int64 k = Fin (of_int k)"
    unfolding of_int64_def using assms by (intro to_f64_repr repr64_int) simp
  then show ?thesis using assms(1,2) by (cases x) (auto intro: to_f64_nonneg)
qed

text \<open>A loop that adds up latencies.\<close>

lemma sum_loop_nonneg:
  assumes "fold_r (\<lambda>x s. rbind (lookupRegionLatency mat (f x) (g x)) (\<lambda>v. Inr (fadd s v))) xs s0 = Inr s"
    and "no_NaN mat" and "fle f0 s0"
  shows "fle f0 s"
  using assms(1,3)
  by (rule fold_r_invariant) (auto simp: rbind_eq_Inr intro: fadd_nonneg lookup_nonneg [OF assms(2)])

lemma avg_latency_nonneg:
  assumes "avg_latency mat c regions = Inr a" and "no_NaN mat" and "regions \<noteq> []" and "length regions < 2 ^ 53"
  shows "fle f0 a"
proof -
  from assms(1) obtain s where s: "sum_latencies mat c regions = Inr s"
    and a: "a = fdiv s (of_int64 (int (length regions)))"
    by (auto simp: avg_latency_def rbind_eq_Inr)
  have "fle f0 s" using sum_loop_nonneg [OF s [unfolded sum_latencies_def] assms(2)] by simp
  moreover have "int (length regions) < 2 ^ 53"
    using assms(4) by (metis of_nat_less_iff of_nat_numeral of_nat_power)
  ultimately show ?thesis unfolding a using assms(3) by (intro fdiv_len_nonneg) simp_all
qed

subsection \<open>Lemmas: the centroid minimises the average latency\<close>

definition centroid_inv :: "region_latency \<Rightarrow> string list \<Rightarrow> string set \<Rightarrow> string \<times> f64 \<Rightarrow> bool" where
  "centroid_inv mat regions C s \<longleftrightarrow> (case s of (best, bestAvg) \<Rightarrow>
     (best = '''' \<longleftrightarrow> C = {}) \<and> (best \<noteq> '''' \<longrightarrow> best \<in> C \<and> avg_latency mat best regions = Inr bestAvg) \<and>
     (\<forall>c \<in> C. \<exists>a. avg_latency mat c regions = Inr a \<and> fle bestAvg a))"

lemma centroid_inv_step:
  assumes "centroid_inv mat regions C s" and "centroid_step mat regions e s = Inr s'"
    and "no_NaN mat" and "regions \<noteq> []" and "length regions < 2 ^ 53" and "fst e \<noteq> ''''"
  shows "centroid_inv mat regions (insert (fst e) C) s'"
proof -
  obtain best ba where s: "s = (best, ba)" by (cases s)
  from assms(2) obtain avg where avg: "avg_latency mat (fst e) regions = Inr avg"
    and s': "s' = (if best = '''' \<or> flt avg ba then (fst e, avg) else (best, ba))"
    by (auto simp: s centroid_step_def rbind_eq_Inr)
  have an: "fle f0 avg" using avg_latency_nonneg [OF avg assms(3-5)] .
  have inv: "(best = '''' \<longleftrightarrow> C = {})" "best \<noteq> '''' \<Longrightarrow> best \<in> C \<and> avg_latency mat best regions = Inr ba"
    "\<forall>c \<in> C. \<exists>a. avg_latency mat c regions = Inr a \<and> fle ba a"
    using assms(1) unfolding centroid_inv_def s prod.case by blast+
  show ?thesis
  proof (cases "best = '''' \<or> flt avg ba")
    case True
    have "\<exists>a. avg_latency mat c regions = Inr a \<and> fle avg a" if "c \<in> insert (fst e) C" for c
    proof (cases "c = fst e")
      case True
      then show ?thesis using avg fle_refl an fle_not_NaN by blast
    next
      case False
      with that have "c \<in> C" by simp
      with inv(3) obtain a where a: "avg_latency mat c regions = Inr a" "fle ba a" by blast
      have "best \<noteq> ''''" using inv(1) \<open>c \<in> C\<close> by auto
      with True have "fle avg ba" by (simp add: flt_iff)
      with a show ?thesis using fle_trans by blast
    qed
    moreover have "fle avg avg" using an fle_refl fle_not_NaN by blast
    ultimately show ?thesis using True avg assms(6) unfolding centroid_inv_def s' by auto
  next
    case False
    then have b: "best \<in> C" "avg_latency mat best regions = Inr ba" using inv(2) by simp_all
    have "fle f0 ba" using avg_latency_nonneg [OF b(2) assms(3-5)] .
    then have "fle ba avg" using False an not_flt fle_not_NaN by blast
    with inv(3) avg b False show ?thesis unfolding centroid_inv_def s' by auto
  qed
qed

lemma centroid_inv_loop:
  assumes "fold_r (centroid_step mat regions) es s = Inr s'" and "centroid_inv mat regions C s"
    and "no_NaN mat" and "regions \<noteq> []" and "length regions < 2 ^ 53" and "'''' \<notin> mkeys es"
  shows "centroid_inv mat regions (C \<union> mkeys es) s'"
  using assms(1,2,6)
proof (induction es arbitrary: s C)
  case (Cons e es)
  then obtain t where t: "centroid_step mat regions e s = Inr t" "fold_r (centroid_step mat regions) es t = Inr s'"
    by (auto split: sum.splits)
  have "fst e \<noteq> ''''" using Cons.prems(3) by auto
  from centroid_inv_step [OF Cons.prems(2) t(1) assms(3-5) this]
  have "centroid_inv mat regions (insert (fst e) C) t" .
  from Cons.IH [OF t(2) this] Cons.prems(3) show ?case by simp
qed simp

lemma centroid_minimal:
  assumes "computeServiceCentroidRegion svc cur reps mat = Inr best"
    and "no_NaN mat" and "'''' \<notin> mkeys mat" and "length (service_regions svc cur reps) < 2 ^ 53"
  defines "regions \<equiv> service_regions svc cur reps"
  shows "regions \<noteq> [] \<and> best \<in> mkeys mat \<and> (\<exists>a. avg_latency mat best regions = Inr a \<and>
    (\<forall>c \<in> mkeys mat. \<exists>a'. avg_latency mat c regions = Inr a' \<and> fle a a'))"
proof -
  from assms(1) obtain ba where ne: "regions \<noteq> []" "best \<noteq> ''''"
    and loop: "fold_r (centroid_step mat regions) mat ('''', f0) = Inr (best, ba)"
    by (auto simp: computeServiceCentroidRegion_def Let_def rbind_eq_Inr regions_def split: if_splits)
  have "centroid_inv mat regions {} ('''', f0)" by (simp add: centroid_inv_def)
  from centroid_inv_loop [OF loop this assms(2) ne(1) _ assms(3)] assms(4)
  have "centroid_inv mat regions (mkeys mat) (best, ba)" by (simp add: regions_def)
  then show ?thesis using ne unfolding centroid_inv_def prod.case by blast
qed

subsection \<open>Sane inputs and the scoring contract\<close>

text \<open>
  Latencies below \<open>2^900\<close> and fewer than \<open>2^53\<close> dependencies per service: the sums stay finite.
\<close>

definition comm_sane :: "CommunicationPlugin option \<Rightarrow> PluginContext \<Rightarrow> bool" where
  "comm_sane p0 ctx \<longleftrightarrow> (case p0 of None \<Rightarrow> True | Some p \<Rightarrow>
     (\<forall>row \<in> snd ` set (RegionLatencyMs p). \<forall>v \<in> snd ` set row. fbound 900 v) \<and>
     (\<forall>deps \<in> snd ` set (Dependencies p). length deps < 2 ^ 53))"

text \<open>\<open>k\<close> latencies of at most \<open>2^900\<close> add up to at most \<open>k * 2^900\<close>, in spite of the roundings.\<close>

lemma cost_bound:
  assumes "fold_r (\<lambda>dep s. rbind (lookupRegionLatency mat reg (g dep)) (\<lambda>v. Inr (fadd s v))) deps (Fin q0) = Inr s"
    and "\<forall>row \<in> snd ` set mat. \<forall>v \<in> snd ` set row. fbound 900 v"
    and "0 \<le> q0" and "q0 \<le> of_nat k * pw2 900" and "repr64 q0" and "k + length deps < 2 ^ 53"
  shows "\<exists>q. s = Fin q \<and> 0 \<le> q \<and> q \<le> of_nat (k + length deps) * pw2 900 \<and> repr64 q"
  using assms(1,3-6)
proof (induction deps arbitrary: q0 k)
  case (Cons d deps)
  from Cons.prems(1) obtain v where v: "lookupRegionLatency mat reg (g d) = Inr v"
    and rest: "fold_r (\<lambda>dep s. rbind (lookupRegionLatency mat reg (g dep)) (\<lambda>v. Inr (fadd s v))) deps
      (fadd (Fin q0) v) = Inr s" by (auto simp: rbind_eq_Inr split: sum.splits)
  have "fbound 900 v" using lookup_value(1) [OF v] assms(2) by blast
  with lookup_value(2) [OF v] obtain w where w: "v = Fin w" "0 \<le> w" "w \<le> pw2 900" by (auto elim!: fboundE)
  let ?b = "of_nat (Suc k) * pw2 900"
  have qw: "q0 + w \<le> ?b" using Cons.prems(3) w by (simp add: distrib_right)
  have "int (Suc k) < 2 ^ 53" using Cons.prems(5)
    by (metis add_Suc_shift le_add1 length_Cons le_less_trans of_nat_less_iff of_nat_numeral of_nat_power)
  then have fx: "rnd64 ?b = ?b" by (intro rnd64_fix [of _ "int (Suc k)" 900]) simp_all
  have "?b \<le> pw2 53 * pw2 900"
  proof -
    have "(of_int (int (Suc k)) :: rat) \<le> of_int (2 ^ 53)" using \<open>int (Suc k) < 2 ^ 53\<close> by (simp only: of_int_le_iff)
    then show ?thesis by (simp add: pw2_nat mult_right_mono)
  qed
  then have "\<bar>q0 + w\<bar> \<le> pw2 953" using qw Cons.prems(2) w by (simp add: pw2_add [symmetric])
  then have t: "to_f64 (q0 + w) = Fin (rnd64 (q0 + w))" by (intro fbound_to_f64(2) [where e = 953]) simp_all
  have "repr64 (rnd64 (q0 + w))" using wf_to_f64 [of "q0 + w"] unfolding t by simp
  moreover have "rnd64 (q0 + w) \<le> ?b" using fx qw by (rule r64.rnd_le_fix)
  moreover have "0 \<le> rnd64 (q0 + w)" using Cons.prems(2) w by (intro rnd64_nonneg) simp
  moreover have "Suc k + length deps < 2 ^ 53" using Cons.prems(5) by simp
  ultimately show ?case using Cons.IH [of "rnd64 (q0 + w)" "Suc k"] rest unfolding w t by (simp add: t)
qed auto

lemma comm_prepare_Inr:
  "comm_prepare p0 ctx = Inr row \<Longrightarrow> \<exists>p nodeRegion centroid.
     comm_inputs p0 ctx = Inr (p, nodeRegion, centroid) \<and> p0 = Some p \<and> row = comm_row p nodeRegion centroid"
  by (auto simp: comm_prepare_def comm_inputs_def rbind_eq_Inr split: option.splits if_splits)

lemma comm_cell:
  "cell_of (comm_row p nodeRegion centroid) r a = Inr v \<longleftrightarrow>
     (\<exists>svc. mget (ReplicaService p) r = Some svc \<and>
       comm_cost p centroid (mget0 '''' nodeRegion a) (mget0 [] (Dependencies p) svc) = Inr v)"
  by (auto simp: cell_of_def comm_row_def rbind_eq_Inr split: option.splits sum.splits)

interpretation comm: matrix_scorer "comm_prepare p0" "comm_sane p0" for p0
proof
  fix ctx row r n v
  assume sane: "comm_sane p0 ctx" and prep: "comm_prepare p0 ctx = Inr row"
    and "r \<in> set (Replicas ctx)" and "n \<in> set (Nodes ctx)" and cell: "cell_of row r (nc_ID n) = Inr v"
  from comm_prepare_Inr [OF prep] obtain p nodeRegion centroid where
    p: "p0 = Some p" "row = comm_row p nodeRegion centroid" by blast
  from cell obtain svc where
    cost: "comm_cost p centroid (mget0 '''' nodeRegion (nc_ID n)) (mget0 [] (Dependencies p) svc) = Inr v"
    by (auto simp: p comm_cell)
  have lat: "\<forall>row \<in> snd ` set (RegionLatencyMs p). \<forall>v \<in> snd ` set row. fbound 900 v"
    using sane by (simp add: comm_sane_def p)
  have "length (mget0 [] (Dependencies p) svc) < 2 ^ 53"
    using sane map_of_SomeD by (fastforce simp: comm_sane_def p mget0_def split: option.splits)
  then have k: "0 + length (mget0 [] (Dependencies p) svc) < 2 ^ 53" by simp
  have r0: "repr64 0" using repr64_int [of 0] by simp
  from cost_bound [OF cost [unfolded comm_cost_def] lat _ _ r0 k] obtain q where
    q: "v = Fin q" "0 \<le> q" "repr64 q" "q \<le> of_nat (length (mget0 [] (Dependencies p) svc)) * pw2 900" by auto
  have "(of_nat (length (mget0 [] (Dependencies p) svc)) :: rat) \<le> of_nat (2 ^ 53)"
    using k by (simp only: of_nat_le_iff)
  then have "q \<le> of_nat (2 ^ 53) * pw2 900" using q(4) by (meson mult_right_mono order_trans pw2_pos less_imp_le)
  also have "\<dots> = pw2 953" using pw2_add [of 53 900] by (simp add: pw2_nat [of 53])
  also have "\<dots> \<le> pw2 1000" by (rule pw2_mono) simp
  finally show "\<exists>q. v = Fin q \<and> moderate q" using q by (simp add: moderate_def)
qed

interpretation comm_plugin: linear_score_plugin "CommunicationPlugin_ScorePlacement p0" "comm_sane p0" for p0
  by unfold_locales
    (auto simp: CommunicationPlugin_ScorePlacement_def complete_for_empty split: if_splits
      intro: comm.mlin.score_wf comm.mlin.score_complete comm.mlin.score_range)

subsection \<open>Lemmas: the metric is defined whenever the scores are\<close>

text \<open>The centroid map covers every dependency of every service.\<close>

lemma centroid_of_dep_keys:
  assumes "centroid_of_dep p cur dep c = Inr c'"
  shows "mkeys c' = insert dep (mkeys c)"
proof (cases "mget c dep")
  case None
  with assms obtain cr where "c' = mput dep cr c" by (auto simp: centroid_of_dep_def rbind_eq_Inr)
  then show ?thesis by simp
next
  case (Some cr)
  then have "dep \<in> mkeys c" using mget_None_iff [of c dep] by simp
  moreover have "c' = c" using assms Some by (simp add: centroid_of_dep_def)
  ultimately show ?thesis by (simp add: insert_absorb)
qed

lemma deps_loop_keys:
  assumes "fold_r (centroid_of_dep p cur) deps c = Inr c'"
  shows "mkeys c' = mkeys c \<union> set deps"
proof -
  have "mkeys c' = mkeys c \<union> (\<lambda>d. d) ` set deps"
    by (rule fold_r_keys [OF assms]) (rule centroid_of_dep_keys)
  then show ?thesis by simp
qed

lemma service_centroids_keys:
  assumes "service_centroids p cur = Inr centroid" and "mget (Dependencies p) svc = Some deps"
  shows "set deps \<subseteq> mkeys centroid"
proof -
  have "(\<Union>(svc, _) \<in> set es. set (mget0 [] (Dependencies p) svc)) \<subseteq> mkeys c' \<and> mkeys c \<subseteq> mkeys c'"
    if "fold_r (\<lambda>(svc, _). fold_r (centroid_of_dep p cur) (mget0 [] (Dependencies p) svc)) es c = Inr c'"
    for es c c'
    using that
  proof (induction es arbitrary: c)
    case (Cons e es)
    obtain s d where e: "e = (s, d)" by (cases e)
    with Cons.prems obtain t where t: "fold_r (centroid_of_dep p cur) (mget0 [] (Dependencies p) s) c = Inr t"
      "fold_r (\<lambda>(svc, _). fold_r (centroid_of_dep p cur) (mget0 [] (Dependencies p) svc)) es t = Inr c'"
      by (auto split: sum.splits)
    from Cons.IH [OF t(2)] have ih: "(\<Union>(svc, _) \<in> set es. set (mget0 [] (Dependencies p) svc)) \<subseteq> mkeys c'"
      "mkeys t \<subseteq> mkeys c'" by blast+
    moreover have "mkeys t = mkeys c \<union> set (mget0 [] (Dependencies p) s)" using t(1) by (rule deps_loop_keys)
    ultimately show ?case by (simp add: e)
  qed simp
  from this [OF assms(1) [unfolded service_centroids_def]]
  have "(\<Union>(svc, _) \<in> set (Dependencies p). set (mget0 [] (Dependencies p) svc)) \<subseteq> mkeys centroid" by blast
  moreover have "(svc, deps) \<in> set (Dependencies p)" using assms(2) by (rule map_of_SomeD)
  moreover have "mget0 [] (Dependencies p) svc = deps" using assms(2) by (simp add: mget0_def)
  ultimately show ?thesis by (metis (no_types, lifting) UN_subset_iff case_prod_conv)
qed

text \<open>The node regions are those of the context's nodes.\<close>

lemma node_region_keys:
  "fold_r (node_region_step p) ns m = Inr m' \<Longrightarrow> mkeys m' = mkeys m \<union> nc_ID ` set ns"
proof (rule fold_r_keys [where f = "node_region_step p"])
  fix n :: NodeContext and m m' :: "(ClusterNodeID, string) gomap"
  assume "node_region_step p n m = Inr m'"
  then obtain reg where "m' = mput (nc_ID n) reg m"
    by (auto simp: node_region_step_def Let_def split: if_splits option.splits)
  then show "mkeys m' = insert (nc_ID n) (mkeys m)" by simp
qed

lemma comm_inputs_Inr:
  "comm_inputs p0 ctx = Inr (p, nodeRegion, centroid) \<Longrightarrow>
     fold_r (node_region_step p) (Nodes ctx) [] = Inr nodeRegion \<and>
     service_centroids p (resolve_current_regions p nodeRegion ctx) = Inr centroid"
  by (auto simp: comm_inputs_def rbind_eq_Inr split: option.splits if_splits)

text \<open>If the cost loop of the scoring succeeds, so does the latency loop of the metric.\<close>

lemma dep_loop_total:
  assumes "comm_cost p centroid reg deps = Inr v"
  shows "\<exists>s. fold_r (dep_latency_step p centroid reg) deps s0 = Inr s"
proof (rule fold_r_total)
  fix dep t
  assume "dep \<in> set deps"
  from fold_r_each [OF assms [unfolded comm_cost_def] this]
  obtain lat where "lookupRegionLatency (RegionLatencyMs p) reg (mget0 '''' centroid dep) = Inr lat"
    by (auto simp: rbind_eq_Inr)
  then show "\<exists>t'. dep_latency_step p centroid reg dep t = Inr t'"
    by (auto simp: dep_latency_step_def mget0_def split: option.splits prod.splits)
qed

lemma metric_total:
  assumes "CommunicationPlugin_ScorePlacement p0 ctx = Inr m" and "Nodes ctx \<noteq> []"
  shows "\<exists>v. AverageCommunicationLatencyMs p0 ctx = Inr v"
proof (cases "Replicas ctx = []")
  case True
  then show ?thesis by (simp add: AverageCommunicationLatencyMs_def)
next
  case False
  with assms obtain row where prep: "comm_prepare p0 ctx = Inr row" and ms: "matrix_score row ctx = Inr m"
    by (auto simp: CommunicationPlugin_ScorePlacement_def prepared_score_def rbind_eq_Inr split: if_splits)
  obtain p nr ce where i: "comm_inputs p0 ctx = Inr (p, nr, ce)" and row: "row = comm_row p nr ce"
    using comm_prepare_Inr [OF prep] by blast
  have keys: "mkeys nr = nc_ID ` set (Nodes ctx)"
    using node_region_keys [of p "Nodes ctx" "[]" nr] comm_inputs_Inr [OF i] by simp
  have "\<exists>t'. replica_latency_step p nr ce ctx r t = Inr t'" if r: "r \<in> set (Replicas ctx)" for r t
  proof -
    have cost: "\<exists>v svc. mget (ReplicaService p) r = Some svc \<and>
        comm_cost p ce reg (mget0 [] (Dependencies p) svc) = Inr v" if reg: "mget nr nid = Some reg" for nid reg
    proof -
      have a: "nid \<in> nc_ID ` set (Nodes ctx)"
        using reg keys mget_None_iff [of nr nid] by (simp del: not_None_eq)
      have "\<exists>v. cell_of row r nid = Inr v" using matrix_score_get [OF ms] r a by metis
      then show ?thesis using reg by (auto simp: row comm_cell mget0_def)
    qed
    obtain tot cnt where t: "t = (tot, cnt)" by (cases t)
    show ?thesis
    proof (cases "\<exists>svc nid reg. mget (ReplicaService p) r = Some svc \<and> mget (CurrentPlacement ctx) r = Some nid \<and>
        mget nr nid = Some reg")
      case True
      then obtain svc nid reg where h: "mget (ReplicaService p) r = Some svc"
        "mget (CurrentPlacement ctx) r = Some nid" "mget nr nid = Some reg" by blast
      with cost [OF h(3)] obtain v where "comm_cost p ce reg (mget0 [] (Dependencies p) svc) = Inr v" by auto
      from dep_loop_total [OF this, of "(f0, 0)"] obtain rs rc where
        "fold_r (dep_latency_step p ce reg) (mget0 [] (Dependencies p) svc) (f0, 0) = Inr (rs, rc)" by auto
      then show ?thesis by (simp add: replica_latency_step_def h t Let_def)
    next
      case False
      then show ?thesis
        unfolding replica_latency_step_def t prod.case Let_def
        by (cases "mget (ReplicaService p) r"; cases "mget (CurrentPlacement ctx) r") (auto split: option.splits)
    qed
  qed
  then obtain tot cnt where "fold_r (replica_latency_step p nr ce ctx) (Replicas ctx) (f0, 0) = Inr (tot, cnt)"
    using fold_r_total [of "Replicas ctx" "replica_latency_step p nr ce ctx" "(f0, 0)"] by auto
  then show ?thesis using False by (auto simp: AverageCommunicationLatencyMs_def i)
qed

subsection \<open>Properties\<close>

definition sample_svc :: "string \<Rightarrow> NamespacedName" where
  "sample_svc s = \<lparr>nn_Namespace = ''shop'', nn_Name = s\<rparr>"

definition sample_comm :: CommunicationPlugin where
  "sample_comm = \<lparr>Dependencies = [(sample_svc ''web'', [sample_svc ''cart''])],
     RegionLatencyMs = [(''eu'', [(''eu'', Fin 1), (''us'', Fin 90)]), (''us'', [(''eu'', Fin 90), (''us'', Fin 2)])],
     ReplicaService = [(sample_r1, sample_svc ''cart''), (sample_r2, sample_svc ''web'')],
     NodeRegion = [], CurrentReplicaRegion = []\<rparr>"

lemma sample_comm_scores: "\<not> isl (CommunicationPlugin_ScorePlacement (Some sample_comm) sample_ctx)"
  by code_simp

text \<open>
  The centroid of a service is optimal: for every order in which the region matrix is enumerated, the
  region returned has an average latency to the service's current replicas that no other region of the
  matrix beats. The matrix has no NaN entry and no region with an empty name.
\<close>

theorem centroid_region_optimal:
  assumes "computeServiceCentroidRegion svc cur reps mat = Inr best"
    and "no_NaN mat" and "'''' \<notin> mkeys mat" and "length (service_regions svc cur reps) < 2 ^ 53"
  shows "best \<in> mkeys mat \<and> (\<exists>a. avg_latency mat best (service_regions svc cur reps) = Inr a \<and>
    (\<forall>c \<in> mkeys mat. \<exists>a'. avg_latency mat c (service_regions svc cur reps) = Inr a' \<and> fle a a'))"
  using centroid_minimal [OF assms] by blast

theorem centroid_region_optimal_witness:
  "\<exists>best. computeServiceCentroidRegion (sample_svc ''cart'') [(sample_r1, ''eu'')] (ReplicaService sample_comm)
      (RegionLatencyMs sample_comm) = Inr best \<and> best \<in> mkeys (RegionLatencyMs sample_comm)"
proof -
  let ?reps = "ReplicaService sample_comm" and ?mat = "RegionLatencyMs sample_comm"
  have c: "computeServiceCentroidRegion (sample_svc ''cart'') [(sample_r1, ''eu'')] ?reps ?mat = Inr ''eu''" by code_simp
  have "no_NaN ?mat" "'''' \<notin> mkeys ?mat" by code_simp+
  moreover have "length (service_regions (sample_svc ''cart'') [(sample_r1, ''eu'')] ?reps) < 2 ^ 53"
  proof -
    have "length (service_regions (sample_svc ''cart'') [(sample_r1, ''eu'')] ?reps) = 1" by code_simp
    then show ?thesis by simp
  qed
  ultimately show ?thesis using centroid_region_optimal [OF c] c by blast
qed

text \<open>
  A successful Communication run keeps the order of the raw costs over all replicas and nodes, and
  every score is in the normalised range.
\<close>

theorem comm_scores_follow_costs:
  assumes "comm_prepare (Some p) ctx = Inr row" and "CommunicationPlugin_ScorePlacement (Some p) ctx = Inr m"
    and "comm_sane (Some p) ctx"
    and "r1 \<in> set (Replicas ctx)" and "n1 \<in> set (Nodes ctx)" and "cell_of row r1 (nc_ID n1) = Inr v1"
    and "r2 \<in> set (Replicas ctx)" and "n2 \<in> set (Nodes ctx)" and "cell_of row r2 (nc_ID n2) = Inr v2"
    and "fle v1 v2"
  shows "\<exists>s1 s2. getPlacementScore m r1 (nc_ID n1) = Some s1 \<and> getPlacementScore m r2 (nc_ID n2) = Some s2 \<and>
    fle s1 s2 \<and> in_score_range s1 \<and> in_score_range s2"
proof -
  have "matrix_score row ctx = Inr m"
    using assms(1,2,4,5) by (auto simp: CommunicationPlugin_ScorePlacement_def prepared_score_def split: if_splits)
  from comm.matrix_order [OF assms(3,1) this assms(4-10)] comm_plugin.score_range [OF assms(2,3)]
  show ?thesis by blast
qed

theorem comm_scores_follow_costs_witness:
  "\<exists>m s1 s2. CommunicationPlugin_ScorePlacement (Some sample_comm) sample_ctx = Inr m \<and>
    getPlacementScore m sample_r2 (nc_ID sample_node1) = Some s1 \<and>
    getPlacementScore m sample_r2 (nc_ID sample_node2) = Some s2 \<and>
    fle s1 s2 \<and> in_score_range s1 \<and> in_score_range s2"
proof -
  have "\<not> isl (comm_prepare (Some sample_comm) sample_ctx)" by code_simp
  then obtain row where row: "comm_prepare (Some sample_comm) sample_ctx = Inr row"
    by (cases "comm_prepare (Some sample_comm) sample_ctx") auto
  obtain m where m: "CommunicationPlugin_ScorePlacement (Some sample_comm) sample_ctx = Inr m"
    using sample_comm_scores by (cases "CommunicationPlugin_ScorePlacement (Some sample_comm) sample_ctx") auto
  have s: "comm_sane (Some sample_comm) sample_ctx"
  proof -
    have "\<forall>row \<in> snd ` set (RegionLatencyMs sample_comm). \<forall>v \<in> snd ` set row. fbound 900 v" by code_simp
    moreover have "\<forall>deps \<in> snd ` set (Dependencies sample_comm). length deps \<le> 1" by code_simp
    ultimately show ?thesis by (fastforce simp: comm_sane_def)
  qed
  have cells: "rbind (comm_prepare (Some sample_comm) sample_ctx) (\<lambda>row. cell_of row sample_r2 (nc_ID sample_node1)) = Inr (Fin 1)"
    "rbind (comm_prepare (Some sample_comm) sample_ctx) (\<lambda>row. cell_of row sample_r2 (nc_ID sample_node2)) = Inr (Fin 90)"
    by code_simp+
  have mem: "sample_r2 \<in> set (Replicas sample_ctx)" "sample_node1 \<in> set (Nodes sample_ctx)"
    "sample_node2 \<in> set (Nodes sample_ctx)" by (simp_all add: sample_ctx_def)
  have "\<exists>s1 s2. getPlacementScore m sample_r2 (nc_ID sample_node1) = Some s1 \<and>
      getPlacementScore m sample_r2 (nc_ID sample_node2) = Some s2 \<and>
      fle s1 s2 \<and> in_score_range s1 \<and> in_score_range s2"
    using cells unfolding row rbind_Inr
    by (intro comm_scores_follow_costs [OF row m s mem(1,2) _ mem(1,3), of "Fin 1" "Fin 90"]) simp_all
  with m show ?thesis by blast
qed

text \<open>
  The readable latency metric is defined whenever the scores are: if \<open>ScorePlacement\<close> succeeds on a
  context with nodes, \<open>AverageCommunicationLatencyMs\<close> succeeds on the same context.
\<close>

theorem latency_metric_defined:
  assumes "CommunicationPlugin_ScorePlacement p0 ctx = Inr m" and "Nodes ctx \<noteq> []"
  shows "\<exists>v. AverageCommunicationLatencyMs p0 ctx = Inr v"
  using assms by (rule metric_total)

theorem latency_metric_defined_witness:
  "\<exists>v. AverageCommunicationLatencyMs (Some sample_comm) sample_ctx = Inr v"
proof -
  obtain m where m: "CommunicationPlugin_ScorePlacement (Some sample_comm) sample_ctx = Inr m"
    using sample_comm_scores by (cases "CommunicationPlugin_ScorePlacement (Some sample_comm) sample_ctx") auto
  show ?thesis by (rule latency_metric_defined [OF m]) (simp add: sample_ctx_def)
qed

end
