(* ===== verification/Profiles.thy ===== *)
theory Profiles
  imports Kube_Model Energy Communication
begin

section \<open>Profiles and topologies from ConfigMaps\<close>

text \<open>
  \<open>src/controller/internal/controller/profiles_configmaps.go\<close>: prices, power curves, region latencies and
  service topologies that the optimizer takes as input. A ConfigMap is its data. Parsing a YAML or JSON text is
  the library's: \<open>profile_lib\<close> holds what \<open>Unmarshal\<close> makes of a text. A loop over a map follows the order of its
  association list, one of the orders Go may choose. Missing and nil maps are both empty.
\<close>

record instanceCostProfile =
  icp_Family :: string
  icp_CPU :: int64
  icp_Price :: f64

record familyEnergyProfile =
  fep_BaseCores :: int64
  fep_PowerSamples :: "PowerSample list"

record regionLatencyMatrix =
  rlm_Regions :: "string list"
  rlm_Latency :: "(string, (string, f64) gomap) gomap"

record topologyTemplate =
  tt_Nodes :: "string list"
  tt_Adjacency :: "int64 list list"

record profilesData =
  pd_InstancePrice :: "(string, f64) gomap"
  pd_InstancePower :: "(string, PowerCurve) gomap"
  pd_CityRegionLatencyMs :: "(string, (string, f64) gomap) gomap"
  pd_RegionLatencyMs :: "(string, (string, f64) gomap) gomap"

record profile_lib =
  yaml_cost :: "string \<Rightarrow> api_err + instanceCostProfile"
  yaml_energy :: "string \<Rightarrow> api_err + familyEnergyProfile"
  yaml_latency :: "string \<Rightarrow> api_err + regionLatencyMatrix"
  json_topology :: "string \<Rightarrow> api_err + topologyTemplate"

definition get_configmap :: "env \<Rightarrow> nskey \<Rightarrow> (api_err + (string, string) gomap) io" where
  "get_configmap E k = call (GetConfigMap k) (\<lambda>h. env_get_configmap E h k)"

subsection \<open>Topologies\<close>

definition service_of :: "string \<Rightarrow> NamespacedName" where
  "service_of n = \<lparr>nn_Namespace = '''', nn_Name = n\<rparr>"

definition topology_label :: "string \<Rightarrow> string \<Rightarrow> string \<Rightarrow> string" where
  "topology_label namespace cmName key = namespace @ ''/'' @ cmName @ ''['' @ key @ '']''"

definition topology_key :: "string \<Rightarrow> (string, string) gomap \<Rightarrow> string" where
  "topology_key cmName data = (case mget data cmName of Some _ \<Rightarrow> cmName | None \<Rightarrow> (case data of [] \<Rightarrow> '''' | (k, _) # _ \<Rightarrow> k))"

definition check_row :: "string \<Rightarrow> nat \<Rightarrow> nat \<times> int64 list \<Rightarrow> unit \<Rightarrow> api_err + unit" where
  "check_row lbl n ir u = (case ir of (i, row) \<Rightarrow>
     if length row \<noteq> n then Inl (OtherErr (''invalid topology '' @ lbl @ '': adjacency row '' @ itoa (int i) @ '' len='' @
       itoa (int (length row)) @ '' nodes='' @ itoa (int n))) else Inr ())"

definition check_topology :: "string \<Rightarrow> topologyTemplate \<Rightarrow> api_err + unit" where
  "check_topology lbl tpl =
    (let n = length (tt_Nodes tpl) in
     if n = 0 then Inl (OtherErr (''invalid topology '' @ lbl @ '': nodes is empty''))
     else if length (tt_Adjacency tpl) \<noteq> n then
       Inl (OtherErr (''invalid topology '' @ lbl @ '': adjacency rows='' @ itoa (int (length (tt_Adjacency tpl))) @
         '' nodes='' @ itoa (int n)))
     else fold_r (check_row lbl n) (enumerate 0 (tt_Adjacency tpl)) ())"

definition row_targets :: "string list \<Rightarrow> int64 list \<Rightarrow> NamespacedName list" where
  "row_targets nodes row = map (\<lambda>(j, v). service_of (nodes ! j)) (filter (\<lambda>(j, v). v \<noteq> 0) (enumerate 0 row))"

definition topology_deps :: "topologyTemplate \<Rightarrow> (NamespacedName, NamespacedName list) gomap" where
  "topology_deps tpl = fold (\<lambda>(i, svc) deps. mput (service_of svc) (row_targets (tt_Nodes tpl) (tt_Adjacency tpl ! i)) deps)
     (enumerate 0 (tt_Nodes tpl)) []"

definition loadTopologyFromConfigMap ::
  "profile_lib \<Rightarrow> env \<Rightarrow> string \<Rightarrow> string \<Rightarrow> (api_err + (NamespacedName, NamespacedName list) gomap) io" where
  "loadTopologyFromConfigMap L E namespace cmName =
    (if cmName = '''' then State_Monad.return (Inl (OtherErr ''topologyRef is empty''))
     else do {
       g \<leftarrow> get_configmap E \<lparr>key_Name = cmName, key_Namespace = namespace\<rparr>;
       State_Monad.return (case g of
         Inl err \<Rightarrow> Inl err
       | Inr data \<Rightarrow>
           if data = [] then Inl (OtherErr (''configmap '' @ namespace @ ''/'' @ cmName @ '' has empty data''))
           else (let key = topology_key cmName data; lbl = topology_label namespace cmName key in
             case json_topology L (mget0 '''' data key) of
               Inl err \<Rightarrow> Inl (OtherErr (''parse '' @ lbl @ '': '' @ err_text err))
             | Inr tpl \<Rightarrow> rbind (check_topology lbl tpl) (\<lambda>_. Inr (topology_deps tpl))))
     })"

subsection \<open>Prices, power curves and latencies\<close>

definition parse_error :: "string \<Rightarrow> string \<Rightarrow> string \<Rightarrow> api_err \<Rightarrow> api_err" where
  "parse_error namespace cm k err = OtherErr (''parse '' @ topology_label namespace cm k @ '': '' @ err_text err)"

definition family_step ::
  "profile_lib \<Rightarrow> string \<Rightarrow> string \<times> string \<Rightarrow> (string, familyEnergyProfile) gomap \<Rightarrow> api_err + (string, familyEnergyProfile) gomap" where
  "family_step L namespace kr fams = (case kr of (k, raw) \<Rightarrow>
     (case yaml_energy L raw of
        Inl err \<Rightarrow> Inl (parse_error namespace ''instance-family-energy-profiles'' k err)
      | Inr fp \<Rightarrow> Inr (mput k fp fams)))"

definition scaled_curve :: "instanceCostProfile \<Rightarrow> familyEnergyProfile \<Rightarrow> PowerCurve" where
  "scaled_curve p fp =
    (let scale = fdiv (of_int64 (icp_CPU p)) (of_int64 (fep_BaseCores fp))
     in \<lparr>Samples = map (\<lambda>s. \<lparr>Util = Util s, Power = fmul (Power s) scale\<rparr>) (fep_PowerSamples fp)\<rparr>)"

definition instance_curve :: "(string, familyEnergyProfile) gomap \<Rightarrow> instanceCostProfile \<Rightarrow> PowerCurve option" where
  "instance_curve fams p =
    (if icp_Family p = '''' \<or> icp_CPU p \<le> 0 then None
     else case mget fams (icp_Family p) of
       None \<Rightarrow> None
     | Some fp \<Rightarrow> if fep_BaseCores fp \<le> 0 \<or> length (fep_PowerSamples fp) < 2 then None else Some (scaled_curve p fp))"

definition instance_step ::
  "profile_lib \<Rightarrow> string \<Rightarrow> (string, familyEnergyProfile) gomap \<Rightarrow> string \<times> string
     \<Rightarrow> (string, f64) gomap \<times> (string, PowerCurve) gomap \<Rightarrow> api_err + (string, f64) gomap \<times> (string, PowerCurve) gomap" where
  "instance_step L namespace fams ir s = (case (ir, s) of ((inst, raw), (price, watts)) \<Rightarrow>
     (case yaml_cost L raw of
        Inl err \<Rightarrow> Inl (parse_error namespace ''instance-cost-profiles'' inst err)
      | Inr p \<Rightarrow> Inr (mput inst (icp_Price p) price,
          (case instance_curve fams p of None \<Rightarrow> watts | Some c \<Rightarrow> mput inst c watts))))"

definition allowed_regions :: "regionLatencyMatrix \<Rightarrow> string list" where
  "allowed_regions m = filter (\<lambda>r. r \<noteq> '''') (rlm_Regions m)"

definition region_row :: "string list \<Rightarrow> (string, f64) gomap \<Rightarrow> (string, f64) gomap" where
  "region_row regs row = fold (\<lambda>(dst, lat) out. if dst \<in> set regs then mput dst lat out else out) row []"

definition region_latencies :: "regionLatencyMatrix \<Rightarrow> (string, (string, f64) gomap) gomap" where
  "region_latencies m = fold (\<lambda>(src, row) out.
     if src = '''' then out
     else if src \<notin> set (allowed_regions m) then out
     else mput src (region_row (allowed_regions m) row) out) (rlm_Latency m) []"

definition parse_profiles ::
  "profile_lib \<Rightarrow> string \<Rightarrow> (string, string) gomap \<Rightarrow> (string, string) gomap \<Rightarrow> (string, string) gomap \<Rightarrow> api_err + profilesData" where
  "parse_profiles L namespace cost energy latency =
    rbind (fold_r (family_step L namespace) energy []) (\<lambda>fams.
    rbind (fold_r (instance_step L namespace fams) cost ([], [])) (\<lambda>(price, watts).
    rbind (let raw = mget0 '''' latency ''matrix.yaml'' in
           if raw = '''' then Inr []
           else case yaml_latency L raw of
             Inl err \<Rightarrow> Inl (parse_error namespace ''region-latency-matrix'' ''matrix.yaml'' err)
           | Inr m \<Rightarrow> Inr (region_latencies m)) (\<lambda>regions.
      Inr \<lparr>pd_InstancePrice = price, pd_InstancePower = watts,
           pd_CityRegionLatencyMs = fold (\<lambda>(src, row) out. mput src row out) regions [],
           pd_RegionLatencyMs = regions\<rparr>)))"

definition loadProfilesFromConfigMaps :: "profile_lib \<Rightarrow> env \<Rightarrow> string \<Rightarrow> (api_err + profilesData) io" where
  "loadProfilesFromConfigMaps L E ns0 =
    (let namespace = (if ns0 = '''' then ''kubex-system'' else ns0) in do {
       cost \<leftarrow> get_configmap E \<lparr>key_Name = ''instance-cost-profiles'', key_Namespace = namespace\<rparr>;
       case cost of
         Inl err \<Rightarrow> State_Monad.return (Inl err)
       | Inr cost \<Rightarrow> do {
           energy \<leftarrow> get_configmap E \<lparr>key_Name = ''instance-family-energy-profiles'', key_Namespace = namespace\<rparr>;
           case energy of
             Inl err \<Rightarrow> State_Monad.return (Inl err)
           | Inr energy \<Rightarrow> do {
               latency \<leftarrow> get_configmap E \<lparr>key_Name = ''region-latency-matrix'', key_Namespace = namespace\<rparr>;
               State_Monad.return (case latency of
                 Inl err \<Rightarrow> Inl err
               | Inr latency \<Rightarrow> parse_profiles L namespace cost energy latency)
             }
         }
     })"

subsection \<open>Topologies follow their adjacency matrix\<close>

lemma service_of_inj [simp]: "service_of a = service_of b \<longleftrightarrow> a = b"
  by (simp add: service_of_def)

lemma enumerate_eq: "enumerate 0 xs = map (\<lambda>i. (i, xs ! i)) [0..<length xs]"
  by (rule nth_equalityI) (simp_all add: nth_enumerate_eq)

lemma row_targets_eq:
  "row_targets nodes row = map (\<lambda>j. service_of (nodes ! j)) (filter (\<lambda>j. row ! j \<noteq> 0) [0..<length row])"
  by (simp add: row_targets_def enumerate_eq filter_map o_def)

lemma check_rows:
  "fold_r (check_row lbl n) irs () = Inr u \<longleftrightarrow> (\<forall>(i, row) \<in> set irs. length row = n)"
  by (induction irs) (auto simp: check_row_def split: if_splits)

lemma check_topology_Inr:
  "check_topology lbl tpl = Inr u \<longleftrightarrow> tt_Nodes tpl \<noteq> [] \<and> length (tt_Adjacency tpl) = length (tt_Nodes tpl) \<and>
    (\<forall>row \<in> set (tt_Adjacency tpl). length row = length (tt_Nodes tpl))"
  by (auto simp: check_topology_def Let_def check_rows enumerate_eq all_set_conv_all_nth)

lemma topology_deps_keys: "mkeys (topology_deps tpl) = service_of ` set (tt_Nodes tpl)"
proof -
  have "mkeys (topology_deps tpl) = (\<lambda>(i, svc). service_of svc) ` set (enumerate 0 (tt_Nodes tpl))"
    unfolding topology_deps_def using mkeys_fold_mput [of "\<lambda>(i, svc). service_of svc" _ "enumerate 0 (tt_Nodes tpl)" "[]"]
    by (simp add: case_prod_unfold)
  also have "\<dots> = service_of ` set (tt_Nodes tpl)"
    by (force simp: enumerate_eq in_set_conv_nth)
  finally show ?thesis .
qed

lemma topology_deps_get:
  assumes "distinct (tt_Nodes tpl)" and "i < length (tt_Nodes tpl)"
  shows "mget (topology_deps tpl) (service_of (tt_Nodes tpl ! i)) = Some (row_targets (tt_Nodes tpl) (tt_Adjacency tpl ! i))"
proof -
  let ?row = "\<lambda>i. row_targets (tt_Nodes tpl) (tt_Adjacency tpl ! i)" and ?ns = "tt_Nodes tpl"
  have "mget (fold (\<lambda>(i, svc) deps. mput (service_of svc) (?row i) deps) (enumerate 0 (take k ?ns)) []) (service_of (?ns ! i)) =
      (if i < k then Some (?row i) else None)" if "k \<le> length ?ns" for k
    using that
  proof (induction k)
    case (Suc k)
    then have "take (Suc k) ?ns = take k ?ns @ [?ns ! k]" and "length (take k ?ns) = k" by (simp_all add: take_Suc_conv_app_nth)
    with Suc assms show ?case by (auto simp: enumerate_append_eq nth_eq_iff_index_eq less_Suc_eq)
  qed simp
  from this [of "length ?ns"] assms(2) show ?thesis by (simp add: topology_deps_def)
qed

text \<open>
  A topology is loaded as its matrix says. When loading succeeds, the text under the chosen key was a
  square adjacency matrix over a non-empty list of services; every service has an entry, and with distinct
  names the dependencies of service \<open>i\<close> are exactly the services \<open>j\<close> with a non-zero entry in row \<open>i\<close>, in
  order, each of them a service of the topology.
\<close>

theorem topology_follows_adjacency:
  assumes "result (loadTopologyFromConfigMap L E ns cm) w = Inr deps"
  shows "\<exists>data tpl. env_get_configmap E (hist w) \<lparr>key_Name = cm, key_Namespace = ns\<rparr> = Inr data \<and>
    json_topology L (mget0 '''' data (topology_key cm data)) = Inr tpl \<and>
    (let nodes = tt_Nodes tpl; n = length nodes in
      n > 0 \<and> length (tt_Adjacency tpl) = n \<and> mkeys deps = service_of ` set nodes \<and>
      (distinct nodes \<longrightarrow> (\<forall>i<n. mget deps (service_of (nodes ! i)) =
         Some (map (\<lambda>j. service_of (nodes ! j)) (filter (\<lambda>j. tt_Adjacency tpl ! i ! j \<noteq> 0) [0..<n])))))"
proof -
  have "wp (loadTopologyFromConfigMap L E ns cm) (\<lambda>r _. r = Inr deps) w" using assms by (simp add: wp_result)
  then obtain data tpl where d: "env_get_configmap E (hist w) \<lparr>key_Name = cm, key_Namespace = ns\<rparr> = Inr data"
    and t: "json_topology L (mget0 '''' data (topology_key cm data)) = Inr tpl"
    and c: "check_topology (topology_label ns cm (topology_key cm data)) tpl = Inr ()" and deps: "deps = topology_deps tpl"
    by (auto simp: loadTopologyFromConfigMap_def get_configmap_def vcg Let_def rbind_eq_Inr split: sum.splits if_splits)
  from c have sq: "tt_Nodes tpl \<noteq> []" "length (tt_Adjacency tpl) = length (tt_Nodes tpl)"
    "\<And>i. i < length (tt_Nodes tpl) \<Longrightarrow> length (tt_Adjacency tpl ! i) = length (tt_Nodes tpl)"
    by (auto simp: check_topology_Inr)
  show ?thesis
    using d t sq topology_deps_get [of tpl] by (auto simp: deps topology_deps_keys row_targets_eq Let_def)
qed

subsection \<open>Prices and power curves\<close>

lemma fold_r_Cons_Inr: "fold_r f (x # xs) s = Inr s' \<longleftrightarrow> (\<exists>t. f x s = Inr t \<and> fold_r f xs t = Inr s')"
  by (auto split: sum.splits)

lemma wf_map_Cons: "wf_map ((a, v) # m) \<longleftrightarrow> wf_map m \<and> mget m a = None"
  by (auto simp: wf_map_def map_of_eq_None_iff)

lemma family_fold:
  assumes "fold_r (family_step L ns) kvs fams = Inr fams'" and "wf_map kvs"
  shows "mget fams' k = (case mget kvs k of None \<Rightarrow> mget fams k
    | Some raw \<Rightarrow> (case yaml_energy L raw of Inl _ \<Rightarrow> None | Inr fp \<Rightarrow> Some fp))"
  using assms
proof (induction kvs arbitrary: fams)
  case (Cons kv kvs)
  obtain a raw where kv: "kv = (a, raw)" by (cases kv)
  with Cons.prems(1) obtain fp where fp: "yaml_energy L raw = Inr fp" "fold_r (family_step L ns) kvs (mput a fp fams) = Inr fams'"
    unfolding fold_r_Cons_Inr by (auto simp: family_step_def [of _ _ "(a, raw)"] split: sum.splits)
  from Cons.prems(2) kv have "wf_map kvs" "mget kvs a = None" by (simp_all add: wf_map_Cons)
  with Cons.IH [OF fp(2)] kv fp(1) show ?case by (auto split: option.splits)
qed simp

lemma instance_fold:
  assumes "fold_r (instance_step L ns fams) kvs (price, watts) = Inr (price', watts')" and "wf_map kvs"
    and "\<And>k. k \<in> mkeys kvs \<Longrightarrow> mget watts k = None"
  shows "(\<forall>k raw. mget kvs k = Some raw \<longrightarrow> (\<exists>p. yaml_cost L raw = Inr p \<and>
      mget price' k = Some (icp_Price p) \<and> mget watts' k = instance_curve fams p)) \<and>
    (\<forall>k. mget kvs k = None \<longrightarrow> mget price' k = mget price k \<and> mget watts' k = mget watts k)"
  using assms
proof (induction kvs arbitrary: price watts)
  case (Cons kv kvs)
  obtain a raw where kv: "kv = (a, raw)" by (cases kv)
  let ?w = "\<lambda>p. case instance_curve fams p of None \<Rightarrow> watts | Some c \<Rightarrow> mput a c watts"
  from Cons.prems(1) kv obtain p where p: "yaml_cost L raw = Inr p"
    "fold_r (instance_step L ns fams) kvs (mput a (icp_Price p) price, ?w p) = Inr (price', watts')"
    unfolding fold_r_Cons_Inr by (auto simp: instance_step_def [of _ _ _ "(a, raw)"] split: sum.splits)
  from Cons.prems(2) kv have a: "wf_map kvs" "mget kvs a = None" by (simp_all add: wf_map_Cons)
  have fresh: "mget (?w p) k = None" if "k \<in> mkeys kvs" for k
    using that Cons.prems(3) [of k] kv a(2) by (auto simp: map_of_eq_None_iff split: option.split)
  have "mget watts a = None" using Cons.prems(3) [of a] kv by simp
  with Cons.IH [OF p(2) a(1) fresh] p(1) a(2) kv show ?case by (auto split: option.splits)
qed simp

text \<open>What an instance's curve should be, from the energy ConfigMap directly.\<close>

definition expected_curve :: "profile_lib \<Rightarrow> (string, string) gomap \<Rightarrow> instanceCostProfile \<Rightarrow> PowerCurve option" where
  "expected_curve L energy p =
    (if icp_Family p = '''' \<or> icp_CPU p \<le> 0 then None
     else case mget energy (icp_Family p) of
       None \<Rightarrow> None
     | Some raw \<Rightarrow> (case yaml_energy L raw of
           Inl _ \<Rightarrow> None
         | Inr fp \<Rightarrow> if fep_BaseCores fp \<le> 0 \<or> length (fep_PowerSamples fp) < 2 then None else Some (scaled_curve p fp)))"

lemma scaled_curve_valid: "valid_curve \<lparr>Samples = fep_PowerSamples fp\<rparr> \<Longrightarrow> valid_curve (scaled_curve p fp)"
  by (auto simp: valid_curve_def scaled_curve_def Let_def o_def split: f64.splits)

lemma parse_profiles_instances:
  assumes "parse_profiles L ns cost energy latency = Inr d" and "wf_map cost" and "wf_map energy"
  shows "case mget cost inst of
      None \<Rightarrow> mget (pd_InstancePrice d) inst = None \<and> mget (pd_InstancePower d) inst = None
    | Some raw \<Rightarrow> \<exists>p. yaml_cost L raw = Inr p \<and> mget (pd_InstancePrice d) inst = Some (icp_Price p) \<and>
        mget (pd_InstancePower d) inst = expected_curve L energy p"
proof -
  from assms(1) obtain fams price watts where f: "fold_r (family_step L ns) energy [] = Inr fams"
    and i: "fold_r (instance_step L ns fams) cost ([], []) = Inr (price, watts)"
    and d: "pd_InstancePrice d = price" "pd_InstancePower d = watts"
    by (auto simp: parse_profiles_def rbind_eq_Inr Let_def)
  have "instance_curve fams p = expected_curve L energy p" for p
    using family_fold [OF f assms(3), of "icp_Family p"]
    by (auto simp: instance_curve_def expected_curve_def split: option.splits sum.splits)
  with instance_fold [OF i assms(2)] d show ?thesis by (auto split: option.split)
qed

subsection \<open>Latencies\<close>

lemma region_row_get:
  assumes "wf_map row"
  shows "mget (region_row regs row) b = (if b \<in> set regs then mget row b else None)"
proof -
  have "mget (fold (\<lambda>(dst, lat) out. if dst \<in> set regs then mput dst lat out else out) row out) b =
      (if b \<in> set regs \<and> mget row b \<noteq> None then mget row b else mget out b)" for out
    using assms
  proof (induction row arbitrary: out)
    case (Cons x row)
    then show ?case by (cases x) (auto simp: wf_map_Cons)
  qed simp
  then show ?thesis by (simp add: region_row_def)
qed

lemma wf_region_latencies: "wf_map (region_latencies m)"
proof -
  have "wf_map (fold (\<lambda>(src, row) out. if src = [] then out else if src \<notin> set (allowed_regions m) then out
      else mput src (region_row (allowed_regions m) row) out) lat out)" if "wf_map out" for lat out
    using that by (induction lat arbitrary: out) (auto split: prod.split)
  then show ?thesis by (simp add: region_latencies_def)
qed

lemma region_latencies_get:
  assumes "wf_map (rlm_Latency m)"
  shows "mget (region_latencies m) a = (if a \<in> set (allowed_regions m)
    then map_option (region_row (allowed_regions m)) (mget (rlm_Latency m) a) else None)"
proof -
  have ne: "[] \<notin> set (allowed_regions m)" by (simp add: allowed_regions_def)
  have "mget (fold (\<lambda>(src, row) out. if src = [] then out else if src \<notin> set (allowed_regions m) then out
        else mput src (region_row (allowed_regions m) row) out) lat out) a =
      (if a \<in> set (allowed_regions m) \<and> mget lat a \<noteq> None
       then map_option (region_row (allowed_regions m)) (mget lat a) else mget out a)" if "wf_map lat" for lat out
    using that
  proof (induction lat arbitrary: out)
    case (Cons x lat)
    with ne show ?case by (cases x) (auto simp: wf_map_Cons)
  qed simp
  with assms show ?thesis by (simp add: region_latencies_def)
qed

lemma copy_get: "wf_map m \<Longrightarrow> mget (fold (\<lambda>(src, row) out. mput src row out) m out) a = (case mget m a of None \<Rightarrow> mget out a | r \<Rightarrow> r)"
  by (induction m arbitrary: out) (auto simp: wf_map_Cons split: option.split)

text \<open>The latency between two regions, and the regions that a matrix lists.\<close>

definition latency_between :: "(string, (string, f64) gomap) gomap \<Rightarrow> string \<Rightarrow> string \<Rightarrow> f64 option" where
  "latency_between lat a b = Option.bind (mget lat a) (\<lambda>row. mget row b)"

definition listed :: "regionLatencyMatrix \<Rightarrow> string \<Rightarrow> bool" where
  "listed m r \<longleftrightarrow> r \<noteq> [] \<and> r \<in> set (rlm_Regions m)"

lemma allowed_listed [simp]: "r \<in> set (allowed_regions m) \<longleftrightarrow> listed m r"
  by (auto simp: allowed_regions_def listed_def)

definition wf_matrix :: "regionLatencyMatrix \<Rightarrow> bool" where
  "wf_matrix m \<longleftrightarrow> wf_map (rlm_Latency m) \<and> (\<forall>a row. mget (rlm_Latency m) a = Some row \<longrightarrow> wf_map row)"

lemma region_latencies_between:
  assumes "wf_matrix m"
  shows "latency_between (region_latencies m) a b = (if listed m a \<and> listed m b then latency_between (rlm_Latency m) a b else None)"
proof -
  have "wf_map (rlm_Latency m)" and rows: "\<And>row. mget (rlm_Latency m) a = Some row \<Longrightarrow> wf_map row" using assms by (simp_all add: wf_matrix_def)
  from region_latencies_get [OF this(1)] show ?thesis
    using rows by (cases "mget (rlm_Latency m) a") (auto simp: latency_between_def region_row_get)
qed

lemma region_latencies_keys: "wf_matrix m \<Longrightarrow> mkeys (region_latencies m) = {a \<in> mkeys (rlm_Latency m). listed m a}"
proof -
  assume "wf_matrix m"
  then have get: "mget (region_latencies m) a = (if a \<in> set (allowed_regions m)
      then map_option (region_row (allowed_regions m)) (mget (rlm_Latency m) a) else None)" for a
    by (simp add: wf_matrix_def region_latencies_get)
  have "a \<in> mkeys n \<longleftrightarrow> mget n a \<noteq> None" for a and n :: "(string, (string, f64) gomap) gomap" by (simp add: map_of_eq_None_iff)
  then show ?thesis unfolding set_eq_iff mem_Collect_eq by (simp add: get del: set_map image_iff)
qed

text \<open>The latencies of the profiles are those of the matrix text, if there is one.\<close>

definition latencies_follow :: "profile_lib \<Rightarrow> string \<Rightarrow> profilesData \<Rightarrow> bool" where
  "latencies_follow L raw d \<longleftrightarrow>
    (if raw = [] then pd_RegionLatencyMs d = []
     else \<exists>m. yaml_latency L raw = Inr m \<and> mkeys (pd_RegionLatencyMs d) = {a \<in> mkeys (rlm_Latency m). listed m a} \<and>
       (\<forall>a b. latency_between (pd_RegionLatencyMs d) a b =
          (if listed m a \<and> listed m b then latency_between (rlm_Latency m) a b else None))) \<and>
    (\<forall>a. mget (pd_CityRegionLatencyMs d) a = mget (pd_RegionLatencyMs d) a)"

lemma parse_profiles_latencies:
  assumes "parse_profiles L ns cost energy latency = Inr d" and "\<And>raw m. yaml_latency L raw = Inr m \<Longrightarrow> wf_matrix m"
  shows "latencies_follow L (mget0 [] latency ''matrix.yaml'') d"
proof -
  let ?raw = "mget0 [] latency ''matrix.yaml''" and ?copy = "\<lambda>r. fold (\<lambda>(src, row) out. mput src row out) r []"
  have "if ?raw = [] then d = d\<lparr>pd_CityRegionLatencyMs := ?copy [], pd_RegionLatencyMs := []\<rparr>
      else \<exists>m. yaml_latency L ?raw = Inr m \<and> d = d\<lparr>pd_CityRegionLatencyMs := ?copy (region_latencies m), pd_RegionLatencyMs := region_latencies m\<rparr>"
    using assms(1) by (auto simp: parse_profiles_def rbind_eq_Inr Let_def split: if_splits sum.splits)
  then consider "?raw = []" "d = d\<lparr>pd_CityRegionLatencyMs := ?copy [], pd_RegionLatencyMs := []\<rparr>"
    | m where "?raw \<noteq> []" "yaml_latency L ?raw = Inr m"
      "d = d\<lparr>pd_CityRegionLatencyMs := ?copy (region_latencies m), pd_RegionLatencyMs := region_latencies m\<rparr>" by (auto split: if_splits)
  then show ?thesis
  proof cases
    case 1
    from arg_cong [OF this(2), of pd_CityRegionLatencyMs] arg_cong [OF this(2), of pd_RegionLatencyMs] this(1)
    show ?thesis by (simp add: latencies_follow_def)
  next
    case 2
    from arg_cong [OF this(3), of pd_CityRegionLatencyMs] arg_cong [OF this(3), of pd_RegionLatencyMs]
    have d: "pd_CityRegionLatencyMs d = ?copy (region_latencies m)" "pd_RegionLatencyMs d = region_latencies m" by simp_all
    have wf: "wf_matrix m" using assms(2) 2(2) by blast
    have "mget (?copy (region_latencies m)) a = mget (region_latencies m) a" for a
      by (simp add: copy_get [OF wf_region_latencies] split: option.split)
    then show ?thesis
      using 2(1,2) region_latencies_between [OF wf] region_latencies_keys [OF wf] unfolding latencies_follow_def d by simp
  qed
qed

text \<open>
  C28: The profiles are those of the ConfigMaps. When they load, the three ConfigMaps of the namespace
  (\<open>kubex-system\<close> if none is given) were read, in this order, and
  \<^item> every instance type of the cost ConfigMap has the price of its own entry, and a power curve exactly when it
    names a family of the energy ConfigMap with at least two samples and positive core counts: that family's samples
    with the same utilisations, the power scaled by the ratio of cores; no other instance type has a price or a curve;
  \<^item> the latencies are those of the matrix text, rows and columns restricted to the non-empty regions it lists, for
    regions and for source cities alike; without a text there are none.

  Scaling keeps a valid curve valid. The hypotheses say that a Go map has one value per key.
\<close>

theorem profiles_follow_configmaps:
  assumes "result (loadProfilesFromConfigMaps L E ns0) w = Inr d"
    and "\<And>h k data. env_get_configmap E h k = Inr data \<Longrightarrow> wf_map data"
    and "\<And>raw m. yaml_latency L raw = Inr m \<Longrightarrow> wf_matrix m"
    and "key = (\<lambda>n. \<lparr>key_Name = n, key_Namespace = if ns0 = [] then ''kubex-system'' else ns0\<rparr>)"
  shows "\<exists>cost energy latency.
    env_get_configmap E (hist w) (key ''instance-cost-profiles'') = Inr cost \<and>
    env_get_configmap E (hist w @ [GetConfigMap (key ''instance-cost-profiles'')]) (key ''instance-family-energy-profiles'') = Inr energy \<and>
    env_get_configmap E (hist w @ [GetConfigMap (key ''instance-cost-profiles''), GetConfigMap (key ''instance-family-energy-profiles'')])
      (key ''region-latency-matrix'') = Inr latency \<and>
    (\<forall>inst. case mget cost inst of
        None \<Rightarrow> mget (pd_InstancePrice d) inst = None \<and> mget (pd_InstancePower d) inst = None
      | Some raw \<Rightarrow> \<exists>p. yaml_cost L raw = Inr p \<and> mget (pd_InstancePrice d) inst = Some (icp_Price p) \<and>
          mget (pd_InstancePower d) inst = expected_curve L energy p \<and>
          (\<forall>fp. valid_curve \<lparr>Samples = fep_PowerSamples fp\<rparr> \<longrightarrow> valid_curve (scaled_curve p fp))) \<and>
    latencies_follow L (mget0 [] latency ''matrix.yaml'') d"
proof -
  let ?ns = "if ns0 = [] then ''kubex-system'' else ns0"
  have "wp (loadProfilesFromConfigMaps L E ns0) (\<lambda>r _. r = Inr d) w" using assms(1) by (simp add: wp_result)
  then obtain cost energy latency where
    read: "env_get_configmap E (hist w) (key ''instance-cost-profiles'') = Inr cost"
      "env_get_configmap E (hist w @ [GetConfigMap (key ''instance-cost-profiles'')]) (key ''instance-family-energy-profiles'') = Inr energy"
      "env_get_configmap E (hist w @ [GetConfigMap (key ''instance-cost-profiles''), GetConfigMap (key ''instance-family-energy-profiles'')])
        (key ''region-latency-matrix'') = Inr latency"
    and parse: "parse_profiles L ?ns cost energy latency = Inr d"
    unfolding assms(4) loadProfilesFromConfigMaps_def get_configmap_def Let_def wp_bind wp_call
    by (auto simp: vcg split: sum.splits simp del: if_split)
  note inst = parse_profiles_instances [OF parse assms(2) [OF read(1)] assms(2) [OF read(2)]]
  have "case mget cost inst of None \<Rightarrow> mget (pd_InstancePrice d) inst = None \<and> mget (pd_InstancePower d) inst = None
      | Some raw \<Rightarrow> \<exists>p. yaml_cost L raw = Inr p \<and> mget (pd_InstancePrice d) inst = Some (icp_Price p) \<and>
          mget (pd_InstancePower d) inst = expected_curve L energy p \<and>
          (\<forall>fp. valid_curve \<lparr>Samples = fep_PowerSamples fp\<rparr> \<longrightarrow> valid_curve (scaled_curve p fp))" for inst
    using inst [of inst] scaled_curve_valid by (cases "mget cost inst") auto
  moreover have "latencies_follow L (mget0 [] latency ''matrix.yaml'') d" by (rule parse_profiles_latencies [OF parse assms(3)])
  ultimately show ?thesis using read by blast
qed

subsection \<open>Witnesses\<close>

definition sample_lib :: profile_lib where
  "sample_lib = \<lparr>yaml_cost = (\<lambda>_. Inr \<lparr>icp_Family = ''m5'', icp_CPU = 4, icp_Price = Fin 2\<rparr>),
     yaml_energy = (\<lambda>_. Inr \<lparr>fep_BaseCores = 2, fep_PowerSamples =
       [\<lparr>Util = Fin 0, Power = Fin 10\<rparr>, \<lparr>Util = Fin 1, Power = Fin 30\<rparr>]\<rparr>),
     yaml_latency = (\<lambda>_. Inr \<lparr>rlm_Regions = [''eu''], rlm_Latency = [(''eu'', [(''eu'', Fin 1)])]\<rparr>),
     json_topology = (\<lambda>_. Inr \<lparr>tt_Nodes = [''a'', ''b''], tt_Adjacency = [[0, 1], [0, 0]]\<rparr>)\<rparr>"

definition config_env :: env where
  "config_env = (sample_env Running)\<lparr>env_get_configmap := \<lambda>_ k. Inr [(key_Name k, ''text'')]\<rparr>"

theorem topology_follows_adjacency_witness:
  "\<exists>data tpl. env_get_configmap config_env (hist fresh_world) \<lparr>key_Name = ''shop'', key_Namespace = ''ns''\<rparr> = Inr data \<and>
    json_topology sample_lib (mget0 '''' data (topology_key ''shop'' data)) = Inr tpl \<and>
    (let nodes = tt_Nodes tpl; n = length nodes in
      n > 0 \<and> length (tt_Adjacency tpl) = n \<and> mkeys [(service_of ''a'', [service_of ''b'']), (service_of ''b'', [])] = service_of ` set nodes \<and>
      (distinct nodes \<longrightarrow> (\<forall>i<n. mget [(service_of ''a'', [service_of ''b'']), (service_of ''b'', [])] (service_of (nodes ! i)) =
         Some (map (\<lambda>j. service_of (nodes ! j)) (filter (\<lambda>j. tt_Adjacency tpl ! i ! j \<noteq> 0) [0..<n])))))"
  by (rule topology_follows_adjacency) code_simp

definition loaded_profiles :: profilesData where
  "loaded_profiles = \<lparr>
     pd_InstancePrice = [(''m5.large'', Fin 2)],
     pd_InstancePower = [(''m5.large'', \<lparr>Samples = [\<lparr>Util = Fin 0, Power = Fin 20\<rparr>, \<lparr>Util = Fin 1, Power = Fin 60\<rparr>]\<rparr>)],
     pd_CityRegionLatencyMs = [(''eu'', [(''eu'', Fin 1)])], pd_RegionLatencyMs = [(''eu'', [(''eu'', Fin 1)])]\<rparr>"

definition profiles_env :: env where
  "profiles_env = (sample_env Running)\<lparr>env_get_configmap := \<lambda>_ k. Inr
     (if key_Name k = ''instance-cost-profiles'' then [(''m5.large'', ''price'')]
      else if key_Name k = ''instance-family-energy-profiles'' then [(''m5'', ''power'')] else [(''matrix.yaml'', ''matrix'')])\<rparr>"

theorem profiles_follow_configmaps_witness:
  "result (loadProfilesFromConfigMaps sample_lib profiles_env []) fresh_world = Inr loaded_profiles \<and>
   (let key = (\<lambda>n. \<lparr>key_Name = n, key_Namespace = ''kubex-system''\<rparr>) in \<exists>cost energy latency.
    env_get_configmap profiles_env [] (key ''instance-cost-profiles'') = Inr cost \<and>
    env_get_configmap profiles_env [GetConfigMap (key ''instance-cost-profiles'')] (key ''instance-family-energy-profiles'') = Inr energy \<and>
    env_get_configmap profiles_env [GetConfigMap (key ''instance-cost-profiles''), GetConfigMap (key ''instance-family-energy-profiles'')]
      (key ''region-latency-matrix'') = Inr latency \<and>
    latencies_follow sample_lib (mget0 [] latency ''matrix.yaml'') loaded_profiles)"
proof -
  let ?key = "\<lambda>n. \<lparr>key_Name = n, key_Namespace = ''kubex-system''\<rparr>"
  have run: "result (loadProfilesFromConfigMaps sample_lib profiles_env []) fresh_world = Inr loaded_profiles" by code_simp
  have "wf_map data" if "env_get_configmap profiles_env h k = Inr data" for h k data
    using that by (auto simp: profiles_env_def wf_map_def split: if_splits)
  moreover have "wf_matrix m" if "yaml_latency sample_lib raw = Inr m" for raw m
    using that by (auto simp: sample_lib_def wf_matrix_def wf_map_def split: if_splits)
  moreover have "hist fresh_world = []" by (simp add: fresh_world_def)
  ultimately show ?thesis
    using run profiles_follow_configmaps [OF run, of ?key] unfolding Let_def by auto
qed

end
