(* ===== verification/Objective.thy ===== *)
theory Objective
  imports Energy Communication
begin

section \<open>The weighted objective\<close>

text \<open>
  \<open>objective.go\<close>: \<open>BuildObjective\<close> runs the plugin of every goal whose weight is not zero and adds the
  weighted scores up in one matrix; the Migration goal contributes a penalty per replica instead. The
  rule its comment states, entry by entry, is the specification \<open>weighted_score\<close> below, and
  \<open>BuildObjective\<close> is shown to compute it. Log output (\<open>diagFromContext\<close>) is not part of the model.
\<close>

record WeightedGoal =
  wg_Type :: string
  wg_Weight :: f64
  wg_SourceCity :: string
  wg_TopologyRef :: string

record ObjectiveInputs =
  Goals :: "WeightedGoal list"
  Ctx :: PluginContext
  oi_InstancePrice :: "(string, f64) gomap"
  CityRegionLatencyMs :: "(string, (string, f64) gomap) gomap"
  oi_Dependencies :: "(NamespacedName, NamespacedName list) gomap"
  oi_RegionLatencyMs :: region_latency
  oi_ReplicaService :: "(ReplicaKey, NamespacedName) gomap"
  oi_NodeRegion :: "(ClusterNodeID, string) gomap"
  oi_InstancePower :: "(string, PowerCurve) gomap"

record ObjectiveOutput =
  PlacementScores :: score_matrix
  MigrationPenalty :: "(ReplicaKey, f64) gomap option"

subsection \<open>Accumulation\<close>

definition accumulate_row :: "f64 \<Rightarrow> node_scores \<Rightarrow> node_scores \<Rightarrow> node_scores" where
  "accumulate_row weight m dm = fold (\<lambda>(n, v) dm. mput n (fadd (mget0 f0 dm n) (fmul weight v)) dm) m dm"

definition accumulatePlacementScores :: "score_matrix \<Rightarrow> score_matrix \<Rightarrow> f64 \<Rightarrow> score_matrix" where
  "accumulatePlacementScores dst add weight =
     fold (\<lambda>(r, m) dst. mput r (accumulate_row weight m (mget0 [] dst r)) dst) add dst"

text \<open>The matrix of zeros the accumulation starts from.\<close>

definition zero_scores :: "PluginContext \<Rightarrow> score_matrix" where
  "zero_scores ctx =
     fold (\<lambda>r ps. mput r (fold (\<lambda>n m. mput (nc_ID n) f0 m) (Nodes ctx) []) ps) (Replicas ctx) []"

definition accumulate_penalty ::
  "f64 \<Rightarrow> (ReplicaKey, f64) gomap \<Rightarrow> (ReplicaKey, f64) gomap option \<Rightarrow> (ReplicaKey, f64) gomap" where
  "accumulate_penalty weight pen mig =
     fold (\<lambda>(r, v) m. mput r (fadd (mget0 f0 m r) (fmul weight v)) m) pen
       (case mig of None \<Rightarrow> [] | Some m \<Rightarrow> m)"

subsection \<open>Goals\<close>

text \<open>The plugin of a linear goal, with the data the switch hands it and the prefix of its error.\<close>

definition goal_score :: "ObjectiveInputs \<Rightarrow> WeightedGoal \<Rightarrow> PluginContext \<Rightarrow> score_matrix result" where
  "goal_score inp g ctx =
     (let wrap = (\<lambda>r. case r of Inl e \<Rightarrow> Inl (PluginErr (wg_Type g) e) | Inr sc \<Rightarrow> Inr sc) in
      if wg_Type g = ''Cost''
      then wrap (CostPlugin_ScorePlacement (Some \<lparr>InstancePrice = oi_InstancePrice inp\<rparr>) ctx)
      else if wg_Type g = ''Latency''
      then wrap (LatencyPlugin_ScorePlacement
        (Some \<lparr>SourceCity = wg_SourceCity g, LatencyMs = CityRegionLatencyMs inp\<rparr>) ctx)
      else if wg_Type g = ''Communication''
      then wrap (CommunicationPlugin_ScorePlacement
        (Some \<lparr>Dependencies = oi_Dependencies inp, RegionLatencyMs = oi_RegionLatencyMs inp,
               ReplicaService = oi_ReplicaService inp, NodeRegion = oi_NodeRegion inp,
               CurrentReplicaRegion = []\<rparr>) ctx)
      else if wg_Type g = ''Energy''
      then wrap (EnergyPlugin_ScorePlacement
        (Some \<lparr>InstancePower = oi_InstancePower inp, InstanceTypeLabelKey = ''''\<rparr>) ctx)
      else Inl (UnknownGoal (wg_Type g)))"

definition objective_step ::
  "ObjectiveInputs \<Rightarrow> WeightedGoal \<Rightarrow> score_matrix \<times> (ReplicaKey, f64) gomap option
     \<Rightarrow> (score_matrix \<times> (ReplicaKey, f64) gomap option) result" where
  "objective_step inp g s = (case s of (ps, mig) \<Rightarrow>
     if feq (wg_Weight g) f0 then Inr (ps, mig)
     else if flt (wg_Weight g) f0 then Inl (InvalidWeight (wg_Type g) (wg_Weight g))
     else if wg_Type g = ''Migration''
     then (case MigrationPlugin_ScoreMigration (Some \<lparr>Penalty = f0\<rparr>) (Ctx inp) of
             Inl e \<Rightarrow> Inl (PluginErr ''Migration'' e)
           | Inr pen \<Rightarrow> Inr (ps, Some (accumulate_penalty (wg_Weight g) pen mig)))
     else rbind (goal_score inp g (Ctx inp)) (\<lambda>sc.
       Inr (accumulatePlacementScores ps sc (wg_Weight g), mig)))"

definition BuildObjective :: "ObjectiveInputs \<Rightarrow> ObjectiveOutput result" where
  "BuildObjective inp =
     rbind (fold_r (objective_step inp) (Goals inp) (zero_scores (Ctx inp), None))
       (\<lambda>(ps, mig). Inr \<lparr>PlacementScores = ps, MigrationPenalty = mig\<rparr>)"

subsection \<open>Specification: the weighted sum, entry by entry\<close>

definition linear_goal :: "WeightedGoal \<Rightarrow> bool" where
  "linear_goal g \<longleftrightarrow> \<not> feq (wg_Weight g) f0 \<and> wg_Type g \<noteq> ''Migration''"

definition goal_entry :: "ObjectiveInputs \<Rightarrow> WeightedGoal \<Rightarrow> ReplicaKey \<Rightarrow> ClusterNodeID \<Rightarrow> f64" where
  "goal_entry inp g r a = (case goal_score inp g (Ctx inp) of
     Inl _ \<Rightarrow> f0 | Inr sc \<Rightarrow> (case getPlacementScore sc r a of None \<Rightarrow> f0 | Some v \<Rightarrow> v))"

definition weighted_score :: "ObjectiveInputs \<Rightarrow> ReplicaKey \<Rightarrow> ClusterNodeID \<Rightarrow> f64" where
  "weighted_score inp r a =
     fold (\<lambda>g acc. fadd acc (fmul (wg_Weight g) (goal_entry inp g r a))) (filter linear_goal (Goals inp)) f0"

text \<open>The goals on which the aggregation does not fail.\<close>

definition goal_ok :: "ObjectiveInputs \<Rightarrow> WeightedGoal \<Rightarrow> bool" where
  "goal_ok inp g \<longleftrightarrow> feq (wg_Weight g) f0 \<or>
     \<not> flt (wg_Weight g) f0 \<and> (wg_Type g = ''Migration'' \<or> \<not> isl (goal_score inp g (Ctx inp)))"

subsection \<open>Lemmas: accumulation is pointwise\<close>

lemma accumulate_row_get:
  assumes "wf_map m"
  shows "mget (accumulate_row w m dm) a =
    (case mget m a of None \<Rightarrow> mget dm a | Some v \<Rightarrow> Some (fadd (mget0 f0 dm a) (fmul w v)))"
  using assms
proof (induction m arbitrary: dm)
  case (Cons e m)
  obtain k v where e: "e = (k, v)" by (cases e)
  with Cons.prems have "wf_map m" "mget m k = None" by (auto simp: wf_map_def map_of_eq_None_iff)
  with Cons.IH [of "mput k (fadd (mget0 f0 dm k) (fmul w v)) dm"] e show ?case
    by (auto simp: accumulate_row_def split: option.splits)
qed (simp add: accumulate_row_def)

definition score0 :: "score_matrix \<Rightarrow> ReplicaKey \<Rightarrow> ClusterNodeID \<Rightarrow> f64" where
  "score0 m r a = (case getPlacementScore m r a of None \<Rightarrow> f0 | Some v \<Rightarrow> v)"

lemma mget0_row: "mget0 f0 (mget0 [] dst r) a = score0 dst r a"
  by (simp add: score0_def getPlacementScore_def mget0_def split: option.splits)

lemma mget_row: "mget (mget0 [] dst r) a = getPlacementScore dst r a"
  by (simp add: getPlacementScore_def mget0_def split: option.splits)

lemma accumulate_get:
  assumes "wf_matrix add"
  shows "getPlacementScore (accumulatePlacementScores dst add w) r a =
    (case getPlacementScore add r a of None \<Rightarrow> getPlacementScore dst r a
     | Some v \<Rightarrow> Some (fadd (score0 dst r a) (fmul w v)))"
  using assms
proof (induction add arbitrary: dst)
  case Nil
  then show ?case by (simp add: accumulatePlacementScores_def)
next
  case (Cons e add)
  obtain k m where e: "e = (k, m)" by (cases e)
  with Cons.prems have w: "wf_matrix add" "wf_map m" "mget add k = None"
    by (auto simp: wf_matrix_def wf_map_def map_of_eq_None_iff)
  define dst' where "dst' = mput k (accumulate_row w m (mget0 [] dst k)) dst"
  have "accumulatePlacementScores dst (e # add) w = accumulatePlacementScores dst' add w"
    by (simp add: accumulatePlacementScores_def e dst'_def)
  moreover have "getPlacementScore (e # add) r a = (if r = k then mget m a else getPlacementScore add r a)"
    by (simp add: getPlacementScore_def e)
  moreover have "getPlacementScore dst' r a =
      (if r = k then mget (accumulate_row w m (mget0 [] dst k)) a else getPlacementScore dst r a)"
    by (simp add: dst'_def getPlacementScore_mput)
  moreover have "r = k \<Longrightarrow> getPlacementScore add r a = None" using w(3) by (simp add: getPlacementScore_def)
  ultimately show ?case
    using Cons.IH [OF w(1), of dst'] accumulate_row_get [OF w(2)]
    by (auto simp: score0_def mget0_row mget_row split: option.splits)
qed

lemma zero_scores_get:
  "getPlacementScore (zero_scores ctx) r a =
     (if r \<in> set (Replicas ctx) \<and> a \<in> nc_ID ` set (Nodes ctx) then Some f0 else None)"
proof -
  have "mget (fold (\<lambda>n m. mput (nc_ID n) f0 m) ns []) a = (if a \<in> nc_ID ` set ns then Some f0 else None)"
    for ns :: "NodeContext list"
    using mget_fold_mput [where k = "nc_ID :: NodeContext \<Rightarrow> _" and f = "\<lambda>_. f0"] by simp
  then show ?thesis by (simp add: zero_scores_def getPlacementScore_def mget_fold_const)
qed

subsection \<open>The goal plugins meet one contract\<close>

definition goal_sane :: "ObjectiveInputs \<Rightarrow> WeightedGoal \<Rightarrow> PluginContext \<Rightarrow> bool" where
  "goal_sane inp g ctx =
     (if wg_Type g = ''Cost'' then cost_sane (Some \<lparr>InstancePrice = oi_InstancePrice inp\<rparr>) ctx
      else if wg_Type g = ''Latency''
      then latency_sane (Some \<lparr>SourceCity = wg_SourceCity g, LatencyMs = CityRegionLatencyMs inp\<rparr>) ctx
      else if wg_Type g = ''Communication''
      then comm_sane (Some \<lparr>Dependencies = oi_Dependencies inp, RegionLatencyMs = oi_RegionLatencyMs inp,
               ReplicaService = oi_ReplicaService inp, NodeRegion = oi_NodeRegion inp,
               CurrentReplicaRegion = []\<rparr>) ctx
      else energy_sane (Some \<lparr>InstancePower = oi_InstancePower inp, InstanceTypeLabelKey = ''''\<rparr>) ctx)"

lemmas plugin_wf = cost_plugin.score_wf latency_plugin.score_wf comm_plugin.score_wf energy_plugin.score_wf
lemmas plugin_complete = cost_plugin.score_complete latency_plugin.score_complete
  comm_plugin.score_complete energy_plugin.score_complete
lemmas plugin_range = cost_plugin.score_range latency_plugin.score_range
  comm_plugin.score_range energy_plugin.score_range

interpretation goal: linear_score_plugin "goal_score inp g" "goal_sane inp g" for inp g
proof
  fix ctx m
  assume "goal_score inp g ctx = Inr m"
  then show "wf_matrix m" "complete_for ctx m"
    unfolding goal_score_def Let_def
    by (auto split: if_splits sum.splits intro: plugin_wf plugin_complete)
next
  fix ctx m r a s
  assume "goal_score inp g ctx = Inr m" "goal_sane inp g ctx" "getPlacementScore m r a = Some s"
  then show "in_score_range s"
    unfolding goal_score_def goal_sane_def Let_def
    by (auto split: if_splits sum.splits intro: plugin_range)
qed

subsection \<open>Lemmas: the loop over the goals\<close>

lemma migration_default:
  "MigrationPlugin_ScoreMigration (Some \<lparr>Penalty = f0\<rparr>) ctx = Inr (fold (\<lambda>r out. mput r f100 out) (Replicas ctx) [])"
  by (simp add: MigrationPlugin_ScoreMigration_def feq_def Let_def)

lemma objective_step_Inr:
  "objective_step inp g (ps, mig) = Inr (ps', mig') \<Longrightarrow> goal_ok inp g \<and>
     (if linear_goal g
      then \<exists>sc. goal_score inp g (Ctx inp) = Inr sc \<and> ps' = accumulatePlacementScores ps sc (wg_Weight g)
      else ps' = ps)"
  by (auto simp: objective_step_def goal_ok_def linear_goal_def rbind_eq_Inr split: if_splits sum.splits)

lemma objective_step_ok: "goal_ok inp g \<Longrightarrow> \<exists>s'. objective_step inp g s = Inr s'"
  by (cases s; cases "goal_score inp g (Ctx inp)")
    (auto simp: objective_step_def goal_ok_def migration_default)

lemma objective_loop:
  assumes "fold_r (objective_step inp) gs (ps, mig) = Inr (ps', mig')"
    and "r \<in> set (Replicas (Ctx inp))" and "a \<in> nc_ID ` set (Nodes (Ctx inp))"
    and "getPlacementScore ps r a = Some acc"
  shows "getPlacementScore ps' r a =
    Some (fold (\<lambda>g acc. fadd acc (fmul (wg_Weight g) (goal_entry inp g r a))) (filter linear_goal gs) acc)"
  using assms(1,4)
proof (induction gs arbitrary: ps mig acc)
  case (Cons g gs)
  then obtain ps1 mig1 where t: "objective_step inp g (ps, mig) = Inr (ps1, mig1)"
    "fold_r (objective_step inp) gs (ps1, mig1) = Inr (ps', mig')" by (auto split: sum.splits)
  show ?case
  proof (cases "linear_goal g")
    case True
    with objective_step_Inr [OF t(1)] obtain sc where sc: "goal_score inp g (Ctx inp) = Inr sc"
      and ps1: "ps1 = accumulatePlacementScores ps sc (wg_Weight g)" by auto
    obtain v where v: "getPlacementScore sc r a = Some v"
      using goal.score_complete [OF sc] assms(2,3) unfolding complete_for_def by blast
    then have "goal_entry inp g r a = v" by (simp add: goal_entry_def sc)
    moreover have "getPlacementScore ps1 r a = Some (fadd acc (fmul (wg_Weight g) v))"
      using accumulate_get [OF goal.score_wf [OF sc]] v Cons.prems(2) by (simp add: ps1 score0_def)
    ultimately show ?thesis using Cons.IH [OF t(2)] True by simp
  next
    case False
    with objective_step_Inr [OF t(1)] Cons.IH [OF t(2)] Cons.prems(2) show ?thesis by simp
  qed
qed simp

lemma objective_total: "(\<exists>out. BuildObjective inp = Inr out) \<longleftrightarrow> (\<forall>g \<in> set (Goals inp). goal_ok inp g)"
proof
  assume "\<exists>out. BuildObjective inp = Inr out"
  then obtain s where "fold_r (objective_step inp) (Goals inp) (zero_scores (Ctx inp), None) = Inr s"
    by (auto simp: BuildObjective_def rbind_eq_Inr)
  then show "\<forall>g \<in> set (Goals inp). goal_ok inp g"
    using fold_r_each objective_step_Inr by (metis surj_pair)
next
  assume "\<forall>g \<in> set (Goals inp). goal_ok inp g"
  then obtain s where "fold_r (objective_step inp) (Goals inp) (zero_scores (Ctx inp), None) = Inr s"
    using fold_r_total [of "Goals inp" "objective_step inp"] objective_step_ok by metis
  then show "\<exists>out. BuildObjective inp = Inr out" by (cases s) (simp add: BuildObjective_def)
qed

lemma objective_entries:
  assumes "BuildObjective inp = Inr out" and "r \<in> set (Replicas (Ctx inp))" and "a \<in> nc_ID ` set (Nodes (Ctx inp))"
  shows "getPlacementScore (PlacementScores out) r a = Some (weighted_score inp r a)"
proof -
  from assms(1) obtain ps mig where
    loop: "fold_r (objective_step inp) (Goals inp) (zero_scores (Ctx inp), None) = Inr (ps, mig)"
    and out: "out = \<lparr>PlacementScores = ps, MigrationPenalty = mig\<rparr>"
    by (auto simp: BuildObjective_def rbind_eq_Inr)
  have "getPlacementScore (zero_scores (Ctx inp)) r a = Some f0" using assms(2,3) by (simp add: zero_scores_get)
  from objective_loop [OF loop assms(2,3) this] show ?thesis by (simp add: out weighted_score_def)
qed

text \<open>The shape of the aggregated matrix: one entry for every replica and node, none elsewhere.\<close>

lemma objective_complete:
  assumes "BuildObjective inp = Inr out"
  shows "complete_for (Ctx inp) (PlacementScores out)"
proof -
  from assms obtain ps mig where
    loop: "fold_r (objective_step inp) (Goals inp) (zero_scores (Ctx inp), None) = Inr (ps, mig)"
    and out: "PlacementScores out = ps"
    by (auto simp: BuildObjective_def rbind_eq_Inr)
  have "complete_for (Ctx inp) (fst (ps, mig))" using loop
  proof (rule fold_r_invariant)
    show "complete_for (Ctx inp) (fst (zero_scores (Ctx inp), None))"
      by (simp add: complete_for_def zero_scores_get)
  next
    fix g s s'
    assume inv: "complete_for (Ctx inp) (fst s)" and step: "objective_step inp g s = Inr s'"
    obtain p m p' m' where s: "s = (p, m)" "s' = (p', m')" by (cases s; cases s')
    show "complete_for (Ctx inp) (fst s')"
    proof (cases "linear_goal g")
      case True
      with objective_step_Inr [OF step [unfolded s]] obtain sc where sc: "goal_score inp g (Ctx inp) = Inr sc"
        and p': "p' = accumulatePlacementScores p sc (wg_Weight g)" by auto
      show ?thesis
        using inv goal.score_complete [OF sc]
        by (simp add: complete_for_def s p' accumulate_get [OF goal.score_wf [OF sc]] split: option.splits)
    next
      case False
      with objective_step_Inr [OF step [unfolded s]] inv show ?thesis by (simp add: s)
    qed
  qed
  then show ?thesis by (simp add: out)
qed

subsection \<open>Lemmas: the aggregated scores are bounded\<close>

text \<open>
  With weights in the unit interval, every linear goal adds at most 101 (the normalised range ends
  just above 100), so the roundings of the accumulation never leave the non-negative finite numbers.
\<close>

definition unit_weight :: "WeightedGoal \<Rightarrow> bool" where
  "unit_weight g = (case wg_Weight g of Fin w \<Rightarrow> 0 \<le> w \<and> w \<le> 1 | _ \<Rightarrow> False)"

lemma weighted_entry_bound:
  assumes "0 \<le> w" and "w \<le> 1" and "in_score_range s"
  shows "\<exists>q. fmul (Fin w) s = Fin q \<and> 0 \<le> q \<and> q \<le> 101"
proof -
  obtain v where v: "s = Fin v" "0 \<le> v" "v \<le> 101"
    using assms(3) by (auto simp: in_score_range_conv score_max_def pw2_neg46)
  have wv: "0 \<le> w * v" "w * v \<le> 101" using assms(1,2) v mult_mono [of w 1 v 101] by simp_all
  have fx: "rnd64 101 = (101 :: rat)" using rnd64_int [of 101] by simp
  have "rnd64 (w * v) \<le> 101" using fx wv(2) by (rule r64.rnd_le_fix)
  moreover have "0 \<le> rnd64 (w * v)" using wv(1) by (rule rnd64_nonneg)
  moreover have "\<bar>w * v\<bar> \<le> pw2 7" using wv by (simp add: pw2_nat)
  then have "to_f64 (w * v) = Fin (rnd64 (w * v))" by (intro fbound_to_f64(2) [where e = 7]) simp_all
  ultimately show ?thesis by (simp add: v)
qed

lemma accumulate_bound:
  assumes "\<And>g. g \<in> set gs \<Longrightarrow> \<exists>q. f g = Fin q \<and> 0 \<le> q \<and> q \<le> 101"
    and "0 \<le> q0" and "q0 \<le> of_nat (101 * k)" and "101 * (k + length gs) < 2 ^ 53"
  shows "\<exists>q. fold (\<lambda>g acc. fadd acc (f g)) gs (Fin q0) = Fin q \<and> 0 \<le> q \<and> q \<le> of_nat (101 * (k + length gs))"
  using assms
proof (induction gs arbitrary: q0 k)
  case (Cons g gs)
  obtain d where d: "f g = Fin d" "0 \<le> d" "d \<le> 101" using Cons.prems(1) by auto
  let ?b = "of_nat (101 * Suc k) :: rat"
  have le: "q0 + d \<le> ?b" using Cons.prems(3) d(3) by simp
  have "101 * Suc k < 2 ^ 53" using Cons.prems(4) by simp
  then have k: "int (101 * Suc k) < 2 ^ 53" by (metis of_nat_less_iff of_nat_numeral of_nat_power)
  then have fx: "rnd64 ?b = ?b" using rnd64_int [of "int (101 * Suc k)"] by simp
  have "?b \<le> pw2 53"
  proof -
    have "(of_int (int (101 * Suc k)) :: rat) \<le> of_int (2 ^ 53)" using k by (simp only: of_int_le_iff)
    then show ?thesis by (simp add: pw2_nat)
  qed
  then have "\<bar>q0 + d\<bar> \<le> pw2 53" using le Cons.prems(2) d(2) by simp
  then have t: "to_f64 (q0 + d) = Fin (rnd64 (q0 + d))" by (intro fbound_to_f64(2) [where e = 53]) simp_all
  have r: "0 \<le> rnd64 (q0 + d)" "rnd64 (q0 + d) \<le> ?b"
    using Cons.prems(2) d(2) le fx by (auto intro: rnd64_nonneg r64.rnd_le_fix)
  have "101 * (Suc k + length gs) < 2 ^ 53" using Cons.prems(4) by simp
  from Cons.IH [OF Cons.prems(1) r this] show ?case by (simp add: d(1) t)
qed simp

lemma weighted_score_bound:
  assumes "\<forall>g \<in> set (Goals inp). linear_goal g \<longrightarrow> goal_ok inp g \<and> unit_weight g \<and> goal_sane inp g (Ctx inp)"
    and "101 * length (Goals inp) < 2 ^ 53"
    and "r \<in> set (Replicas (Ctx inp))" and "a \<in> nc_ID ` set (Nodes (Ctx inp))"
  shows "\<exists>q. weighted_score inp r a = Fin q \<and> 0 \<le> q \<and> q \<le> of_nat (101 * length (filter linear_goal (Goals inp)))"
proof -
  have "\<exists>q. fmul (wg_Weight g) (goal_entry inp g r a) = Fin q \<and> 0 \<le> q \<and> q \<le> 101"
    if "g \<in> set (filter linear_goal (Goals inp))" for g
  proof -
    have g: "linear_goal g" "goal_ok inp g" "unit_weight g" "goal_sane inp g (Ctx inp)"
      using assms(1) that by auto
    then obtain sc where sc: "goal_score inp g (Ctx inp) = Inr sc"
      by (auto simp: goal_ok_def linear_goal_def isl_def split: sum.splits) (metis old.sum.exhaust)
    obtain n where n: "n \<in> set (Nodes (Ctx inp))" "a = nc_ID n" using assms(4) by auto
    obtain q where "getPlacementScore sc r a = Some (Fin q)" "in_score_range (Fin q)"
      using goal.score_total [OF sc g(4) assms(3) n(1)] n(2) by auto
    then have "in_score_range (goal_entry inp g r a)" by (simp add: goal_entry_def sc)
    with g(3) weighted_entry_bound show ?thesis unfolding unit_weight_def by (cases "wg_Weight g") simp_all
  qed
  moreover have "101 * (0 + length (filter linear_goal (Goals inp))) < 2 ^ 53"
    using le_less_trans [OF mult_le_mono2 [OF length_filter_le [of linear_goal "Goals inp"]] assms(2)] by simp
  ultimately show ?thesis
    unfolding weighted_score_def
    using accumulate_bound [of "filter linear_goal (Goals inp)"
        "\<lambda>g. fmul (wg_Weight g) (goal_entry inp g r a)" 0 0] by simp
qed

subsection \<open>Properties\<close>

definition sample_objective :: ObjectiveInputs where
  "sample_objective =
     \<lparr>Goals = [\<lparr>wg_Type = ''Cost'', wg_Weight = Fin (1 / 2), wg_SourceCity = '''', wg_TopologyRef = ''''\<rparr>,
               \<lparr>wg_Type = ''Latency'', wg_Weight = Fin (1 / 4), wg_SourceCity = ''Berlin'', wg_TopologyRef = ''''\<rparr>,
               \<lparr>wg_Type = ''Migration'', wg_Weight = Fin (1 / 4), wg_SourceCity = '''', wg_TopologyRef = ''''\<rparr>],
      Ctx = sample_ctx, oi_InstancePrice = InstancePrice sample_prices,
      CityRegionLatencyMs = LatencyMs sample_latency, oi_Dependencies = [], oi_RegionLatencyMs = [],
      oi_ReplicaService = [], oi_NodeRegion = [], oi_InstancePower = []\<rparr>"

lemma sample_objective_ok: "\<forall>g \<in> set (Goals sample_objective). goal_ok sample_objective g"
  by code_simp

text \<open>
  C8: \<open>BuildObjective\<close> computes the documented aggregation: the entry of a replica and a node is the sum,
  in the order of the goals, of weight times plugin score over the goals with non-zero weight other
  than Migration, starting from zero; there is an entry for every replica and node and no other.
\<close>

theorem objective_is_weighted_sum:
  assumes "BuildObjective inp = Inr out"
  shows "complete_for (Ctx inp) (PlacementScores out) \<and>
    (\<forall>r \<in> set (Replicas (Ctx inp)). \<forall>a \<in> nc_ID ` set (Nodes (Ctx inp)).
       getPlacementScore (PlacementScores out) r a = Some (weighted_score inp r a))"
  using objective_complete [OF assms] objective_entries [OF assms] by blast

theorem objective_is_weighted_sum_witness:
  "\<exists>out. BuildObjective sample_objective = Inr out \<and>
    getPlacementScore (PlacementScores out) sample_r1 sample_n2 = Some (weighted_score sample_objective sample_r1 sample_n2)"
proof -
  obtain out where out: "BuildObjective sample_objective = Inr out"
    using objective_total [of sample_objective] sample_objective_ok by blast
  have "sample_r1 \<in> set (Replicas (Ctx sample_objective))" "sample_n2 \<in> nc_ID ` set (Nodes (Ctx sample_objective))"
    by (simp_all add: sample_objective_def sample_ctx_def sample_node2_def)
  then show ?thesis using objective_is_weighted_sum [OF out] out by blast
qed

text \<open>
  C18: \<open>BuildObjective\<close> fails exactly when some goal with non-zero weight has a negative weight, an
  unknown type or a plugin that fails; goals with weight zero are never looked at.
\<close>

theorem objective_fails_iff:
  "isl (BuildObjective inp) \<longleftrightarrow> (\<exists>g \<in> set (Goals inp). \<not> feq (wg_Weight g) f0 \<and>
     (flt (wg_Weight g) f0 \<or> wg_Type g \<noteq> ''Migration'' \<and> isl (goal_score inp g (Ctx inp))))"
proof -
  have "isl (BuildObjective inp) \<longleftrightarrow> \<not> (\<exists>out. BuildObjective inp = Inr out)"
    by (cases "BuildObjective inp") auto
  also have "\<dots> \<longleftrightarrow> (\<exists>g \<in> set (Goals inp). \<not> goal_ok inp g)" unfolding objective_total by blast
  also have "\<dots> \<longleftrightarrow> (\<exists>g \<in> set (Goals inp). \<not> feq (wg_Weight g) f0 \<and>
     (flt (wg_Weight g) f0 \<or> wg_Type g \<noteq> ''Migration'' \<and> isl (goal_score inp g (Ctx inp))))"
    unfolding goal_ok_def by blast
  finally show ?thesis .
qed

text \<open>
  C19: With weights in the unit interval and sane plugin inputs, every aggregated score is finite, not
  negative and at most 101 times the number of linear goals: no rounding step overflows or yields NaN.
\<close>

theorem objective_scores_bounded:
  assumes "BuildObjective inp = Inr out"
    and "\<forall>g \<in> set (Goals inp). linear_goal g \<longrightarrow> unit_weight g \<and> goal_sane inp g (Ctx inp)"
    and "101 * length (Goals inp) < 2 ^ 53"
    and "getPlacementScore (PlacementScores out) r a = Some s"
  shows "\<exists>q. s = Fin q \<and> 0 \<le> q \<and> q \<le> of_nat (101 * length (filter linear_goal (Goals inp)))"
proof -
  have ra: "r \<in> set (Replicas (Ctx inp))" "a \<in> nc_ID ` set (Nodes (Ctx inp))"
    using objective_complete [OF assms(1)] assms(4) unfolding complete_for_def by (metis option.discI)+
  have "\<forall>g \<in> set (Goals inp). goal_ok inp g" using objective_total assms(1) by blast
  with assms(2) have "\<forall>g \<in> set (Goals inp). linear_goal g \<longrightarrow> goal_ok inp g \<and> unit_weight g \<and> goal_sane inp g (Ctx inp)"
    by blast
  from weighted_score_bound [OF this assms(3) ra] objective_entries [OF assms(1) ra] assms(4)
  show ?thesis by simp
qed

theorem objective_scores_bounded_witness:
  "\<exists>out q. BuildObjective sample_objective = Inr out \<and>
    getPlacementScore (PlacementScores out) sample_r1 sample_n2 = Some (Fin q) \<and> 0 \<le> q \<and> q \<le> 202"
proof -
  obtain out where out: "BuildObjective sample_objective = Inr out"
    using objective_total [of sample_objective] sample_objective_ok by blast
  have mem: "sample_r1 \<in> set (Replicas (Ctx sample_objective))" "sample_n2 \<in> nc_ID ` set (Nodes (Ctx sample_objective))"
    by (simp_all add: sample_objective_def sample_ctx_def sample_node2_def)
  obtain s where s: "getPlacementScore (PlacementScores out) sample_r1 sample_n2 = Some s"
    using objective_entries [OF out mem] by blast
  have w: "\<forall>g \<in> set (Goals sample_objective). unit_weight g"
    by code_simp
  have "\<forall>g \<in> set (Goals sample_objective). linear_goal g \<longrightarrow> goal_sane sample_objective g (Ctx sample_objective)"
    by code_simp
  with w have h: "\<forall>g \<in> set (Goals sample_objective). linear_goal g \<longrightarrow>
      unit_weight g \<and> goal_sane sample_objective g (Ctx sample_objective)" by blast
  have len: "101 * length (Goals sample_objective) < 2 ^ 53" by (simp add: sample_objective_def)
  have "length (filter linear_goal (Goals sample_objective)) = 2" by code_simp
  with objective_scores_bounded [OF out h len s] s out show ?thesis by auto
qed

end
