(* ===== verification/Plan.thy ===== *)
theory Plan
  imports Objective
begin

section \<open>Plan metrics and moves\<close>

text \<open>
  \<open>plan.go\<close> and \<open>end_to_end.go\<close>: from a score matrix, the current and the expected placement,
  \<open>BuildPlanMetricsAndMoves\<close> computes the score of both placements, the improvement, and the moves.
  A placement map that is nil reads as the empty map; only \<open>PlacementScores\<close> and \<open>MigrationPenalty\<close>
  are compared with nil and are options.
\<close>

type_synonym placement = "(ReplicaKey, ClusterNodeID) gomap"

record PlanInputs =
  pi_Replicas :: "ReplicaKey list"
  pi_PlacementScores :: "score_matrix option"
  pi_CurrentPlacement :: placement
  pi_ExpectedPlacement :: placement
  pi_MigrationPenalty :: "(ReplicaKey, f64) gomap option"

record PlanMetrics =
  CurrentScore :: f64
  ExpectedScore :: f64
  EstimatedImprovement :: f64
  EstimatedImprovementPct :: f64
  PodsToMove :: int32

record PlanMoveLite =
  Replica :: ReplicaKey
  Source :: ClusterNodeID
  Destination :: ClusterNodeID

definition zero_metrics :: PlanMetrics where
  "zero_metrics = \<lparr>CurrentScore = f0, ExpectedScore = f0, EstimatedImprovement = f0,
     EstimatedImprovementPct = f0, PodsToMove = 0\<rparr>"

text \<open>The score of a replica under a placement is added when both are known.\<close>

definition add_score :: "score_matrix \<Rightarrow> ReplicaKey \<Rightarrow> ClusterNodeID option \<Rightarrow> f64 \<Rightarrow> f64" where
  "add_score scores r node acc =
     (case node of
        None \<Rightarrow> acc
      | Some n \<Rightarrow> (case getPlacementScore scores r n of None \<Rightarrow> acc | Some s \<Rightarrow> fadd acc s))"

definition plan_step ::
  "score_matrix \<Rightarrow> placement \<Rightarrow> placement \<Rightarrow> ReplicaKey \<Rightarrow> f64 \<times> f64 \<times> PlanMoveLite list
     \<Rightarrow> f64 \<times> f64 \<times> PlanMoveLite list" where
  "plan_step scores cur ex r s = (case s of (curSum, expSum, moves) \<Rightarrow>
     (add_score scores r (mget cur r) curSum,
      add_score scores r (mget ex r) expSum,
      (case (mget cur r, mget ex r) of
         (Some curNode, Some expNode) \<Rightarrow>
           if curNode \<noteq> expNode then moves @ [\<lparr>Replica = r, Source = curNode, Destination = expNode\<rparr>] else moves
       | _ \<Rightarrow> moves)))"

definition add_penalties :: "(ReplicaKey, f64) gomap option \<Rightarrow> PlanMoveLite list \<Rightarrow> f64 \<Rightarrow> f64" where
  "add_penalties mig moves expSum =
     (case mig of
        None \<Rightarrow> expSum
      | Some pen \<Rightarrow> fold (\<lambda>mv s. case mget pen (Replica mv) of None \<Rightarrow> s | Some p \<Rightarrow> fadd s p) moves expSum)"

definition plan_metrics :: "f64 \<Rightarrow> f64 \<Rightarrow> PlanMoveLite list \<Rightarrow> PlanMetrics" where
  "plan_metrics curSum expSum moves =
     (let impr0 = fsub curSum expSum;
          impr = (if flt impr0 f0 then f0 else impr0);
          pct = (if flt f0 curSum then fdiv (fmul impr f100) curSum else f0)
      in \<lparr>CurrentScore = curSum, ExpectedScore = expSum, EstimatedImprovement = impr,
          EstimatedImprovementPct = pct, PodsToMove = wrap32 (int (length moves))\<rparr>)"

definition BuildPlanMetricsAndMoves :: "PlanInputs \<Rightarrow> (PlanMetrics \<times> PlanMoveLite list) result" where
  "BuildPlanMetricsAndMoves inp =
     (if pi_Replicas inp = [] then Inr (zero_metrics, [])
      else case pi_PlacementScores inp of
        None \<Rightarrow> Inl PlacementScoresNil
      | Some scores \<Rightarrow>
          (case fold (plan_step scores (pi_CurrentPlacement inp) (pi_ExpectedPlacement inp)) (pi_Replicas inp)
                  (f0, f0, []) of
             (curSum, expSum, moves) \<Rightarrow>
               Inr (plan_metrics curSum (add_penalties (pi_MigrationPenalty inp) moves expSum) moves, moves)))"

text \<open>\<open>end_to_end.go\<close>\<close>

definition ComputePlanFromGoals :: "ObjectiveInputs \<Rightarrow> placement \<Rightarrow> (PlanMetrics \<times> PlanMoveLite list) result" where
  "ComputePlanFromGoals inp expected =
     rbind (BuildObjective inp) (\<lambda>out.
       BuildPlanMetricsAndMoves
         \<lparr>pi_Replicas = Replicas (Ctx inp), pi_PlacementScores = Some (PlacementScores out),
          pi_CurrentPlacement = CurrentPlacement (Ctx inp), pi_ExpectedPlacement = expected,
          pi_MigrationPenalty = MigrationPenalty out\<rparr>)"

definition ComputePlanForSingleGoal ::
  "ObjectiveInputs \<Rightarrow> WeightedGoal \<Rightarrow> placement \<Rightarrow> (PlanMetrics \<times> PlanMoveLite list) result" where
  "ComputePlanForSingleGoal inp goal expected = ComputePlanFromGoals (inp\<lparr>Goals := [goal]\<rparr>) expected"

subsection \<open>Specification: the difference of two placements\<close>

text \<open>The moves of a plan, and the effect of carrying them out.\<close>

definition replica_moves :: "placement \<Rightarrow> placement \<Rightarrow> ReplicaKey \<Rightarrow> PlanMoveLite list" where
  "replica_moves cur ex r =
     (case (mget cur r, mget ex r) of
        (Some c, Some e) \<Rightarrow> if c \<noteq> e then [\<lparr>Replica = r, Source = c, Destination = e\<rparr>] else []
      | _ \<Rightarrow> [])"

definition diff_moves :: "placement \<Rightarrow> placement \<Rightarrow> ReplicaKey list \<Rightarrow> PlanMoveLite list" where
  "diff_moves cur ex rs = concat (map (replica_moves cur ex) rs)"

definition apply_moves :: "PlanMoveLite list \<Rightarrow> placement \<Rightarrow> placement" where
  "apply_moves moves cur = fold (\<lambda>mv m. mput (Replica mv) (Destination mv) m) moves cur"

definition placement_score :: "score_matrix \<Rightarrow> placement \<Rightarrow> ReplicaKey list \<Rightarrow> f64" where
  "placement_score scores pl rs = fold (\<lambda>r. add_score scores r (mget pl r)) rs f0"

subsection \<open>Lemmas\<close>

lemma plan_loop:
  "fold (plan_step scores cur ex) rs (a, b, ms) =
     (fold (\<lambda>r. add_score scores r (mget cur r)) rs a,
      fold (\<lambda>r. add_score scores r (mget ex r)) rs b,
      ms @ diff_moves cur ex rs)"
  by (induction rs arbitrary: a b ms)
    (auto simp: plan_step_def diff_moves_def replica_moves_def split: option.splits)

lemma BuildPlan_eq:
  "pi_Replicas inp \<noteq> [] \<Longrightarrow> pi_PlacementScores inp = Some scores \<Longrightarrow>
   BuildPlanMetricsAndMoves inp =
     (let cur = pi_CurrentPlacement inp; ex = pi_ExpectedPlacement inp; rs = pi_Replicas inp;
          moves = diff_moves cur ex rs
      in Inr (plan_metrics (placement_score scores cur rs)
           (add_penalties (pi_MigrationPenalty inp) moves (placement_score scores ex rs)) moves, moves))"
  by (simp add: BuildPlanMetricsAndMoves_def plan_loop placement_score_def Let_def)

lemma mem_diff_moves:
  "mv \<in> set (diff_moves cur ex rs) \<longleftrightarrow>
     Replica mv \<in> set rs \<and> mget cur (Replica mv) = Some (Source mv) \<and>
     mget ex (Replica mv) = Some (Destination mv) \<and> Source mv \<noteq> Destination mv"
proof -
  have "mv \<in> set (replica_moves cur ex r) \<longleftrightarrow> Replica mv = r \<and> mget cur r = Some (Source mv) \<and>
      mget ex r = Some (Destination mv) \<and> Source mv \<noteq> Destination mv" for r
    by (cases mv) (auto simp: replica_moves_def split: option.splits)
  then show ?thesis by (auto simp: diff_moves_def)
qed

lemma diff_moves_replicas:
  "map Replica (diff_moves cur ex rs) =
     filter (\<lambda>r. \<exists>c e. mget cur r = Some c \<and> mget ex r = Some e \<and> c \<noteq> e) rs"
  by (induction rs) (auto simp: diff_moves_def replica_moves_def split: option.splits)

lemma apply_moves_get:
  assumes "distinct (map Replica moves)"
  shows "mget (apply_moves moves cur) r =
    (case find (\<lambda>mv. Replica mv = r) moves of Some mv \<Rightarrow> Some (Destination mv) | None \<Rightarrow> mget cur r)"
  using assms unfolding apply_moves_def
proof (induction moves arbitrary: cur)
  case (Cons mv moves)
  then have "mget (fold (\<lambda>mv m. mput (Replica mv) (Destination mv) m) moves (mput (Replica mv) (Destination mv) cur)) r
      = (case find (\<lambda>mv. Replica mv = r) moves of Some mv' \<Rightarrow> Some (Destination mv')
         | None \<Rightarrow> mget (mput (Replica mv) (Destination mv) cur) r)" by simp
  moreover have "Replica mv = r \<Longrightarrow> find (\<lambda>mv. Replica mv = r) moves = None"
    unfolding find_None_iff using Cons.prems by (metis distinct.simps(2) image_eqI list.set_map list.simps(9))
  ultimately show ?case by (auto split: option.splits)
qed simp

text \<open>Carrying the moves out turns the current placement into the expected one.\<close>

lemma apply_diff_moves:
  assumes "distinct rs" and "r \<in> set rs"
  shows "mget (apply_moves (diff_moves cur ex rs) cur) r =
    (case mget cur r of None \<Rightarrow> None | Some c \<Rightarrow> (case mget ex r of None \<Rightarrow> Some c | Some e \<Rightarrow> Some e))"
proof -
  let ?ms = "diff_moves cur ex rs"
  have d: "distinct (map Replica ?ms)" using assms(1) by (simp add: diff_moves_replicas)
  show ?thesis
  proof (cases "find (\<lambda>mv. Replica mv = r) ?ms")
    case (Some mv)
    then have "mv \<in> set ?ms" "Replica mv = r" by (auto simp: find_Some_iff)
    then show ?thesis using apply_moves_get [OF d] Some by (simp add: mem_diff_moves)
  next
    case None
    have "\<not> (\<exists>c e. mget cur r = Some c \<and> mget ex r = Some e \<and> c \<noteq> e)"
    proof (rule notI, elim exE conjE)
      fix c e
      assume "mget cur r = Some c" "mget ex r = Some e" "c \<noteq> e"
      then have "\<lparr>Replica = r, Source = c, Destination = e\<rparr> \<in> set ?ms"
        using assms(2) by (simp add: mem_diff_moves)
      with None show False by (auto simp: find_None_iff)
    qed
    then show ?thesis using apply_moves_get [OF d] None by (auto split: option.splits)
  qed
qed

text \<open>
  The improvement of a plan whose scores are finite and not negative: it is not negative, and its
  percentage ends at most one unit in the last place above 100.
\<close>

lemma plan_metrics_bounds:
  assumes "curSum = Fin c" and "expSum = Fin e" and "moderate c" and "moderate e" and "0 \<le> c" and "0 \<le> e"
  shows "\<exists>i p. EstimatedImprovement (plan_metrics curSum expSum moves) = Fin i \<and> 0 \<le> i \<and> i \<le> c \<and>
    EstimatedImprovementPct (plan_metrics curSum expSum moves) = Fin p \<and> 0 \<le> p \<and> p \<le> score_max"
proof -
  have "\<bar>c - e\<bar> \<le> pw2 1001" using moderate_diff [OF assms(4,3)] .
  then have t: "to_f64 (c - e) = Fin (rnd64 (c - e))" by (intro fbound_to_f64(2) [where e = 1001]) simp_all
  define i where "i = (if rnd64 (c - e) < 0 then 0 else rnd64 (c - e))"
  have rc: "rnd64 c = c" using assms(3) by (simp add: moderate_def repr64_def)
  have i: "0 \<le> i" "i \<le> c" "moderate i"
  proof -
    show "0 \<le> i" by (simp add: i_def)
    have "rnd64 (c - e) \<le> c" using rc assms(6) by (intro r64.rnd_le_fix) simp_all
    then show ic: "i \<le> c" using assms(5) by (simp add: i_def)
    have "repr64 i" using wf_to_f64 [of "c - e"] repr64_int [of 0] unfolding t i_def by simp
    then show "moderate i" using ic \<open>0 \<le> i\<close> assms(3) by (simp add: moderate_def)
  qed
  have impr: "EstimatedImprovement (plan_metrics curSum expSum moves) = Fin i"
    by (simp add: plan_metrics_def assms(1,2) fsub_def t i_def Let_def)
  show ?thesis
  proof (cases "0 < c")
    case False
    then show ?thesis using impr i
      by (simp add: plan_metrics_def Let_def assms(1) score_max_def less_imp_le)
  next
    case True
    have r0: "moderate 0" using repr64_int [of 0] by (simp add: moderate_def less_imp_le)
    have "clamp 0 c i = i" using i by (simp add: clamp_def)
    moreover have ri: "rnd64 i = i" using i(3) by (simp add: moderate_def repr64_def)
    moreover have "to_f64 i = Fin i" "to_f64 c = Fin c"
      using i(3) assms(3) by (simp_all add: moderate_def to_f64_repr)
    ultimately have "normalizeTo0_100 (Fin i) f0 (Fin c) = fdiv (fmul (Fin i) f100) (Fin c)"
      using True i by (simp add: normalizeTo0_100_def isNaN_def isInf_def Let_def fsub_def)
    moreover have "in_score_range (normalizeTo0_100 (Fin i) (Fin 0) (Fin c))"
      using r0 assms(3) by (rule in_score_range_normalize)
    moreover have "EstimatedImprovementPct (plan_metrics curSum expSum moves) = fdiv (fmul (Fin i) f100) (Fin c)"
      using True by (simp add: plan_metrics_def assms(1,2) fsub_def t i_def Let_def)
    ultimately show ?thesis using impr i by (auto simp: in_score_range_conv)
  qed
qed

subsection \<open>Properties\<close>

text \<open>
  C14: The moves of a plan are exactly the replicas whose current and expected node are both known and
  differ, with the right source and destination, in the order of the replicas, and \<open>PodsToMove\<close> counts
  them.
\<close>

theorem plan_moves_exact:
  assumes "BuildPlanMetricsAndMoves inp = Inr (metrics, moves)"
  shows "(\<forall>mv. mv \<in> set moves \<longleftrightarrow> Replica mv \<in> set (pi_Replicas inp) \<and>
      mget (pi_CurrentPlacement inp) (Replica mv) = Some (Source mv) \<and>
      mget (pi_ExpectedPlacement inp) (Replica mv) = Some (Destination mv) \<and> Source mv \<noteq> Destination mv) \<and>
    map Replica moves = filter (\<lambda>r. \<exists>c e. mget (pi_CurrentPlacement inp) r = Some c \<and>
      mget (pi_ExpectedPlacement inp) r = Some e \<and> c \<noteq> e) (pi_Replicas inp) \<and>
    PodsToMove metrics = wrap32 (int (length moves))"
proof (cases "pi_Replicas inp = []")
  case True
  then show ?thesis using assms by (auto simp: BuildPlanMetricsAndMoves_def zero_metrics_def wrap32_def)
next
  case False
  with assms obtain scores where "pi_PlacementScores inp = Some scores"
    by (auto simp: BuildPlanMetricsAndMoves_def split: option.splits)
  from BuildPlan_eq [OF False this] assms
  have m: "moves = diff_moves (pi_CurrentPlacement inp) (pi_ExpectedPlacement inp) (pi_Replicas inp)"
    and p: "PodsToMove metrics = wrap32 (int (length moves))"
    by (auto simp: Let_def plan_metrics_def)
  show ?thesis using p unfolding m by (simp add: mem_diff_moves diff_moves_replicas)
qed

definition sample_expected :: placement where
  "sample_expected = [(sample_r1, sample_n1), (sample_r2, sample_n2)]"

definition sample_plan :: PlanInputs where
  "sample_plan = \<lparr>pi_Replicas = [sample_r1, sample_r2],
     pi_PlacementScores = Some [(sample_r1, [(sample_n1, Fin 40), (sample_n2, Fin 60)]),
                                (sample_r2, [(sample_n1, Fin 80), (sample_n2, Fin 20)])],
     pi_CurrentPlacement = [(sample_r1, sample_n1), (sample_r2, sample_n1)],
     pi_ExpectedPlacement = sample_expected, pi_MigrationPenalty = Some [(sample_r1, Fin 25), (sample_r2, Fin 25)]\<rparr>"

lemma sample_plan_ok: "\<not> isl (BuildPlanMetricsAndMoves sample_plan)"
  by code_simp

theorem plan_moves_exact_witness:
  "\<exists>metrics moves. BuildPlanMetricsAndMoves sample_plan = Inr (metrics, moves) \<and> map Replica moves = [sample_r2]"
proof -
  obtain metrics moves where ok: "BuildPlanMetricsAndMoves sample_plan = Inr (metrics, moves)"
    using sample_plan_ok by (cases "BuildPlanMetricsAndMoves sample_plan") auto
  have "filter (\<lambda>r. \<exists>c e. mget (pi_CurrentPlacement sample_plan) r = Some c \<and>
      mget (pi_ExpectedPlacement sample_plan) r = Some e \<and> c \<noteq> e) (pi_Replicas sample_plan) = [sample_r2]"
    by (simp add: sample_plan_def sample_expected_def sample_r1_def sample_r2_def sample_n1_def sample_n2_def)
  with plan_moves_exact [OF ok] ok show ?thesis by simp
qed

text \<open>
  C15: Carrying out the moves of a plan turns the current placement into the expected one on every
  replica for which the plan knows both, and leaves every other replica where it is.
\<close>

theorem plan_moves_reach_expected:
  assumes "BuildPlanMetricsAndMoves inp = Inr (metrics, moves)" and "distinct (pi_Replicas inp)"
  shows "mget (apply_moves moves (pi_CurrentPlacement inp)) r =
    (case (mget (pi_CurrentPlacement inp) r, mget (pi_ExpectedPlacement inp) r) of
       (Some c, Some e) \<Rightarrow> if r \<in> set (pi_Replicas inp) then Some e else Some c
     | (cur, _) \<Rightarrow> cur)"
proof (cases "pi_Replicas inp = []")
  case True
  then show ?thesis using assms(1) by (auto simp: BuildPlanMetricsAndMoves_def apply_moves_def split: option.splits)
next
  case False
  with assms obtain scores where "pi_PlacementScores inp = Some scores"
    by (auto simp: BuildPlanMetricsAndMoves_def split: option.splits)
  from BuildPlan_eq [OF False this] assms(1)
  have m: "moves = diff_moves (pi_CurrentPlacement inp) (pi_ExpectedPlacement inp) (pi_Replicas inp)"
    by (auto simp: Let_def)
  show ?thesis
  proof (cases "r \<in> set (pi_Replicas inp)")
    case True
    then show ?thesis unfolding m apply_diff_moves [OF assms(2) True] by (auto split: option.splits)
  next
    case False
    have d: "distinct (map Replica moves)" using assms(2) by (simp add: m diff_moves_replicas)
    have "find (\<lambda>mv. Replica mv = r) moves = None"
      using False by (auto simp: m find_None_iff mem_diff_moves)
    with False show ?thesis unfolding apply_moves_get [OF d] by (auto split: option.splits)
  qed
qed

theorem plan_moves_reach_expected_witness:
  "\<exists>metrics moves. BuildPlanMetricsAndMoves sample_plan = Inr (metrics, moves) \<and>
    mget (apply_moves moves (pi_CurrentPlacement sample_plan)) sample_r2 = Some sample_n2"
proof -
  obtain metrics moves where ok: "BuildPlanMetricsAndMoves sample_plan = Inr (metrics, moves)"
    using sample_plan_ok by (cases "BuildPlanMetricsAndMoves sample_plan") auto
  have "distinct (pi_Replicas sample_plan)" by code_simp
  from plan_moves_reach_expected [OF ok this, of sample_r2] ok show ?thesis
    by (simp add: sample_plan_def sample_expected_def sample_r1_def sample_r2_def)
qed

text \<open>
  For placements whose scores are finite and not negative, the estimated improvement is not
  negative and not larger than the current score, and its percentage is between 0 and one unit in the
  last place above 100.
\<close>

theorem improvement_bounded:
  assumes "BuildPlanMetricsAndMoves inp = Inr (metrics, moves)" and "pi_Replicas inp \<noteq> []"
    and "CurrentScore metrics = Fin c" and "ExpectedScore metrics = Fin e"
    and "moderate c" and "moderate e" and "0 \<le> c" and "0 \<le> e"
  shows "\<exists>i p. EstimatedImprovement metrics = Fin i \<and> 0 \<le> i \<and> i \<le> c \<and>
    EstimatedImprovementPct metrics = Fin p \<and> 0 \<le> p \<and> p \<le> score_max"
proof -
  from assms(1,2) obtain scores where "pi_PlacementScores inp = Some scores"
    by (auto simp: BuildPlanMetricsAndMoves_def split: option.splits)
  from BuildPlan_eq [OF assms(2) this] assms(1) obtain cs es where
    m: "metrics = plan_metrics cs es moves" by (auto simp: Let_def)
  then have "cs = Fin c" "es = Fin e" using assms(3,4) by (simp_all add: plan_metrics_def Let_def)
  from plan_metrics_bounds [OF this assms(5-8)] show ?thesis unfolding m .
qed

theorem improvement_bounded_witness:
  "\<exists>metrics moves i p. BuildPlanMetricsAndMoves sample_plan = Inr (metrics, moves) \<and>
    EstimatedImprovement metrics = Fin i \<and> 0 \<le> i \<and> i \<le> 120 \<and>
    EstimatedImprovementPct metrics = Fin p \<and> 0 \<le> p \<and> p \<le> score_max"
proof -
  obtain metrics moves where ok: "BuildPlanMetricsAndMoves sample_plan = Inr (metrics, moves)"
    using sample_plan_ok by (cases "BuildPlanMetricsAndMoves sample_plan") auto
  have "map_sum id (\<lambda>(pm, _). (CurrentScore pm, ExpectedScore pm)) (BuildPlanMetricsAndMoves sample_plan)
      = Inr (Fin 120, Fin 85)" by code_simp
  then have v: "CurrentScore metrics = Fin 120" "ExpectedScore metrics = Fin 85" unfolding ok by simp_all
  have "moderate 120" "moderate 85" by code_simp+
  moreover have "pi_Replicas sample_plan \<noteq> []" by (simp add: sample_plan_def)
  ultimately show ?thesis using improvement_bounded [OF ok _ v] ok by fastforce
qed

end
