(* ===== verification/ILP.thy ===== *)
theory ILP
  imports Plan
begin

section \<open>The integer program\<close>

text \<open>
  \<open>ilp.go\<close>, \<open>ortools_solver_cgo.go\<close> with its C shim, and \<open>ortools_solver_stub.go\<close>. A problem assigns
  every stable replica to one candidate node within the nodes' CPU and memory capacities.
  \<open>BuildILPModel\<close> validates the problem and counts variables and constraints; the OR-Tools solver
  builds the program (\<open>build_mip\<close>), hands it to \<open>MPSolver\<close> and decodes the values of the variables;
  \<open>SolveProblem\<close> is the entry point the controller calls.

  \<open>MPSolver\<close> is a library outside the repository: it is the parameter \<open>mp\<close> of the definitions (what
  the constructors return, and the status and values of a solve). What the code relies on is the
  predicate \<open>mip_sound\<close>, a hypothesis of the theorems about solutions: a solve that reports a solution
  gives variable values within less than one half of a point with integer values in the variables'
  bounds that satisfies every row.
\<close>

subsection \<open>Problem data\<close>

record ProblemObjective =
  po_Goals :: "WeightedGoal list"
  po_InstancePrice :: "(string, f64) gomap"
  po_CityRegionLatencyMs :: "(string, (string, f64) gomap) gomap"
  po_Dependencies :: "(NamespacedName, NamespacedName list) gomap"
  po_RegionLatencyMs :: region_latency
  po_ReplicaService :: "(ReplicaKey, NamespacedName) gomap"
  po_NodeRegion :: "(ClusterNodeID, string) gomap"
  po_InstancePower :: "(string, PowerCurve) gomap"

record Problem =
  StableReplicas :: "ReplicaKey list"
  CandidateNodes :: "ClusterNodeID list"
  p_CurrentPlacement :: "placement option"
  NodeContexts :: "NodeContext list"
  p_ReplicaRequests :: "(ReplicaKey, ResourceQuantity) gomap option"
  NodeCapacities :: "(ClusterNodeID, ResourceQuantity) gomap"
  p_Objective :: "ProblemObjective option"
  MaximumVariables :: int
  RequireCPU :: bool
  RequireMemory :: bool

definition DefaultMaximumVariables :: int where
  "DefaultMaximumVariables = 10000"

text \<open>Durations are nanoseconds.\<close>

definition DefaultSolveTimeout :: int64 where
  "DefaultSolveTimeout = 5 * 60 * 1000000000"

record SolveResult =
  Status :: string
  Assignment :: placement

record SolveOptions =
  Timeout :: int64

definition withDefaults :: "SolveOptions \<Rightarrow> SolveOptions" where
  "withDefaults opts = (if Timeout opts \<le> 0 then opts\<lparr>Timeout := DefaultSolveTimeout\<rparr> else opts)"

record BuildResult =
  NumDecisionVars :: int
  NumConstraints :: int

definition requests_of :: "Problem \<Rightarrow> (ReplicaKey, ResourceQuantity) gomap" where
  "requests_of p = (case p_ReplicaRequests p of None \<Rightarrow> [] | Some m \<Rightarrow> m)"

definition placement_of :: "Problem \<Rightarrow> placement" where
  "placement_of p = (case p_CurrentPlacement p of None \<Rightarrow> [] | Some m \<Rightarrow> m)"

subsection \<open>BuildILPModel\<close>

text \<open>The loops that validate the requests and the capacities, for one resource.\<close>

definition check_requests ::
  "(ResourceQuantity \<Rightarrow> int64) \<Rightarrow> (ReplicaKey \<Rightarrow> int64 \<Rightarrow> opt_error) \<Rightarrow> Problem \<Rightarrow> unit result" where
  "check_requests f bad p =
     fold_r (\<lambda>i _. case mget (requests_of p) i of
         None \<Rightarrow> Inl (MissingReplicaRequest i)
       | Some req \<Rightarrow> if f req \<le> 0 then Inl (bad i (f req)) else Inr ()) (StableReplicas p) ()"

definition check_capacities ::
  "(ResourceQuantity \<Rightarrow> int64) \<Rightarrow> (ClusterNodeID \<Rightarrow> int64 \<Rightarrow> opt_error) \<Rightarrow> Problem \<Rightarrow> unit result" where
  "check_capacities f bad p =
     fold_r (\<lambda>j _. case mget (NodeCapacities p) j of
         None \<Rightarrow> Inl (MissingNodeCapacity j)
       | Some c \<Rightarrow> if f c \<le> 0 then Inl (bad j (f c)) else Inr ()) (CandidateNodes p) ()"

definition check_objective :: "Problem \<Rightarrow> unit result" where
  "check_objective p =
     (case p_Objective p of
        None \<Rightarrow> Inr ()
      | Some obj \<Rightarrow>
          if NodeContexts p = [] then Inl NodeContextsEmpty
          else rbind (fold_r (\<lambda>nc _. if nc_ID nc \<in> set (CandidateNodes p) then Inr ()
                        else Inl (ForeignNodeContext (nc_ID nc))) (NodeContexts p) ()) (\<lambda>_.
            fold_r (\<lambda>g _. if feq (wg_Weight g) f0 then Inr ()
                      else if wg_Type g = ''Migration'' \<and> placement_of p = [] then Inl MigrationWithoutPlacement
                      else Inr ()) (po_Goals obj) ()))"

definition BuildILPModel :: "Problem \<Rightarrow> BuildResult result" where
  "BuildILPModel p =
     (if StableReplicas p = [] then Inr \<lparr>NumDecisionVars = 0, NumConstraints = 0\<rparr>
      else if CandidateNodes p = [] then Inl NoCandidateNodes
      else let limit = (if MaximumVariables p \<le> 0 then DefaultMaximumVariables else MaximumVariables p);
               vars = wrap64 (int (length (StableReplicas p)) * int (length (CandidateNodes p)))
        in if limit < vars then Inl (TooManyVariables vars limit)
        else rbind (if RequireCPU p
               then rbind (check_requests MilliCPU InvalidReplicaCPU p) (\<lambda>_. check_capacities MilliCPU InvalidNodeCPU p)
               else Inr ()) (\<lambda>_.
          rbind (if RequireMemory p
               then rbind (check_requests MemoryMi InvalidReplicaMemory p) (\<lambda>_. check_capacities MemoryMi InvalidNodeMemory p)
               else Inr ()) (\<lambda>_.
          rbind (check_objective p) (\<lambda>_.
            Inr \<lparr>NumDecisionVars = vars,
                 NumConstraints = int (length (StableReplicas p))
                   + (if RequireCPU p then int (length (CandidateNodes p)) else 0)
                   + (if RequireMemory p then int (length (CandidateNodes p)) else 0)\<rparr>))))"

subsection \<open>Objective coefficients\<close>

definition objective_inputs :: "Problem \<Rightarrow> ProblemObjective \<Rightarrow> ObjectiveInputs" where
  "objective_inputs p obj =
     \<lparr>Goals = po_Goals obj,
      Ctx = \<lparr>Replicas = StableReplicas p, Nodes = NodeContexts p, ReplicaRequests = p_ReplicaRequests p,
             CurrentPlacement = placement_of p\<rparr>,
      oi_InstancePrice = po_InstancePrice obj,
      CityRegionLatencyMs = po_CityRegionLatencyMs obj,
      oi_Dependencies = po_Dependencies obj,
      oi_RegionLatencyMs = po_RegionLatencyMs obj,
      oi_ReplicaService = po_ReplicaService obj,
      oi_NodeRegion = po_NodeRegion obj,
      oi_InstancePower = po_InstancePower obj\<rparr>"

text \<open>The penalty is added to every entry of the replica's row and taken off the current node's.\<close>

definition penalize_row :: "f64 \<Rightarrow> ClusterNodeID \<Rightarrow> node_scores \<Rightarrow> node_scores" where
  "penalize_row pen cur row =
     (let row' = map (\<lambda>(n, v). (n, fadd v pen)) row in mput cur (fsub (mget0 f0 row' cur) pen) row')"

definition penalize_step ::
  "placement \<Rightarrow> ReplicaKey \<times> f64 \<Rightarrow> score_matrix \<Rightarrow> score_matrix" where
  "penalize_step current e coeff = (case e of (r, pen) \<Rightarrow>
     if feq pen f0 then coeff
     else case mget current r of
       None \<Rightarrow> coeff
     | Some cur \<Rightarrow> (case mget coeff r of None \<Rightarrow> coeff | Some row \<Rightarrow> mput r (penalize_row pen cur row) coeff))"

definition buildObjectiveCoefficients ::
  "Problem \<Rightarrow> (score_matrix option \<times> (ReplicaKey, f64) gomap option) result" where
  "buildObjectiveCoefficients p =
     (case p_Objective p of
        None \<Rightarrow> Inr (None, None)
      | Some obj \<Rightarrow>
          rbind (BuildObjective (objective_inputs p obj)) (\<lambda>out.
            let pen = (case MigrationPenalty out of None \<Rightarrow> [] | Some m \<Rightarrow> m) in
            case p_CurrentPlacement p of
              None \<Rightarrow> Inr (Some (PlacementScores out), MigrationPenalty out)
            | Some current \<Rightarrow>
                Inr (Some (fold (penalize_step current) pen (PlacementScores out)), MigrationPenalty out)))"

subsection \<open>The program handed to MPSolver\<close>

record mip_row =
  row_lb :: f64
  row_ub :: f64
  row_coeffs :: "(nat, f64) gomap"

record mip =
  mip_vars :: nat
  mip_obj :: "(nat, f64) gomap"
  mip_rows :: "mip_row list"

datatype ort_status = OPTIMAL | FEASIBLE | INFEASIBLE | ABNORMAL | NOT_SOLVED | ERROR

text \<open>
  \<open>MPSolver\<close>: whether a backend can be created, whether the \<open>k\<close>-th variable and row can be created, and
  the outcome of \<open>Solve\<close> under a time limit in milliseconds.
\<close>

record MPSolver =
  CreateSolver :: bool
  MakeIntVar :: "nat \<Rightarrow> bool"
  MakeRowConstraint :: "nat \<Rightarrow> bool"
  mp_Solve :: "mip \<Rightarrow> int option \<Rightarrow> ort_status \<times> (nat \<Rightarrow> f64)"

type_synonym var_map = "(ReplicaKey, (ClusterNodeID, nat) gomap) gomap"

definition make_var ::
  "MPSolver \<Rightarrow> ReplicaKey \<Rightarrow> ClusterNodeID \<Rightarrow> nat \<times> var_map \<Rightarrow> (nat \<times> var_map) result" where
  "make_var mp r n s = (case s of (k, x) \<Rightarrow>
     if MakeIntVar mp k then Inr (Suc k, mput r (mput n k (mget0 [] x r)) x)
     else Inl (BackendError ''failed creating var: failed to create int var''))"

definition make_vars :: "MPSolver \<Rightarrow> ReplicaKey list \<Rightarrow> ClusterNodeID list \<Rightarrow> (nat \<times> var_map) result" where
  "make_vars mp I J =
     fold_r (\<lambda>r s. case s of (k, x) \<Rightarrow> fold_r (make_var mp r) J (k, mput r [] x)) I (0, [])"

definition var :: "var_map \<Rightarrow> ReplicaKey \<Rightarrow> ClusterNodeID \<Rightarrow> nat" where
  "var x r n = mget0 0 (mget0 [] x r) n"

definition objective_terms ::
  "score_matrix option \<Rightarrow> var_map \<Rightarrow> ReplicaKey list \<Rightarrow> ClusterNodeID list \<Rightarrow> (nat, f64) gomap" where
  "objective_terms coeffs x I J =
     (case coeffs of
        None \<Rightarrow> []
      | Some sc \<Rightarrow> fold (\<lambda>r obj. fold (\<lambda>n obj.
          let coeff = mget0 f0 (mget0 [] sc r) n in
          if feq coeff f0 then obj else mput (var x r n) coeff obj) J obj) I [])"

definition add_row ::
  "MPSolver \<Rightarrow> string \<Rightarrow> f64 \<Rightarrow> f64 \<Rightarrow> (nat, f64) gomap result \<Rightarrow> mip_row list \<Rightarrow> mip_row list result" where
  "add_row mp msg lb ub coeffs rows =
     (if MakeRowConstraint mp (length rows)
      then rbind coeffs (\<lambda>cs. Inr (rows @ [\<lparr>row_lb = lb, row_ub = ub, row_coeffs = cs\<rparr>]))
      else Inl (BackendError (msg @ '': failed to create constraint'')))"

definition assignment_row :: "MPSolver \<Rightarrow> var_map \<Rightarrow> ClusterNodeID list \<Rightarrow> ReplicaKey \<Rightarrow> mip_row list \<Rightarrow> mip_row list result" where
  "assignment_row mp x J r =
     add_row mp ''failed creating constraint'' (Fin 1) (Fin 1) (Inr (fold (\<lambda>n cs. mput (var x r n) (Fin 1) cs) J []))"

definition capacity_coeffs ::
  "(ResourceQuantity \<Rightarrow> int64) \<Rightarrow> Problem \<Rightarrow> var_map \<Rightarrow> ClusterNodeID \<Rightarrow> (nat, f64) gomap result" where
  "capacity_coeffs f p x n =
     fold_r (\<lambda>r cs. case mget (requests_of p) r of
         None \<Rightarrow> Inl (MissingReplicaRequest r)
       | Some req \<Rightarrow> Inr (mput (var x r n) (of_int64 (f req)) cs)) (StableReplicas p) []"

definition capacity_row ::
  "MPSolver \<Rightarrow> string \<Rightarrow> (ResourceQuantity \<Rightarrow> int64) \<Rightarrow> Problem \<Rightarrow> var_map \<Rightarrow> ClusterNodeID \<Rightarrow> mip_row list \<Rightarrow> mip_row list result" where
  "capacity_row mp msg f p x n rows =
     (case mget (NodeCapacities p) n of
        None \<Rightarrow> Inl (MissingNodeCapacity n)
      | Some c \<Rightarrow> add_row mp msg NInf (of_int64 (f c)) (capacity_coeffs f p x n) rows)"

definition build_rows :: "MPSolver \<Rightarrow> Problem \<Rightarrow> var_map \<Rightarrow> mip_row list result" where
  "build_rows mp p x =
     rbind (fold_r (assignment_row mp x (CandidateNodes p)) (StableReplicas p) []) (\<lambda>rows1.
     rbind (if RequireCPU p
            then fold_r (capacity_row mp ''failed creating cpu constraint'' MilliCPU p x) (CandidateNodes p) rows1
            else Inr rows1) (\<lambda>rows2.
       if RequireMemory p
       then fold_r (capacity_row mp ''failed creating memory constraint'' MemoryMi p x) (CandidateNodes p) rows2
       else Inr rows2))"

definition build_mip :: "MPSolver \<Rightarrow> Problem \<Rightarrow> score_matrix option \<Rightarrow> (mip \<times> var_map) result" where
  "build_mip mp p coeffs =
     (if \<not> CreateSolver mp
      then Inl (BackendError ''failed to create ortools solver: failed to create MPSolver backend (SCIP/CBC unavailable)'')
      else rbind (make_vars mp (StableReplicas p) (CandidateNodes p)) (\<lambda>(k, x).
        rbind (build_rows mp p x) (\<lambda>rows.
          Inr (\<lparr>mip_vars = k, mip_obj = objective_terms coeffs x (StableReplicas p) (CandidateNodes p),
                mip_rows = rows\<rparr>, x))))"

subsection \<open>Decoding and the solvers\<close>

definition choose_node :: "(nat \<Rightarrow> f64) \<Rightarrow> var_map \<Rightarrow> ClusterNodeID list \<Rightarrow> ReplicaKey \<Rightarrow> placement \<Rightarrow> placement result" where
  "choose_node vals x J r asg =
     (case find (\<lambda>n. fle (Fin (1 / 2)) (vals (var x r n))) J of
        None \<Rightarrow> Inl (NoAssignmentFor r)
      | Some n \<Rightarrow> Inr (mput r n asg))"

text \<open>
  The OR-Tools solver. \<open>ms\<close> is the time left until the context's deadline, if it has one, and \<open>expired\<close>
  whether the deadline has passed when a solve returns without a solution.
\<close>

definition ORToolsSolver_Solve ::
  "MPSolver \<Rightarrow> int option \<Rightarrow> bool \<Rightarrow> Problem \<Rightarrow> SolveResult option result" where
  "ORToolsSolver_Solve mp ms expired p =
     rbind (BuildILPModel p) (\<lambda>_.
       if StableReplicas p = [] then Inr (Some \<lparr>Status = ''NoReplicas'', Assignment = []\<rparr>)
       else if CandidateNodes p = [] then Inl NoCandidateNodes
       else rbind (buildObjectiveCoefficients p) (\<lambda>(coeffs, _).
         rbind (build_mip mp p coeffs) (\<lambda>(m, x).
           let limit = (case ms of None \<Rightarrow> None | Some t \<Rightarrow> if 0 < t then Some t else None) in
           case mp_Solve mp m limit of (st, vals) \<Rightarrow>
             if st = OPTIMAL \<or> st = FEASIBLE
             then rbind (fold_r (choose_node vals x (CandidateNodes p)) (StableReplicas p) []) (\<lambda>asg.
               Inr (Some \<lparr>Status = ''Feasible'', Assignment = asg\<rparr>))
             else if st = INFEASIBLE then Inl ORToolsInfeasible
             else if st = NOT_SOLVED then (if expired then Inl DeadlineExceeded else Inl ORToolsNotSolved)
             else Inl (BackendError ''ortools solve failed: unknown''))))"

definition stub_Solve :: "Problem \<Rightarrow> SolveResult option result" where
  "stub_Solve p = Inl ORToolsDisabled"

text \<open>
  \<open>SolveProblem\<close>: the solver is an interface value, called with the timeout that bounds its context;
  \<open>err_text\<close> is the rendering \<open>err.Error()\<close>. Log output is not modelled.
\<close>

definition SolveProblem ::
  "(opt_error \<Rightarrow> string) \<Rightarrow> (int64 \<Rightarrow> Problem \<Rightarrow> SolveResult option result) option \<Rightarrow> Problem \<Rightarrow> SolveOptions
     \<Rightarrow> SolveResult option result" where
  "SolveProblem err_text s p opts =
     rbind (BuildILPModel p) (\<lambda>_.
       if StableReplicas p = [] then Inr (Some \<lparr>Status = ''NoReplicas'', Assignment = []\<rparr>)
       else case s of
         None \<Rightarrow> Inl NoSolverConfigured
       | Some slv \<Rightarrow>
           (case slv (Timeout (withDefaults opts)) p of
              Inl e \<Rightarrow> if str_contains (err_text e) ''ORTools backend is disabled'' then Inl SolverNotImplemented else Inl e
            | Inr res \<Rightarrow> Inr res))"

subsection \<open>Lemmas: validation\<close>

definition valid_problem :: "Problem \<Rightarrow> bool" where
  "valid_problem p \<longleftrightarrow> CandidateNodes p \<noteq> [] \<and>
     wrap64 (int (length (StableReplicas p)) * int (length (CandidateNodes p)))
       \<le> (if MaximumVariables p \<le> 0 then DefaultMaximumVariables else MaximumVariables p) \<and>
     (RequireCPU p \<longrightarrow> (\<forall>i \<in> set (StableReplicas p). \<exists>q. mget (requests_of p) i = Some q \<and> 0 < MilliCPU q) \<and>
        (\<forall>j \<in> set (CandidateNodes p). \<exists>c. mget (NodeCapacities p) j = Some c \<and> 0 < MilliCPU c)) \<and>
     (RequireMemory p \<longrightarrow> (\<forall>i \<in> set (StableReplicas p). \<exists>q. mget (requests_of p) i = Some q \<and> 0 < MemoryMi q) \<and>
        (\<forall>j \<in> set (CandidateNodes p). \<exists>c. mget (NodeCapacities p) j = Some c \<and> 0 < MemoryMi c)) \<and>
     (\<forall>obj. p_Objective p = Some obj \<longrightarrow> NodeContexts p \<noteq> [] \<and>
        nc_ID ` set (NodeContexts p) \<subseteq> set (CandidateNodes p) \<and>
        (placement_of p = [] \<longrightarrow> (\<forall>g \<in> set (po_Goals obj). wg_Type g = ''Migration'' \<longrightarrow> feq (wg_Weight g) f0)))"

lemma unit_loop:
  assumes "\<And>x. x \<in> set xs \<Longrightarrow> (f x () = Inr ()) = P x"
  shows "fold_r f xs () = Inr () \<longleftrightarrow> (\<forall>x \<in> set xs. P x)"
  using assms
proof (induction xs)
  case (Cons a xs)
  then have a: "(f a () = Inr ()) = P a" and ih: "fold_r f xs () = Inr () \<longleftrightarrow> (\<forall>x \<in> set xs. P x)"
    by simp_all
  show ?case
  proof (cases "f a ()")
    case (Inl e)
    with a show ?thesis by simp
  next
    case (Inr u)
    with a ih show ?thesis by simp
  qed
qed simp

lemma check_requests_ok:
  "check_requests f bad p = Inr () \<longleftrightarrow> (\<forall>i \<in> set (StableReplicas p). \<exists>q. mget (requests_of p) i = Some q \<and> 0 < f q)"
  unfolding check_requests_def by (rule unit_loop) (auto split: option.splits)

lemma check_capacities_ok:
  "check_capacities f bad p = Inr () \<longleftrightarrow> (\<forall>j \<in> set (CandidateNodes p). \<exists>c. mget (NodeCapacities p) j = Some c \<and> 0 < f c)"
  unfolding check_capacities_def by (rule unit_loop) (auto split: option.splits)

lemma check_objective_ok:
  "check_objective p = Inr () \<longleftrightarrow> (\<forall>obj. p_Objective p = Some obj \<longrightarrow> NodeContexts p \<noteq> [] \<and>
     nc_ID ` set (NodeContexts p) \<subseteq> set (CandidateNodes p) \<and>
     (placement_of p = [] \<longrightarrow> (\<forall>g \<in> set (po_Goals obj). wg_Type g = ''Migration'' \<longrightarrow> feq (wg_Weight g) f0)))"
proof (cases "p_Objective p")
  case None
  then show ?thesis by (simp add: check_objective_def)
next
  case (Some obj)
  let ?f = "\<lambda>nc u. if nc_ID nc \<in> set (CandidateNodes p) then Inr () else Inl (ForeignNodeContext (nc_ID nc))"
  let ?g = "\<lambda>g u. if feq (wg_Weight g) f0 then Inr ()
    else if wg_Type g = ''Migration'' \<and> placement_of p = [] then Inl MigrationWithoutPlacement else Inr ()"
  have a: "fold_r ?f (NodeContexts p) () = Inr () \<longleftrightarrow> (\<forall>nc \<in> set (NodeContexts p). nc_ID nc \<in> set (CandidateNodes p))"
    by (rule unit_loop) auto
  have b: "fold_r ?g (po_Goals obj) () = Inr () \<longleftrightarrow>
      (\<forall>g \<in> set (po_Goals obj). feq (wg_Weight g) f0 \<or> \<not> (wg_Type g = ''Migration'' \<and> placement_of p = []))"
    by (rule unit_loop) auto
  have "check_objective p = Inr () \<longleftrightarrow> NodeContexts p \<noteq> [] \<and> fold_r ?f (NodeContexts p) () = Inr () \<and>
      fold_r ?g (po_Goals obj) () = Inr ()"
    by (simp add: check_objective_def Some rbind_eq_Inr)
  then show ?thesis unfolding a b using Some by auto
qed

lemma rbind_unit: "rbind r (\<lambda>_. k) = Inr x \<longleftrightarrow> r = Inr () \<and> k = Inr x" for r :: "'e + unit"
  by (cases r) auto

lemma BuildILPModel_Inr:
  assumes "StableReplicas p \<noteq> []"
  shows "BuildILPModel p = Inr res \<longleftrightarrow> valid_problem p \<and>
    res = \<lparr>NumDecisionVars = wrap64 (int (length (StableReplicas p)) * int (length (CandidateNodes p))),
           NumConstraints = int (length (StableReplicas p))
             + (if RequireCPU p then int (length (CandidateNodes p)) else 0)
             + (if RequireMemory p then int (length (CandidateNodes p)) else 0)\<rparr>"
proof -
  have cpu: "(if RequireCPU p
      then rbind (check_requests MilliCPU InvalidReplicaCPU p) (\<lambda>_. check_capacities MilliCPU InvalidNodeCPU p)
      else Inr ()) = Inr () \<longleftrightarrow> (RequireCPU p \<longrightarrow>
        (\<forall>i \<in> set (StableReplicas p). \<exists>q. mget (requests_of p) i = Some q \<and> 0 < MilliCPU q) \<and>
        (\<forall>j \<in> set (CandidateNodes p). \<exists>c. mget (NodeCapacities p) j = Some c \<and> 0 < MilliCPU c))"
    by (simp add: rbind_unit check_requests_ok check_capacities_ok)
  have mem: "(if RequireMemory p
      then rbind (check_requests MemoryMi InvalidReplicaMemory p) (\<lambda>_. check_capacities MemoryMi InvalidNodeMemory p)
      else Inr ()) = Inr () \<longleftrightarrow> (RequireMemory p \<longrightarrow>
        (\<forall>i \<in> set (StableReplicas p). \<exists>q. mget (requests_of p) i = Some q \<and> 0 < MemoryMi q) \<and>
        (\<forall>j \<in> set (CandidateNodes p). \<exists>c. mget (NodeCapacities p) j = Some c \<and> 0 < MemoryMi c))"
    by (simp add: rbind_unit check_requests_ok check_capacities_ok)
  show ?thesis
    unfolding BuildILPModel_def Let_def rbind_unit valid_problem_def
    using assms by (auto simp: rbind_unit cpu mem check_objective_ok simp del: if_split split: if_split)
qed

subsection \<open>Lemmas: variables and rows\<close>

text \<open>The variables are numbered row by row, so distinct replicas and nodes have distinct variables.\<close>

lemma make_var_Inr:
  "make_var mp r n (k, x) = Inr s \<longleftrightarrow> MakeIntVar mp k \<and> s = (Suc k, mput r (mput n k (mget0 [] x r)) x)"
  by (auto simp: make_var_def)

lemma div_row: "(j :: nat) < l \<Longrightarrow> (i * l + j) div l = i"
  by simp

lemma make_var_row:
  assumes "fold_r (make_var mp r) ns (k, x) = Inr (k', x')" and "distinct ns"
  shows "k' = k + length ns \<and> (\<forall>r'. r' \<noteq> r \<longrightarrow> mget x' r' = mget x r') \<and>
    (\<forall>n. n \<notin> set ns \<longrightarrow> mget (mget0 [] x' r) n = mget (mget0 [] x r) n) \<and>
    (\<forall>j < length ns. mget (mget0 [] x' r) (ns ! j) = Some (k + j))"
  using assms
proof (induction ns arbitrary: k x)
  case (Cons n ns)
  let ?x1 = "mput r (mput n k (mget0 [] x r)) x"
  from Cons.prems(1) have rest: "fold_r (make_var mp r) ns (Suc k, ?x1) = Inr (k', x')"
    by (auto simp: make_var_Inr split: sum.splits)
  from Cons.IH [OF rest] Cons.prems(2) have ih: "k' = Suc k + length ns"
    "\<forall>r'. r' \<noteq> r \<longrightarrow> mget x' r' = mget ?x1 r'"
    "\<forall>n'. n' \<notin> set ns \<longrightarrow> mget (mget0 [] x' r) n' = mget (mget0 [] ?x1 r) n'"
    "\<forall>j < length ns. mget (mget0 [] x' r) (ns ! j) = Some (Suc k + j)" by auto
  have "mget (mget0 [] x' r) ((n # ns) ! j) = Some (k + j)" if "j < length (n # ns)" for j
  proof (cases j)
    case 0
    have "n \<notin> set ns" using Cons.prems(2) by simp
    with ih(3) 0 show ?thesis by simp
  next
    case (Suc i)
    with ih(4) that show ?thesis by simp
  qed
  moreover have "mget (mget0 [] x' r) n' = mget (mget0 [] x r) n'" if "n' \<notin> set (n # ns)" for n'
    using ih(3) that by simp
  moreover have "mget x' r' = mget x r'" if "r' \<noteq> r" for r' using ih(2) that by simp
  ultimately show ?case using ih(1) by simp
qed simp

lemma make_vars_loop:
  assumes "fold_r (\<lambda>r s. case s of (k, x) \<Rightarrow> fold_r (make_var mp r) J (k, mput r [] x)) I (k0, x0) = Inr (k, x)"
    and "distinct I" and "distinct J"
  shows "k = k0 + length I * length J \<and> (\<forall>r. r \<notin> set I \<longrightarrow> mget x r = mget x0 r) \<and>
    (\<forall>i < length I. \<forall>j < length J. var x (I ! i) (J ! j) = k0 + i * length J + j)"
  using assms(1,2)
proof (induction I arbitrary: k0 x0)
  case (Cons r I)
  from Cons.prems(1) obtain k1 x1 where s: "fold_r (make_var mp r) J (k0, mput r [] x0) = Inr (k1, x1)"
    and rest: "fold_r (\<lambda>r s. case s of (k, x) \<Rightarrow> fold_r (make_var mp r) J (k, mput r [] x)) I (k1, x1) = Inr (k, x)"
    by (auto split: sum.splits)
  from make_var_row [OF s assms(3)] have r: "k1 = k0 + length J"
    "\<forall>r'. r' \<noteq> r \<longrightarrow> mget x1 r' = mget x0 r'"
    "\<forall>j < length J. mget (mget0 [] x1 r) (J ! j) = Some (k0 + j)" by auto
  from Cons.IH [OF rest] Cons.prems(2) have ih: "k = k1 + length I * length J"
    "\<forall>r. r \<notin> set I \<longrightarrow> mget x r = mget x1 r"
    "\<forall>i < length I. \<forall>j < length J. var x (I ! i) (J ! j) = k1 + i * length J + j" by auto
  have "r \<notin> set I" using Cons.prems(2) by simp
  then have "mget0 [] x r = mget0 [] x1 r" using ih(2) by (simp add: mget0_def)
  then have "var x r (J ! j) = k0 + j" if "j < length J" for j
    using r(3) that by (simp add: var_def mget0_def [of 0])
  then have "var x ((r # I) ! i) (J ! j) = k0 + i * length J + j" if "i < length (r # I)" "j < length J" for i j
    using that ih(3) r(1) by (cases i) (simp_all add: algebra_simps)
  moreover have "\<forall>r'. r' \<notin> set (r # I) \<longrightarrow> mget x r' = mget x0 r'" using ih(2) r(2) by simp
  ultimately show ?case using ih(1) r(1) by simp
qed simp

lemma make_vars_var:
  assumes "make_vars mp I J = Inr (k, x)" and "distinct I" and "distinct J"
  shows "k = length I * length J"
    and "r \<in> set I \<Longrightarrow> n \<in> set J \<Longrightarrow> var x r n < k"
    and "r \<in> set I \<Longrightarrow> r' \<in> set I \<Longrightarrow> n \<in> set J \<Longrightarrow> n' \<in> set J \<Longrightarrow> var x r n = var x r' n' \<Longrightarrow> r = r' \<and> n = n'"
proof -
  from make_vars_loop [OF assms(1) [unfolded make_vars_def] assms(2,3)]
  have k: "k = length I * length J"
    and v: "\<And>i j. i < length I \<Longrightarrow> j < length J \<Longrightarrow> var x (I ! i) (J ! j) = i * length J + j" by auto
  show "k = length I * length J" by (rule k)
  show "var x r n < k" if rn: "r \<in> set I" "n \<in> set J"
  proof -
    obtain i j where ij: "i < length I" "r = I ! i" "j < length J" "n = J ! j"
      using rn by (auto simp: in_set_conv_nth)
    have "i * length J + j < Suc i * length J" using ij by simp
    also have "\<dots> \<le> length I * length J" using ij by (intro mult_le_mono1) simp
    finally show ?thesis using ij v k by simp
  qed
  show "r = r' \<and> n = n'"
    if h: "r \<in> set I" "r' \<in> set I" "n \<in> set J" "n' \<in> set J" "var x r n = var x r' n'"
  proof -
    obtain i j i' j' where ij: "i < length I" "r = I ! i" "j < length J" "n = J ! j"
      "i' < length I" "r' = I ! i'" "j' < length J" "n' = J ! j'"
      using h(1-4) by (auto simp: in_set_conv_nth)
    then have e: "i * length J + j = i' * length J + j'" using h(5) v by simp
    have "(i * length J + j) div length J = i" "(i' * length J + j') div length J = i'" using ij by (simp_all only: div_row)
    then have "i = i'" using e by simp
    with e ij show ?thesis by simp
  qed
qed

text \<open>Writing distinct keys into a map appends them in order.\<close>

lemma mput_new: "k \<notin> mkeys m \<Longrightarrow> mput k v m = m @ [(k, v)]"
  by (induction m) auto

lemma fold_mput_distinct:
  assumes "distinct (map k xs)" and "k ` set xs \<inter> mkeys m0 = {}"
  shows "fold (\<lambda>x m. mput (k x) (c x) m) xs m0 = m0 @ map (\<lambda>x. (k x, c x)) xs"
  using assms
proof (induction xs arbitrary: m0)
  case (Cons a xs)
  then have "mput (k a) (c a) m0 = m0 @ [(k a, c a)]" by (intro mput_new) auto
  moreover have "k ` set xs \<inter> mkeys (m0 @ [(k a, c a)]) = {}" using Cons.prems by auto
  ultimately show ?case using Cons by simp
qed simp

lemma capacity_coeffs_eq:
  assumes "capacity_coeffs f p x n = Inr cs"
    and "distinct (map (\<lambda>r. var x r n) (StableReplicas p))"
  shows "(\<forall>r \<in> set (StableReplicas p). \<exists>q. mget (requests_of p) r = Some q) \<and>
    cs = map (\<lambda>r. (var x r n, of_int64 (f (the (mget (requests_of p) r))))) (StableReplicas p)"
proof -
  have "(\<forall>r \<in> set rs. \<exists>q. mget (requests_of p) r = Some q) \<and>
      cs = fold (\<lambda>r cs. mput (var x r n) (of_int64 (f (the (mget (requests_of p) r)))) cs) rs c0"
    if "fold_r (\<lambda>r cs. case mget (requests_of p) r of
         None \<Rightarrow> Inl (MissingReplicaRequest r)
       | Some req \<Rightarrow> Inr (mput (var x r n) (of_int64 (f req)) cs)) rs c0 = Inr cs" for rs c0
    using that by (induction rs arbitrary: c0) (auto split: option.splits)
  from this [OF assms(1) [unfolded capacity_coeffs_def]] fold_mput_distinct [OF assms(2), of "[]"]
  show ?thesis by simp
qed

subsection \<open>Sound solves\<close>

text \<open>
  What is relied on from \<open>MPSolver\<close>: when a solve reports a solution, some assignment of 0 or 1 to the
  variables satisfies every row, and the reported value of each variable is less than one half away
  from it.
\<close>

fun f64_rat :: "f64 \<Rightarrow> rat" where
  "f64_rat (Fin q) = q"
| "f64_rat _ = 0"

definition row_value :: "mip_row \<Rightarrow> (nat \<Rightarrow> int) \<Rightarrow> rat" where
  "row_value row sol = (\<Sum>(i, c) \<leftarrow> row_coeffs row. f64_rat c * of_int (sol i))"

definition row_holds :: "(nat \<Rightarrow> int) \<Rightarrow> mip_row \<Rightarrow> bool" where
  "row_holds sol row \<longleftrightarrow> fle (row_lb row) (Fin (row_value row sol)) \<and> fle (Fin (row_value row sol)) (row_ub row)"

definition solution_for :: "mip \<Rightarrow> (nat \<Rightarrow> f64) \<Rightarrow> (nat \<Rightarrow> int) \<Rightarrow> bool" where
  "solution_for m vals sol \<longleftrightarrow>
     (\<forall>i < mip_vars m. sol i \<in> {0, 1} \<and> (\<exists>q. vals i = Fin q \<and> \<bar>q - of_int (sol i)\<bar> < 1 / 2)) \<and>
     (\<forall>row \<in> set (mip_rows m). row_holds sol row)"

definition mip_sound :: "MPSolver \<Rightarrow> bool" where
  "mip_sound mp \<longleftrightarrow> (\<forall>m limit st vals. mp_Solve mp m limit = (st, vals) \<and> (st = OPTIMAL \<or> st = FEASIBLE) \<longrightarrow>
     (\<exists>sol. solution_for m vals sol))"

text \<open>The rows the builder produces.\<close>

lemma add_row_Inr:
  "add_row mp msg lb ub coeffs rows = Inr rows' \<longleftrightarrow> MakeRowConstraint mp (length rows) \<and>
     (\<exists>cs. coeffs = Inr cs \<and> rows' = rows @ [\<lparr>row_lb = lb, row_ub = ub, row_coeffs = cs\<rparr>])"
  by (auto simp: add_row_def rbind_eq_Inr)

text \<open>A loop in which every element appends one row.\<close>

lemma rows_loop:
  assumes "fold_r f xs rows = Inr rows'"
    and "\<And>a rows rows'. a \<in> set xs \<Longrightarrow> f a rows = Inr rows' \<Longrightarrow> \<exists>row. rows' = rows @ [row] \<and> Q a row"
  shows "length rows' = length rows + length xs \<and> set rows \<subseteq> set rows' \<and> (\<forall>a \<in> set xs. \<exists>row \<in> set rows'. Q a row)"
  using assms
proof (induction xs arbitrary: rows)
  case (Cons a xs)
  from Cons.prems(1) obtain t where t: "f a rows = Inr t" "fold_r f xs t = Inr rows'"
    by (auto split: sum.splits)
  obtain row where row: "t = rows @ [row]" "Q a row" using Cons.prems(2) [OF _ t(1)] by auto
  have "length rows' = length t + length xs \<and> set t \<subseteq> set rows' \<and> (\<forall>a \<in> set xs. \<exists>row \<in> set rows'. Q a row)"
    using Cons.prems(2) by (intro Cons.IH [OF t(2)]) simp
  with row show ?case by auto
qed simp

definition is_assignment_row :: "var_map \<Rightarrow> ClusterNodeID list \<Rightarrow> ReplicaKey \<Rightarrow> mip_row \<Rightarrow> bool" where
  "is_assignment_row x J r row \<longleftrightarrow>
     row = \<lparr>row_lb = Fin 1, row_ub = Fin 1, row_coeffs = fold (\<lambda>n cs. mput (var x r n) (Fin 1) cs) J []\<rparr>"

definition is_capacity_row :: "(ResourceQuantity \<Rightarrow> int64) \<Rightarrow> Problem \<Rightarrow> var_map \<Rightarrow> ClusterNodeID \<Rightarrow> mip_row \<Rightarrow> bool" where
  "is_capacity_row f p x n row \<longleftrightarrow> (\<exists>c cs. mget (NodeCapacities p) n = Some c \<and> capacity_coeffs f p x n = Inr cs \<and>
     row = \<lparr>row_lb = NInf, row_ub = of_int64 (f c), row_coeffs = cs\<rparr>)"

lemma assignment_row_appends:
  "assignment_row mp x J r rows = Inr rows' \<Longrightarrow> \<exists>row. rows' = rows @ [row] \<and> is_assignment_row x J r row"
  by (auto simp: assignment_row_def add_row_Inr is_assignment_row_def)

lemma capacity_row_appends:
  "capacity_row mp msg f p x n rows = Inr rows' \<Longrightarrow> \<exists>row. rows' = rows @ [row] \<and> is_capacity_row f p x n row"
  by (auto simp: capacity_row_def add_row_Inr is_capacity_row_def split: option.splits)

lemma build_rows_Inr:
  assumes "build_rows mp p x = Inr rows"
  shows "length rows = length (StableReplicas p) + (if RequireCPU p then length (CandidateNodes p) else 0)
      + (if RequireMemory p then length (CandidateNodes p) else 0)"
    and "r \<in> set (StableReplicas p) \<Longrightarrow> \<exists>row \<in> set rows. is_assignment_row x (CandidateNodes p) r row"
    and "RequireCPU p \<Longrightarrow> n \<in> set (CandidateNodes p) \<Longrightarrow> \<exists>row \<in> set rows. is_capacity_row MilliCPU p x n row"
    and "RequireMemory p \<Longrightarrow> n \<in> set (CandidateNodes p) \<Longrightarrow> \<exists>row \<in> set rows. is_capacity_row MemoryMi p x n row"
proof -
  from assms obtain rows1 rows2 where
    r1: "fold_r (assignment_row mp x (CandidateNodes p)) (StableReplicas p) [] = Inr rows1"
    and r2: "(if RequireCPU p
      then fold_r (capacity_row mp ''failed creating cpu constraint'' MilliCPU p x) (CandidateNodes p) rows1
      else Inr rows1) = Inr rows2"
    and r3: "(if RequireMemory p
      then fold_r (capacity_row mp ''failed creating memory constraint'' MemoryMi p x) (CandidateNodes p) rows2
      else Inr rows2) = Inr rows"
    unfolding build_rows_def by (auto simp: rbind_eq_Inr)
  have a: "length rows1 = length (StableReplicas p) \<and>
      (\<forall>r \<in> set (StableReplicas p). \<exists>row \<in> set rows1. is_assignment_row x (CandidateNodes p) r row)"
    using rows_loop [OF r1, where Q = "is_assignment_row x (CandidateNodes p)"] assignment_row_appends by simp
  have b: "length rows2 = length rows1 + (if RequireCPU p then length (CandidateNodes p) else 0) \<and>
      set rows1 \<subseteq> set rows2 \<and>
      (RequireCPU p \<longrightarrow> (\<forall>n \<in> set (CandidateNodes p). \<exists>row \<in> set rows2. is_capacity_row MilliCPU p x n row))"
    using r2 rows_loop [where f = "capacity_row mp ''failed creating cpu constraint'' MilliCPU p x"
        and Q = "is_capacity_row MilliCPU p x", OF _ capacity_row_appends]
    by (cases "RequireCPU p") simp_all
  have c: "length rows = length rows2 + (if RequireMemory p then length (CandidateNodes p) else 0) \<and>
      set rows2 \<subseteq> set rows \<and>
      (RequireMemory p \<longrightarrow> (\<forall>n \<in> set (CandidateNodes p). \<exists>row \<in> set rows. is_capacity_row MemoryMi p x n row))"
    using r3 rows_loop [where f = "capacity_row mp ''failed creating memory constraint'' MemoryMi p x"
        and Q = "is_capacity_row MemoryMi p x", OF _ capacity_row_appends]
    by (cases "RequireMemory p") simp_all
  show "length rows = length (StableReplicas p) + (if RequireCPU p then length (CandidateNodes p) else 0)
      + (if RequireMemory p then length (CandidateNodes p) else 0)" using a b c by simp
  show "\<exists>row \<in> set rows. is_assignment_row x (CandidateNodes p) r row" if "r \<in> set (StableReplicas p)"
    using a b c that by blast
  show "\<exists>row \<in> set rows. is_capacity_row MilliCPU p x n row" if "RequireCPU p" "n \<in> set (CandidateNodes p)"
    using b c that by blast
  show "\<exists>row \<in> set rows. is_capacity_row MemoryMi p x n row" if "RequireMemory p" "n \<in> set (CandidateNodes p)"
    using c that by blast
qed

subsection \<open>Lemmas: decoding a sound solution\<close>

lemma build_mip_Inr:
  "build_mip mp p coeffs = Inr (m, x) \<Longrightarrow>
     make_vars mp (StableReplicas p) (CandidateNodes p) = Inr (mip_vars m, x) \<and> build_rows mp p x = Inr (mip_rows m)"
  by (auto simp: build_mip_def rbind_eq_Inr split: if_splits)

lemma Solve_Inr:
  assumes "ORToolsSolver_Solve mp ms expired p = Inr res" and "StableReplicas p \<noteq> []"
  shows "\<exists>coeffs m x limit st vals asg. build_mip mp p coeffs = Inr (m, x) \<and> mp_Solve mp m limit = (st, vals) \<and>
    (st = OPTIMAL \<or> st = FEASIBLE) \<and>
    fold_r (choose_node vals x (CandidateNodes p)) (StableReplicas p) [] = Inr asg \<and>
    res = Some \<lparr>Status = ''Feasible'', Assignment = asg\<rparr>"
proof -
  from assms obtain u coeffs pen m x where b: "build_mip mp p coeffs = Inr (m, x)"
    and rest: "(let limit = (case ms of None \<Rightarrow> None | Some t \<Rightarrow> if 0 < t then Some t else None) in
      case mp_Solve mp m limit of (st, vals) \<Rightarrow>
        if st = OPTIMAL \<or> st = FEASIBLE
        then rbind (fold_r (choose_node vals x (CandidateNodes p)) (StableReplicas p) []) (\<lambda>asg.
          Inr (Some \<lparr>Status = ''Feasible'', Assignment = asg\<rparr>))
        else if st = INFEASIBLE then Inl ORToolsInfeasible
        else if st = NOT_SOLVED then (if expired then Inl DeadlineExceeded else Inl ORToolsNotSolved)
        else Inl (BackendError ''ortools solve failed: unknown'')) = Inr res"
    unfolding ORToolsSolver_Solve_def by (auto simp: rbind_eq_Inr split: if_splits)
  define limit where "limit = (case ms of None \<Rightarrow> None | Some t \<Rightarrow> if 0 < t then Some t else None)"
  obtain st vals where sv: "mp_Solve mp m limit = (st, vals)" by (cases "mp_Solve mp m limit")
  have "st = OPTIMAL \<or> st = FEASIBLE"
    using rest unfolding limit_def [symmetric] Let_def sv by (auto split: if_splits)
  moreover from this obtain asg where "fold_r (choose_node vals x (CandidateNodes p)) (StableReplicas p) [] = Inr asg"
    "res = Some \<lparr>Status = ''Feasible'', Assignment = asg\<rparr>"
    using rest unfolding limit_def [symmetric] Let_def sv by (auto simp: rbind_eq_Inr)
  ultimately show ?thesis using b sv by blast
qed

lemma choose_node_Inr:
  "choose_node vals x J r asg = Inr asg' \<longleftrightarrow>
     (\<exists>n. find (\<lambda>n. fle (Fin (1 / 2)) (vals (var x r n))) J = Some n \<and> asg' = mput r n asg)"
  by (auto simp: choose_node_def split: option.splits)

lemma choose_loop:
  assumes "fold_r (choose_node vals x J) I asg0 = Inr asg"
  shows "\<forall>r. mget asg r = (if r \<in> set I then find (\<lambda>n. fle (Fin (1 / 2)) (vals (var x r n))) J else mget asg0 r)"
    and "\<forall>r \<in> set I. find (\<lambda>n. fle (Fin (1 / 2)) (vals (var x r n))) J \<noteq> None"
  using assms
proof (induction I arbitrary: asg0)
  case (Cons r I)
  {
    case 1
    then obtain n where n: "find (\<lambda>n. fle (Fin (1 / 2)) (vals (var x r n))) J = Some n"
      "fold_r (choose_node vals x J) I (mput r n asg0) = Inr asg"
      by (auto simp: choose_node_Inr split: sum.splits)
    from Cons.IH(1) [OF n(2)] n(1) show ?case by simp
  next
    case 2
    then obtain n where n: "find (\<lambda>n. fle (Fin (1 / 2)) (vals (var x r n))) J = Some n"
      "fold_r (choose_node vals x J) I (mput r n asg0) = Inr asg"
      by (auto simp: choose_node_Inr split: sum.splits)
    from Cons.IH(2) [OF n(2)] n(1) show ?case by simp
  }
qed simp_all

text \<open>The value of a sound solution in the rows that the builder made.\<close>

lemma sum_list_int: "(\<Sum>y \<leftarrow> ys. of_int (g y)) = (of_int (\<Sum>y \<leftarrow> ys. g y) :: rat)"
  by (induction ys) simp_all

lemma assignment_row_value:
  assumes "is_assignment_row x J r row" and "distinct (map (var x r) J)" and "row_holds sol row"
  shows "(\<Sum>n \<leftarrow> J. sol (var x r n)) = 1"
proof -
  have cs: "row_coeffs row = map (\<lambda>n. (var x r n, Fin 1)) J"
    using assms(1) fold_mput_distinct [OF assms(2), of "[]"] by (simp add: is_assignment_row_def)
  have "row_value row sol = (\<Sum>n \<leftarrow> J. of_int (sol (var x r n)))"
    by (simp add: row_value_def cs comp_def)
  also have "\<dots> = of_int (\<Sum>n \<leftarrow> J. sol (var x r n))" by (rule sum_list_int)
  finally have "(of_int (\<Sum>n \<leftarrow> J. sol (var x r n)) :: rat) = 1"
    using assms(1,3) by (simp add: row_holds_def is_assignment_row_def)
  then show ?thesis by (simp only: of_int_eq_1_iff)
qed

lemma of_int64_exact: "\<bar>i\<bar> < 2 ^ 53 \<Longrightarrow> of_int64 i = Fin (of_int i)"
  unfolding of_int64_def by (intro to_f64_repr repr64_int)

lemma capacity_row_value:
  assumes "is_capacity_row f p x n row" and "distinct (map (\<lambda>r. var x r n) (StableReplicas p))" and "row_holds sol row"
    and "\<forall>q \<in> snd ` set (requests_of p). \<bar>f q\<bar> < 2 ^ 53" and "mget (NodeCapacities p) n = Some c" and "\<bar>f c\<bar> < 2 ^ 53"
  shows "(\<Sum>r \<leftarrow> StableReplicas p. f (the (mget (requests_of p) r)) * sol (var x r n)) \<le> f c"
proof -
  from assms(1,5) obtain cs where cs: "capacity_coeffs f p x n = Inr cs"
    and row: "row = \<lparr>row_lb = NInf, row_ub = of_int64 (f c), row_coeffs = cs\<rparr>"
    by (auto simp: is_capacity_row_def)
  note cc = capacity_coeffs_eq [OF cs assms(2)]
  have ex: "f64_rat (of_int64 (f (the (mget (requests_of p) r)))) = of_int (f (the (mget (requests_of p) r)))"
    if r: "r \<in> set (StableReplicas p)" for r
  proof -
    obtain q where q: "mget (requests_of p) r = Some q" using cc r by blast
    then have "q \<in> snd ` set (requests_of p)" by (metis image_eqI map_of_SomeD snd_conv)
    then have "\<bar>f q\<bar> < 2 ^ 53" using assms(4) by blast
    then show ?thesis by (simp add: q of_int64_exact)
  qed
  have "row_value row sol = (\<Sum>r \<leftarrow> StableReplicas p. f64_rat (of_int64 (f (the (mget (requests_of p) r)))) * of_int (sol (var x r n)))"
    using cc by (simp add: row_value_def row comp_def)
  also have "\<dots> = (\<Sum>r \<leftarrow> StableReplicas p. of_int (f (the (mget (requests_of p) r)) * sol (var x r n)))"
    using ex by (intro arg_cong [where f = sum_list] map_cong) simp_all
  also have "\<dots> = of_int (\<Sum>r \<leftarrow> StableReplicas p. f (the (mget (requests_of p) r)) * sol (var x r n))"
    by (simp only: sum_list_int)
  finally show ?thesis
    using assms(3,6) by (simp add: row_holds_def row of_int64_exact)
qed

text \<open>A 0/1 vector that sums to one has exactly one 1.\<close>

lemma one_hot:
  assumes "(\<Sum>n \<leftarrow> J. s n) = (1 :: int)" and "\<forall>n \<in> set J. s n \<in> {0, 1}" and "distinct J"
    and "n \<in> set J" and "n' \<in> set J" and "s n = 1" and "s n' = 1"
  shows "n = n'"
proof (rule ccontr)
  assume ne: "n \<noteq> n'"
  have "(\<Sum>n \<leftarrow> J. s n) = (\<Sum>n \<in> set J. s n)" using assms(3) by (simp add: sum_list_distinct_conv_sum_set)
  also have "\<dots> \<ge> (\<Sum>n \<in> {n, n'}. s n)" using assms(2,4,5) by (intro sum_mono2) auto
  also have "(\<Sum>n \<in> {n, n'}. s n) = 2" using ne assms(6,7) by simp
  finally show False using assms(1) by simp
qed

definition node_load :: "(ResourceQuantity \<Rightarrow> int64) \<Rightarrow> Problem \<Rightarrow> placement \<Rightarrow> ClusterNodeID \<Rightarrow> int" where
  "node_load f p asg n =
     (\<Sum>r \<leftarrow> StableReplicas p. if mget asg r = Some n then f (the (mget (requests_of p) r)) else 0)"

text \<open>Quantities that a double represents exactly.\<close>

definition exact_quantities :: "(ResourceQuantity \<Rightarrow> int64) \<Rightarrow> Problem \<Rightarrow> bool" where
  "exact_quantities f p \<longleftrightarrow> (\<forall>q \<in> snd ` set (requests_of p). \<bar>f q\<bar> < 2 ^ 53) \<and>
     (\<forall>c \<in> snd ` set (NodeCapacities p). \<bar>f c\<bar> < 2 ^ 53)"

definition within_capacity :: "(ResourceQuantity \<Rightarrow> int64) \<Rightarrow> Problem \<Rightarrow> placement \<Rightarrow> bool" where
  "within_capacity f p asg \<longleftrightarrow> (\<forall>n \<in> set (CandidateNodes p). \<exists>c. mget (NodeCapacities p) n = Some c \<and> node_load f p asg n \<le> f c)"

lemma decoded_by_solution:
  assumes "make_vars mp I J = Inr (mip_vars m, x)" and "distinct I" and "distinct J"
    and "solution_for m vals sol" and "\<forall>r \<in> set I. \<exists>row \<in> set (mip_rows m). is_assignment_row x J r row"
    and "fold_r (choose_node vals x J) I [] = Inr asg" and "r \<in> set I" and "n \<in> set J"
  shows "mget asg r = Some n \<longleftrightarrow> sol (var x r n) = 1" and "sol (var x r n) \<in> {0, 1}"
proof -
  note mv = make_vars_var [OF assms(1-3)]
  have sol01: "sol (var x r n) \<in> {0, 1}" "\<exists>q. vals (var x r n) = Fin q \<and> \<bar>q - of_int (sol (var x r n))\<bar> < 1 / 2"
    if "n \<in> set J" for n
    using assms(4) mv(2) [OF assms(7) that] unfolding solution_for_def by blast+
  show "sol (var x r n) \<in> {0, 1}" using sol01(1) assms(8) .
  have half: "fle (Fin (1 / 2)) (vals (var x r n)) \<longleftrightarrow> sol (var x r n) = 1" if n: "n \<in> set J" for n
  proof -
    obtain q where q: "vals (var x r n) = Fin q" "\<bar>q - of_int (sol (var x r n))\<bar> < 1 / 2" using sol01(2) [OF n] by blast
    from sol01(1) [OF n] show ?thesis using q by (auto simp: abs_if split: if_splits)
  qed
  obtain row where row: "row \<in> set (mip_rows m)" "is_assignment_row x J r row" using assms(5,7) by blast
  have "distinct (map (var x r) J)"
    using assms(3) mv(3) [OF assms(7,7)] by (auto simp: distinct_map inj_on_def)
  moreover have "row_holds sol row" using assms(4) row(1) by (simp add: solution_for_def)
  ultimately have "(\<Sum>n \<leftarrow> J. sol (var x r n)) = 1" by (rule assignment_row_value [OF row(2)])
  note hot = one_hot [OF this _ assms(3)]
  note ch = choose_loop [OF assms(6)]
  obtain n' where n': "find (\<lambda>n. fle (Fin (1 / 2)) (vals (var x r n))) J = Some n'" using ch(2) assms(7) by blast
  then have "n' \<in> set J" "fle (Fin (1 / 2)) (vals (var x r n'))" by (auto simp: find_Some_iff)
  then have s': "sol (var x r n') = 1" using half by simp
  have "mget asg r = Some n'" using ch(1) n' assms(7) by simp
  then show "mget asg r = Some n \<longleftrightarrow> sol (var x r n) = 1"
    using hot [OF _ assms(8) \<open>n' \<in> set J\<close> _ s'] s' sol01(1) by auto
qed

lemma solve_assigns:
  assumes "ORToolsSolver_Solve mp ms expired p = Inr res" and "StableReplicas p \<noteq> []"
  shows "\<exists>sr. res = Some sr \<and> mkeys (Assignment sr) = set (StableReplicas p) \<and>
    (\<forall>r \<in> set (StableReplicas p). \<exists>n \<in> set (CandidateNodes p). mget (Assignment sr) r = Some n)"
proof -
  obtain vals x asg where loop: "fold_r (choose_node vals x (CandidateNodes p)) (StableReplicas p) [] = Inr asg"
    and res: "res = Some \<lparr>Status = ''Feasible'', Assignment = asg\<rparr>"
    using Solve_Inr [OF assms] by blast
  note ch = choose_loop [OF loop]
  have "\<exists>n \<in> set (CandidateNodes p). mget asg r = Some n" if "r \<in> set (StableReplicas p)" for r
  proof -
    obtain n where n: "find (\<lambda>n. fle (Fin (1 / 2)) (vals (var x r n))) (CandidateNodes p) = Some n"
      using ch(2) \<open>r \<in> set (StableReplicas p)\<close> by blast
    then have "n \<in> set (CandidateNodes p)" by (auto simp: find_Some_iff)
    moreover have "mget asg r = Some n" using ch(1) n that by simp
    ultimately show ?thesis by blast
  qed
  moreover have "mkeys asg = mkeys ([] :: placement) \<union> (\<lambda>r. r) ` set (StableReplicas p)"
    by (rule fold_r_keys [OF loop]) (clarsimp simp: choose_node_Inr)
  ultimately show ?thesis using res by simp
qed

lemma solve_capacity:
  assumes "mip_sound mp" and "ORToolsSolver_Solve mp ms expired p = Inr (Some sr)" and "StableReplicas p \<noteq> []"
    and "distinct (StableReplicas p)" and "distinct (CandidateNodes p)" and "exact_quantities f p"
    and rows: "\<And>mp x rows n. build_rows mp p x = Inr rows \<Longrightarrow> n \<in> set (CandidateNodes p) \<Longrightarrow>
      \<exists>row \<in> set rows. is_capacity_row f p x n row"
  shows "within_capacity f p (Assignment sr)"
proof -
  let ?I = "StableReplicas p" and ?J = "CandidateNodes p"
  obtain coeffs m x limit st vals asg where bm: "build_mip mp p coeffs = Inr (m, x)"
    and slv: "mp_Solve mp m limit = (st, vals)" "st = OPTIMAL \<or> st = FEASIBLE"
    and loop: "fold_r (choose_node vals x ?J) ?I [] = Inr asg" and asg: "Assignment sr = asg"
    using Solve_Inr [OF assms(2,3)] by auto
  obtain sol where sol: "solution_for m vals sol" using assms(1) slv unfolding mip_sound_def by blast
  have mv: "make_vars mp ?I ?J = Inr (mip_vars m, x)" and br: "build_rows mp p x = Inr (mip_rows m)"
    using build_mip_Inr [OF bm] by blast+
  note var = make_vars_var [OF mv assms(4,5)]
  have ar: "\<forall>r \<in> set ?I. \<exists>row \<in> set (mip_rows m). is_assignment_row x ?J r row" using build_rows_Inr(2) [OF br] by blast
  note dec = decoded_by_solution [OF mv assms(4,5) sol ar loop]
  have "\<exists>c. mget (NodeCapacities p) n = Some c \<and> node_load f p asg n \<le> f c" if n: "n \<in> set ?J" for n
  proof -
    obtain row where row: "row \<in> set (mip_rows m)" "is_capacity_row f p x n row" using rows [OF br n] by blast
    then obtain c where c: "mget (NodeCapacities p) n = Some c" unfolding is_capacity_row_def by blast
    then have "c \<in> snd ` set (NodeCapacities p)" by (metis image_eqI map_of_SomeD snd_conv)
    then have fc: "\<bar>f c\<bar> < 2 ^ 53" using assms(6) unfolding exact_quantities_def by blast
    have "distinct (map (\<lambda>r. var x r n) ?I)"
      using assms(4) var(3) [OF _ _ n n] by (auto simp: distinct_map inj_on_def)
    moreover have "row_holds sol row" using sol row(1) by (simp add: solution_for_def)
    moreover have "\<forall>q \<in> snd ` set (requests_of p). \<bar>f q\<bar> < 2 ^ 53" using assms(6) by (simp add: exact_quantities_def)
    ultimately have "(\<Sum>r \<leftarrow> ?I. f (the (mget (requests_of p) r)) * sol (var x r n)) \<le> f c"
      using capacity_row_value [OF row(2) _ _ _ c fc] by blast
    moreover have "node_load f p asg n = (\<Sum>r \<leftarrow> ?I. f (the (mget (requests_of p) r)) * sol (var x r n))"
      unfolding node_load_def using dec [OF _ n] by (intro arg_cong [where f = sum_list] map_cong) auto
    ultimately show ?thesis using c by simp
  qed
  then show ?thesis by (simp add: within_capacity_def asg)
qed

lemma model_counts:
  assumes "BuildILPModel p = Inr br" and "build_mip mp p coeffs = Inr (m, x)" and "StableReplicas p \<noteq> []"
    and "distinct (StableReplicas p)" and "distinct (CandidateNodes p)"
    and "length (StableReplicas p) * length (CandidateNodes p) < 2 ^ 63"
  shows "NumDecisionVars br = int (mip_vars m) \<and> NumConstraints br = int (length (mip_rows m))"
proof -
  have mv: "make_vars mp (StableReplicas p) (CandidateNodes p) = Inr (mip_vars m, x)"
    and br: "build_rows mp p x = Inr (mip_rows m)" using build_mip_Inr [OF assms(2)] by blast+
  have "int (length (StableReplicas p) * length (CandidateNodes p)) < 2 ^ 63"
    using assms(6) by (metis of_nat_less_iff of_nat_numeral of_nat_power)
  moreover have "0 \<le> int (length (StableReplicas p)) * int (length (CandidateNodes p))" by simp
  ultimately have "in_int64 (int (length (StableReplicas p)) * int (length (CandidateNodes p)))"
    by (intro in_int64_nonneg) simp_all
  then show ?thesis
    using assms(1) make_vars_var(1) [OF mv assms(4,5)] build_rows_Inr(1) [OF br]
    by (simp add: BuildILPModel_Inr [OF assms(3)])
qed

subsection \<open>Properties\<close>

text \<open>A backend that tries one point and reports it when it satisfies the program.\<close>

definition guess :: "nat \<Rightarrow> int" where
  "guess i = (if i = 0 \<or> i = 3 then 1 else 0)"

definition sample_mp :: MPSolver where
  "sample_mp = \<lparr>CreateSolver = True, MakeIntVar = (\<lambda>_. True), MakeRowConstraint = (\<lambda>_. True),
     mp_Solve = (\<lambda>m _. if list_all (row_holds guess) (mip_rows m) then (FEASIBLE, \<lambda>i. Fin (of_int (guess i)))
                       else (INFEASIBLE, \<lambda>_. f0))\<rparr>"

lemma sample_mp_sound: "mip_sound sample_mp"
proof -
  have "solution_for m (\<lambda>i. Fin (of_int (guess i))) guess" if "list_all (row_holds guess) (mip_rows m)" for m
    using that by (simp add: solution_for_def guess_def list_all_iff)
  then show ?thesis unfolding mip_sound_def sample_mp_def by (auto split: if_splits)
qed

definition sample_problem :: Problem where
  "sample_problem = \<lparr>StableReplicas = [sample_r1, sample_r2], CandidateNodes = [sample_n1, sample_n2],
     p_CurrentPlacement = Some [(sample_r1, sample_n1), (sample_r2, sample_n1)], NodeContexts = [],
     p_ReplicaRequests = ReplicaRequests sample_ctx,
     NodeCapacities = [(sample_n1, \<lparr>MilliCPU = 1000, MemoryMi = 512\<rparr>), (sample_n2, \<lparr>MilliCPU = 2000, MemoryMi = 2048\<rparr>)],
     p_Objective = None, MaximumVariables = 0, RequireCPU = True, RequireMemory = True\<rparr>"

text \<open>
  C1: A placement the OR-Tools solver returns places every stable replica on a candidate node and
  overloads no node: on every candidate node the CPU requests (when CPU is required) and the memory
  requests (when memory is required) of the replicas placed there stay within the node's capacity.
  Hypotheses: \<open>MPSolver\<close> is sound, replicas and nodes are listed once, and the quantities are below
  \<open>2^53\<close>, where a double is exact.
\<close>

theorem solver_respects_capacities:
  assumes "mip_sound mp" and "ORToolsSolver_Solve mp ms expired p = Inr res" and "StableReplicas p \<noteq> []"
    and "distinct (StableReplicas p)" and "distinct (CandidateNodes p)"
    and "exact_quantities MilliCPU p" and "exact_quantities MemoryMi p"
  shows "\<exists>sr. res = Some sr \<and>
    (\<forall>r \<in> set (StableReplicas p). \<exists>n \<in> set (CandidateNodes p). mget (Assignment sr) r = Some n) \<and>
    (RequireCPU p \<longrightarrow> within_capacity MilliCPU p (Assignment sr)) \<and>
    (RequireMemory p \<longrightarrow> within_capacity MemoryMi p (Assignment sr))"
proof -
  obtain sr where sr: "res = Some sr"
    and a: "\<forall>r \<in> set (StableReplicas p). \<exists>n \<in> set (CandidateNodes p). mget (Assignment sr) r = Some n"
    using solve_assigns [OF assms(2,3)] by blast
  note slv = assms(2) [unfolded sr]
  have "RequireCPU p \<Longrightarrow> within_capacity MilliCPU p (Assignment sr)"
    by (rule solve_capacity [OF assms(1) slv assms(3-6)]) (rule build_rows_Inr(3))
  moreover have "RequireMemory p \<Longrightarrow> within_capacity MemoryMi p (Assignment sr)"
    by (rule solve_capacity [OF assms(1) slv assms(3-5,7)]) (rule build_rows_Inr(4))
  ultimately show ?thesis using sr a by blast
qed

theorem solver_respects_capacities_witness:
  "\<exists>sr. ORToolsSolver_Solve sample_mp None False sample_problem = Inr (Some sr) \<and>
    within_capacity MilliCPU sample_problem (Assignment sr) \<and> within_capacity MemoryMi sample_problem (Assignment sr)"
proof -
  have "\<not> isl (ORToolsSolver_Solve sample_mp None False sample_problem)" by code_simp
  then obtain res where res: "ORToolsSolver_Solve sample_mp None False sample_problem = Inr res"
    by (cases "ORToolsSolver_Solve sample_mp None False sample_problem") auto
  have "StableReplicas sample_problem \<noteq> []" "distinct (StableReplicas sample_problem)"
    "distinct (CandidateNodes sample_problem)" "exact_quantities MilliCPU sample_problem"
    "exact_quantities MemoryMi sample_problem" "RequireCPU sample_problem" "RequireMemory sample_problem"
    by code_simp+
  with solver_respects_capacities [OF sample_mp_sound res] res show ?thesis by blast
qed

text \<open>
  C29: \<open>BuildILPModel\<close> accepts exactly the valid problems, and its counts are those of the program the
  solver builds: as many variables as \<open>NumDecisionVars\<close> and as many rows as \<open>NumConstraints\<close>.
\<close>

theorem model_counts_match_program:
  assumes "StableReplicas p \<noteq> []" and "distinct (StableReplicas p)" and "distinct (CandidateNodes p)"
    and "length (StableReplicas p) * length (CandidateNodes p) < 2 ^ 63"
  shows "((\<exists>br. BuildILPModel p = Inr br) \<longleftrightarrow> valid_problem p) \<and>
    (\<forall>br mp coeffs m x. BuildILPModel p = Inr br \<and> build_mip mp p coeffs = Inr (m, x) \<longrightarrow>
       NumDecisionVars br = int (mip_vars m) \<and> NumConstraints br = int (length (mip_rows m)))"
  using BuildILPModel_Inr [OF assms(1)] model_counts [OF _ _ assms] by blast

theorem model_counts_match_program_witness:
  "(\<exists>br. BuildILPModel sample_problem = Inr br) \<and> valid_problem sample_problem"
proof -
  have "StableReplicas sample_problem \<noteq> []" "distinct (StableReplicas sample_problem)"
    "distinct (CandidateNodes sample_problem)" by code_simp+
  moreover have "length (StableReplicas sample_problem) * length (CandidateNodes sample_problem) < 2 ^ 63"
    by (simp add: sample_problem_def)
  ultimately have "(\<exists>br. BuildILPModel sample_problem = Inr br) \<longleftrightarrow> valid_problem sample_problem"
    using model_counts_match_program by blast
  moreover have "\<not> isl (BuildILPModel sample_problem)" by code_simp
  then have "\<exists>br. BuildILPModel sample_problem = Inr br" by (cases "BuildILPModel sample_problem") auto
  ultimately show ?thesis by simp
qed

text \<open>
  With the OR-Tools backend disabled (the stub), \<open>SolveProblem\<close> never returns a placement for a
  problem with replicas, and on valid problems reports the sentinel \<open>ErrSolverNotImplemented\<close> whatever
  the timeout; without replicas it returns the empty assignment without calling the solver. The
  rendering of the stub's error is the message the stub formats.
\<close>

theorem stub_solver_sentinel:
  assumes "err_text ORToolsDisabled = ''ORTools backend is disabled; rebuild with -tags=kubex_ortools''"
  shows "SolveProblem err_text (Some (\<lambda>_. stub_Solve)) p opts =
    (if StableReplicas p = [] then Inr (Some \<lparr>Status = ''NoReplicas'', Assignment = []\<rparr>)
     else case BuildILPModel p of Inl e \<Rightarrow> Inl e | Inr _ \<Rightarrow> Inl SolverNotImplemented)"
proof -
  have "str_contains (err_text ORToolsDisabled) ''ORTools backend is disabled''"
    unfolding assms by (simp add: has_prefix_def)
  then show ?thesis
    by (auto simp: SolveProblem_def stub_Solve_def BuildILPModel_def split: sum.splits)
qed

theorem stub_solver_sentinel_witness:
  "SolveProblem (\<lambda>_. ''ORTools backend is disabled; rebuild with -tags=kubex_ortools'') (Some (\<lambda>_. stub_Solve))
     sample_problem \<lparr>Timeout = 0\<rparr> = Inl SolverNotImplemented"
proof -
  have "\<not> isl (BuildILPModel sample_problem)" "StableReplicas sample_problem \<noteq> []" by code_simp+
  then show ?thesis
    by (subst stub_solver_sentinel) (auto split: sum.splits)
qed

end
