(* ===== verification/Readable.thy ===== *)
theory Readable
  imports Plan
begin

section \<open>Readable metrics per goal\<close>

text \<open>
  \<open>human_readable.go\<close> and \<open>human_readable_impl.go\<close>: for the plan summary, each goal's value in its own
  unit under the current and under the expected placement. The errors of the Cost, Latency and Energy
  computations carry the prefix the sources print (\<open>ReadableErr\<close>).
\<close>

record GoalHumanReadableMetric =
  Kind :: string
  Unit :: string
  From :: "f64 option"
  To :: "f64 option"
  Delta :: "f64 option"
  Detail :: "(string, string) gomap option"

definition buildMetric :: "string \<Rightarrow> string \<Rightarrow> f64 \<Rightarrow> f64 \<Rightarrow> (string, string) gomap option \<Rightarrow> GoalHumanReadableMetric" where
  "buildMetric kind unit frm to detail =
     \<lparr>Kind = kind, Unit = unit, From = Some frm, To = Some to, Delta = Some (fsub frm to), Detail = detail\<rparr>"

subsection \<open>Cost\<close>

definition cost_err :: "opt_error \<Rightarrow> opt_error" where
  "cost_err e = ReadableErr ''Cost readable metric: '' e"

definition buildNodeInstancePrice :: "NodeContext list \<Rightarrow> (string, f64) gomap \<Rightarrow> node_scores result" where
  "buildNodeInstancePrice nodes instPrice =
     fold_r (\<lambda>n out.
       let it = mget0 '''' (Labels n) LabelInstanceType in
       if it = '''' then Inl (cost_err (MissingLabel LabelInstanceType (nc_ID n)))
       else case mget instPrice it of
         None \<Rightarrow> Inl (cost_err (MissingPrice it (nc_ID n)))
       | Some p \<Rightarrow> Inr (mput (nc_ID n) p out)) nodes []"

text \<open>The sum over the replicas with a known node, of a value the node and the replica determine.\<close>

definition sum_over :: "(ReplicaKey \<Rightarrow> ClusterNodeID \<Rightarrow> f64) \<Rightarrow> placement \<Rightarrow> ReplicaKey list \<Rightarrow> f64" where
  "sum_over g pl rs = fold (\<lambda>r s. case mget pl r of None \<Rightarrow> s | Some n \<Rightarrow> fadd s (g r n)) rs f0"

definition computeCostTotal :: "ObjectiveInputs \<Rightarrow> placement \<Rightarrow> (f64 \<times> f64) result" where
  "computeCostTotal inp expected =
     (if Replicas (Ctx inp) = [] then Inr (f0, f0)
      else if oi_InstancePrice inp = [] then Inl (cost_err (EmptyInput ''InstancePrice''))
      else if Nodes (Ctx inp) = [] then Inl (cost_err (EmptyInput ''Nodes''))
      else rbind (buildNodeInstancePrice (Nodes (Ctx inp)) (oi_InstancePrice inp)) (\<lambda>priceByNode.
        Inr (sum_over (\<lambda>r n. mget0 f0 priceByNode n) (CurrentPlacement (Ctx inp)) (Replicas (Ctx inp)),
             sum_over (\<lambda>r n. mget0 f0 priceByNode n) expected (Replicas (Ctx inp)))))"

subsection \<open>Latency\<close>

definition buildNodeRegion :: "NodeContext list \<Rightarrow> (ClusterNodeID, string) gomap \<Rightarrow> (ClusterNodeID, string) gomap result" where
  "buildNodeRegion nodes override =
     fold_r (\<lambda>n out.
       let reg = (case mget override (nc_ID n) of Some v \<Rightarrow> v | None \<Rightarrow> Region n) in
       if reg = '''' then Inl (ReadableErr ''readable metric: '' (MissingRegion (nc_ID n)))
       else Inr (mput (nc_ID n) reg out)) nodes []"

text \<open>The latency of a replica's node, when placement, region and entry are known.\<close>

definition replica_latency ::
  "(ClusterNodeID, string) gomap \<Rightarrow> (string, f64) gomap \<Rightarrow> placement \<Rightarrow> ReplicaKey \<Rightarrow> f64 option" where
  "replica_latency regionByNode row pl r =
     (case mget pl r of
        None \<Rightarrow> None
      | Some n \<Rightarrow> (case mget regionByNode n of None \<Rightarrow> None | Some reg \<Rightarrow> mget row reg))"

definition latency_total :: "(ReplicaKey \<Rightarrow> f64 option) \<Rightarrow> ReplicaKey list \<Rightarrow> f64 \<times> int" where
  "latency_total lat rs =
     fold (\<lambda>r (s, k). case lat r of None \<Rightarrow> (s, k) | Some v \<Rightarrow> (fadd s v, k + 1)) rs (f0, 0)"

definition mean_of :: "f64 \<times> int \<Rightarrow> f64" where
  "mean_of t = (case t of (s, k) \<Rightarrow> if 0 < k then fdiv s (of_int64 k) else s)"

definition computeLatencyAvgMs :: "ObjectiveInputs \<Rightarrow> WeightedGoal \<Rightarrow> placement \<Rightarrow> (f64 \<times> f64) result" where
  "computeLatencyAvgMs inp goal expected =
     (if Replicas (Ctx inp) = [] then Inr (f0, f0)
      else if wg_SourceCity goal = '''' then Inl (ReadableErr ''Latency readable metric: '' (EmptyInput ''SourceCity''))
      else let row = mget0 [] (CityRegionLatencyMs inp) (wg_SourceCity goal) in
        if row = [] then Inl (ReadableErr ''Latency readable metric: '' (MissingLatencyRow (wg_SourceCity goal)))
        else rbind (buildNodeRegion (Nodes (Ctx inp)) (oi_NodeRegion inp)) (\<lambda>regionByNode.
          Inr (mean_of (latency_total (replica_latency regionByNode row (CurrentPlacement (Ctx inp))) (Replicas (Ctx inp))),
               mean_of (latency_total (replica_latency regionByNode row expected) (Replicas (Ctx inp))))))"

subsection \<open>Communication\<close>

definition computeCommunicationAvgMs :: "ObjectiveInputs \<Rightarrow> placement \<Rightarrow> (f64 \<times> f64) result" where
  "computeCommunicationAvgMs inp expected =
     (if Replicas (Ctx inp) = [] then Inr (f0, f0)
      else let p = \<lparr>Dependencies = oi_Dependencies inp, RegionLatencyMs = oi_RegionLatencyMs inp,
                    ReplicaService = oi_ReplicaService inp, NodeRegion = oi_NodeRegion inp,
                    CurrentReplicaRegion = []\<rparr> in
        rbind (AverageCommunicationLatencyMs (Some p) (Ctx inp)) (\<lambda>avgCur.
          rbind (AverageCommunicationLatencyMs (Some p)
              ((Ctx inp)\<lparr>CurrentPlacement := fold (\<lambda>(k, v) m. mput k v m) expected []\<rparr>)) (\<lambda>avgExp.
            Inr (avgCur, avgExp))))"

subsection \<open>Energy\<close>

definition energy_err :: "opt_error \<Rightarrow> opt_error" where
  "energy_err e = ReadableErr ''Energy readable metric: '' e"

definition buildNodeWattsPerCore :: "NodeContext list \<Rightarrow> (string, PowerCurve) gomap \<Rightarrow> node_scores result" where
  "buildNodeWattsPerCore nodes instPower =
     fold_r (\<lambda>n out.
       let it = mget0 '''' (Labels n) LabelInstanceType in
       if it = '''' then Inl (energy_err (MissingLabel LabelInstanceType (nc_ID n)))
       else case mget instPower it of
         None \<Rightarrow> Inl (energy_err (MissingPowerCurve it (nc_ID n)))
       | Some curve \<Rightarrow>
           if CPUAllocatableMilli n \<le> 0 then Inl (energy_err (InvalidCPUAllocatable (nc_ID n)))
           else rbind (marginalWattsPerCore curve (node_util n)
                  (fdiv (of_int64 (CPUAllocatableMilli n)) (Fin 1000)))
                  (\<lambda>val. Inr (mput (nc_ID n) val out))) nodes []"

text \<open>An absent request reads as the zero quantity.\<close>

definition request_cores :: "(ReplicaKey, ResourceQuantity) gomap \<Rightarrow> ReplicaKey \<Rightarrow> f64" where
  "request_cores reqs r =
     fdiv (of_int64 (MilliCPU (mget0 \<lparr>MilliCPU = 0, MemoryMi = 0\<rparr> reqs r))) (Fin 1000)"

definition computeEnergyTotalW :: "ObjectiveInputs \<Rightarrow> placement \<Rightarrow> (f64 \<times> f64) result" where
  "computeEnergyTotalW inp expected =
     (if Replicas (Ctx inp) = [] then Inr (f0, f0)
      else if oi_InstancePower inp = [] then Inl (energy_err (EmptyInput ''InstancePower''))
      else case ReplicaRequests (Ctx inp) of
        None \<Rightarrow> Inl (energy_err (EmptyInput ''ReplicaRequests''))
      | Some reqs \<Rightarrow>
          rbind (buildNodeWattsPerCore (Nodes (Ctx inp)) (oi_InstancePower inp)) (\<lambda>wPerCore.
            let g = (\<lambda>r n. fmul (mget0 f0 wPerCore n) (request_cores reqs r)) in
            Inr (sum_over g (CurrentPlacement (Ctx inp)) (Replicas (Ctx inp)),
                 sum_over g expected (Replicas (Ctx inp)))))"

subsection \<open>Migration and the dispatch\<close>

definition computeMigrationMoves :: "ObjectiveInputs \<Rightarrow> placement \<Rightarrow> (f64 \<times> f64) result" where
  "computeMigrationMoves inp expected =
     Inr (f0, of_int64 (fold (\<lambda>r k.
       case (mget (CurrentPlacement (Ctx inp)) r, mget expected r) of
         (Some cur, Some ex) \<Rightarrow> if cur \<noteq> ex then k + 1 else k
       | _ \<Rightarrow> k) (Replicas (Ctx inp)) 0))"

definition ComputeHumanReadableMetric ::
  "ObjectiveInputs \<Rightarrow> WeightedGoal \<Rightarrow> placement \<Rightarrow> GoalHumanReadableMetric result" where
  "ComputeHumanReadableMetric inp goal expected =
     (if wg_Type goal = ''Cost''
      then rbind (computeCostTotal inp expected) (\<lambda>(f, t). Inr (buildMetric ''Cost'' ''USD'' f t None))
      else if wg_Type goal = ''Latency''
      then rbind (computeLatencyAvgMs inp goal expected) (\<lambda>(f, t).
        Inr (buildMetric ''Latency'' ''ms'' f t
          (Some (if wg_SourceCity goal \<noteq> '''' then [(''sourceCity'', wg_SourceCity goal)] else []))))
      else if wg_Type goal = ''Communication''
      then rbind (computeCommunicationAvgMs inp expected) (\<lambda>(f, t). Inr (buildMetric ''Communication'' ''ms'' f t None))
      else if wg_Type goal = ''Energy''
      then rbind (computeEnergyTotalW inp expected) (\<lambda>(f, t). Inr (buildMetric ''Energy'' ''W'' f t None))
      else if wg_Type goal = ''Migration''
      then rbind (computeMigrationMoves inp expected) (\<lambda>(f, t). Inr (buildMetric ''Migration'' ''moves'' f t None))
      else Inl (UnknownGoal (wg_Type goal)))"

subsection \<open>Lemmas\<close>

text \<open>The Migration metric counts the moves of the plan.\<close>

lemma migration_count:
  "fold (\<lambda>r k. case (mget cur r, mget ex r) of
      (Some c, Some e) \<Rightarrow> if c \<noteq> e then k + 1 else k | _ \<Rightarrow> k) rs k0
    = k0 + int (length (diff_moves cur ex rs))"
  by (induction rs arbitrary: k0)
    (auto simp: diff_moves_def replica_moves_def split: option.splits)

text \<open>
  The Cost and Energy metrics need the same node data as the plugins: where the plugin scores, the
  metric is defined.
\<close>

lemma watts_same_loop:
  assumes "fold_r (energy_coeff_step p LabelInstanceType) ns out0 = Inr out"
  shows "fold_r (\<lambda>n out.
       let it = mget0 '''' (Labels n) LabelInstanceType in
       if it = '''' then Inl (energy_err (MissingLabel LabelInstanceType (nc_ID n)))
       else case mget (InstancePower p) it of
         None \<Rightarrow> Inl (energy_err (MissingPowerCurve it (nc_ID n)))
       | Some curve \<Rightarrow>
           if CPUAllocatableMilli n \<le> 0 then Inl (energy_err (InvalidCPUAllocatable (nc_ID n)))
           else rbind (marginalWattsPerCore curve (node_util n)
                  (fdiv (of_int64 (CPUAllocatableMilli n)) (Fin 1000)))
                  (\<lambda>val. Inr (mput (nc_ID n) val out))) ns out0 = Inr out"
  using assms
  by (induction ns arbitrary: out0)
    (auto simp: energy_coeff_step_def Let_def rbind_eq_Inr split: sum.splits if_splits option.splits)

subsection \<open>Properties\<close>

text \<open>
  The readable Migration metric agrees with the plan: it is computed without error, its target value
  is the number of moves the plan lists and its current value is zero.
\<close>

theorem migration_metric_counts_moves:
  assumes "ComputePlanFromGoals inp expected = Inr (metrics, moves)" and "wg_Type g = ''Migration''"
  shows "\<exists>m. ComputeHumanReadableMetric inp g expected = Inr m \<and> From m = Some f0 \<and>
    To m = Some (of_int64 (int (length moves))) \<and> Delta m = Some (fneg (of_int64 (int (length moves)))) \<and> Unit m = ''moves''"
proof -
  from assms(1) obtain out :: ObjectiveOutput where
    plan: "BuildPlanMetricsAndMoves \<lparr>pi_Replicas = Replicas (Ctx inp), pi_PlacementScores = Some (PlacementScores out),
          pi_CurrentPlacement = CurrentPlacement (Ctx inp), pi_ExpectedPlacement = expected,
          pi_MigrationPenalty = MigrationPenalty out\<rparr> = Inr (metrics, moves)" (is "BuildPlanMetricsAndMoves ?in = _")
    by (auto simp: ComputePlanFromGoals_def rbind_eq_Inr)
  have "moves = diff_moves (CurrentPlacement (Ctx inp)) expected (Replicas (Ctx inp))"
  proof (cases "Replicas (Ctx inp) = []")
    case True
    then show ?thesis using plan by (auto simp: BuildPlanMetricsAndMoves_def diff_moves_def)
  next
    case False
    then show ?thesis using BuildPlan_eq [of ?in "PlacementScores out"] plan by (auto simp: Let_def)
  qed
  moreover have "wf_f64 (of_int64 (int (length moves)))" by (simp add: of_int64_def)
  then have "fsub f0 (of_int64 (int (length moves))) = fneg (of_int64 (int (length moves)))"
    by (cases "of_int64 (int (length moves))") (auto simp: fsub_def to_f64_repr repr64_def rnd64_minus)
  ultimately show ?thesis
    using assms(2) migration_count [of "CurrentPlacement (Ctx inp)" expected "Replicas (Ctx inp)" 0]
    by (simp add: ComputeHumanReadableMetric_def computeMigrationMoves_def buildMetric_def)
qed

theorem migration_metric_counts_moves_witness:
  "\<exists>m. ComputeHumanReadableMetric sample_objective
      \<lparr>wg_Type = ''Migration'', wg_Weight = Fin 1, wg_SourceCity = '''', wg_TopologyRef = ''''\<rparr> sample_expected = Inr m \<and>
    To m = Some (of_int64 1)"
proof -
  obtain out where "BuildObjective sample_objective = Inr out"
    using objective_total [of sample_objective] sample_objective_ok by blast
  then obtain metrics moves where p: "ComputePlanFromGoals sample_objective sample_expected = Inr (metrics, moves)"
    by (auto simp: ComputePlanFromGoals_def BuildPlan_eq sample_objective_def sample_ctx_def Let_def)
  have "length moves = 1"
    using p \<open>BuildObjective sample_objective = Inr out\<close>
    by (auto simp: ComputePlanFromGoals_def BuildPlan_eq sample_objective_def sample_ctx_def Let_def sample_expected_def
        diff_moves_def replica_moves_def sample_r1_def sample_r2_def sample_n1_def sample_n2_def)
  with migration_metric_counts_moves [OF p,
      of "\<lparr>wg_Type = ''Migration'', wg_Weight = Fin 1, wg_SourceCity = '''', wg_TopologyRef = ''''\<rparr>"]
  show ?thesis by auto
qed

end
