(* ===== verification/Policy_Evaluation.thy ===== *)
theory Policy_Evaluation
  imports Policy_Status Profiles ILP Readable Scheduler
begin

section \<open>The OptimizationPolicy controller: evaluation\<close>

text \<open>
  \<open>defaultEvaluate\<close> of \<open>src/controller/internal/controller/optimizationpolicy_controller.go\<close> and
  \<open>optimizationpolicy_solver_wiring.go\<close>: when the timer of a policy fires, the layout in its status, the
  nodes of the clusters, the templates of the deployments and the profiles become a placement problem; the
  solver's answer becomes a ReOrchestrationPlan.

  The functions \<open>defaultEvaluate\<close> and \<open>computeImprovementPct\<close> repeat the same steps to collect their inputs; the
  steps are defined once here (\<open>gather\<close>), with the rule that names the service of a replica, the only
  difference, as an argument. The record \<open>policy_lib\<close> holds what is not in the repository: the parsers, the
  compiled solver, \<open>Quantity.MilliValue\<close> and \<open>Quantity.Value\<close>, the texts of errors and floats, and whether an error
  of the API machinery is a deadline. The solver may answer differently at each call: it is given the history.
  The policy controller has a client cache of its own. The per-policy mutex and log output are not modelled.
\<close>

datatype eval_err = ApiErr string api_err | OptErr opt_error

text \<open>\<open>ApiErr pre e\<close> is the error \<open>e\<close> wrapped with the prefix \<open>pre\<close>.\<close>

record policy_lib =
  lib_profiles :: profile_lib
  lib_solver :: "history \<Rightarrow> int64 \<Rightarrow> Problem \<Rightarrow> SolveResult option result"
  lib_opt_text :: "opt_error \<Rightarrow> string"
  lib_deadline :: "api_err \<Rightarrow> bool"
  lib_MilliValue :: "quantity \<Rightarrow> int64"
  lib_Value :: "quantity \<Rightarrow> int64"
  lib_format_4g :: "f64 \<Rightarrow> string"

fun eval_text :: "policy_lib \<Rightarrow> eval_err \<Rightarrow> string" where
  "eval_text L (ApiErr pre e) = pre @ err_text e"
| "eval_text L (OptErr e) = lib_opt_text L e"

fun is_deadline :: "policy_lib \<Rightarrow> eval_err \<Rightarrow> bool" where
  "is_deadline L (ApiErr pre e) = lib_deadline L e"
| "is_deadline L (OptErr e) = (e = DeadlineExceeded)"

subsection \<open>Stable replicas\<close>

definition replica_key_of :: "CurrentReplicaLocation \<Rightarrow> ReplicaKey" where
  "replica_key_of loc = \<lparr>rk_Namespace = crl_Namespace loc, rk_Name = crl_Name loc, rk_ReplicaIndex = crl_ReplicaIndex loc\<rparr>"

definition node_id_of :: "CurrentReplicaLocation \<Rightarrow> ClusterNodeID" where
  "node_id_of loc = \<lparr>ClusterID = crl_ClusterId loc, NodeName = crl_NodeName loc\<rparr>"

definition stable_replicas :: "CurrentReplicaLocation list \<Rightarrow> ReplicaKey list" where
  "stable_replicas layout = map replica_key_of (filter crl_Stable layout)"

definition stable_placement :: "CurrentReplicaLocation list \<Rightarrow> placement" where
  "stable_placement layout = fold (\<lambda>loc m. mput (replica_key_of loc) (node_id_of loc) m) (filter crl_Stable layout) []"

subsection \<open>Candidate nodes and their contexts\<close>

definition cluster_candidates :: "Cluster \<Rightarrow> ClusterNodeID list" where
  "cluster_candidates c =
    (if cl_Phase c \<noteq> ClusterReady then []
     else map (\<lambda>ns. \<lparr>ClusterID = om_Name (cl_Meta c), NodeName = cn_Name ns\<rparr>)
       (filter (\<lambda>ns. cn_Ready ns \<and> cn_Name ns \<noteq> '''') (cl_Nodes c)))"

definition fallback_nodes :: "placement \<Rightarrow> ClusterNodeID list" where
  "fallback_nodes cur = map fst (fold (\<lambda>(_, n) s. mput n () s) cur [])"

definition candidate_nodes :: "env \<Rightarrow> placement \<Rightarrow> (eval_err + ClusterNodeID list) io" where
  "candidate_nodes E cur = do {
     l \<leftarrow> call ListClusters (\<lambda>h. env_list_clusters E h);
     State_Monad.return (case l of
       Inl err \<Rightarrow> Inl (ApiErr '''' err)
     | Inr clusters \<Rightarrow>
         (let cands = concat (map cluster_candidates clusters)
          in Inr (if cands = [] then fallback_nodes cur else cands)))
   }"

text \<open>The policy controller's own cache stands in for \<open>clients\<close> while a lookup runs.\<close>

definition swap_caches :: "world \<Rightarrow> world" where
  "swap_caches w = w\<lparr>clients := policy_clients w, policy_clients := clients w\<rparr>"

definition with_policy_cache :: "'a io \<Rightarrow> 'a io" where
  "with_policy_cache m = State (\<lambda>w. case run_state m (swap_caches w) of (x, w') \<Rightarrow> (x, swap_caches w'))"

definition policy_member_client :: "policy_cfg \<Rightarrow> env \<Rightarrow> string \<Rightarrow> (api_err + Clientset) io" where
  "policy_member_client C E clusterID =
    with_policy_cache (GetOrBuild E (if cfg_ControlNamespace C = '''' then ''kubex-system'' else cfg_ControlNamespace C) clusterID)"

text \<open>Integer division by 1024 * 1024, truncated as in Go.\<close>

definition mebibytes :: "int64 \<Rightarrow> int64" where
  "mebibytes v = sgn v * (\<bar>v\<bar> div (1024 * 1024))"

definition node_context :: "policy_lib \<Rightarrow> ClusterNodeID \<Rightarrow> Node \<Rightarrow> NodeContext" where
  "node_context L i n =
    \<lparr>nc_ID = i, Labels = nd_Labels n, Region = mget0 '''' (nd_Labels n) ''node.kubex.io/region'', CPUFreeMilli = 0,
     CPUAllocatableMilli = (case mget (nd_Allocatable n) ''cpu'' of None \<Rightarrow> 0 | Some q \<Rightarrow> lib_MilliValue L q),
     MemoryAllocatableMi = (case mget (nd_Allocatable n) ''memory'' of None \<Rightarrow> 0 | Some q \<Rightarrow> mebibytes (lib_Value L q))\<rparr>"

definition context_read ::
  "policy_lib \<Rightarrow> env \<Rightarrow> ClusterNodeID \<Rightarrow> NodeContext list \<Rightarrow> api_err + Clientset \<Rightarrow> (eval_err + NodeContext list) io" where
  "context_read L E i out cs = (case cs of
      Inl err \<Rightarrow> State_Monad.return (Inl (ApiErr (''buildNodeContexts: get member client for cluster '' @
        go_quote (ClusterID i) @ '': '') err))
    | Inr cs \<Rightarrow> do {
        n \<leftarrow> call (NodeGet cs (NodeName i)) (\<lambda>h. env_node E h cs (NodeName i));
        State_Monad.return (case n of
          Inl err \<Rightarrow> Inl (ApiErr (''buildNodeContexts: get node '' @ go_quote (NodeName i) @ '' in cluster '' @
            go_quote (ClusterID i) @ '': '') err)
        | Inr n \<Rightarrow> Inr (out @ [node_context L i n]))
      })"

definition context_step ::
  "policy_lib \<Rightarrow> policy_cfg \<Rightarrow> env \<Rightarrow> ClusterNodeID \<Rightarrow> NodeContext list \<Rightarrow> (eval_err + NodeContext list) io" where
  "context_step L C E i out =
    (if ClusterID i = '''' \<or> NodeName i = '''' then
       State_Monad.return (Inl (ApiErr '''' (OtherErr (''buildNodeContexts: empty clusterID/nodeName: clusterID='' @
         go_quote (ClusterID i) @ '' nodeName='' @ go_quote (NodeName i)))))
     else do {
       cs \<leftarrow> policy_member_client C E (ClusterID i);
       context_read L E i out cs
     })"

definition buildNodeContexts ::
  "policy_lib \<Rightarrow> policy_cfg \<Rightarrow> env \<Rightarrow> ClusterNodeID list \<Rightarrow> (eval_err + NodeContext list) io" where
  "buildNodeContexts L C E nodes = io_fold (context_step L C E) nodes []"

subsection \<open>Requests, capacities and goals\<close>

text \<open>A selector that does not parse selects everything here.\<close>

definition lenient_selector :: "env \<Rightarrow> OptimizationPolicy \<Rightarrow> string option" where
  "lenient_selector E pol = (case selector_of E pol of Inl _ \<Rightarrow> None | Inr sel \<Rightarrow> sel)"

definition sum_requests :: "string \<Rightarrow> (quantity \<Rightarrow> int64) \<Rightarrow> Container list \<Rightarrow> int64" where
  "sum_requests res f cs = fold (\<lambda>c s. case mget (ct_Requests c) res of None \<Rightarrow> s | Some q \<Rightarrow> wrap64 (s + f q)) cs 0"

definition template_request :: "policy_lib \<Rightarrow> env \<Rightarrow> GlobalDeployment \<Rightarrow> ResourceQuantity" where
  "template_request L E gd =
    (let cs = (case env_json_deployment E (gd_Template (gd_Spec gd)) of Inl _ \<Rightarrow> [] | Inr spec \<Rightarrow> ds_Containers spec);
         milli = sum_requests ''cpu'' (lib_MilliValue L) cs;
         memMi = sum_requests ''memory'' (\<lambda>q. mebibytes (lib_Value L q)) cs
     in \<lparr>MilliCPU = (if milli \<le> 0 then 1000 else milli), MemoryMi = (if memMi \<le> 0 then 1024 else memMi)\<rparr>)"

definition template_requests :: "policy_lib \<Rightarrow> env \<Rightarrow> GlobalDeployment list \<Rightarrow> (string, ResourceQuantity) gomap" where
  "template_requests L E gds = fold (\<lambda>gd m. mput (gd_text (om_Namespace (gd_Meta gd)) (om_Name (gd_Meta gd))) (template_request L E gd) m) gds []"

definition replica_requests :: "(string, ResourceQuantity) gomap \<Rightarrow> ReplicaKey list \<Rightarrow> (ReplicaKey, ResourceQuantity) gomap" where
  "replica_requests reqs rks = fold (\<lambda>rk m. mput rk
     (mget0 \<lparr>MilliCPU = 1000, MemoryMi = 1024\<rparr> reqs (gd_text (rk_Namespace rk) (rk_Name rk))) m) rks []"

definition node_capacities :: "NodeContext list \<Rightarrow> (ClusterNodeID, ResourceQuantity) gomap" where
  "node_capacities ncs = fold (\<lambda>nc m. mput (nc_ID nc)
     \<lparr>MilliCPU = (if CPUAllocatableMilli nc \<le> 0 then 4000 else CPUAllocatableMilli nc),
      MemoryMi = (if MemoryAllocatableMi nc \<le> 0 then 8192 else MemoryAllocatableMi nc)\<rparr> m) ncs []"

definition weighted_goals :: "OptimizationGoal list \<Rightarrow> WeightedGoal list" where
  "weighted_goals goals = map (\<lambda>g. \<lparr>wg_Type = og_Type g, wg_Weight = og_Weight g, wg_SourceCity = og_SourceCity g,
     wg_TopologyRef = og_TopologyRef g\<rparr>) (filter (\<lambda>g. \<not> feq (og_Weight g) f0) goals)"

subsection \<open>Inputs of the Communication goal\<close>

definition comm_goal :: "WeightedGoal list \<Rightarrow> WeightedGoal option" where
  "comm_goal goals = find (\<lambda>g. wg_Type g = ''Communication'' \<and> \<not> feq (wg_Weight g) f0) goals"

definition service_name :: "GlobalDeployment \<Rightarrow> string" where
  "service_name gd =
    (let svc = mget0 '''' (om_Labels (gd_Meta gd)) ''kubex.io/service''; app = mget0 '''' (om_Labels (gd_Meta gd)) ''app''
     in if svc \<noteq> '''' then svc else if app \<noteq> '''' then app else om_Name (gd_Meta gd))"

definition services_by_gd :: "GlobalDeployment list \<Rightarrow> (string, NamespacedName) gomap" where
  "services_by_gd gds = fold (\<lambda>gd m. mput (gd_text (om_Namespace (gd_Meta gd)) (om_Name (gd_Meta gd)))
     \<lparr>nn_Namespace = om_Namespace (gd_Meta gd), nn_Name = service_name gd\<rparr> m) gds []"

text \<open>The two rules for the service of a replica: without and with its namespace.\<close>

definition evaluate_service :: "(string, NamespacedName) gomap \<Rightarrow> ReplicaKey \<Rightarrow> NamespacedName" where
  "evaluate_service svcs rk = (case mget svcs (gd_text (rk_Namespace rk) (rk_Name rk)) of
      Some s \<Rightarrow> \<lparr>nn_Namespace = '''', nn_Name = nn_Name s\<rparr>
    | None \<Rightarrow> \<lparr>nn_Namespace = '''', nn_Name = rk_Name rk\<rparr>)"

definition improvement_service :: "(string, NamespacedName) gomap \<Rightarrow> ReplicaKey \<Rightarrow> NamespacedName" where
  "improvement_service svcs rk = (case mget svcs (gd_text (rk_Namespace rk) (rk_Name rk)) of
      Some s \<Rightarrow> s
    | None \<Rightarrow> \<lparr>nn_Namespace = rk_Namespace rk, nn_Name = rk_Name rk\<rparr>)"

definition replica_services ::
  "((string, NamespacedName) gomap \<Rightarrow> ReplicaKey \<Rightarrow> NamespacedName) \<Rightarrow> GlobalDeployment list \<Rightarrow> ReplicaKey list
     \<Rightarrow> (ReplicaKey, NamespacedName) gomap" where
  "replica_services svc gds rks = fold (\<lambda>rk m. mput rk (svc (services_by_gd gds) rk) m) rks []"

definition node_regions :: "NodeContext list \<Rightarrow> (ClusterNodeID, string) gomap" where
  "node_regions ncs = fold (\<lambda>nc m. if Region nc \<noteq> '''' then mput (nc_ID nc) (Region nc) m else m) ncs []"

text \<open>Dependencies, services of the replicas, regions of the nodes, latencies; all empty without the goal.\<close>

type_synonym comm_data =
  "(NamespacedName, NamespacedName list) gomap \<times> (ReplicaKey, NamespacedName) gomap \<times> (ClusterNodeID, string) gomap \<times> region_latency"

definition communication_data ::
  "policy_lib \<Rightarrow> policy_cfg \<Rightarrow> env \<Rightarrow> ((string, NamespacedName) gomap \<Rightarrow> ReplicaKey \<Rightarrow> NamespacedName) \<Rightarrow> OptimizationPolicy
     \<Rightarrow> ReplicaKey list \<Rightarrow> NodeContext list \<Rightarrow> WeightedGoal list \<Rightarrow> profilesData \<Rightarrow> (eval_err + comm_data) io" where
  "communication_data L C E svc pol rks ncs goals profiles = (case comm_goal goals of
      None \<Rightarrow> State_Monad.return (Inr ([], [], [], []))
    | Some g \<Rightarrow> do {
        d \<leftarrow> loadTopologyFromConfigMap (lib_profiles L) E (getProfilesNamespace C) (wg_TopologyRef g);
        case d of
          Inl err \<Rightarrow> State_Monad.return (Inl (ApiErr '''' err))
        | Inr deps \<Rightarrow> do {
            l \<leftarrow> list_gd E (lenient_selector E pol);
            State_Monad.return (case l of
              Inl err \<Rightarrow> Inl (ApiErr '''' err)
            | Inr gds \<Rightarrow> Inr (deps, replica_services svc gds rks, node_regions ncs, pd_RegionLatencyMs profiles))
          }
      })"

subsection \<open>The placement problem\<close>

record eval_inputs =
  ei_Replicas :: "ReplicaKey list"
  ei_Current :: placement
  ei_Candidates :: "ClusterNodeID list"
  ei_Nodes :: "NodeContext list"
  ei_Requests :: "(ReplicaKey, ResourceQuantity) gomap"
  ei_Goals :: "WeightedGoal list"
  ei_Profiles :: profilesData
  ei_Comm :: comm_data

text \<open>The steps after the node contexts.\<close>

definition gather_rest ::
  "policy_lib \<Rightarrow> policy_cfg \<Rightarrow> env \<Rightarrow> ((string, NamespacedName) gomap \<Rightarrow> ReplicaKey \<Rightarrow> NamespacedName) \<Rightarrow> OptimizationPolicy
     \<Rightarrow> ClusterNodeID list \<Rightarrow> NodeContext list \<Rightarrow> (eval_err + eval_inputs) io" where
  "gather_rest L C E svc pol cands ncs =
    (let layout = pol_CurrentLayout (pol_Status pol); rks = stable_replicas layout; cur = stable_placement layout;
         goals = weighted_goals (pol_OptimizationGoals (pol_Spec pol)) in do {
       l \<leftarrow> list_gd E (lenient_selector E pol);
       case l of
         Inl err \<Rightarrow> State_Monad.return (Inl (ApiErr '''' err))
       | Inr gds \<Rightarrow> do {
           pr \<leftarrow> loadProfilesFromConfigMaps (lib_profiles L) E (getProfilesNamespace C);
           case pr of
             Inl err \<Rightarrow> State_Monad.return (Inl (ApiErr '''' err))
           | Inr profiles \<Rightarrow> do {
               cd \<leftarrow> communication_data L C E svc pol rks ncs goals profiles;
               State_Monad.return (case cd of
                 Inl err \<Rightarrow> Inl err
               | Inr cd \<Rightarrow> Inr \<lparr>ei_Replicas = rks, ei_Current = cur, ei_Candidates = cands, ei_Nodes = ncs,
                   ei_Requests = replica_requests (template_requests L E gds) rks, ei_Goals = goals,
                   ei_Profiles = profiles, ei_Comm = cd\<rparr>)
             }
         }
     })"

definition gather ::
  "policy_lib \<Rightarrow> policy_cfg \<Rightarrow> env \<Rightarrow> ((string, NamespacedName) gomap \<Rightarrow> ReplicaKey \<Rightarrow> NamespacedName) \<Rightarrow> OptimizationPolicy
     \<Rightarrow> (eval_err + eval_inputs) io" where
  "gather L C E svc pol = do {
     cands \<leftarrow> candidate_nodes E (stable_placement (pol_CurrentLayout (pol_Status pol)));
     case cands of
       Inl err \<Rightarrow> State_Monad.return (Inl err)
     | Inr cands \<Rightarrow> do {
         ncs \<leftarrow> buildNodeContexts L C E cands;
         case ncs of
           Inl err \<Rightarrow> State_Monad.return (Inl err)
         | Inr ncs \<Rightarrow> gather_rest L C E svc pol cands ncs
       }
   }"

definition problem_of :: "eval_inputs \<Rightarrow> Problem" where
  "problem_of i = (case ei_Comm i of (deps, svcs, regs, lat) \<Rightarrow>
    \<lparr>StableReplicas = ei_Replicas i, CandidateNodes = ei_Candidates i, p_CurrentPlacement = Some (ei_Current i),
     NodeContexts = ei_Nodes i, p_ReplicaRequests = Some (ei_Requests i), NodeCapacities = node_capacities (ei_Nodes i),
     p_Objective = Some \<lparr>po_Goals = ei_Goals i, po_InstancePrice = pd_InstancePrice (ei_Profiles i),
       po_CityRegionLatencyMs = pd_CityRegionLatencyMs (ei_Profiles i), po_Dependencies = deps, po_RegionLatencyMs = lat,
       po_ReplicaService = svcs, po_NodeRegion = regs, po_InstancePower = pd_InstancePower (ei_Profiles i)\<rparr>,
     MaximumVariables = 0, RequireCPU = True, RequireMemory = True\<rparr>)"

text \<open>The inputs of the scoring pipeline, for the goals \<open>goals\<close>.\<close>

definition scoring_inputs :: "eval_inputs \<Rightarrow> WeightedGoal list \<Rightarrow> ObjectiveInputs" where
  "scoring_inputs i goals = (case ei_Comm i of (deps, svcs, regs, lat) \<Rightarrow>
    \<lparr>Goals = goals,
     Ctx = \<lparr>Replicas = ei_Replicas i, Nodes = ei_Nodes i, ReplicaRequests = Some (ei_Requests i), CurrentPlacement = ei_Current i\<rparr>,
     oi_InstancePrice = pd_InstancePrice (ei_Profiles i), CityRegionLatencyMs = pd_CityRegionLatencyMs (ei_Profiles i),
     oi_Dependencies = deps, oi_RegionLatencyMs = lat, oi_ReplicaService = svcs, oi_NodeRegion = regs,
     oi_InstancePower = pd_InstancePower (ei_Profiles i)\<rparr>)"

definition solve_at :: "policy_lib \<Rightarrow> policy_cfg \<Rightarrow> history \<Rightarrow> OptimizationPolicy \<Rightarrow> Problem \<Rightarrow> placement result" where
  "solve_at L C h pol p =
    (case SolveProblem (lib_opt_text L) (Some (lib_solver L h)) p
        \<lparr>Timeout = (if cfg_SolverTimeout C > 0 then cfg_SolverTimeout C else 0)\<rparr> of
       Inl e \<Rightarrow> if e = SolverNotImplemented then Inr (stable_placement (pol_CurrentLayout (pol_Status pol))) else Inl e
     | Inr None \<Rightarrow> Inr []
     | Inr (Some res) \<Rightarrow> Inr (Assignment res))"

definition solvePlacement :: "policy_lib \<Rightarrow> policy_cfg \<Rightarrow> OptimizationPolicy \<Rightarrow> Problem \<Rightarrow> placement result io" where
  "solvePlacement L C pol p = State (\<lambda>w. (solve_at L C (hist w) pol p, w))"

subsection \<open>The expected improvement\<close>

definition improvement_pct :: "PlanMetrics \<Rightarrow> f64" where
  "improvement_pct m =
    (let delta = fsub (CurrentScore m) (ExpectedScore m) in
     if fle delta f0 then f0
     else fmax f0 (fmul (fdiv delta (fmax (fabs (CurrentScore m)) (to_f64 (1 / 1000000000)))) f100))"

definition computeImprovementPct :: "policy_lib \<Rightarrow> policy_cfg \<Rightarrow> env \<Rightarrow> OptimizationPolicy \<Rightarrow> (eval_err + f64) io" where
  "computeImprovementPct L C E pol =
    (if pol_CurrentLayout (pol_Status pol) = [] then State_Monad.return (Inr f0)
     else if stable_replicas (pol_CurrentLayout (pol_Status pol)) = [] then State_Monad.return (Inr f0)
     else do {
       g \<leftarrow> gather L C E improvement_service pol;
       case g of
         Inl err \<Rightarrow> State_Monad.return (Inl err)
       | Inr i \<Rightarrow> do {
           a \<leftarrow> solvePlacement L C pol (problem_of i);
           State_Monad.return (case a of
             Inl e \<Rightarrow> Inl (OptErr e)
           | Inr assignment \<Rightarrow>
               (case ComputePlanFromGoals (scoring_inputs i (ei_Goals i)) assignment of
                  Inl e \<Rightarrow> Inl (OptErr e)
                | Inr (metrics, _) \<Rightarrow> Inr (improvement_pct metrics)))
         }
     })"

subsection \<open>The plan\<close>

definition empty_plan_status :: ReOrchestrationPlanStatus where
  "empty_plan_status = \<lparr>plan_Phase = PlanPhaseNone, plan_Summary = zero_summary, plan_StartTime = None,
     plan_CompletionTime = None, plan_MoveStatuses = [], plan_Conditions = []\<rparr>"

definition new_plan :: "env \<Rightarrow> OptimizationPolicy \<Rightarrow> string \<Rightarrow> f64 \<Rightarrow> string \<Rightarrow> ReOrchestrationPlan" where
  "new_plan E pol suffix improvementPct improvementSource =
    \<lparr>plan_Meta = \<lparr>om_Name = om_Name (pol_Meta pol) @ ''-'' @ suffix, om_Namespace = om_Namespace (pol_Meta pol), om_UID = '''',
       om_ResourceVersion = '''', om_Generation = 0, om_CreationTimestamp = zero_time,
       om_Labels = [(''kubex.io/policy'', om_Name (pol_Meta pol))],
       om_Annotations = [(''kubex.io/strategy'', pol_Strategy (pol_Spec pol)),
         (''kubex.io/debug-improvement-percent'', env_format_g E improvementPct),
         (''kubex.io/improvementPctSource'', improvementSource)],
       om_DeletionTimestamp = None, om_Finalizers = [], om_OwnerReferences = []\<rparr>,
     plan_Spec = \<lparr>plan_SpecSummary = bare_summary (om_Name (pol_Meta pol)), plan_Moves = []\<rparr>,
     plan_Status = empty_plan_status\<rparr>"

definition with_summary :: "int32 \<Rightarrow> f64 \<Rightarrow> f64 \<Rightarrow> f64 \<Rightarrow> ReOrchestrationPlan \<Rightarrow> ReOrchestrationPlan" where
  "with_summary pods cur ex impr plan = plan\<lparr>plan_Spec := (plan_Spec plan)\<lparr>plan_SpecSummary :=
     (plan_SpecSummary (plan_Spec plan))\<lparr>sum_PodsToMove := Some pods, sum_CurrentScore := Some cur,
       sum_ExpectedScore := Some ex, sum_EstimatedImprovementScore := Some impr\<rparr>\<rparr>\<rparr>"

definition display_name :: "string \<Rightarrow> api_err + Cluster \<Rightarrow> string" where
  "display_name clusterID g = (case g of
      Inl _ \<Rightarrow> clusterID
    | Inr c \<Rightarrow>
        (let v = trim_space (mget0 '''' (om_Annotations (cl_Meta c)) ''kubex.io/name'') in
         if v \<noteq> '''' then v else if om_Name (cl_Meta c) \<noteq> '''' then om_Name (cl_Meta c) else clusterID))"

definition getClusterName ::
  "policy_cfg \<Rightarrow> env \<Rightarrow> string \<Rightarrow> (string, string) gomap \<Rightarrow> (string \<times> (string, string) gomap) io" where
  "getClusterName C E clusterID names = (case mget names clusterID of
      Some n \<Rightarrow> State_Monad.return (n, names)
    | None \<Rightarrow> do {
        g \<leftarrow> get_cluster E \<lparr>key_Name = clusterID, key_Namespace = cfg_ControlNamespace C\<rparr>;
        State_Monad.return (display_name clusterID g, mput clusterID (display_name clusterID g) names)
      })"

definition plan_move :: "ReplicaKey \<Rightarrow> ClusterNodeID \<Rightarrow> string \<Rightarrow> ClusterNodeID \<Rightarrow> string \<Rightarrow> PlanMove" where
  "plan_move rkey src srcName dst dstName =
    \<lparr>mv_GlobalDeploymentRef = \<lparr>ref_Name = rk_Name rkey, ref_Namespace = rk_Namespace rkey\<rparr>,
     mv_ReplicaIndex = rk_ReplicaIndex rkey,
     mv_Source = \<lparr>ml_ClusterID = ClusterID src, ml_ClusterName = srcName, ml_NodeName = NodeName src\<rparr>,
     mv_Destination = \<lparr>ml_ClusterID = ClusterID dst, ml_ClusterName = dstName, ml_NodeName = NodeName dst\<rparr>\<rparr>"

definition move_step ::
  "policy_cfg \<Rightarrow> env \<Rightarrow> placement \<Rightarrow> placement \<Rightarrow> ReplicaKey \<Rightarrow> PlanMove list \<times> (string, string) gomap
     \<Rightarrow> (eval_err + PlanMove list \<times> (string, string) gomap) io" where
  "move_step C E cur assignment rkey s = (case s of (moves, names) \<Rightarrow>
     (case mget cur rkey of
        None \<Rightarrow> State_Monad.return (Inr s)
      | Some src \<Rightarrow>
          (case mget assignment rkey of
             None \<Rightarrow> State_Monad.return (Inr s)
           | Some dst \<Rightarrow>
               if src = dst then State_Monad.return (Inr s)
               else do {
                 (srcName, names) \<leftarrow> getClusterName C E (ClusterID src) names;
                 (dstName, names) \<leftarrow> getClusterName C E (ClusterID dst) names;
                 State_Monad.return (Inr (moves @ [plan_move rkey src srcName dst dstName], names))
               })))"

definition readable_summary :: "GoalHumanReadableMetric result \<Rightarrow> GoalHumanReadableSummary option" where
  "readable_summary r = (case r of
      Inl _ \<Rightarrow> None
    | Inr h \<Rightarrow> Some \<lparr>hs_Kind = Kind h, hs_Unit = Unit h, hs_From = From h, hs_To = To h, hs_Delta = Delta h, hs_Detail = Detail h\<rparr>)"

definition goal_summary_step ::
  "eval_inputs \<Rightarrow> placement \<Rightarrow> WeightedGoal \<Rightarrow> (string, GoalScoreSummary) gomap \<Rightarrow> (string, GoalScoreSummary) gomap result" where
  "goal_summary_step i assignment g goalScores =
    (if feq (wg_Weight g) f0 then Inr goalScores
     else rbind (ComputePlanForSingleGoal (scoring_inputs i []) g assignment) (\<lambda>(m, _).
       Inr (mput (wg_Type g) \<lparr>gs_Weight = Some (wg_Weight g), gs_CurrentScore = Some (CurrentScore m),
         gs_ExpectedScore = Some (ExpectedScore m), gs_EstimatedImprovementScore = Some (EstimatedImprovement m),
         gs_HumanReadable = readable_summary (ComputeHumanReadableMetric (scoring_inputs i []) g assignment)\<rparr> goalScores)))"

definition summarise :: "eval_inputs \<Rightarrow> placement \<Rightarrow> ReOrchestrationPlan \<Rightarrow> ReOrchestrationPlan result" where
  "summarise i assignment plan =
    (if ei_Goals i = [] then Inr plan
     else rbind (ComputePlanFromGoals (scoring_inputs i (ei_Goals i)) assignment) (\<lambda>(m, _).
       let plan = with_summary (PodsToMove m) (CurrentScore m) (ExpectedScore m) (EstimatedImprovement m) plan in
       rbind (fold_r (goal_summary_step i assignment) (ei_Goals i) []) (\<lambda>goalScores.
         Inr (if goalScores = [] then plan
              else plan\<lparr>plan_Spec := (plan_Spec plan)\<lparr>plan_SpecSummary :=
                (plan_SpecSummary (plan_Spec plan))\<lparr>sum_GoalScores := goalScores\<rparr>\<rparr>\<rparr>))))"

definition with_moves :: "PlanMove list \<Rightarrow> ReOrchestrationPlan \<Rightarrow> ReOrchestrationPlan" where
  "with_moves moves plan = plan\<lparr>plan_Spec := (plan_Spec plan)\<lparr>plan_Moves := moves\<rparr>\<rparr>"

text \<open>The moves and the summary for an assignment. \<open>Inl r\<close> returns \<open>r\<close> from the evaluation.\<close>

definition plan_assignment ::
  "policy_cfg \<Rightarrow> env \<Rightarrow> eval_inputs \<Rightarrow> placement \<Rightarrow> ReOrchestrationPlan \<Rightarrow> (eval_err option + ReOrchestrationPlan) io" where
  "plan_assignment C E i assignment plan = do {
     m \<leftarrow> io_fold (move_step C E (ei_Current i) assignment) (ei_Replicas i) ([], []);
     State_Monad.return (case m of
       Inl err \<Rightarrow> Inl (Some err)
     | Inr (moves, _) \<Rightarrow>
         (case summarise i assignment (with_moves moves plan) of Inl e \<Rightarrow> Inl (Some (OptErr e)) | Inr plan \<Rightarrow> Inr plan))
   }"

text \<open>The text is UTF-8; \<open>utf8\<close> spells out the bytes of its Chinese parts.\<close>

definition utf8 :: "nat list \<Rightarrow> string" where
  "utf8 = map char_of"

definition too_many_message :: "int \<Rightarrow> int \<Rightarrow> string" where
  "too_many_message v l =
    ''ILP '' @ utf8 [0xE5, 0x8F, 0x98, 0xE9, 0x87, 0x8F, 0xE8, 0xA7, 0x84, 0xE6, 0xA8, 0xA1, 0xE8, 0xB6, 0x85, 0xE9, 0x99, 0x90,
      0xEF, 0xBC, 0x9A] @ ''variables='' @ itoa v @ '' limit='' @ itoa l @
    utf8 [0xEF, 0xBC, 0x9B, 0xE8, 0xAF, 0xB7, 0xE7, 0xBC, 0xA9, 0xE5, 0xB0, 0x8F, 0xE7, 0x9B, 0xAE, 0xE6, 0xA0, 0x87, 0xE8, 0x8C,
      0x83, 0xE5, 0x9B, 0xB4, 0xEF, 0xBC, 0x88, 0xE6, 0x9B, 0xB4, 0xE5, 0xB0, 0x91] @ '' replicas / nodes'' @
    utf8 [0xEF, 0xBC, 0x89, 0xE6, 0x88, 0x96, 0xE6, 0x8F, 0x90, 0xE5, 0x8D, 0x87, 0xE4, 0xB8, 0x8A, 0xE9, 0x99, 0x90]"

definition with_condition :: "env \<Rightarrow> Condition \<Rightarrow> OptimizationPolicy \<Rightarrow> OptimizationPolicy" where
  "with_condition E cond pol = pol\<lparr>pol_Status := (pol_Status pol)\<lparr>pol_Conditions :=
     env_set_condition E cond (pol_Conditions (pol_Status pol))\<rparr>\<rparr>"

definition report_too_many :: "env \<Rightarrow> OptimizationPolicy \<Rightarrow> int \<Rightarrow> int \<Rightarrow> eval_err option io" where
  "report_too_many E pol v l = do {
     t \<leftarrow> now E;
     let msg = too_many_message v l;
     let pol = with_condition E (policy_condition pol t ''RebalanceSucceeded'' False ''TooManyVariables'' msg) pol;
     _ \<leftarrow> call (RecordEvent ''TooManyVariables'' msg) (\<lambda>_. ());
     r \<leftarrow> call (StatusUpdatePolicy pol) (\<lambda>h. env_write_policy E h (StatusUpdatePolicy pol));
     State_Monad.return (case r of Inl err \<Rightarrow> Some (ApiErr '''' err) | Inr _ \<Rightarrow> None)
   }"

definition solve_and_plan ::
  "policy_lib \<Rightarrow> policy_cfg \<Rightarrow> env \<Rightarrow> OptimizationPolicy \<Rightarrow> ReOrchestrationPlan \<Rightarrow> eval_inputs
     \<Rightarrow> (eval_err option + ReOrchestrationPlan) io" where
  "solve_and_plan L C E pol plan i = do {
     a \<leftarrow> solvePlacement L C pol (problem_of i);
     case a of
       Inr assignment \<Rightarrow> plan_assignment C E i assignment plan
     | Inl e \<Rightarrow> (case e of
         TooManyVariables v l \<Rightarrow> do { r \<leftarrow> report_too_many E pol v l; State_Monad.return (Inl r) }
       | SolverNotImplemented \<Rightarrow> plan_assignment C E i (ei_Current i) plan
       | _ \<Rightarrow> State_Monad.return (Inl (Some (OptErr e))))
   }"

definition optimise ::
  "policy_lib \<Rightarrow> policy_cfg \<Rightarrow> env \<Rightarrow> OptimizationPolicy \<Rightarrow> ReOrchestrationPlan \<Rightarrow> (eval_err option + ReOrchestrationPlan) io" where
  "optimise L C E pol plan =
    (if pol_CurrentLayout (pol_Status pol) = [] then State_Monad.return (Inr plan)
     else if stable_replicas (pol_CurrentLayout (pol_Status pol)) = [] then State_Monad.return (Inr plan)
     else do {
       g \<leftarrow> gather L C E evaluate_service pol;
       case g of
         Inl err \<Rightarrow> State_Monad.return (Inl (Some err))
       | Inr i \<Rightarrow> solve_and_plan L C E pol plan i
     })"

subsection \<open>Threshold and persistence\<close>

definition below_threshold :: "OptimizationPolicy \<Rightarrow> f64 \<Rightarrow> bool" where
  "below_threshold pol improvementPct \<longleftrightarrow> pol_Strategy (pol_Spec pol) = ''Conservative'' \<and>
     flt improvementPct (of_int64 (pol_ImprovementThresholdPercent (pol_Spec pol)))"

definition annotate :: "string \<Rightarrow> string \<Rightarrow> ReOrchestrationPlan \<Rightarrow> ReOrchestrationPlan" where
  "annotate k v plan = plan\<lparr>plan_Meta := (plan_Meta plan)\<lparr>om_Annotations := mput k v (om_Annotations (plan_Meta plan))\<rparr>\<rparr>"

definition threshold_notes :: "env \<Rightarrow> OptimizationPolicy \<Rightarrow> ReOrchestrationPlan \<Rightarrow> ReOrchestrationPlan" where
  "threshold_notes E pol plan =
    annotate ''kubex.io/improvementThresholdPercent'' (env_format_g E (of_int64 (pol_ImprovementThresholdPercent (pol_Spec pol))))
     (annotate ''kubex.io/notExecutedReason'' ''ImprovementBelowThreshold''
      (annotate ''kubex.io/notExecuted'' ''improvement below threshold'' plan))"

definition not_executed :: "policy_lib \<Rightarrow> OptimizationPolicy \<Rightarrow> f64 \<Rightarrow> time \<Rightarrow> Condition" where
  "not_executed L pol improvementPct t =
    \<lparr>cond_Type = ''NotExecuted'', cond_Status = True, cond_Reason = ''ImprovementBelowThreshold'',
     cond_Message = ''NotExecuted: improvement below threshold (got '' @ lib_format_4g L improvementPct @ ''%, threshold '' @
       lib_format_4g L (of_int64 (pol_ImprovementThresholdPercent (pol_Spec pol))) @ ''%)'',
     cond_ObservedGeneration = 0, cond_LastTransitionTime = Some t\<rparr>"

definition initial_status :: "policy_lib \<Rightarrow> OptimizationPolicy \<Rightarrow> f64 \<Rightarrow> time \<Rightarrow> ReOrchestrationPlanStatus" where
  "initial_status L pol improvementPct t = empty_plan_status\<lparr>plan_Phase := PlanPending,
     plan_Conditions := (if below_threshold pol improvementPct then [not_executed L pol improvementPct t] else [])\<rparr>"

definition record_success :: "env \<Rightarrow> OptimizationPolicy \<Rightarrow> ReOrchestrationPlan \<Rightarrow> eval_err option io" where
  "record_success E pol plan = do {
     t \<leftarrow> now E;
     let ns = om_Namespace (plan_Meta plan);
     let n = om_Name (plan_Meta plan);
     let new = with_condition E (policy_condition pol t ''RebalanceSucceeded'' True ''PlanCreated''
           (''created plan '' @ ns @ ''/'' @ n))
         (pol\<lparr>pol_Status := (pol_Status pol)\<lparr>pol_LatestPlanRef := Some \<lparr>ref_Name = n, ref_Namespace = ns\<rparr>\<rparr>\<rparr>);
     (err, _) \<leftarrow> patch_policy E pol new;
     State_Monad.return (map_option (ApiErr '''') err)
   }"

definition persist_plan ::
  "env \<Rightarrow> OptimizationPolicy \<Rightarrow> ReOrchestrationPlan \<Rightarrow> ReOrchestrationPlanStatus \<Rightarrow> eval_err option io" where
  "persist_plan E pol plan status = do {
     c \<leftarrow> write_plan E (CreatePlan plan);
     case (case c of Inl err \<Rightarrow> if IsAlreadyExists err then Inr plan else Inl err | Inr stored \<Rightarrow> Inr stored) of
       Inl err \<Rightarrow> State_Monad.return (Some (ApiErr '''' err))
     | Inr plan \<Rightarrow> do {
         s \<leftarrow> write_plan E (StatusPatchPlan plan (plan\<lparr>plan_Status := status\<rparr>));
         case s of
           Inl err \<Rightarrow> State_Monad.return (Some (ApiErr '''' err))
         | Inr plan \<Rightarrow> record_success E pol plan
       }
   }"

subsection \<open>The evaluation\<close>

definition random_suffix :: "env \<Rightarrow> string io" where
  "random_suffix E = State (\<lambda>w. (env_rand E (hist w), w))"

definition override_improvement :: "env \<Rightarrow> OptimizationPolicy \<Rightarrow> f64 \<times> string \<Rightarrow> f64 \<times> string" where
  "override_improvement E pol s = (case mget (om_Annotations (pol_Meta pol)) ''kubex.io/debug-improvement-percent'' of
      None \<Rightarrow> s
    | Some v \<Rightarrow> (case env_parse_float E v of None \<Rightarrow> s | Some p \<Rightarrow> (p, ''annotation'')))"

definition finish_evaluation :: "policy_lib \<Rightarrow> env \<Rightarrow> OptimizationPolicy \<Rightarrow> f64 \<Rightarrow> ReOrchestrationPlan \<Rightarrow> eval_err option io" where
  "finish_evaluation L E pol improvementPct plan = do {
     t \<leftarrow> now E;
     persist_plan E pol (if below_threshold pol improvementPct then threshold_notes E pol plan else plan)
       (initial_status L pol improvementPct t)
   }"

definition create_plan :: "policy_lib \<Rightarrow> policy_cfg \<Rightarrow> env \<Rightarrow> OptimizationPolicy \<Rightarrow> f64 \<times> string \<Rightarrow> eval_err option io" where
  "create_plan L C E pol improvement = (case override_improvement E pol improvement of (improvementPct, improvementSource) \<Rightarrow> do {
     suffix \<leftarrow> random_suffix E;
     case env_own_plan E pol (new_plan E pol suffix improvementPct improvementSource) of
       Inl err \<Rightarrow> State_Monad.return (Some (ApiErr '''' err))
     | Inr plan \<Rightarrow> do {
         _ \<leftarrow> call PlansCreatedInc (\<lambda>_. ());
         opt \<leftarrow> optimise L C E pol (with_summary 0 f0 f0 f0 plan);
         case opt of Inl r \<Rightarrow> State_Monad.return r | Inr plan \<Rightarrow> finish_evaluation L E pol improvementPct plan
       }
   })"

definition report_solver_failure :: "policy_lib \<Rightarrow> policy_cfg \<Rightarrow> env \<Rightarrow> OptimizationPolicy \<Rightarrow> eval_err \<Rightarrow> eval_err option io" where
  "report_solver_failure L C E pol err = do {
     let (reason, msg) = (if is_deadline L err then (''SolverTimeout'', ''solver timed out'') else (''SolverError'', eval_text L err));
     t \<leftarrow> now E;
     _ \<leftarrow> setStatusPhaseAndCondition E pol (pol_Phase (pol_Status pol))
        (policy_condition pol t ''RebalanceSucceeded'' False reason msg);
     _ \<leftarrow> record_event C reason msg;
     State_Monad.return (Some err)
   }"

definition evaluate_active :: "policy_lib \<Rightarrow> policy_cfg \<Rightarrow> env \<Rightarrow> OptimizationPolicy \<Rightarrow> eval_err option io" where
  "evaluate_active L C E pol = do {
     _ \<leftarrow> call ActivePolicySet (\<lambda>_. ());
     i \<leftarrow> computeImprovementPct L C E pol;
     r \<leftarrow> (case i of
        Inr improvementPct \<Rightarrow> create_plan L C E pol (improvementPct, ''summary'')
      | Inl err \<Rightarrow> if err = OptErr SolverNotImplemented then create_plan L C E pol (f0, ''solver-disabled'')
                  else report_solver_failure L C E pol err);
     _ \<leftarrow> call CalculationObserve (\<lambda>_. ());
     State_Monad.return r
   }"

definition dedupWindow :: int where
  "dedupWindow = 60 * Second"

definition just_evaluated :: "time \<Rightarrow> OptimizationPolicy \<Rightarrow> bool" where
  "just_evaluated t pol = (case pol_LastEvaluationTime (pol_Status pol) of
      None \<Rightarrow> False
    | Some l \<Rightarrow> 0 \<le> sat64 (t - l) \<and> sat64 (t - l) < dedupWindow)"

definition evaluate_policy :: "policy_lib \<Rightarrow> policy_cfg \<Rightarrow> env \<Rightarrow> nskey \<Rightarrow> eval_err option io" where
  "evaluate_policy L C E key = do {
     g \<leftarrow> get_policy E key;
     case g of
       Inl err \<Rightarrow> State_Monad.return (map_option (ApiErr '''') (ignore_not_found err))
     | Inr pol \<Rightarrow> do {
         t \<leftarrow> now E;
         (_, pol) \<leftarrow> patch_policy E pol (pol\<lparr>pol_Status := (pol_Status pol)\<lparr>pol_LastEvaluationTime := Some t\<rparr>\<rparr>);
         if pol_Phase (pol_Status pol) \<noteq> PolicyActive then State_Monad.return None
         else evaluate_active L C E pol
       }
   }"

definition defaultEvaluate :: "policy_lib \<Rightarrow> policy_cfg \<Rightarrow> env \<Rightarrow> nskey \<Rightarrow> eval_err option io" where
  "defaultEvaluate L C E key = do {
     g \<leftarrow> get_policy E key;
     t \<leftarrow> now E;
     if (case g of Inl _ \<Rightarrow> False | Inr cur \<Rightarrow> just_evaluated t cur) then State_Monad.return None
     else evaluate_policy L C E key
   }"

subsection \<open>The client cache of the policy controller\<close>

lemma swap_caches_simps [simp]:
  "hist (swap_caches w) = hist w" "policy_clients (swap_caches w) = clients w" "clients (swap_caches w) = policy_clients w"
  "swap_caches (swap_caches w) = w"
  by (simp_all add: swap_caches_def)

lemma wp_with_policy_cache: "wp (with_policy_cache m) Q w = wp m (\<lambda>x w'. Q x (swap_caches w')) (swap_caches w)"
  by (simp add: wp_def with_policy_cache_def split: prod.split)

lemma guar_with_policy_cache [guar_intros]: "guar G m \<Longrightarrow> guar G (with_policy_cache m)"
  unfolding guar_wp wp_with_policy_cache by (metis (no_types, lifting) swap_caches_simps(1) wp_mono)

definition policy_cache_ok :: "world \<Rightarrow> bool" where
  "policy_cache_ok w \<longleftrightarrow> clients_ok (policy_clients w)"

lemma policy_cache_ok_hist [simp]: "policy_cache_ok (w\<lparr>hist := h\<rparr>) = policy_cache_ok w"
  by (simp add: policy_cache_ok_def)

interpretation own: client_provider "\<lambda>ns c. with_policy_cache (GetOrBuild E ns c)" policy_cache_ok for E
proof
  show "guar (\<lambda>_. client_read) (with_policy_cache (GetOrBuild E ns c))" for ns c
    by (intro guar_intros cache.get_reads)
  show "wp (with_policy_cache (GetOrBuild E ns c)) (\<lambda>r w'. policy_cache_ok w' \<and> (\<forall>cs. r = Inr cs \<longrightarrow> cs_Cluster cs = c)) w"
    if "policy_cache_ok w" for w ns c
    using cache.get_client [of "swap_caches w" E ns c] that
    by (simp add: wp_with_policy_cache policy_cache_ok_def cache_ok_def)
  show "wp (with_policy_cache (GetOrBuild E ns c))
      (\<lambda>r w'. \<forall>cs. r = Inr cs \<longrightarrow> run_state (with_policy_cache (GetOrBuild E ns' c)) w' = (Inr cs, w')) w"
    if "ns' \<noteq> ''''" for ns ns' c w
    unfolding wp_with_policy_cache
    by (rule wp_mono [OF cache.get_again [OF that, of E ns c]]) (simp add: with_policy_cache_def)
qed

subsection \<open>What the inputs are\<close>

fun eval_read :: "event \<Rightarrow> bool" where
  "eval_read ListClusters = True"
| "eval_read (NodeGet _ _) = True"
| "eval_read (ListGD _) = True"
| "eval_read (GetConfigMap _) = True"
| "eval_read e = client_read e"

lemma client_read_eval_read: "client_read e \<Longrightarrow> eval_read e"
  by (cases e) auto

text \<open>The call \<open>e\<close> was made in the history \<open>H\<close>, right after \<open>h\<close> and not before \<open>h0\<close>.\<close>

definition made :: "history \<Rightarrow> history \<Rightarrow> history \<Rightarrow> event \<Rightarrow> bool" where
  "made h0 H h e \<longleftrightarrow> extends h0 h \<and> (\<exists>post. H = h @ e # post)"

lemma made_ext: "made h0 H h e \<Longrightarrow> made h0 (H @ es) h e"
  by (auto simp: made_def)

lemma made_snoc [simp]: "extends h0 h \<Longrightarrow> made h0 (h @ [e]) h e"
  by (simp add: made_def)

text \<open>The node context was made of the node that the cluster's API server returned in \<open>H\<close> since \<open>h0\<close>.\<close>

definition node_read :: "policy_lib \<Rightarrow> env \<Rightarrow> history \<Rightarrow> history \<Rightarrow> ClusterNodeID \<Rightarrow> NodeContext \<Rightarrow> bool" where
  "node_read L E h0 H i nc \<longleftrightarrow> (\<exists>h cs n. cs_Cluster cs = ClusterID i \<and> made h0 H h (NodeGet cs (NodeName i)) \<and>
     env_node E h cs (NodeName i) = Inr n \<and> nc = node_context L i n)"

lemma node_read_ext: "node_read L E h0 H i nc \<Longrightarrow> node_read L E h0 (H @ es) i nc"
  unfolding node_read_def using made_ext by blast

lemma nodes_read_ext: "list_all2 (node_read L E h0 H) is ncs \<Longrightarrow> list_all2 (node_read L E h0 (H @ es)) is ncs"
  by (erule list_all2_mono) (rule node_read_ext)

definition candidates_at :: "env \<Rightarrow> history \<Rightarrow> placement \<Rightarrow> ClusterNodeID list option" where
  "candidates_at E h cur = (case env_list_clusters E h of
      Inl _ \<Rightarrow> None
    | Inr clusters \<Rightarrow> Some (if concat (map cluster_candidates clusters) = [] then fallback_nodes cur
        else concat (map cluster_candidates clusters)))"

text \<open>
  The inputs were gathered in \<open>H\<close> since \<open>h0\<close>: the candidates come from an answer to a list of the clusters, the nodes from
  answers of their clusters, and the requests from the templates of the deployments that a list with the policy's
  selector answered.
\<close>

definition gathered :: "policy_lib \<Rightarrow> env \<Rightarrow> history \<Rightarrow> history \<Rightarrow> OptimizationPolicy \<Rightarrow> eval_inputs \<Rightarrow> bool" where
  "gathered L E h0 H pol i \<longleftrightarrow>
    ei_Replicas i = stable_replicas (pol_CurrentLayout (pol_Status pol)) \<and>
    ei_Current i = stable_placement (pol_CurrentLayout (pol_Status pol)) \<and>
    ei_Goals i = weighted_goals (pol_OptimizationGoals (pol_Spec pol)) \<and>
    (\<exists>h. made h0 H h ListClusters \<and> candidates_at E h (ei_Current i) = Some (ei_Candidates i)) \<and>
    list_all2 (node_read L E h0 H) (ei_Candidates i) (ei_Nodes i) \<and>
    (\<exists>h gds. made h0 H h (ListGD (lenient_selector E pol)) \<and> env_list_gd E h (lenient_selector E pol) = Inr gds \<and>
       ei_Requests i = replica_requests (template_requests L E gds) (ei_Replicas i))"

lemma gathered_ext: "gathered L E h0 H pol i \<Longrightarrow> gathered L E h0 (H @ es) pol i"
  unfolding gathered_def using made_ext nodes_read_ext by meson

lemma member_client_reads [guar_intros]: "guar (\<lambda>_. eval_read) (policy_member_client C E c)"
  unfolding policy_member_client_def by (rule own.get_guar) (rule client_read_eval_read)

lemma member_client_wp:
  assumes "policy_cache_ok w" and "\<And>err w'. policy_cache_ok w' \<Longrightarrow> ok (\<lambda>_. eval_read) (hist w) (hist w') \<Longrightarrow> Q (Inl err) w'"
    and "\<And>cs w'. policy_cache_ok w' \<Longrightarrow> ok (\<lambda>_. eval_read) (hist w) (hist w') \<Longrightarrow> cs_Cluster cs = c \<Longrightarrow> Q (Inr cs) w'"
  shows "wp (policy_member_client C E c) Q w"
proof -
  have "wp (policy_member_client C E c) (\<lambda>r w'. policy_cache_ok w' \<and> (\<forall>cs. r = Inr cs \<longrightarrow> cs_Cluster cs = c)) w"
    unfolding policy_member_client_def by (rule own.get_wp) (use assms(1) in auto)
  moreover have "wp (policy_member_client C E c) (\<lambda>_ w'. ok (\<lambda>_. eval_read) (hist w) (hist w')) w"
    using member_client_reads by (simp add: guar_wp)
  ultimately have "wp (policy_member_client C E c) (\<lambda>r w'. (policy_cache_ok w' \<and> (\<forall>cs. r = Inr cs \<longrightarrow> cs_Cluster cs = c)) \<and>
      ok (\<lambda>_. eval_read) (hist w) (hist w')) w" unfolding wp_conj by blast
  then show ?thesis
  proof (rule wp_mono)
    fix r :: "api_err + Clientset" and w'
    assume r: "(policy_cache_ok w' \<and> (\<forall>cs. r = Inr cs \<longrightarrow> cs_Cluster cs = c)) \<and> ok (\<lambda>_. eval_read) (hist w) (hist w')"
    then show "Q r w'" using assms(2,3) by (cases r) auto
  qed
qed

text \<open>What a step leaves behind: the cache in order, a longer history, and \<open>P\<close> of the history and the result.\<close>

definition steps :: "world \<Rightarrow> (history \<Rightarrow> 'a \<Rightarrow> bool) \<Rightarrow> 'a \<Rightarrow> world \<Rightarrow> bool" where
  "steps w P r w' \<longleftrightarrow> policy_cache_ok w' \<and> (\<exists>es. hist w' = hist w @ es) \<and> P (hist w') r"

lemma context_step_wp:
  assumes "policy_cache_ok w" and since: "extends h0 (hist w)"
  shows "wp (context_step L C E i out) (steps w (\<lambda>H r. \<forall>s. r = Inr s \<longrightarrow> (\<exists>nc. node_read L E h0 H i nc \<and> s = out @ [nc]))) w"
proof (cases "ClusterID i = [] \<or> NodeName i = []")
  case False
  then have "context_step L C E i out = State_Monad.bind (policy_member_client C E (ClusterID i)) (context_read L E i out)"
    by (simp add: context_step_def)
  moreover have "wp (policy_member_client C E (ClusterID i)) (\<lambda>x. wp (context_read L E i out x)
      (steps w (\<lambda>H r. \<forall>s. r = Inr s \<longrightarrow> (\<exists>nc. node_read L E h0 H i nc \<and> s = out @ [nc])))) w"
  proof (rule member_client_wp [OF assms(1)])
    fix cs :: Clientset and w' :: world
    assume w': "policy_cache_ok w'" "ok (\<lambda>_. eval_read) (hist w) (hist w')" "cs_Cluster cs = ClusterID i"
    then have "extends h0 (hist w')" using since by (auto simp: ok_iff)
    then have "node_read L E h0 (hist w' @ [NodeGet cs (NodeName i)]) i (node_context L i n)"
      if "env_node E (hist w') cs (NodeName i) = Inr n" for n
      unfolding node_read_def using that w'(3) made_snoc by blast
    with w' show "wp (context_read L E i out (Inr cs)) (steps w (\<lambda>H r. \<forall>s. r = Inr s \<longrightarrow> (\<exists>nc. node_read L E h0 H i nc \<and> s = out @ [nc]))) w'"
      by (auto simp: context_read_def vcg steps_def ok_iff split: sum.split)
  qed (auto simp: context_read_def vcg steps_def ok_iff)
  ultimately show ?thesis by (simp add: wp_bind)
qed (auto simp: context_step_def wp_return assms steps_def)

lemma contexts_wp:
  assumes "policy_cache_ok w" and "extends h0 (hist w)"
  shows "wp (io_fold (context_step L C E) nodes out)
    (steps w (\<lambda>H r. \<forall>ncs. r = Inr ncs \<longrightarrow> (\<exists>new. ncs = out @ new \<and> list_all2 (node_read L E h0 H) nodes new))) w"
  using assms
proof (induction nodes arbitrary: out w)
  case (Cons i nodes)
  let ?P = "\<lambda>H r. \<forall>ncs. r = Inr ncs \<longrightarrow> (\<exists>new. ncs = out @ new \<and> list_all2 (node_read L E h0 H) (i # nodes) new)"
  show ?case
    unfolding io_fold.simps wp_bind
  proof (rule wp_mono [OF context_step_wp [OF Cons.prems]])
    fix r :: "eval_err + NodeContext list" and w'
    assume r: "steps w (\<lambda>H r. \<forall>s. r = Inr s \<longrightarrow> (\<exists>nc. node_read L E h0 H i nc \<and> s = out @ [nc])) r w'"
    show "wp (case r of Inl e \<Rightarrow> State_Monad.return (Inl e) | Inr s' \<Rightarrow> io_fold (context_step L C E) nodes s') (steps w ?P) w'"
    proof (cases r)
      case (Inr s)
      with r obtain nc where nc: "node_read L E h0 (hist w') i nc" "s = out @ [nc]" and w': "policy_cache_ok w'" unfolding steps_def by blast
      have "extends h0 (hist w')" using r Cons.prems(2) by (auto simp: steps_def)
      from Cons.IH [OF w' this, of s] show ?thesis unfolding Inr sum.case
      proof (rule wp_mono)
        fix r' :: "eval_err + NodeContext list" and w''
        assume r': "steps w' (\<lambda>H r. \<forall>ncs. r = Inr ncs \<longrightarrow> (\<exists>new. ncs = s @ new \<and> list_all2 (node_read L E h0 H) nodes new)) r' w''"
        then have "node_read L E h0 (hist w'') i nc" using nc(1) node_read_ext by (auto simp: steps_def)
        with r r' nc(2) show "steps w ?P r' w''" by (auto simp: steps_def intro: exI [of _ "nc # _"])
      qed
    qed (use r in \<open>simp add: wp_return steps_def\<close>)
  qed
qed (auto simp: wp_return steps_def)

lemma context_step_reads [guar_intros]: "guar (\<lambda>_. eval_read) (context_step L C E i out)"
  unfolding context_step_def context_read_def by (intro guar_intros) simp

lemma eval_io_guar [guar_intros]:
  "guar (\<lambda>_. eval_read) (list_gd E sel)" "guar (\<lambda>_. eval_read) (get_configmap E k)"
  "guar (\<lambda>_. eval_read) (get_cluster E k)"
  by (simp_all add: list_gd_def get_configmap_def get_cluster_def guar_call)

lemma gather_reads: "guar (\<lambda>_. eval_read) (gather L C E svc pol)"
  unfolding gather_def gather_rest_def candidate_nodes_def buildNodeContexts_def loadProfilesFromConfigMaps_def communication_data_def
    loadTopologyFromConfigMap_def Let_def
  by (intro guar_intros) simp_all

lemma own_basic [keep_intros]:
  "preserves policy_cache_ok (call e a)" "preserves policy_cache_ok (solvePlacement L C pol p)" "preserves policy_cache_ok (random_suffix E)"
  by (simp_all add: preserves_call) (simp_all add: preserves_def exec_def solvePlacement_def random_suffix_def)

lemma own_io [keep_intros]:
  "preserves policy_cache_ok (list_gd E sel)" "preserves policy_cache_ok (get_configmap E k)" "preserves policy_cache_ok (get_cluster E ck)"
  by (simp_all add: list_gd_def get_configmap_def get_cluster_def keep_intros)

lemma own_profiles [keep_intros]:
  "preserves policy_cache_ok (loadProfilesFromConfigMaps P E ns)" "preserves policy_cache_ok (communication_data L C E svc pol rks ncs goals profiles)"
  unfolding loadProfilesFromConfigMaps_def communication_data_def loadTopologyFromConfigMap_def Let_def by (intro keep_intros)+

text \<open>\<open>returns P m\<close>: every result of \<open>m\<close> satisfies \<open>P\<close>.\<close>

definition returns :: "('a \<Rightarrow> bool) \<Rightarrow> 'a io \<Rightarrow> bool" where
  "returns P m \<longleftrightarrow> (\<forall>w. wp m (\<lambda>x _. P x) w)"

named_theorems return_intros \<open>results of programs\<close>

lemma returns_return [return_intros]: "P x \<Longrightarrow> returns P (State_Monad.return x)"
  by (simp add: returns_def wp_return)

lemma returns_bind [return_intros]: "(\<And>x. returns P (f x)) \<Longrightarrow> returns P (State_Monad.bind m f)"
  by (simp add: returns_def wp_bind) (simp add: wp_result [of m])

lemma returns_cases [return_intros]:
  "(b \<Longrightarrow> returns P m) \<Longrightarrow> (\<not> b \<Longrightarrow> returns P m') \<Longrightarrow> returns P (if b then m else m')"
  "(\<And>y. s = Inl y \<Longrightarrow> returns P (f y)) \<Longrightarrow> (\<And>y. s = Inr y \<Longrightarrow> returns P (g y)) \<Longrightarrow> returns P (case s of Inl y \<Rightarrow> f y | Inr y \<Rightarrow> g y)"
  by (simp_all split: sum.split)

definition inputs_ok :: "policy_lib \<Rightarrow> env \<Rightarrow> history \<Rightarrow> OptimizationPolicy \<Rightarrow> eval_err + eval_inputs \<Rightarrow> world \<Rightarrow> bool" where
  "inputs_ok L E h0 pol r w \<longleftrightarrow> policy_cache_ok w \<and> (\<forall>i. r = Inr i \<longrightarrow> gathered L E h0 (hist w) pol i)"

lemma gather_rest_wp:
  assumes "policy_cache_ok w" and "made h0 (hist w) h ListClusters"
    and "candidates_at E h (stable_placement (pol_CurrentLayout (pol_Status pol))) = Some cands"
    and "list_all2 (node_read L E h0 (hist w)) cands ncs" and since: "extends h0 (hist w)"
  shows "wp (gather_rest L C E svc pol cands ncs) (inputs_ok L E h0 pol) w"
proof (cases "env_list_gd E (hist w) (lenient_selector E pol)")
  case (Inl err)
  then show ?thesis by (simp add: gather_rest_def list_gd_def vcg Let_def inputs_ok_def assms(1))
next
  case (Inr gds)
  let ?rks = "stable_replicas (pol_CurrentLayout (pol_Status pol))" and ?cur = "stable_placement (pol_CurrentLayout (pol_Status pol))"
  let ?goals = "weighted_goals (pol_OptimizationGoals (pol_Spec pol))"
  let ?w = "w\<lparr>hist := hist w @ [ListGD (lenient_selector E pol)]\<rparr>"
  let ?P = "\<lambda>i. ei_Replicas i = ?rks \<and> ei_Current i = ?cur \<and> ei_Candidates i = cands \<and> ei_Nodes i = ncs \<and> ei_Goals i = ?goals \<and>
    ei_Requests i = replica_requests (template_requests L E gds) ?rks"
  define rest where "rest = State_Monad.bind (loadProfilesFromConfigMaps (lib_profiles L) E (getProfilesNamespace C)) (\<lambda>pr. case pr of
      Inl err \<Rightarrow> State_Monad.return (Inl (ApiErr [] err))
    | Inr profiles \<Rightarrow> State_Monad.bind (communication_data L C E svc pol ?rks ncs ?goals profiles) (\<lambda>cd. State_Monad.return (case cd of
        Inl err \<Rightarrow> Inl err
      | Inr cd \<Rightarrow> Inr \<lparr>ei_Replicas = ?rks, ei_Current = ?cur, ei_Candidates = cands, ei_Nodes = ncs,
          ei_Requests = replica_requests (template_requests L E gds) ?rks, ei_Goals = ?goals, ei_Profiles = profiles, ei_Comm = cd\<rparr>)))"
  have run: "wp (gather_rest L C E svc pol cands ncs) Q w = wp rest Q ?w" for Q
    using Inr by (simp add: gather_rest_def list_gd_def vcg Let_def rest_def)
  have "returns (\<lambda>r. \<forall>i. r = Inr i \<longrightarrow> ?P i) rest"
    unfolding rest_def by (intro return_intros) (simp_all split: sum.split)
  moreover have "preserves policy_cache_ok rest" unfolding rest_def by (intro keep_intros)
  moreover have "guar (\<lambda>_ _. True) rest" unfolding rest_def communication_data_def loadProfilesFromConfigMaps_def
      loadTopologyFromConfigMap_def list_gd_def get_configmap_def Let_def by (intro guar_intros TrueI)
  ultimately have "wp rest (\<lambda>r _. \<forall>i. r = Inr i \<longrightarrow> ?P i) ?w" "wp rest (\<lambda>_ w'. policy_cache_ok w') ?w"
      "wp rest (\<lambda>_ w'. ok (\<lambda>_ _. True) (hist ?w) (hist w')) ?w"
    using preserves_wp [of policy_cache_ok rest ?w] assms(1) unfolding returns_def guar_wp policy_cache_ok_hist by blast+
  then have "wp rest (\<lambda>r w'. (\<forall>i. r = Inr i \<longrightarrow> ?P i) \<and> policy_cache_ok w' \<and> ok (\<lambda>_ _. True) (hist ?w) (hist w')) ?w"
    unfolding wp_conj by blast
  then show ?thesis unfolding run
  proof (rule wp_mono)
    fix r :: "eval_err + eval_inputs" and w' :: world
    assume r: "(\<forall>i. r = Inr i \<longrightarrow> ?P i) \<and> policy_cache_ok w' \<and> ok (\<lambda>_ _. True) (hist ?w) (hist w')"
    then obtain es where es: "hist w' = hist w @ ListGD (lenient_selector E pol) # es" by (auto simp: ok_iff)
    have "made h0 (hist w') h ListClusters" "list_all2 (node_read L E h0 (hist w')) cands ncs"
      unfolding es using made_ext [OF assms(2)] nodes_read_ext [OF assms(4)] by blast+
    moreover have "made h0 (hist w') (hist w) (ListGD (lenient_selector E pol))" using since by (simp add: made_def es)
    ultimately show "inputs_ok L E h0 pol r w'"
      using r assms(3) Inr unfolding inputs_ok_def gathered_def by metis
  qed
qed

lemma candidate_nodes_wp:
  assumes "\<And>err. Q (Inl err) (w\<lparr>hist := hist w @ [ListClusters]\<rparr>)"
    and "\<And>cands. candidates_at E (hist w) cur = Some cands \<Longrightarrow> Q (Inr cands) (w\<lparr>hist := hist w @ [ListClusters]\<rparr>)"
  shows "wp (candidate_nodes E cur) Q w"
  using assms by (simp add: candidate_nodes_def vcg candidates_at_def Let_def split: sum.split)

lemma gather_wp:
  assumes "policy_cache_ok w" and since: "extends h0 (hist w)"
  shows "wp (gather L C E svc pol) (inputs_ok L E h0 pol) w"
proof -
  let ?cur = "stable_placement (pol_CurrentLayout (pol_Status pol))" and ?w = "w\<lparr>hist := hist w @ [ListClusters]\<rparr>"
  have "wp (buildNodeContexts L C E cands) (\<lambda>r. wp (case r of Inl err \<Rightarrow> State_Monad.return (Inl err)
        | Inr ncs \<Rightarrow> gather_rest L C E svc pol cands ncs) (inputs_ok L E h0 pol)) ?w"
    if cands: "candidates_at E (hist w) ?cur = Some cands" for cands
    unfolding buildNodeContexts_def
  proof (rule wp_mono [OF contexts_wp])
    fix r :: "eval_err + NodeContext list" and w'
    assume "steps ?w (\<lambda>H r. \<forall>ncs. r = Inr ncs \<longrightarrow> (\<exists>new. ncs = [] @ new \<and> list_all2 (node_read L E h0 H) cands new)) r w'"
    then have w': "policy_cache_ok w'" "made h0 (hist w') (hist w) ListClusters" "\<And>ncs. r = Inr ncs \<Longrightarrow> list_all2 (node_read L E h0 (hist w')) cands ncs"
      using since by (auto simp: steps_def made_def)
    moreover have "extends h0 (hist w')" using w'(2) by (auto simp: made_def)
    ultimately show "wp (case r of Inl err \<Rightarrow> State_Monad.return (Inl err) | Inr ncs \<Rightarrow> gather_rest L C E svc pol cands ncs) (inputs_ok L E h0 pol) w'"
      by (cases r) (auto simp: wp_return inputs_ok_def [of _ _ _ _ "Inl _"] intro: gather_rest_wp [OF _ _ cands])
  qed (use assms in simp_all)
  then show ?thesis
    unfolding gather_def wp_bind by (intro candidate_nodes_wp) (simp_all add: wp_return wp_bind inputs_ok_def [of _ _ _ _ "Inl _"] assms)
qed

subsection \<open>The problem is always well-formed\<close>

lemma problem_of_simps [simp]:
  "StableReplicas (problem_of i) = ei_Replicas i" "CandidateNodes (problem_of i) = ei_Candidates i"
  "placement_of (problem_of i) = ei_Current i" "NodeContexts (problem_of i) = ei_Nodes i"
  "requests_of (problem_of i) = ei_Requests i" "NodeCapacities (problem_of i) = node_capacities (ei_Nodes i)"
  "RequireCPU (problem_of i)" "RequireMemory (problem_of i)" "MaximumVariables (problem_of i) = 0"
  by (simp_all add: problem_of_def placement_of_def requests_of_def split: prod.split)

lemma stable_placement_keys: "mkeys (stable_placement layout) = set (stable_replicas layout)"
  by (simp add: stable_placement_def stable_replicas_def mkeys_fold_mput)

lemma template_request_positive: "0 < MilliCPU (template_request L E gd) \<and> 0 < MemoryMi (template_request L E gd)"
  by (simp add: template_request_def Let_def)

lemma fold_values:
  assumes "\<And>x. P (g x)" and "mget (fold (\<lambda>x m. mput (k x) (g x) m) xs []) a = Some v"
  shows "P v"
  using assms(2)
proof (induction xs arbitrary: v rule: rev_induct)
  case (snoc x xs)
  then show ?case using assms(1) [of x] by (auto split: if_splits)
qed simp

lemma template_requests_positive:
  "mget (template_requests L E gds) k = Some q \<Longrightarrow> 0 < MilliCPU q \<and> 0 < MemoryMi q"
  unfolding template_requests_def
  by (rule fold_values [where P = "\<lambda>q. 0 < MilliCPU q \<and> 0 < MemoryMi q" and g = "template_request L E"])
    (rule template_request_positive)

lemma replica_requests_get:
  "mget (replica_requests reqs rks) rk =
    (if rk \<in> set rks then Some (mget0 \<lparr>MilliCPU = 1000, MemoryMi = 1024\<rparr> reqs (gd_text (rk_Namespace rk) (rk_Name rk))) else None)"
  unfolding replica_requests_def
  using mget_fold_mput [where k = "\<lambda>x. x" and f = "\<lambda>rk. mget0 \<lparr>MilliCPU = 1000, MemoryMi = 1024\<rparr> reqs (gd_text (rk_Namespace rk) (rk_Name rk))"
      and xs = rks and ?m0.0 = "[]" and a = rk] by simp

lemma replica_requests_positive:
  assumes "rk \<in> set rks"
  shows "\<exists>q. mget (replica_requests (template_requests L E gds) rks) rk = Some q \<and> 0 < MilliCPU q \<and> 0 < MemoryMi q"
  using assms template_requests_positive [of L E gds]
  by (auto simp: replica_requests_get mget0_def split: option.split)

lemma node_capacities_positive:
  assumes "n \<in> nc_ID ` set ncs"
  shows "\<exists>c. mget (node_capacities ncs) n = Some c \<and> 0 < MilliCPU c \<and> 0 < MemoryMi c"
proof -
  have "n \<in> mkeys (node_capacities ncs)" using assms by (simp add: node_capacities_def mkeys_fold_mput)
  then obtain c where c: "mget (node_capacities ncs) n = Some c" by (metis mget_None_iff option.exhaust)
  moreover have "0 < MilliCPU c \<and> 0 < MemoryMi c"
    by (rule fold_values [where P = "\<lambda>c. 0 < MilliCPU c \<and> 0 < MemoryMi c", OF _ c [unfolded node_capacities_def]]) simp_all
  ultimately show ?thesis by blast
qed

lemma fallback_nodes_set: "set (fallback_nodes cur) = snd ` set cur"
proof -
  have "fold (\<lambda>(x, n) s. mput n () s) cur [] = fold (\<lambda>e s. mput (snd e) () s) cur []"
    by (rule arg_cong [where f = "\<lambda>f. fold f cur []"]) (simp add: fun_eq_iff split: prod.split)
  then show ?thesis unfolding fallback_nodes_def set_map by (simp add: mkeys_fold_mput)
qed

lemma node_read_ids: "list_all2 (node_read L E h0 H) cands ncs \<Longrightarrow> map nc_ID ncs = cands"
  by (induction rule: list_all2_induct) (auto simp: node_read_def node_context_def)

lemma gathered_candidates: "gathered L E h0 H pol i \<Longrightarrow> ei_Replicas i \<noteq> [] \<Longrightarrow> ei_Candidates i \<noteq> []"
proof -
  assume g: "gathered L E h0 H pol i" and ne: "ei_Replicas i \<noteq> []"
  then have "mkeys (ei_Current i) \<noteq> {}" by (simp add: gathered_def stable_placement_keys del: image_is_empty)
  then have "set (fallback_nodes (ei_Current i)) \<noteq> {}" by (auto simp: fallback_nodes_set)
  moreover obtain h where "candidates_at E h (ei_Current i) = Some (ei_Candidates i)" using g unfolding gathered_def by blast
  ultimately show ?thesis by (cases "env_list_clusters E h") (auto simp: candidates_at_def split: if_splits)
qed

lemma gathered_valid:
  assumes "gathered L E h0 H pol i" and "ei_Replicas i \<noteq> []"
  shows "valid_problem (problem_of i) \<longleftrightarrow>
    wrap64 (int (length (ei_Replicas i)) * int (length (ei_Candidates i))) \<le> DefaultMaximumVariables"
proof -
  obtain gds where req: "ei_Requests i = replica_requests (template_requests L E gds) (ei_Replicas i)"
    using assms(1) unfolding gathered_def by blast
  have ids: "map nc_ID (ei_Nodes i) = ei_Candidates i" using assms(1) node_read_ids unfolding gathered_def by blast
  then have caps: "\<exists>c. mget (node_capacities (ei_Nodes i)) j = Some c \<and> 0 < MilliCPU c \<and> 0 < MemoryMi c"
    if "j \<in> set (ei_Candidates i)" for j
    using that node_capacities_positive [of j "ei_Nodes i"] by (metis set_map)
  have reqs: "\<exists>q. mget (ei_Requests i) r = Some q \<and> 0 < MilliCPU q \<and> 0 < MemoryMi q" if "r \<in> set (ei_Replicas i)" for r
    using that replica_requests_positive unfolding req by blast
  have cands: "ei_Candidates i \<noteq> []" by (rule gathered_candidates [OF assms])
  then have "ei_Nodes i \<noteq> []" using ids by (metis list.map_disc_iff)
  moreover have "nc_ID ` set (ei_Nodes i) = set (ei_Candidates i)" using ids by (metis set_map)
  ultimately have nodes: "ei_Nodes i \<noteq> []" "nc_ID ` set (ei_Nodes i) \<subseteq> set (ei_Candidates i)" by simp_all
  have "mkeys (ei_Current i) = set (ei_Replicas i)" using assms(1) stable_placement_keys by (simp add: gathered_def)
  then have "ei_Current i \<noteq> []" using assms(2) by auto
  moreover have "\<forall>j \<in> set (ei_Candidates i). \<exists>c. mget (node_capacities (ei_Nodes i)) j = Some c \<and> 0 < f c"
    if "f = MilliCPU \<or> f = MemoryMi" for f using that caps by blast
  moreover have "\<forall>r \<in> set (ei_Replicas i). \<exists>q. mget (ei_Requests i) r = Some q \<and> 0 < f q"
    if "f = MilliCPU \<or> f = MemoryMi" for f using that reqs by blast
  ultimately show ?thesis using cands nodes by (simp add: valid_problem_def)
qed

text \<open>
  C24: The problem handed to the solver is well-formed. Whatever the API servers answer, when the inputs of a policy
  with a stable replica could be gathered, validation accepts the problem and counts one variable per replica
  and node and one row per replica and per node and resource, except when there are too many variables: missing
  or non-positive requests and capacities have been replaced by defaults before.
\<close>

theorem gathered_problem_wellformed:
  assumes "policy_cache_ok w" and "result (gather L C E svc pol) w = Inr i"
    and "stable_replicas (pol_CurrentLayout (pol_Status pol)) \<noteq> []"
  shows "let v = wrap64 (int (length (ei_Replicas i)) * int (length (ei_Candidates i))) in
    BuildILPModel (problem_of i) =
      (if DefaultMaximumVariables < v then Inl (TooManyVariables v DefaultMaximumVariables)
       else Inr \<lparr>NumDecisionVars = v, NumConstraints = int (length (ei_Replicas i)) + 2 * int (length (ei_Candidates i))\<rparr>)"
proof -
  have g: "gathered L E [] (hist (exec (gather L C E svc pol) w)) pol i" using gather_wp [OF assms(1), of "[]" L C E svc pol] assms(2) by (simp add: wp_result inputs_ok_def)
  then have ne: "ei_Replicas i \<noteq> []" using assms(3) by (simp add: gathered_def)
  show ?thesis
  proof (cases "DefaultMaximumVariables < wrap64 (int (length (ei_Replicas i)) * int (length (ei_Candidates i)))")
    case True
    with ne gathered_candidates [OF g ne] show ?thesis by (simp add: BuildILPModel_def Let_def)
  next
    case False
    with ne gathered_valid [OF g ne] show ?thesis by (simp add: BuildILPModel_Inr Let_def)
  qed
qed

subsection \<open>The moves\<close>

text \<open>A move of the plan for a difference of placements, whatever the display names are.\<close>

definition realises :: "PlanMoveLite \<Rightarrow> PlanMove \<Rightarrow> bool" where
  "realises m mv \<longleftrightarrow> (\<exists>sn dn. mv = plan_move (Replica m) (Source m) sn (Destination m) dn)"

lemma realises_move: "realises \<lparr>Replica = r, Source = s, Destination = d\<rparr> (plan_move r s sn d dn)"
  unfolding realises_def by simp blast

lemma returns_mono: "returns P m \<Longrightarrow> (\<And>x. P x \<Longrightarrow> Q x) \<Longrightarrow> returns Q m"
  by (simp add: returns_def wp_result)

lemma move_step_returns:
  "returns (\<lambda>r. \<exists>new names'. r = Inr (moves @ new, names') \<and> list_all2 realises (replica_moves cur asg rk) new)
     (move_step C E cur asg rk (moves, names))"
  unfolding move_step_def prod.case
  by (auto simp: replica_moves_def realises_move split: option.split intro!: return_intros)

lemma returns_wp_mono: "returns P m \<Longrightarrow> (\<And>x. P x \<Longrightarrow> returns Q (f x)) \<Longrightarrow> returns Q (State_Monad.bind m f)"
  unfolding returns_def wp_bind by (metis (no_types, lifting) wp_result)

lemma moves_returns:
  "returns (\<lambda>r. \<exists>new names'. r = Inr (moves @ new, names') \<and> list_all2 realises (diff_moves cur asg rks) new)
     (io_fold (move_step C E cur asg) rks (moves, names))"
proof (induction rks arbitrary: moves names)
  case Nil
  show ?case by (auto simp: diff_moves_def intro!: return_intros)
next
  case (Cons rk rks)
  show ?case unfolding io_fold.simps
  proof (rule returns_wp_mono [OF move_step_returns])
    fix r :: "eval_err + PlanMove list \<times> (string, string) gomap"
    assume "\<exists>new names'. r = Inr (moves @ new, names') \<and> list_all2 realises (replica_moves cur asg rk) new"
    then obtain new names' where r: "r = Inr (moves @ new, names')" "list_all2 realises (replica_moves cur asg rk) new" by blast
    have "\<exists>new2 nms. Q = Inr (moves @ new2, nms) \<and> list_all2 realises (diff_moves cur asg (rk # rks)) new2"
      if "\<exists>new' nms. Q = Inr ((moves @ new) @ new', nms) \<and> list_all2 realises (diff_moves cur asg rks) new'"
      for Q :: "eval_err + PlanMove list \<times> (string, string) gomap"
      using that r(2) by (auto simp: diff_moves_def intro!: list_all2_appendI)
    then show "returns (\<lambda>r. \<exists>new names'. r = Inr (moves @ new, names') \<and> list_all2 realises (diff_moves cur asg (rk # rks)) new)
        (case r of Inl e \<Rightarrow> State_Monad.return (Inl e) | Inr s' \<Rightarrow> io_fold (move_step C E cur asg) rks s')"
      unfolding r(1) sum.case by (rule returns_mono [OF Cons.IH])
  qed
qed

subsection \<open>What an evaluation does\<close>

text \<open>The plan that \<open>optimise\<close> makes of the plan it is given.\<close>

definition solved :: "policy_lib \<Rightarrow> policy_cfg \<Rightarrow> env \<Rightarrow> history \<Rightarrow> history \<Rightarrow> OptimizationPolicy \<Rightarrow> eval_inputs \<Rightarrow> placement \<Rightarrow> bool" where
  "solved L C E h0 H pol i assignment \<longleftrightarrow> gathered L E h0 H pol i \<and> ei_Replicas i \<noteq> [] \<and> (\<exists>h. solve_at L C h pol (problem_of i) = Inr assignment)"

definition moves_planned :: "policy_lib \<Rightarrow> policy_cfg \<Rightarrow> env \<Rightarrow> history \<Rightarrow> history \<Rightarrow> OptimizationPolicy \<Rightarrow> ReOrchestrationPlanSpec \<Rightarrow> bool" where
  "moves_planned L C E h0 H pol spec \<longleftrightarrow>
    (if stable_replicas (pol_CurrentLayout (pol_Status pol)) = []
     then plan_Moves spec = [] \<and> sum_PodsToMove (plan_SpecSummary spec) = Some 0
     else \<exists>i assignment. solved L C E h0 H pol i assignment \<and>
       list_all2 realises (diff_moves (ei_Current i) assignment (ei_Replicas i)) (plan_Moves spec) \<and>
       sum_PodsToMove (plan_SpecSummary spec) =
         Some (if ei_Goals i = [] then 0 else wrap32 (int (length (plan_Moves spec)))))"

lemma solve_at_implemented: "solve_at L C h pol p \<noteq> Inl SolverNotImplemented"
  by (auto simp: solve_at_def split: sum.split option.split)

lemma summarise_spec:
  assumes "summarise i asg plan = Inr q" and "ei_Replicas i \<noteq> []"
  shows "plan_Meta q = plan_Meta plan \<and> plan_Status q = plan_Status plan \<and> plan_Moves (plan_Spec q) = plan_Moves (plan_Spec plan) \<and>
    plan_PolicyName (plan_Spec q) = plan_PolicyName (plan_Spec plan) \<and>
    sum_PodsToMove (plan_SpecSummary (plan_Spec q)) =
      (if ei_Goals i = [] then sum_PodsToMove (plan_SpecSummary (plan_Spec plan))
       else Some (wrap32 (int (length (diff_moves (ei_Current i) asg (ei_Replicas i))))))"
proof (cases "ei_Goals i = []")
  case False
  then obtain m ms gs where m: "ComputePlanFromGoals (scoring_inputs i (ei_Goals i)) asg = Inr (m, ms)"
    and q: "q = (let plan = with_summary (PodsToMove m) (CurrentScore m) (ExpectedScore m) (EstimatedImprovement m) plan
      in if gs = [] then plan else plan\<lparr>plan_Spec := (plan_Spec plan)\<lparr>plan_SpecSummary :=
        (plan_SpecSummary (plan_Spec plan))\<lparr>sum_GoalScores := gs\<rparr>\<rparr>\<rparr>)"
    using assms(1) by (auto simp: summarise_def rbind_eq_Inr Let_def)
  have "PodsToMove m = wrap32 (int (length (diff_moves (ei_Current i) asg (ei_Replicas i))))"
    using m assms(2) by (auto simp: ComputePlanFromGoals_def rbind_eq_Inr BuildPlan_eq scoring_inputs_def plan_metrics_def Let_def split: prod.splits)
  with q False show ?thesis by (simp add: with_summary_def Let_def)
qed (use assms in \<open>simp add: summarise_def\<close>)

lemma plan_assignment_returns:
  assumes "solved L C E h0 H pol i asg" and "sum_PodsToMove (plan_SpecSummary (plan_Spec plan)) = Some 0"
  shows "returns (\<lambda>r. \<forall>q. r = Inr q \<longrightarrow> plan_Meta q = plan_Meta plan \<and> plan_Status q = plan_Status plan \<and>
      plan_PolicyName (plan_Spec q) = plan_PolicyName (plan_Spec plan) \<and> moves_planned L C E h0 H pol (plan_Spec q))
    (plan_assignment C E i asg plan)"
  unfolding plan_assignment_def
proof (rule returns_wp_mono [OF moves_returns])
  fix r :: "eval_err + PlanMove list \<times> (string, string) gomap"
  assume "\<exists>new names'. r = Inr ([] @ new, names') \<and> list_all2 realises (diff_moves (ei_Current i) asg (ei_Replicas i)) new"
  then obtain new names' where r: "r = Inr (new, names')" "list_all2 realises (diff_moves (ei_Current i) asg (ei_Replicas i)) new"
    by auto
  have step: "plan_Meta q = plan_Meta plan \<and> plan_Status q = plan_Status plan \<and>
      plan_PolicyName (plan_Spec q) = plan_PolicyName (plan_Spec plan) \<and> moves_planned L C E h0 H pol (plan_Spec q)"
    if "summarise i asg (with_moves new plan) = Inr q" for q
  proof -
    have s: "ei_Replicas i \<noteq> []" "ei_Replicas i = stable_replicas (pol_CurrentLayout (pol_Status pol))"
      using assms(1) unfolding solved_def gathered_def by blast+
    note q = summarise_spec [OF that s(1)]
    have "length new = length (diff_moves (ei_Current i) asg (ei_Replicas i))" using r(2) by (simp add: list_all2_lengthD)
    then have "list_all2 realises (diff_moves (ei_Current i) asg (ei_Replicas i)) (plan_Moves (plan_Spec q)) \<and>
        sum_PodsToMove (plan_SpecSummary (plan_Spec q)) =
          Some (if ei_Goals i = [] then 0 else wrap32 (int (length (plan_Moves (plan_Spec q)))))"
      using q r(2) assms(2) by (simp add: with_moves_def)
    then have "moves_planned L C E h0 H pol (plan_Spec q)"
      using s assms(1) unfolding moves_planned_def by (metis (no_types, lifting))
    then show ?thesis using q by (simp add: with_moves_def)
  qed
  show "returns (\<lambda>r. \<forall>q. r = Inr q \<longrightarrow> plan_Meta q = plan_Meta plan \<and> plan_Status q = plan_Status plan \<and>
      plan_PolicyName (plan_Spec q) = plan_PolicyName (plan_Spec plan) \<and> moves_planned L C E h0 H pol (plan_Spec q))
    (State_Monad.return (case r of Inl err \<Rightarrow> Inl (Some err) | Inr (moves, _) \<Rightarrow>
       (case summarise i asg (with_moves moves plan) of Inl e \<Rightarrow> Inl (Some (OptErr e)) | Inr plan \<Rightarrow> Inr plan)))"
    unfolding r(1) sum.case prod.case
    by (rule returns_return, cases "summarise i asg (with_moves new plan)")
      (use step in \<open>simp_all only: sum.case sum.inject sum.distinct, blast+\<close>)
qed

text \<open>The calls of an evaluation beside the creation of the plan.\<close>

fun eval_event :: "event \<Rightarrow> bool" where
  "eval_event (GetPolicy _) = True"
| "eval_event (StatusPatchPolicy _ _) = True"
| "eval_event (StatusUpdatePolicy _) = True"
| "eval_event (RecordEvent _ _) = True"
| "eval_event PlansCreatedInc = True"
| "eval_event ActivePolicySet = True"
| "eval_event CalculationObserve = True"
| "eval_event (StatusPatchPlan _ _) = True"
| "eval_event e = eval_read e"

abbreviation quiet :: "history \<Rightarrow> event \<Rightarrow> bool" where
  "quiet \<equiv> \<lambda>_. eval_event"

lemma eval_read_event: "eval_read e \<Longrightarrow> eval_event e"
  by (cases e) auto

text \<open>At most one plan is created between two histories, and it satisfies \<open>P\<close> of the history before the creation.\<close>

definition creates_one :: "(history \<Rightarrow> ReOrchestrationPlan \<Rightarrow> bool) \<Rightarrow> history \<Rightarrow> history \<Rightarrow> bool" where
  "creates_one P h h' \<longleftrightarrow> ok quiet h h' \<or>
    (\<exists>h1 p. ok quiet h h1 \<and> P h1 p \<and> ok quiet (h1 @ [CreatePlan p]) h')"

lemma creates_one_before: "ok quiet h h1 \<Longrightarrow> creates_one P h1 h2 \<Longrightarrow> creates_one P h h2"
  unfolding creates_one_def using ok_trans by blast

lemma creates_one_after: "creates_one P h h1 \<Longrightarrow> ok quiet h1 h2 \<Longrightarrow> creates_one P h h2"
  unfolding creates_one_def using ok_trans by blast

lemma creates_one_at:
  assumes "creates_one P h (h @ pre @ CreatePlan p # post)"
  shows "P (h @ pre) p \<and> list_all eval_event pre \<and> list_all eval_event post"
proof -
  have no: "\<not> list_all eval_event (xs @ CreatePlan p # ys)" for xs ys by simp
  have "\<not> ok quiet h (h @ pre @ CreatePlan p # post)" using no by (simp add: guarded_plain)
  then obtain h1 q where q: "ok quiet h h1" "P h1 q" "ok quiet (h1 @ [CreatePlan q]) (h @ pre @ CreatePlan p # post)"
    using assms unfolding creates_one_def by blast
  then obtain tr1 tr2 where tr: "h1 = h @ tr1" "list_all eval_event tr1" "list_all eval_event tr2"
    "pre @ CreatePlan p # post = tr1 @ CreatePlan q # tr2"
    by (auto simp: ok_iff guarded_plain)
  from tr(4) consider "pre = tr1" "p = q" "post = tr2"
    | us where "tr1 = pre @ CreatePlan p # us" | us where "post = us @ CreatePlan q # tr2" "pre @ CreatePlan p # us = tr1"
    | us where "pre = tr1 @ CreatePlan q # us" "us @ CreatePlan p # post = tr2"
    by (auto simp: append_eq_append_conv2 append_eq_Cons_conv Cons_eq_append_conv)
  then show ?thesis by cases (use tr q no in auto)
qed

lemma quiet_wp: "guar quiet m \<Longrightarrow> wp m (\<lambda>_ w'. ok quiet (hist w) (hist w')) w"
  by (simp add: guar_wp)

lemma eval_event_guar [guar_intros]:
  "guar quiet (gather L C E svc pol)" "guar quiet (list_gd E sel)" "guar quiet (get_cluster E k)" "guar quiet (record_event C r m)"
  "guar quiet (get_policy E pk)" "guar quiet (patch_policy E b p)" "guar quiet (solvePlacement L C pol p')" "guar quiet (random_suffix E)"
proof -
  show "guar quiet (gather L C E svc pol)" by (rule guar_mono [OF gather_reads]) (rule eval_read_event)
  show "guar quiet (solvePlacement L C pol p')" "guar quiet (random_suffix E)"
    by (simp_all add: guar_def exec_def solvePlacement_def random_suffix_def)
qed (auto simp: list_gd_def get_cluster_def record_event_def get_policy_def patch_policy_def intro!: guar_intros split: sum.split)

lemma setStatus_quiet [guar_intros]: "guar quiet (setStatusPhaseAndCondition E pol ph cond)"
  unfolding setStatusPhaseAndCondition_def by (intro guar_intros)

lemma improvement_quiet [guar_intros]: "guar quiet (computeImprovementPct L C E pol)"
  unfolding computeImprovementPct_def by (intro guar_intros)

lemma plan_assignment_quiet [guar_intros]: "guar quiet (plan_assignment C E i asg plan)"
  unfolding plan_assignment_def move_step_def getClusterName_def by (intro guar_intros)

lemma report_quiet [guar_intros]:
  "guar quiet (report_too_many E pol v l)" "guar quiet (report_solver_failure L C E pol err)" "guar quiet (record_success E pol plan)"
  unfolding report_too_many_def report_solver_failure_def record_success_def Let_def by (intro guar_intros; simp)+

lemma solve_quiet [guar_intros]: "guar quiet (solve_and_plan L C E pol plan i)"
  unfolding solve_and_plan_def
  by (intro guar_intros) (simp split: opt_error.split, intro allI impI conjI guar_intros)

lemma optimise_quiet [guar_intros]: "guar quiet (optimise L C E pol plan)"
  unfolding optimise_def by (intro guar_intros)

lemma wp_solvePlacement [vcg]: "wp (solvePlacement L C pol p) Q w = Q (solve_at L C (hist w) pol p) w"
  by (simp add: wp_def solvePlacement_def)

lemma wp_random_suffix [vcg]: "wp (random_suffix E) Q w = Q (env_rand E (hist w)) w"
  by (simp add: wp_def random_suffix_def)

text \<open>\<open>completes\<close>: the result of \<open>optimise\<close> is a plan with the same metadata and the planned moves, or none.\<close>

definition completes :: "policy_lib \<Rightarrow> policy_cfg \<Rightarrow> env \<Rightarrow> history \<Rightarrow> history \<Rightarrow> OptimizationPolicy \<Rightarrow> ReOrchestrationPlan
    \<Rightarrow> eval_err option + ReOrchestrationPlan \<Rightarrow> bool" where
  "completes L C E h0 H pol plan r \<longleftrightarrow> (\<forall>q. r = Inr q \<longrightarrow> plan_Meta q = plan_Meta plan \<and> plan_Status q = plan_Status plan \<and>
      plan_PolicyName (plan_Spec q) = plan_PolicyName (plan_Spec plan) \<and> moves_planned L C E h0 H pol (plan_Spec q))"

lemma solve_and_plan_wp:
  assumes "gathered L E h0 H pol i" and "ei_Replicas i \<noteq> []" and "sum_PodsToMove (plan_SpecSummary (plan_Spec plan)) = Some 0"
  shows "wp (solve_and_plan L C E pol plan i) (\<lambda>r _. completes L C E h0 H pol plan r) w"
proof (cases "solve_at L C (hist w) pol (problem_of i)")
  case (Inl e)
  with solve_at_implemented have "e \<noteq> SolverNotImplemented" by metis
  moreover have "wp (report_too_many E pol v l) (\<lambda>r. wp (State_Monad.return (Inl r)) (\<lambda>r _. completes L C E h0 H pol plan r)) w" for v l
    by (simp add: wp_result [of "report_too_many E pol v l"] wp_return completes_def)
  ultimately show ?thesis using Inl by (cases e) (simp_all add: solve_and_plan_def wp_bind wp_solvePlacement wp_return completes_def)
next
  case (Inr asg)
  then have "solved L C E h0 H pol i asg" using assms(1,2) unfolding solved_def by blast
  from plan_assignment_returns [OF this assms(3)] Inr show ?thesis
    by (simp add: solve_and_plan_def wp_bind wp_solvePlacement returns_def completes_def)
qed

lemma moves_planned_ext: "moves_planned L C E h0 H pol spec \<Longrightarrow> moves_planned L C E h0 (H @ es) pol spec"
  unfolding moves_planned_def solved_def using gathered_ext by (metis (no_types, lifting))

lemma completes_ext: "completes L C E h0 H pol plan r \<Longrightarrow> completes L C E h0 (H @ es) pol plan r"
  unfolding completes_def using moves_planned_ext by blast

lemma optimise_wp:
  assumes "policy_cache_ok w" and "sum_PodsToMove (plan_SpecSummary (plan_Spec plan)) = Some 0" and "plan_Moves (plan_Spec plan) = []"
    and since: "extends h0 (hist w)"
  shows "wp (optimise L C E pol plan) (\<lambda>r w'. completes L C E h0 (hist w') pol plan r) w"
proof (cases "stable_replicas (pol_CurrentLayout (pol_Status pol)) = []")
  case True
  then have "completes L C E h0 (hist w) pol plan (Inr plan)" using assms(2,3) by (simp add: completes_def moves_planned_def)
  with True show ?thesis by (simp add: optimise_def wp_return)
next
  case False
  then have ne: "pol_CurrentLayout (pol_Status pol) \<noteq> []" by (auto simp: stable_replicas_def)
  have gw: "wp (gather L C E evaluate_service pol) (inputs_ok L E h0 pol) w" by (rule gather_wp [OF assms(1) since])
  show ?thesis unfolding optimise_def if_not_P [OF ne] if_not_P [OF False]
  proof (subst wp_bind, rule wp_mono [OF gw])
    fix g w' assume "inputs_ok L E h0 pol g w'"
    then have g: "gathered L E h0 (hist w') pol i \<and> ei_Replicas i \<noteq> []" if "g = Inr i" for i
      using that False unfolding inputs_ok_def gathered_def by metis
    have "wp (solve_and_plan L C E pol plan i) (\<lambda>r w''. completes L C E h0 (hist w'') pol plan r) w'" if "g = Inr i" for i
    proof -
      have "wp (solve_and_plan L C E pol plan i) (\<lambda>r w''. completes L C E h0 (hist w') pol plan r \<and> ok quiet (hist w') (hist w'')) w'"
        unfolding wp_conj using solve_and_plan_wp [of L E h0 "hist w'" pol i] g [OF that] assms(2) quiet_wp [OF solve_quiet] by blast
      then show ?thesis by (rule wp_mono) (auto simp: ok_iff completes_ext)
    qed
    then show "wp (case g of Inl err \<Rightarrow> State_Monad.return (Inl (Some err)) | Inr i \<Rightarrow> solve_and_plan L C E pol plan i)
        (\<lambda>r w''. completes L C E h0 (hist w'') pol plan r) w'"
      by (cases g) (auto simp: wp_return completes_def [of _ _ _ _ _ _ _ "Inl _"])
  qed
qed

text \<open>What \<open>controllerutil.SetControllerReference\<close> documents: it only adds an owner reference.\<close>

definition own_plan_law :: "env \<Rightarrow> bool" where
  "own_plan_law E \<longleftrightarrow> (\<forall>pol p q. env_own_plan E pol p = Inr q \<longrightarrow>
     q = p\<lparr>plan_Meta := (plan_Meta p)\<lparr>om_OwnerReferences := om_OwnerReferences (plan_Meta q)\<rparr>\<rparr>)"

text \<open>The plan of a policy: named after it, under its strategy, with the planned moves, not yet running.\<close>

definition plan_for :: "policy_lib \<Rightarrow> policy_cfg \<Rightarrow> env \<Rightarrow> history \<Rightarrow> history \<Rightarrow> OptimizationPolicy \<Rightarrow> ReOrchestrationPlan \<Rightarrow> bool" where
  "plan_for L C E h0 H pol plan \<longleftrightarrow> om_Namespace (plan_Meta plan) = om_Namespace (pol_Meta pol) \<and>
     plan_PolicyName (plan_Spec plan) = om_Name (pol_Meta pol) \<and> plan_strategy plan = pol_Strategy (pol_Spec pol) \<and>
     plan_Status plan = empty_plan_status \<and> moves_planned L C E h0 H pol (plan_Spec plan)"

lemma persist_plan_wp:
  assumes "P (hist w) plan"
  shows "wp (persist_plan E pol plan st) (\<lambda>_ w'. creates_one P (hist w) (hist w')) w"
proof -
  have "guar quiet (case (case c of Inl err \<Rightarrow> if IsAlreadyExists err then Inr plan else Inl err | Inr stored \<Rightarrow> Inr stored) of
       Inl err \<Rightarrow> State_Monad.return (Some (ApiErr [] err))
     | Inr plan \<Rightarrow> State_Monad.bind (write_plan E (StatusPatchPlan plan (plan\<lparr>plan_Status := st\<rparr>))) (\<lambda>s. case s of
           Inl err \<Rightarrow> State_Monad.return (Some (ApiErr [] err))
         | Inr plan \<Rightarrow> record_success E pol plan))" for c
    unfolding write_plan_def by (intro guar_intros) simp
  note rest = quiet_wp [OF this, where w = "w\<lparr>hist := hist w @ [CreatePlan plan]\<rparr>"]
  show ?thesis
    unfolding persist_plan_def by (subst wp_bind, subst (1) write_plan_def, subst wp_call, rule wp_mono [OF rest])
      (use assms in \<open>auto simp: creates_one_def\<close>)
qed

lemma plan_strategy_notes [simp]: "plan_strategy (threshold_notes E pol plan) = plan_strategy plan"
  by (simp add: plan_strategy_def threshold_notes_def annotate_def mget0_def)

lemma plan_for_notes [simp]: "plan_for L C E h0 H pol (threshold_notes E pol' plan) \<longleftrightarrow> plan_for L C E h0 H pol plan"
  by (simp add: plan_for_def) (simp add: threshold_notes_def annotate_def)

lemma completed_plan_for:
  assumes "own_plan_law E" and "env_own_plan E pol (new_plan E pol suffix pct src) = Inr plan"
    and "completes L C E h0 H pol (with_summary 0 f0 f0 f0 plan) (Inr q)"
  shows "plan_for L C E h0 H pol q"
proof -
  obtain refs where "plan = (new_plan E pol suffix pct src)\<lparr>plan_Meta := (plan_Meta (new_plan E pol suffix pct src))\<lparr>om_OwnerReferences := refs\<rparr>\<rparr>"
    using assms(1,2) unfolding own_plan_law_def by blast
  with assms(3) show ?thesis
    by (simp add: completes_def plan_for_def plan_strategy_def new_plan_def with_summary_def bare_summary_def mget0_def)
qed

lemma creates_one_mono: "creates_one P h h' \<Longrightarrow> (\<And>h p. P h p \<Longrightarrow> Q h p) \<Longrightarrow> creates_one Q h h'"
  unfolding creates_one_def by blast

text \<open>The plans for a policy, by the history before their creation.\<close>

abbreviation plans_for :: "policy_lib \<Rightarrow> policy_cfg \<Rightarrow> env \<Rightarrow> history \<Rightarrow> OptimizationPolicy \<Rightarrow> history \<Rightarrow> ReOrchestrationPlan \<Rightarrow> bool" where
  "plans_for L C E h0 pol \<equiv> \<lambda>H. plan_for L C E h0 H pol"

lemma finish_evaluation_wp:
  assumes "plan_for L C E h0 (hist w) pol q"
  shows "wp (finish_evaluation L E pol pct q) (\<lambda>_ w'. creates_one (plans_for L C E h0 pol) (hist w) (hist w')) w"
  unfolding finish_evaluation_def wp_bind wp_now by (rule persist_plan_wp) (use assms in simp)

lemma optimised_wp:
  assumes "policy_cache_ok w" and "own_plan_law E" and since: "extends h0 (hist w)" and own: "env_own_plan E pol (new_plan E pol suffix pct src) = Inr plan"
  shows "wp (optimise L C E pol (with_summary 0 f0 f0 f0 plan))
    (\<lambda>r w'. (\<forall>q. r = Inr q \<longrightarrow> plan_for L C E h0 (hist w') pol q) \<and> ok quiet (hist w) (hist w')) w"
proof -
  let ?p = "with_summary 0 f0 f0 f0 plan" and ?n = "new_plan E pol suffix pct src"
  obtain refs where "plan = ?n\<lparr>plan_Meta := (plan_Meta ?n)\<lparr>om_OwnerReferences := refs\<rparr>\<rparr>"
    using assms(2) own unfolding own_plan_law_def by blast
  then have "sum_PodsToMove (plan_SpecSummary (plan_Spec ?p)) = Some 0" "plan_Moves (plan_Spec ?p) = []"
    by (simp_all add: with_summary_def new_plan_def)
  from optimise_wp [OF assms(1) this since] quiet_wp [OF optimise_quiet]
  have "wp (optimise L C E pol ?p) (\<lambda>r w'. completes L C E h0 (hist w') pol ?p r \<and> ok quiet (hist w) (hist w')) w"
    unfolding wp_conj by blast
  then show ?thesis by (rule wp_mono) (use completed_plan_for [OF assms(2) own] in blast)
qed

lemma create_plan_wp:
  assumes "policy_cache_ok w" and "own_plan_law E" and since: "extends h0 (hist w)"
  shows "wp (create_plan L C E pol imp) (\<lambda>_ w'. creates_one (plans_for L C E h0 pol) (hist w) (hist w')) w"
proof -
  obtain pct src where ov: "override_improvement E pol imp = (pct, src)" by force
  let ?w = "w\<lparr>hist := hist w @ [PlansCreatedInc]\<rparr>"
  show ?thesis
  proof (cases "env_own_plan E pol (new_plan E pol (env_rand E (hist w)) pct src)")
    case (Inl err)
    then show ?thesis by (simp add: create_plan_def ov vcg creates_one_def)
  next
    case (Inr plan)
    have "policy_cache_ok ?w" "extends h0 (hist ?w)" using assms(1) since by simp_all
    from optimised_wp [OF this(1) assms(2) this(2) Inr]
    have "wp (optimise L C E pol (with_summary 0 f0 f0 f0 plan)) (\<lambda>r. wp (case r of Inl r \<Rightarrow> State_Monad.return r
        | Inr plan \<Rightarrow> finish_evaluation L E pol pct plan) (\<lambda>_ w'. creates_one (plans_for L C E h0 pol) (hist w) (hist w'))) ?w"
    proof (rule wp_mono)
      fix r :: "eval_err option + ReOrchestrationPlan" and w' :: world
      assume r: "(\<forall>q. r = Inr q \<longrightarrow> plan_for L C E h0 (hist w') pol q) \<and> ok quiet (hist ?w) (hist w')"
      then have q: "ok quiet (hist w) (hist w')" by (auto intro: ok_trans [of _ "hist w" "hist ?w"])
      show "wp (case r of Inl r \<Rightarrow> State_Monad.return r | Inr plan \<Rightarrow> finish_evaluation L E pol pct plan)
          (\<lambda>_ w'. creates_one (plans_for L C E h0 pol) (hist w) (hist w')) w'"
      proof (cases r)
        case (Inr p)
        with r have "plan_for L C E h0 (hist w') pol p" by blast
        from finish_evaluation_wp [OF this] show ?thesis unfolding Inr sum.case
          by (rule wp_mono) (rule creates_one_before [OF q])
      qed (use q in \<open>simp add: wp_return creates_one_def\<close>)
    qed
    then show ?thesis by (simp add: create_plan_def ov wp_bind wp_random_suffix wp_call Inr)
  qed
qed

lemma improvement_keeps_cache:
  assumes "policy_cache_ok w"
  shows "wp (computeImprovementPct L C E pol) (\<lambda>_. policy_cache_ok) w"
proof (cases "pol_CurrentLayout (pol_Status pol) = [] \<or> stable_replicas (pol_CurrentLayout (pol_Status pol)) = []")
  case False
  then have ne: "pol_CurrentLayout (pol_Status pol) \<noteq> []" "stable_replicas (pol_CurrentLayout (pol_Status pol)) \<noteq> []" by simp_all
  show ?thesis unfolding computeImprovementPct_def if_not_P [OF ne(1)] if_not_P [OF ne(2)]
    by (subst wp_bind, rule wp_mono [OF gather_wp [OF assms extends_simps(2)]], rule preserves_wp)
      (auto simp: inputs_ok_def intro!: keep_intros split: sum.split)
qed (auto simp: computeImprovementPct_def wp_return assms)

lemma evaluate_active_wp:
  assumes "policy_cache_ok w" and "own_plan_law E" and since: "extends h0 (hist w)"
  shows "wp (evaluate_active L C E pol) (\<lambda>_ w'. creates_one (plans_for L C E h0 pol) (hist w) (hist w')) w"
proof -
  let ?w = "w\<lparr>hist := hist w @ [ActivePolicySet]\<rparr>"
  let ?Q = "\<lambda>_ w'. creates_one (plans_for L C E h0 pol) (hist w) (hist w')"
  let ?next = "\<lambda>i. case i of Inr improvementPct \<Rightarrow> create_plan L C E pol (improvementPct, ''summary'')
      | Inl err \<Rightarrow> if err = OptErr SolverNotImplemented then create_plan L C E pol (f0, ''solver-disabled'')
                  else report_solver_failure L C E pol err"
  have imp: "wp (computeImprovementPct L C E pol) (\<lambda>_ w'. policy_cache_ok w' \<and> ok quiet (hist ?w) (hist w')) ?w"
    unfolding wp_conj using assms(1) by (intro conjI improvement_keeps_cache quiet_wp improvement_quiet) simp
  have "wp (?next i) ?Q w'" if w': "policy_cache_ok w' \<and> ok quiet (hist ?w) (hist w')" for i w'
  proof -
    have before: "ok quiet (hist w) (hist w')" using w' by (auto intro: ok_trans [of _ "hist w" "hist ?w"])
    have "extends h0 (hist w')" using before since by (auto simp: ok_iff)
    then have "wp (create_plan L C E pol x) ?Q w'" for x
      by (rule wp_mono [OF create_plan_wp [OF conjunct1 [OF w'] assms(2)]]) (rule creates_one_before [OF before])
    moreover have "wp (report_solver_failure L C E pol err) ?Q w'" for err
      by (rule wp_mono [OF quiet_wp [OF report_quiet(2)]]) (simp add: creates_one_def ok_trans [OF before])
    ultimately show ?thesis by (simp split: sum.split)
  qed
  then have "wp (computeImprovementPct L C E pol) (\<lambda>i. wp (?next i) ?Q) ?w" by (rule wp_mono [OF imp]) simp
  moreover have "creates_one P h (h' @ [CalculationObserve])" if "creates_one P h h'" for P h h'
    by (rule creates_one_after [OF that]) simp
  ultimately show ?thesis
    unfolding evaluate_active_def by (simp add: wp_bind wp_call) (auto simp: wp_bind wp_call wp_return elim!: wp_mono)
qed

text \<open>The policy as the server returns it after the time of the evaluation has been written.\<close>

definition touched_policy :: "env \<Rightarrow> history \<Rightarrow> OptimizationPolicy \<Rightarrow> OptimizationPolicy" where
  "touched_policy E h pol =
    (let new = pol\<lparr>pol_Status := (pol_Status pol)\<lparr>pol_LastEvaluationTime := Some (env_now E h)\<rparr>\<rparr>
     in case env_write_policy E h (StatusPatchPolicy pol new) of Inl _ \<Rightarrow> new | Inr stored \<Rightarrow> stored)"

text \<open>A plan for the policy that the read after \<open>h\<close> returned, made in the history \<open>H\<close> of calls since that read.\<close>

definition plan_of_active :: "policy_lib \<Rightarrow> policy_cfg \<Rightarrow> env \<Rightarrow> nskey \<Rightarrow> history \<Rightarrow> history \<Rightarrow> ReOrchestrationPlan \<Rightarrow> bool" where
  "plan_of_active L C E key h H plan \<longleftrightarrow> (\<exists>pol0 pol. env_get_policy E h key = Inr pol0 \<and>
     pol = touched_policy E (h @ [GetPolicy key]) pol0 \<and> pol_Phase (pol_Status pol) = PolicyActive \<and> plan_for L C E h H pol plan)"

lemma evaluate_policy_wp:
  assumes "policy_cache_ok w" and "own_plan_law E"
  shows "wp (evaluate_policy L C E key) (\<lambda>_ w'. creates_one (plan_of_active L C E key (hist w)) (hist w) (hist w')) w"
proof (cases "env_get_policy E (hist w) key")
  case (Inl err)
  then show ?thesis by (simp add: evaluate_policy_def get_policy_def vcg creates_one_def)
next
  case (Inr pol0)
  let ?h = "hist w @ [GetPolicy key]"
  let ?new = "pol0\<lparr>pol_Status := (pol_Status pol0)\<lparr>pol_LastEvaluationTime := Some (env_now E ?h)\<rparr>\<rparr>"
  let ?pol = "touched_policy E ?h pol0" and ?w = "w\<lparr>hist := ?h @ [StatusPatchPolicy pol0 ?new]\<rparr>"
  have run: "wp (evaluate_policy L C E key) Q w = wp (if pol_Phase (pol_Status ?pol) \<noteq> PolicyActive then State_Monad.return None
      else evaluate_active L C E ?pol) Q ?w" for Q
    using Inr by (simp add: evaluate_policy_def get_policy_def patch_policy_def vcg touched_policy_def Let_def split: sum.split)
  have before: "ok quiet (hist w) (hist ?w)" by simp
  show ?thesis
  proof (cases "pol_Phase (pol_Status ?pol) = PolicyActive")
    case True
    then have pf: "plan_of_active L C E key (hist w) H p" if "plan_for L C E (hist w) H ?pol p" for H p
      using that Inr unfolding plan_of_active_def by blast
    have "wp (evaluate_active L C E ?pol) (\<lambda>_ w'. creates_one (plans_for L C E (hist w) ?pol) (hist ?w) (hist w')) ?w"
      by (rule evaluate_active_wp) (use assms in simp_all)
    then have "wp (evaluate_active L C E ?pol) (\<lambda>_ w'. creates_one (plan_of_active L C E key (hist w)) (hist w) (hist w')) ?w"
      by (rule wp_mono) (rule creates_one_before [OF before], erule creates_one_mono, erule pf)
    with True show ?thesis unfolding run by simp
  qed (unfold run, simp add: wp_return creates_one_def)
qed

lemma evaluation_creates:
  assumes "policy_cache_ok w" and "own_plan_law E"
    and "trace (defaultEvaluate L C E key) w = pre @ CreatePlan plan # post"
  shows "plan_of_active L C E key (hist w @ [GetPolicy key]) (hist w @ pre) plan \<and> list_all eval_event pre \<and> list_all eval_event post"
proof -
  let ?w = "w\<lparr>hist := hist w @ [GetPolicy key]\<rparr>"
  let ?P = "plan_of_active L C E key (hist w @ [GetPolicy key])"
  have "wp (evaluate_policy L C E key) (\<lambda>_ w'. creates_one ?P (hist ?w) (hist w')) ?w"
    using evaluate_policy_wp [of ?w E L C key] assms(1,2) by simp
  then have "wp (evaluate_policy L C E key) (\<lambda>_ w'. creates_one ?P (hist w) (hist w')) ?w"
    by (rule wp_mono) (auto intro: creates_one_before [of "hist w" "hist ?w"])
  moreover have "creates_one ?P (hist w) (hist ?w)" by (simp add: creates_one_def)
  ultimately have "wp (defaultEvaluate L C E key) (\<lambda>_ w'. creates_one ?P (hist w) (hist w')) w"
    by (simp add: defaultEvaluate_def get_policy_def vcg)
  then have one: "creates_one ?P (hist w) (hist (exec (defaultEvaluate L C E key) w))" by (simp add: wp_result)
  then have "take (length (hist w)) (hist (exec (defaultEvaluate L C E key) w)) = hist w"
    unfolding creates_one_def ok_iff by auto
  then have "hist (exec (defaultEvaluate L C E key) w) = hist w @ pre @ CreatePlan plan # post"
    using assms(3) unfolding trace_def by (metis append_take_drop_id)
  with creates_one_at one show ?thesis by metis
qed

text \<open>
  C4: An evaluation creates at most one plan, of an active policy. If a run of the evaluation creates a plan, every
  other call reads, or writes the status of the policy or of the plan, or emits events and metrics; the policy,
  read by the second call and stamped with the time, is Active; the plan is in its namespace, named after it,
  under its strategy, with an empty status; its moves are the differences between the stable layout of the
  policy and the assignment that the solver returned for the gathered problem, in the order of the layout, and
  the number of moves is the one in the summary when there is a goal. Without a stable replica there is no move.
  The candidate nodes, the node resources and the templates behind the requests of that problem are answers to calls
  that the run made between that read and the creation.
\<close>

theorem evaluation_plans_solver_difference:
  assumes "policy_cache_ok w" and "own_plan_law E"
    and "trace (defaultEvaluate L C E key) w = pre @ CreatePlan plan # post"
  shows "plan_of_active L C E key (hist w @ [GetPolicy key]) (hist w @ pre) plan \<and> list_all eval_event pre \<and> list_all eval_event post"
  using assms by (rule evaluation_creates)

end
