(* ===== verification/Policy_Plans.thy ===== *)
theory Policy_Plans
  imports Policy_Evaluation
begin

section \<open>From the evaluation to a placement that fits\<close>

text \<open>
  The optimizer, the solver and the evaluation of a policy together: what the plan of an evaluation does to the
  nodes of the clusters, when no plan is made, and runs of the evaluation on a concrete system.
\<close>

subsection \<open>A sample system\<close>

text \<open>One cluster with two nodes, both replicas of \<open>web\<close> on the first, and a solver that spreads them.\<close>

definition located :: "int32 \<Rightarrow> CurrentReplicaLocation" where
  "located i = \<lparr>crl_Name = ''web'', crl_Namespace = ''ns'', crl_ReplicaIndex = i, crl_ClusterId = ''east'', crl_NodeName = ''node-1'',
     crl_Source = ''RB'', crl_Stable = True, crl_UnstableReason = ''''\<rparr>"

definition crowded_policy :: OptimizationPolicy where
  "crowded_policy = (let p = sample_policy PolicyActive
     in p\<lparr>pol_Status := (pol_Status p)\<lparr>pol_CurrentLayout := [located 0, located 1]\<rparr>\<rparr>)"

definition two_nodes :: Cluster where
  "two_nodes = sample_cluster ''east'' [sample_summary ''node-1'' 4 8, sample_summary ''node-2'' 4 8]"

definition member_node :: "string \<Rightarrow> Node" where
  "member_node n = \<lparr>nd_Name = n, nd_UID = n, nd_Labels = [(''node.kubex.io/type'', ''instance-cost-profiles'')],
     nd_Capacity = [], nd_Allocatable = [(''cpu'', 4)], nd_Conditions = []\<rparr>"

fun written_plan :: "event \<Rightarrow> api_err + ReOrchestrationPlan" where
  "written_plan (CreatePlan p) = Inr p"
| "written_plan (StatusPatchPlan b p) = Inr p"
| "written_plan e = Inl gone"

definition crowded_env :: env where
  "crowded_env = policy_env\<lparr>env_get_policy := \<lambda>_ _. Inr crowded_policy, env_list_clusters := \<lambda>_. Inr [two_nodes],
     env_node := \<lambda>_ _ n. Inr (member_node n), env_get_configmap := \<lambda>_ k. Inr [(key_Name k, ''text'')],
     env_write_plan := \<lambda>_ e. written_plan e\<rparr>"

definition spread_lib :: policy_lib where
  "spread_lib = \<lparr>lib_profiles = sample_lib, lib_solver = (\<lambda>_ _ p. ORToolsSolver_Solve sample_mp None False p),
     lib_opt_text = (\<lambda>_. ''optimizer''), lib_deadline = (\<lambda>_. False), lib_MilliValue = (\<lambda>q. \<lfloor>1000 * q\<rfloor>),
     lib_Value = (\<lambda>q. \<lfloor>q\<rfloor>), lib_format_4g = (\<lambda>_. ''0'')\<rparr>"

subsection \<open>The plan fits\<close>






definition ortools_backend :: "policy_lib \<Rightarrow> MPSolver \<Rightarrow> bool" where
  "ortools_backend L mp \<longleftrightarrow> (\<forall>h t p. \<exists>ms expired. lib_solver L h t p = ORToolsSolver_Solve mp ms expired p)"


lemma diff_moves_same [simp]: "diff_moves cur cur rs = []"
  by (auto simp: diff_moves_def replica_moves_def split: option.split)

lemma diff_moves_none [simp]: "diff_moves cur [] rs = []"
  by (auto simp: diff_moves_def replica_moves_def split: option.split)







subsection \<open>Runs on the sample system\<close>

lemma crowded_laws: "policy_cache_ok fresh_world" "own_plan_law crowded_env" "ortools_backend spread_lib sample_mp"
  by (auto simp: policy_cache_ok_def fresh_world_def clients_ok_def own_plan_law_def crowded_env_def policy_env_def
      sample_env_def ortools_backend_def spread_lib_def)

lemma crowded_env_simps [simp]:
  "env_get_policy crowded_env h k = Inr crowded_policy" "env_list_clusters crowded_env h = Inr [two_nodes]"
  by (simp_all add: crowded_env_def)

fun creates_moves :: "nat \<Rightarrow> event \<Rightarrow> bool" where
  "creates_moves n (CreatePlan p) = (length (plan_Moves (plan_Spec p)) = n)"
| "creates_moves n e = False"

lemma crowded_run: "list_ex (creates_moves 1) (trace (defaultEvaluate spread_lib sample_cfg crowded_env policy_req) fresh_world)"
  by code_simp

lemma crowded_plan:
  obtains pre plan post where
    "trace (defaultEvaluate spread_lib sample_cfg crowded_env policy_req) fresh_world = pre @ CreatePlan plan # post"
    and "length (plan_Moves (plan_Spec plan)) = 1"
proof -
  from crowded_run obtain e where e: "e \<in> set (trace (defaultEvaluate spread_lib sample_cfg crowded_env policy_req) fresh_world)"
    "creates_moves 1 e" unfolding list_ex_iff by blast
  from e(2) obtain plan where plan: "e = CreatePlan plan" "length (plan_Moves (plan_Spec plan)) = 1" by (cases e) simp_all
  from split_list [OF e(1)] that plan show ?thesis by metis
qed

theorem evaluation_plans_solver_difference_witness:
  "\<exists>pre plan post. trace (defaultEvaluate spread_lib sample_cfg crowded_env policy_req) fresh_world = pre @ CreatePlan plan # post \<and>
    length (plan_Moves (plan_Spec plan)) = 1 \<and>
    plan_of_active spread_lib sample_cfg crowded_env policy_req [GetPolicy policy_req] pre plan \<and> list_all eval_event pre \<and> list_all eval_event post"
proof -
  obtain pre plan post where run:
    "trace (defaultEvaluate spread_lib sample_cfg crowded_env policy_req) fresh_world = pre @ CreatePlan plan # post"
    "length (plan_Moves (plan_Spec plan)) = 1" by (rule crowded_plan)
  moreover have "hist fresh_world = []" by (simp add: fresh_world_def)
  ultimately show ?thesis using evaluation_plans_solver_difference [OF crowded_laws(1,2) run(1)] by auto
qed


theorem gathered_problem_wellformed_witness:
  "\<exists>i. result (gather spread_lib sample_cfg crowded_env evaluate_service crowded_policy) fresh_world = Inr i \<and>
    (let v = wrap64 (int (length (ei_Replicas i)) * int (length (ei_Candidates i))) in
      BuildILPModel (problem_of i) =
        (if DefaultMaximumVariables < v then Inl (TooManyVariables v DefaultMaximumVariables)
         else Inr \<lparr>NumDecisionVars = v, NumConstraints = int (length (ei_Replicas i)) + 2 * int (length (ei_Candidates i))\<rparr>))"
proof -
  let ?r = "result (gather spread_lib sample_cfg crowded_env evaluate_service crowded_policy) fresh_world"
  have "\<not> isl ?r" by code_simp
  then obtain i where i: "?r = Inr i" by (cases ?r) auto
  have "stable_replicas (pol_CurrentLayout (pol_Status crowded_policy)) \<noteq> []" by code_simp
  from gathered_problem_wellformed [OF crowded_laws(1) i this] i show ?thesis by blast
qed

subsection \<open>Evaluations that change nothing\<close>


text \<open>
  A policy evaluated less than a minute ago is not evaluated again: the run reads the policy and does nothing
  else, whatever its phase. The bound is exact: after a full minute the run goes on to the evaluation.
\<close>

theorem evaluation_deduplicated:
  assumes "env_get_policy E (hist w) key = Inr pol" and "pol_LastEvaluationTime (pol_Status pol) = Some l"
    and "t = env_now E (hist w @ [GetPolicy key])" and "l \<le> t"
  shows "run_state (defaultEvaluate L C E key) w =
    (if t - l < 60 * Second then (None, w\<lparr>hist := hist w @ [GetPolicy key]\<rparr>)
     else run_state (evaluate_policy L C E key) (w\<lparr>hist := hist w @ [GetPolicy key]\<rparr>))"
proof -
  have "0 \<le> sat64 (t - l)" "sat64 (t - l) < 60 * Second \<longleftrightarrow> t - l < 60 * Second"
    using assms(4) by (auto simp: sat64_def Second_def)
  with assms show ?thesis
    by (simp add: defaultEvaluate_def get_policy_def call_def now_def just_evaluated_def dedupWindow_def
        State_Monad.bind_def State_Monad.return_def)
qed

text \<open>
  When the expected improvement cannot be computed, an evaluation returns that error and creates no plan: its
  other calls are reads, writes of the policy's status, events and metrics. In particular a problem with too many
  variables fails here and is reported as a solver error.
\<close>

theorem failed_estimate_creates_no_plan:
  assumes "result (computeImprovementPct L C E pol) (w\<lparr>hist := hist w @ [ActivePolicySet]\<rparr>) = Inl err"
    and "err \<noteq> OptErr SolverNotImplemented"
  shows "result (evaluate_active L C E pol) w = Some err \<and> list_all eval_event (trace (evaluate_active L C E pol) w)"
proof -
  let ?w = "w\<lparr>hist := hist w @ [ActivePolicySet]\<rparr>"
  let ?w1 = "exec (computeImprovementPct L C E pol) ?w"
  have "returns (\<lambda>r. r = Some err) (report_solver_failure L C E pol err)"
    unfolding report_solver_failure_def Let_def by (auto intro!: return_intros split: prod.split)
  then have report: "wp (report_solver_failure L C E pol err) (\<lambda>r _. r = Some err) w'" for w' by (simp add: returns_def)
  have "ok quiet (hist ?w) (hist ?w1)" using quiet_wp [OF improvement_quiet, of L C E pol ?w] by (simp add: wp_result)
  then have before: "ok quiet (hist w) (hist ?w1)" by (auto intro: ok_trans [of _ "hist w" "hist ?w"])
  have "wp (report_solver_failure L C E pol err) (\<lambda>r w'. r = Some err \<and> ok quiet (hist w) (hist w')) ?w1"
    unfolding wp_conj
    by (intro conjI report) (rule wp_mono [OF quiet_wp [OF report_quiet(2)]], rule ok_trans [OF before])
  then have "wp (evaluate_active L C E pol) (\<lambda>r w'. r = Some err \<and> ok quiet (hist w) (hist w')) w"
    using assms unfolding evaluate_active_def
    by (simp add: wp_bind wp_call wp_result [of "computeImprovementPct L C E pol"]) (auto simp: wp_bind wp_call wp_return elim!: wp_mono)
  then show ?thesis by (simp add: wp_result ok_trace_plain)
qed

text \<open>
  C25: A plan below the threshold is executed all the same. The evaluation marks the plan of a Conservative policy
  whose improvement is below the threshold as not executed, in its annotations and in a condition; a run of the
  plan controller on that plan sets it to Executing at once.
\<close>

theorem below_threshold_still_executes:
  assumes "below_threshold pol improvementPct" and "plan_for L C E h0 H pol plan"
    and "p = (threshold_notes E pol plan)\<lparr>plan_Status := initial_status L pol improvementPct t\<rparr>"
    and "env_get_plan E (hist w) req = Inr p"
  shows "mget (om_Annotations (plan_Meta p)) ''kubex.io/notExecuted'' = Some ''improvement below threshold'' \<and>
    (\<exists>t post. trace (plan_Reconcile E req) w = GetPlan req # StatusPatchPlan p (decide_plan E t p) # post \<and>
      phase_of (decide_plan E t p) = PlanExecuting)"
proof -
  have s: "plan_strategy p = ''Conservative''"
    using assms(1,2) by (simp add: assms(3) below_threshold_def plan_for_def plan_strategy_def)
      (simp add: threshold_notes_def annotate_def mget0_def)
  have ph: "phase_of p = PlanPending" by (simp add: assms(3) phase_of_def initial_status_def)
  have noted: "mget (om_Annotations (plan_Meta p)) ''kubex.io/notExecuted'' = Some ''improvement below threshold''"
    by (simp add: assms(3) threshold_notes_def annotate_def)
  have ex: "phase_of (decide_plan E t p) = PlanExecuting" for t
    by (simp add: decide_plan_def s plan_decision_def phase_of_def)
  let ?t = "env_now E (hist w @ [GetPlan req])"
  let ?e = "StatusPatchPlan p (decide_plan E ?t p)" and ?w = "w\<lparr>hist := (hist w @ [GetPlan req]) @ [StatusPatchPlan p (decide_plan E ?t p)]\<rparr>"
  have "guar plan_ok (case r of Inl err \<Rightarrow> ignore_missing err | Inr plan \<Rightarrow> State_Monad.bind (executeMoves E plan)
      (\<lambda>err. case err of Some e \<Rightarrow> fail_with e | None \<Rightarrow> State_Monad.bind (monitorAndConverge E plan)
        (\<lambda>res. State_Monad.return (case snd res of Some e \<Rightarrow> (0, Some e) | None \<Rightarrow> res))))" for r
    by (intro guar_intros)
  note rest = this [unfolded guar_wp, rule_format, where w = ?w]
  have "wp (plan_Reconcile E req) (\<lambda>_ w'. ok plan_ok (hist ?w) (hist w')) w"
    using assms(4) ph s rest unfolding plan_Reconcile_def
    by (simp add: vcg io_defs phase_of_def plan_finished_def plan_decision_def Let_def)
  then have "\<exists>post. hist (exec (plan_Reconcile E req) w) = hist ?w @ post" by (auto simp: wp_result ok_iff)
  then have "\<exists>post. trace (plan_Reconcile E req) w = GetPlan req # ?e # post" by (auto simp: trace_def)
  with ex show ?thesis using noted by blast
qed

definition just_done :: OptimizationPolicy where
  "just_done = crowded_policy\<lparr>pol_Status := (pol_Status crowded_policy)\<lparr>pol_LastEvaluationTime := Some 5\<rparr>\<rparr>"

definition just_done_env :: env where
  "just_done_env = crowded_env\<lparr>env_get_policy := \<lambda>_ _. Inr just_done\<rparr>"

theorem evaluation_deduplicated_witness:
  "run_state (defaultEvaluate spread_lib sample_cfg just_done_env policy_req) fresh_world =
    (if 7 - 5 < 60 * Second then (None, fresh_world\<lparr>hist := hist fresh_world @ [GetPolicy policy_req]\<rparr>)
     else run_state (evaluate_policy spread_lib sample_cfg just_done_env policy_req)
       (fresh_world\<lparr>hist := hist fresh_world @ [GetPolicy policy_req]\<rparr>))"
  by (rule evaluation_deduplicated [where pol = just_done])
    (simp_all add: just_done_env_def just_done_def crowded_env_def policy_env_def sample_env_def)

text \<open>Without ConfigMaps there is no improvement to compute.\<close>

definition bare_env :: env where
  "bare_env = crowded_env\<lparr>env_get_configmap := \<lambda>_ _. Inl gone\<rparr>"

theorem failed_estimate_creates_no_plan_witness:
  "result (evaluate_active spread_lib sample_cfg bare_env crowded_policy) fresh_world = Some (ApiErr '''' gone) \<and>
    list_all eval_event (trace (evaluate_active spread_lib sample_cfg bare_env crowded_policy) fresh_world)"
  by (rule failed_estimate_creates_no_plan) code_simp+

text \<open>A plan without moves for a policy without a layout.\<close>

definition idle_plan :: ReOrchestrationPlan where
  "idle_plan = with_summary 0 f0 f0 f0 (new_plan policy_env (sample_policy PolicyActive) ''abcdef'' f0 ''summary'')"

definition noted_plan :: ReOrchestrationPlan where
  "noted_plan = (threshold_notes policy_env (sample_policy PolicyActive) idle_plan)
     \<lparr>plan_Status := initial_status spread_lib (sample_policy PolicyActive) f0 7\<rparr>"

definition noted_env :: env where
  "noted_env = policy_env\<lparr>env_get_plan := \<lambda>_ _. Inr noted_plan\<rparr>"

theorem below_threshold_still_executes_witness:
  "mget (om_Annotations (plan_Meta noted_plan)) ''kubex.io/notExecuted'' = Some ''improvement below threshold'' \<and>
    (\<exists>t post. trace (plan_Reconcile noted_env policy_req) fresh_world =
        GetPlan policy_req # StatusPatchPlan noted_plan (decide_plan noted_env t noted_plan) # post \<and>
      phase_of (decide_plan noted_env t noted_plan) = PlanExecuting)"
proof (rule below_threshold_still_executes [where pol = "sample_policy PolicyActive" and improvementPct = f0
      and L = spread_lib and C = sample_cfg and ?h0.0 = "[]" and H = "[]" and plan = idle_plan])
  show "below_threshold (sample_policy PolicyActive) f0" by code_simp
  show "plan_for spread_lib sample_cfg noted_env [] [] (sample_policy PolicyActive) idle_plan"
    by (simp add: plan_for_def moves_planned_def idle_plan_def new_plan_def with_summary_def sample_policy_def stable_replicas_def
        plan_strategy_def mget0_def bare_summary_def)
  show "noted_plan = (threshold_notes noted_env (sample_policy PolicyActive) idle_plan)
      \<lparr>plan_Status := initial_status spread_lib (sample_policy PolicyActive) f0 7\<rparr>"
    by (simp add: noted_plan_def noted_env_def threshold_notes_def)
  show "env_get_plan noted_env (hist fresh_world) policy_req = Inr noted_plan" by (simp add: noted_env_def)
qed

end
