(* ===== verification/Rest_Applier.thy ===== *)
theory Rest_Applier
  imports Member_Clients
begin

section \<open>The REST server: access to the control plane\<close>

text \<open>
  \<open>src/server/internal/kube/cluster_apply.go\<close>: the operations on which the handlers of the server rest. The server
  is another client of the same API server, so its calls go to the same history; \<open>rest_env\<close> answers the calls
  that only the server makes. \<open>retry.RetryOnConflict\<close> runs its function again while it answers with a conflict, at
  most \<open>rest_retries\<close> more times, and returns the last answer; what the function assigns to variables of its
  surroundings stays assigned. Encoding an object of the API as JSON does not fail.
\<close>

record rest_env =
  rest_list_clusters :: "history \<Rightarrow> string \<Rightarrow> api_err + Cluster list"
  rest_list_gd :: "history \<Rightarrow> string \<Rightarrow> api_err + GlobalDeployment list"
  rest_list_policies :: "history \<Rightarrow> string \<Rightarrow> api_err + OptimizationPolicy list"
  rest_list_plans :: "history \<Rightarrow> string \<Rightarrow> api_err + ReOrchestrationPlan list"
  rest_write :: "history \<Rightarrow> rest_call \<Rightarrow> api_err option"
  rest_secret_version :: "history \<Rightarrow> nskey \<Rightarrow> api_err + string"
  rest_type_meta :: "history \<Rightarrow> nskey \<Rightarrow> string \<times> string"
  rest_retries :: nat

definition rest :: "rest_env \<Rightarrow> rest_call \<Rightarrow> api_err option io" where
  "rest R c = call (Rest c) (\<lambda>h. rest_write R h c)"

definition ns_key :: "string \<Rightarrow> string \<Rightarrow> nskey" where
  "ns_key ns n = \<lparr>key_Name = n, key_Namespace = ns\<rparr>"

subsection \<open>Reads, deletes and Secrets\<close>

definition GetTypedClusterCR :: "env \<Rightarrow> string \<Rightarrow> string \<Rightarrow> (api_err + Cluster) io" where
  "GetTypedClusterCR E ns clusterID = get_cluster E (ns_key ns clusterID)"

definition GetSecretData :: "env \<Rightarrow> string \<Rightarrow> string \<Rightarrow> (api_err + (string, string) gomap) io" where
  "GetSecretData E ns name = get_secret E (ns_key ns name)"

definition ListTypedClusterCRs :: "rest_env \<Rightarrow> string \<Rightarrow> (api_err + Cluster list) io" where
  "ListTypedClusterCRs R ns = call (Rest (ListClustersIn ns)) (\<lambda>h. rest_list_clusters R h ns)"

definition DeleteTypedClusterCR :: "rest_env \<Rightarrow> string \<Rightarrow> string \<Rightarrow> api_err option io" where
  "DeleteTypedClusterCR R ns clusterID = rest R (RemoveCluster (ns_key ns clusterID))"

definition CreateSecret :: "rest_env \<Rightarrow> string \<Rightarrow> Secret \<Rightarrow> api_err option io" where
  "CreateSecret R ns s = do {
     err \<leftarrow> rest R (CreateSecretCall s);
     case err of
       None \<Rightarrow> State_Monad.return None
     | Some e \<Rightarrow>
         if \<not> IsAlreadyExists e then State_Monad.return (Some e)
         else do {
           g \<leftarrow> call (GetSecret (ns_key ns (sec_Name s))) (\<lambda>h. rest_secret_version R h (ns_key ns (sec_Name s)));
           case g of
             Inl gerr \<Rightarrow> State_Monad.return (Some gerr)
           | Inr v \<Rightarrow> rest R (UpdateSecretCall (s\<lparr>sec_ResourceVersion := v\<rparr>))
         }
   }"

definition ListTypedGlobalDeploymentCRs :: "rest_env \<Rightarrow> string \<Rightarrow> (api_err + GlobalDeployment list) io" where
  "ListTypedGlobalDeploymentCRs R ns = call (Rest (ListGDIn ns)) (\<lambda>h. rest_list_gd R h ns)"

definition GetTypedGlobalDeploymentCR :: "env \<Rightarrow> string \<Rightarrow> string \<Rightarrow> (api_err + GlobalDeployment) io" where
  "GetTypedGlobalDeploymentCR E ns name = get_gd E (ns_key ns name)"

definition ListTypedReplicaBindingCRs :: "env \<Rightarrow> string \<Rightarrow> (api_err + ReplicaBinding list) io" where
  "ListTypedReplicaBindingCRs E ns = list_rb E ns"

definition DeleteTypedReplicaBindingCR :: "rest_env \<Rightarrow> string \<Rightarrow> string \<Rightarrow> api_err option io" where
  "DeleteTypedReplicaBindingCR R ns name = rest R (RemoveRB (ns_key ns name))"

definition DeleteTypedGlobalDeploymentCR :: "rest_env \<Rightarrow> string \<Rightarrow> string \<Rightarrow> api_err option io" where
  "DeleteTypedGlobalDeploymentCR R ns name = rest R (RemoveGD (ns_key ns name))"

definition get_policy_cr :: "env \<Rightarrow> nskey \<Rightarrow> (api_err + OptimizationPolicy) io" where
  "get_policy_cr E k = call (GetPolicy k) (\<lambda>h. env_get_policy E h k)"

definition GetTypedOptimizationPolicyCR :: "env \<Rightarrow> string \<Rightarrow> string \<Rightarrow> (api_err + OptimizationPolicy) io" where
  "GetTypedOptimizationPolicyCR E ns name = get_policy_cr E (ns_key ns name)"

definition ListTypedOptimizationPolicyCRs :: "rest_env \<Rightarrow> string \<Rightarrow> (api_err + OptimizationPolicy list) io" where
  "ListTypedOptimizationPolicyCRs R ns = call (Rest (ListPoliciesIn ns)) (\<lambda>h. rest_list_policies R h ns)"

definition DeleteTypedOptimizationPolicyCR :: "rest_env \<Rightarrow> string \<Rightarrow> string \<Rightarrow> api_err option io" where
  "DeleteTypedOptimizationPolicyCR R ns name = rest R (RemovePolicy (ns_key ns name))"

definition GetTypedReOrchestrationPlanCR :: "env \<Rightarrow> string \<Rightarrow> string \<Rightarrow> (api_err + ReOrchestrationPlan) io" where
  "GetTypedReOrchestrationPlanCR E ns name = get_plan E (ns_key ns name)"

definition ListTypedReOrchestrationPlanCRs :: "rest_env \<Rightarrow> string \<Rightarrow> (api_err + ReOrchestrationPlan list) io" where
  "ListTypedReOrchestrationPlanCRs R ns = call (Rest (ListPlansIn ns)) (\<lambda>h. rest_list_plans R h ns)"

subsection \<open>Create or update\<close>

fun retry_on_conflict :: "nat \<Rightarrow> ('s \<Rightarrow> (api_err option \<times> 's) io) \<Rightarrow> 's \<Rightarrow> (api_err option \<times> 's) io" where
  "retry_on_conflict 0 fn s = fn s"
| "retry_on_conflict (Suc n) fn s = do {
     (err, s) \<leftarrow> fn s;
     case err of
       None \<Rightarrow> State_Monad.return (None, s)
     | Some e \<Rightarrow> if IsConflict e then retry_on_conflict n fn s else State_Monad.return (Some e, s)
   }"

text \<open>
  The function that the three Apply operations retry: GET, then POST when there is no object, otherwise PUT with
  the version just read. The kind of object is given by its GET, its metadata with their update, POST and PUT.
\<close>

definition with_version :: "string \<Rightarrow> ObjectMeta \<Rightarrow> ObjectMeta" where
  "with_version v m = m\<lparr>om_ResourceVersion := v\<rparr>"

definition in_namespace :: "string \<Rightarrow> ObjectMeta \<Rightarrow> ObjectMeta" where
  "in_namespace ns m = m\<lparr>om_Namespace := ns\<rparr>"

definition apply_attempt ::
  "rest_env \<Rightarrow> (nskey \<Rightarrow> (api_err + 'o) io) \<Rightarrow> ('o \<Rightarrow> ObjectMeta) \<Rightarrow> ((ObjectMeta \<Rightarrow> ObjectMeta) \<Rightarrow> 'o \<Rightarrow> 'o)
     \<Rightarrow> ('o \<Rightarrow> rest_call) \<Rightarrow> ('o \<Rightarrow> rest_call) \<Rightarrow> nskey \<Rightarrow> 'o \<Rightarrow> (api_err option \<times> 'o) io" where
  "apply_attempt R get meta update post put k obj = do {
     g \<leftarrow> get k;
     case g of
       Inl err \<Rightarrow>
         if IsNotFound err then do { r \<leftarrow> rest R (post obj); State_Monad.return (r, obj) }
         else State_Monad.return (Some err, obj)
     | Inr old \<Rightarrow>
         (let obj = update (with_version (om_ResourceVersion (meta old))) obj in
          do { r \<leftarrow> rest R (put obj); State_Monad.return (r, obj) })
   }"

definition apply_typed ::
  "rest_env \<Rightarrow> (nskey \<Rightarrow> (api_err + 'o) io) \<Rightarrow> ('o \<Rightarrow> ObjectMeta) \<Rightarrow> ((ObjectMeta \<Rightarrow> ObjectMeta) \<Rightarrow> 'o \<Rightarrow> 'o)
     \<Rightarrow> ('o \<Rightarrow> rest_call) \<Rightarrow> ('o \<Rightarrow> rest_call) \<Rightarrow> string \<Rightarrow> 'o \<Rightarrow> api_err option io" where
  "apply_typed R get meta update post put ns obj = do {
     (err, _) \<leftarrow> retry_on_conflict (rest_retries R)
        (apply_attempt R get meta update post put (ns_key ns (om_Name (meta obj)))) (update (in_namespace ns) obj);
     State_Monad.return err
   }"

definition ApplyTypedClusterCR :: "rest_env \<Rightarrow> env \<Rightarrow> string \<Rightarrow> Cluster \<Rightarrow> api_err option io" where
  "ApplyTypedClusterCR R E = apply_typed R (get_cluster E) cl_Meta cl_Meta_update PostCluster PutCluster"

definition ApplyTypedGlobalDeploymentCR :: "rest_env \<Rightarrow> env \<Rightarrow> string \<Rightarrow> GlobalDeployment \<Rightarrow> api_err option io" where
  "ApplyTypedGlobalDeploymentCR R E = apply_typed R (get_gd E) gd_Meta gd_Meta_update PostGD PutGD"

definition ApplyTypedOptimizationPolicyCR :: "rest_env \<Rightarrow> env \<Rightarrow> string \<Rightarrow> OptimizationPolicy \<Rightarrow> api_err option io" where
  "ApplyTypedOptimizationPolicyCR R E = apply_typed R (get_policy_cr E) pol_Meta pol_Meta_update PostPolicy PutPolicy"

subsection \<open>The contract of a resource\<close>

lemma wp_funs:
  "wp (State_Monad.bind m f) Q = wp m (\<lambda>x. wp (f x) Q)" "wp (State_Monad.return x) Q = Q x"
  "wp (call e a) Q = (\<lambda>w. Q (a (hist w)) (w\<lparr>hist := hist w @ [e]\<rparr>))"
  by (simp_all add: fun_eq_iff vcg)

text \<open>
  What the three kinds have in common: one call reads an object by its key, and the metadata can be updated. All
  statements about Apply are proved once from this.
\<close>

locale typed_resource =
  fixes get :: "nskey \<Rightarrow> (api_err + 'o) io"
    and event :: "nskey \<Rightarrow> event"
    and answer :: "history \<Rightarrow> nskey \<Rightarrow> api_err + 'o"
    and meta :: "'o \<Rightarrow> ObjectMeta"
    and update :: "(ObjectMeta \<Rightarrow> ObjectMeta) \<Rightarrow> 'o \<Rightarrow> 'o"
    and post :: "'o \<Rightarrow> rest_call"
    and put :: "'o \<Rightarrow> rest_call"
  assumes get_call: "get k = call (event k) (\<lambda>h. answer h k)"
    and meta_update: "meta (update f x) = f (meta x)"
    and update_update: "update f (update g x) = update (\<lambda>m. f (g m)) x"
begin

abbreviation attempt :: "rest_env \<Rightarrow> nskey \<Rightarrow> 'o \<Rightarrow> (api_err option \<times> 'o) io" where
  "attempt R \<equiv> apply_attempt R get meta update post put"

text \<open>The objects an Apply of \<open>obj\<close> may write: only the resource version is open.\<close>

definition versions :: "'o \<Rightarrow> 'o set" where
  "versions obj = insert obj (range (\<lambda>v. update (with_version v) obj))"

lemma versions_closed: "x \<in> versions obj \<Longrightarrow> update (with_version v) x \<in> versions obj"
proof -
  have "(\<lambda>m. with_version v (with_version u m)) = with_version v" for u by (simp add: fun_eq_iff with_version_def)
  then show "x \<in> versions obj \<Longrightarrow> update (with_version v) x \<in> versions obj" by (auto simp: versions_def update_update)
qed

lemma versions_same: "x \<in> versions obj \<Longrightarrow> update (with_version v) x = update (with_version v) obj"
proof -
  have "(\<lambda>m. with_version v (with_version u m)) = with_version v" for u by (simp add: fun_eq_iff with_version_def)
  then show "x \<in> versions obj \<Longrightarrow> update (with_version v) x = update (with_version v) obj" by (auto simp: versions_def update_update)
qed

text \<open>
  A write comes right after a GET: a PUT of the object with the version that this GET answered, or a POST when there
  was nothing.
\<close>

definition writes_version :: "nskey \<Rightarrow> 'o \<Rightarrow> history \<Rightarrow> event \<Rightarrow> bool" where
  "writes_version k obj h e \<longleftrightarrow> e = event k \<or> (\<exists>h0. h = h0 @ [event k] \<and> (case answer h0 k of
      Inl err \<Rightarrow> IsNotFound err \<and> (\<exists>x \<in> versions obj. e = Rest (post x))
    | Inr cur \<Rightarrow> e = Rest (put (update (with_version (om_ResourceVersion (meta cur))) obj))))"

lemma attempt_ok:
  assumes "x \<in> versions obj"
  shows "wp (attempt R k x) (\<lambda>r w'. snd r \<in> versions obj \<and> ok (writes_version k obj) (hist w) (hist w')) w"
  using assms versions_closed [OF assms] versions_same [OF assms]
  by (auto simp: apply_attempt_def rest_def get_call vcg writes_version_def Let_def split: sum.split)

lemma retry_ok:
  assumes "x \<in> versions obj"
  shows "wp (retry_on_conflict n (attempt R k) x) (\<lambda>_ w'. ok (writes_version k obj) (hist w) (hist w')) w"
  using assms
proof (induction n arbitrary: x w)
  case 0
  show ?case unfolding retry_on_conflict.simps by (rule wp_mono [OF attempt_ok [OF 0]]) simp
next
  case (Suc n)
  have "wp (case r of (None, s) \<Rightarrow> State_Monad.return (None, s)
        | (Some e, s) \<Rightarrow> if IsConflict e then retry_on_conflict n (attempt R k) s else State_Monad.return (Some e, s))
      (\<lambda>_ w'. ok (writes_version k obj) (hist w) (hist w')) w'"
    if "snd r \<in> versions obj \<and> ok (writes_version k obj) (hist w) (hist w')" for r w'
    using that Suc.IH [of "snd r" w'] by (auto simp: wp_return split: prod.split option.split elim!: wp_mono intro: ok_trans)
  then show ?case unfolding retry_on_conflict.simps wp_bind
    by (intro wp_mono [OF attempt_ok [OF Suc.prems]]) (auto simp: case_prod_unfold split: option.splits)
qed

lemma apply_writes_versions:
  "guar (writes_version (ns_key ns (om_Name (meta obj))) (update (in_namespace ns) obj))
     (apply_typed R get meta update post put ns obj)"
  unfolding guar_wp apply_typed_def wp_bind
  by (intro allI, rule wp_mono [OF retry_ok]) (auto simp: versions_def wp_return split: prod.split)

text \<open>A successful Apply ends with the POST or PUT that the server accepted.\<close>

definition stored :: "rest_env \<Rightarrow> 'o \<Rightarrow> history \<Rightarrow> bool" where
  "stored R obj h \<longleftrightarrow> (\<exists>pre c. \<exists>x \<in> versions obj. h = pre @ [Rest c] \<and> (c = post x \<or> c = put x) \<and> rest_write R pre c = None)"

lemma attempt_stores:
  assumes "x \<in> versions obj"
  shows "wp (attempt R k x) (\<lambda>r w'. snd r \<in> versions obj \<and> (fst r = None \<longrightarrow> stored R obj (hist w'))) w"
  using assms versions_closed [OF assms]
  by (auto simp: apply_attempt_def rest_def get_call vcg stored_def Let_def split: sum.split)

lemma retry_stores:
  assumes "x \<in> versions obj"
  shows "wp (retry_on_conflict n (attempt R k) x) (\<lambda>r w'. fst r = None \<longrightarrow> stored R obj (hist w')) w"
  using assms
proof (induction n arbitrary: x w)
  case 0
  show ?case unfolding retry_on_conflict.simps by (rule wp_mono [OF attempt_stores [OF 0]]) simp
next
  case (Suc n)
  show ?case unfolding retry_on_conflict.simps wp_bind
    by (rule wp_mono [OF attempt_stores [OF Suc.prems]]) (auto simp: wp_return Suc.IH split: prod.split option.split)
qed

lemma apply_stores:
  "wp (apply_typed R get meta update post put ns obj) (\<lambda>r w'. r = None \<longrightarrow> stored R (update (in_namespace ns) obj) (hist w')) w"
  unfolding apply_typed_def wp_bind
  by (rule wp_mono [OF retry_stores]) (auto simp: versions_def wp_return split: prod.split)

text \<open>With an object on the server and no conflict, Apply replaces it.\<close>

lemma apply_replaces:
  assumes "answer (hist w) (ns_key ns (om_Name (meta obj))) = Inr old"
    and "new = update (with_version (om_ResourceVersion (meta old))) (update (in_namespace ns) obj)"
    and "rest_write R (hist w @ [event (ns_key ns (om_Name (meta obj)))]) (put new) = err"
    and "\<And>e. err = Some e \<Longrightarrow> \<not> IsConflict e"
  shows "run_state (apply_typed R get meta update post put ns obj) w =
    (err, w\<lparr>hist := hist w @ [event (ns_key ns (om_Name (meta obj))), Rest (put new)]\<rparr>)"
proof -
  let ?k = "ns_key ns (om_Name (meta obj))"
  have one: "run_state (attempt R ?k (update (in_namespace ns) obj)) w =
      ((err, new), w\<lparr>hist := hist w @ [event ?k, Rest (put new)]\<rparr>)"
    using assms by (simp add: apply_attempt_def get_call rest_def call_def State_Monad.bind_def State_Monad.return_def Let_def)
  then have "run_state (retry_on_conflict n (attempt R ?k) (update (in_namespace ns) obj)) w =
      ((err, new), w\<lparr>hist := hist w @ [event ?k, Rest (put new)]\<rparr>)" for n
    using assms(4) by (cases n) (auto simp: State_Monad.bind_def State_Monad.return_def split: option.split)
  then show ?thesis by (simp add: apply_typed_def State_Monad.bind_def State_Monad.return_def)
qed

end

interpretation cluster_kind: typed_resource "get_cluster E" GetCluster "env_get_cluster E" cl_Meta cl_Meta_update PostCluster PutCluster for E
  by unfold_locales (simp_all add: get_cluster_def)

interpretation gd_kind: typed_resource "get_gd E" GetGD "env_get_gd E" gd_Meta gd_Meta_update PostGD PutGD for E
  by unfold_locales (simp_all add: get_gd_def)

interpretation policy_kind: typed_resource "get_policy_cr E" GetPolicy "env_get_policy E" pol_Meta pol_Meta_update PostPolicy PutPolicy for E
  by unfold_locales (simp_all add: get_policy_cr_def)

end
