(* ===== verification/Cluster_Handlers.thy ===== *)
theory Cluster_Handlers
  imports Rest_Applier
begin

section \<open>The REST server: clusters\<close>

text \<open>
  \<open>src/server/internal/api/cluster_handler.go\<close>: the handlers that import, list, read, update and delete clusters. A
  handler gets what gin's \<open>ShouldBind\<close> made of the request: an error text, or the request with its required fields
  filled. \<open>Fail\<close> is a JSON error answer, \<open>Panic\<close> what gin's recovery turns into status 500. Responses are records;
  which empty fields JSON leaves out is not modelled. A nil map and an empty one are both \<open>[]\<close>. \<open>server_lib\<close>
  holds the library functions: \<open>uuid.NewString\<close>, RFC 3339 and quantity texts and \<open>clientcmd.Load\<close>.
\<close>

datatype 'a reply = Fail nat string | Answer nat 'a | Panic

record Kubeconfig =
  kc_CurrentContext :: string
  kc_Contexts :: "(string, string option) gomap"
  kc_Clusters :: "(string, string option) gomap"

text \<open>A context is its cluster name, a cluster its server; \<open>None\<close> is a nil pointer.\<close>

record server_lib =
  srv_uuid :: "history \<Rightarrow> string"
  srv_rfc3339 :: "time \<Rightarrow> string"
  srv_quantity :: "quantity \<Rightarrow> string"
  srv_load :: "string \<Rightarrow> api_err + Kubeconfig"

definition AnnotationDescription :: string where
  "AnnotationDescription = ''kubex.io/description''"

definition AnnotationName :: string where
  "AnnotationName = ''kubex.io/name''"

subsection \<open>Pages\<close>

text \<open>Every list handler takes its page from the same lines.\<close>

definition page_number :: "int64 \<Rightarrow> int64" where
  "page_number p = (if p \<le> 0 then 1 else p)"

definition page_size :: "int64 \<Rightarrow> int64" where
  "page_size s = (if s \<le> 0 then 10 else if s > 100 then 100 else s)"

definition page_start :: "int64 \<Rightarrow> int64 \<Rightarrow> int64" where
  "page_start page pageSize = wrap64 ((page - 1) * pageSize)"

definition page_window :: "int64 \<Rightarrow> int64 \<Rightarrow> 'a list \<Rightarrow> 'a list option" where
  "page_window start pageSize items =
    (let total = int (length items); end' = wrap64 (start + pageSize)
     in go_slice start (if end' > total then total else end') items)"

text \<open>ListClusters moves a start beyond the end back to it, the other handlers answer with no items.\<close>

definition cluster_page :: "int64 \<Rightarrow> int64 \<Rightarrow> 'a list \<Rightarrow> 'a list option" where
  "cluster_page page pageSize items =
    (let start = page_start page pageSize; total = int (length items)
     in page_window (if start > total then total else start) pageSize items)"

definition list_page :: "int64 \<Rightarrow> int64 \<Rightarrow> 'a list \<Rightarrow> 'a list option" where
  "list_page page pageSize items =
    (let start = page_start page pageSize in if start \<ge> int (length items) then Some [] else page_window start pageSize items)"

subsection \<open>Label selectors\<close>

definition selector_part :: "string \<Rightarrow> (string, string) gomap \<Rightarrow> (string, string) gomap" where
  "selector_part part res =
    (let p = trim_space part in
     if p = '''' then res
     else case split_first (CHR ''='') p of
       None \<Rightarrow> res
     | Some (k, v) \<Rightarrow> if trim_space k = '''' then res else mput (trim_space k) (trim_space v) res)"

definition parseLabelSelector :: "string \<Rightarrow> (string, string) gomap" where
  "parseLabelSelector s = (let s = trim_space s in if s = '''' then [] else fold selector_part (str_split (CHR '','') s) [])"

definition matchLabels :: "(string, string) gomap \<Rightarrow> (string, string) gomap \<Rightarrow> bool" where
  "matchLabels labels selector =
    (if selector = [] then True
     else if labels = [] then False
     else list_all (\<lambda>(k, v). mget0 '''' labels k = v) selector)"

subsection \<open>Lists of clusters\<close>

record ListClustersRequest =
  lc_Page :: int64
  lc_PageSize :: int64
  lc_Name :: string
  lc_Provider :: string
  lc_Status :: string
  lc_LabelSelector :: string

record ClusterItem =
  ci_ClusterID :: string
  ci_Name :: string
  ci_Description :: string
  ci_Provider :: string
  ci_Status :: string
  ci_APIEndpoint :: string
  ci_Labels :: "(string, string) gomap"
  ci_CreatedAt :: string
  ci_UpdatedAt :: string

record ListClustersResponse =
  lcr_Total :: int64
  lcr_Page :: int64
  lcr_PageSize :: int64
  lcr_Items :: "ClusterItem list"

fun cluster_phase_text :: "ClusterPhase \<Rightarrow> string" where
  "cluster_phase_text ClusterPhaseNone = ''''"
| "cluster_phase_text Importing = ''Importing''"
| "cluster_phase_text ClusterReady = ''Ready''"
| "cluster_phase_text NotReady = ''NotReady''"
| "cluster_phase_text ClusterFailed = ''Failed''"
| "cluster_phase_text (ClusterPhaseOther s) = s"

definition cluster_status :: "Cluster \<Rightarrow> string" where
  "cluster_status c = (let s = cluster_phase_text (cl_Phase c) in if s = '''' then ''Importing'' else s)"

definition updated_at :: "server_lib \<Rightarrow> Cluster \<Rightarrow> string" where
  "updated_at V c = (case cl_UpdatedAt c of None \<Rightarrow> '''' | Some t \<Rightarrow> srv_rfc3339 V t)"

definition cluster_item :: "server_lib \<Rightarrow> Cluster \<Rightarrow> ClusterItem" where
  "cluster_item V c =
    \<lparr>ci_ClusterID = om_Name (cl_Meta c), ci_Name = mget0 '''' (om_Annotations (cl_Meta c)) AnnotationName,
     ci_Description = mget0 '''' (om_Annotations (cl_Meta c)) AnnotationDescription,
     ci_Provider = mget0 '''' (om_Labels (cl_Meta c)) ''provider'', ci_Status = cluster_status c,
     ci_APIEndpoint = cl_APIEndpoint c, ci_Labels = om_Labels (cl_Meta c),
     ci_CreatedAt = srv_rfc3339 V (om_CreationTimestamp (cl_Meta c)), ci_UpdatedAt = updated_at V c\<rparr>"

definition cluster_listed :: "ListClustersRequest \<Rightarrow> Cluster \<Rightarrow> bool" where
  "cluster_listed req c =
    (let name = mget0 '''' (om_Annotations (cl_Meta c)) AnnotationName;
         provider = mget0 '''' (om_Labels (cl_Meta c)) ''provider'';
         selector = parseLabelSelector (lc_LabelSelector req) in
     \<not> (lc_Name req \<noteq> '''' \<and> \<not> str_contains (to_lower name) (to_lower (lc_Name req))) \<and>
     \<not> (lc_Provider req \<noteq> '''' \<and> provider \<noteq> lc_Provider req) \<and>
     \<not> (lc_Status req \<noteq> '''' \<and> cluster_status c \<noteq> lc_Status req) \<and>
     \<not> (selector \<noteq> [] \<and> \<not> matchLabels (om_Labels (cl_Meta c)) selector))"

definition cluster_items :: "server_lib \<Rightarrow> ListClustersRequest \<Rightarrow> Cluster list \<Rightarrow> ClusterItem list" where
  "cluster_items V req cs =
    sort_slice (\<lambda>a b. str_less (ci_Name a) (ci_Name b)) (map (cluster_item V) (filter (cluster_listed req) cs))"

definition ListClustersHandler ::
  "rest_env \<Rightarrow> server_lib \<Rightarrow> string \<Rightarrow> string + ListClustersRequest \<Rightarrow> ListClustersResponse reply io" where
  "ListClustersHandler R V ns bound = (case bound of
      Inl err \<Rightarrow> State_Monad.return (Fail 400 err)
    | Inr req \<Rightarrow>
        (let page = page_number (lc_Page req); pageSize = page_size (lc_PageSize req) in do {
           l \<leftarrow> ListTypedClusterCRs R ns;
           State_Monad.return (case l of
             Inl _ \<Rightarrow> Fail 500 ''list clusters failed''
           | Inr cs \<Rightarrow>
               (let items = cluster_items V req cs in
                case cluster_page page pageSize items of
                  None \<Rightarrow> Panic
                | Some sel \<Rightarrow> Answer 200 \<lparr>lcr_Total = int (length items), lcr_Page = page, lcr_PageSize = pageSize, lcr_Items = sel\<rparr>))
         }))"

subsection \<open>Deletion\<close>

record DeleteClustersResponse =
  dcr_Deleted :: "string list"
  dcr_Failed :: "(string \<times> string) list"

definition distinct_ids :: "string list \<Rightarrow> string list" where
  "distinct_ids raw = fold (\<lambda>r ids. let i = trim_space r in if i = '''' \<or> i \<in> set ids then ids else ids @ [i]) raw []"

fun delete_clusters :: "rest_env \<Rightarrow> string \<Rightarrow> string list \<Rightarrow> DeleteClustersResponse \<Rightarrow> DeleteClustersResponse io" where
  "delete_clusters R ns [] resp = State_Monad.return resp"
| "delete_clusters R ns (i # ids) resp = do {
     r \<leftarrow> DeleteTypedClusterCR R ns i;
     delete_clusters R ns ids (case r of
       None \<Rightarrow> resp\<lparr>dcr_Deleted := dcr_Deleted resp @ [i]\<rparr>
     | Some err \<Rightarrow> resp\<lparr>dcr_Failed := dcr_Failed resp @ [(i, if IsNotFound err then ''cluster not found'' else err_text err)]\<rparr>)
   }"

definition DeleteClusters :: "rest_env \<Rightarrow> string \<Rightarrow> string + string list \<Rightarrow> DeleteClustersResponse reply io" where
  "DeleteClusters R ns bound = (case bound of
      Inl err \<Rightarrow> State_Monad.return (Fail 400 err)
    | Inr raw \<Rightarrow>
        (let ids = distinct_ids raw in
         if ids = [] then State_Monad.return (Fail 400 ''clusterIds is required'')
         else do {
           resp \<leftarrow> delete_clusters R ns ids \<lparr>dcr_Deleted = [], dcr_Failed = []\<rparr>;
           State_Monad.return (Answer 200 resp)
         }))"

subsection \<open>Updates\<close>

record UpdateClusterRequest =
  uc_ClusterID :: string
  uc_Name :: string
  uc_Description :: string
  uc_Provider :: string
  uc_Labels :: "(string, string) gomap"

record UpdateClusterResponse =
  ucr_ClusterID :: string
  ucr_Name :: string
  ucr_Description :: string
  ucr_Provider :: string
  ucr_Labels :: "(string, string) gomap"
  ucr_UpdatedAt :: string

definition updated_annotations :: "UpdateClusterRequest \<Rightarrow> (string, string) gomap \<Rightarrow> (string, string) gomap" where
  "updated_annotations req anns =
    (let anns = (if uc_Name req \<noteq> '''' then mput AnnotationName (uc_Name req) anns else anns)
     in if uc_Description req = '''' then mdel AnnotationDescription anns
        else mput AnnotationDescription (uc_Description req) anns)"

definition copy_labels :: "(string, string) gomap \<Rightarrow> (string, string) gomap \<Rightarrow> (string, string) gomap" where
  "copy_labels from to = fold (\<lambda>(k, v) m. mput k v m) from to"

definition with_provider :: "string \<Rightarrow> (string, string) gomap \<Rightarrow> (string, string) gomap" where
  "with_provider p labels = (if p \<noteq> '''' then mput ''provider'' p labels else labels)"

definition updated_labels :: "UpdateClusterRequest \<Rightarrow> (string, string) gomap \<Rightarrow> (string, string) gomap" where
  "updated_labels req labels = with_provider (uc_Provider req) (copy_labels (uc_Labels req) (copy_labels labels []))"

definition updated_cluster :: "UpdateClusterRequest \<Rightarrow> Cluster \<Rightarrow> Cluster" where
  "updated_cluster req c = c\<lparr>cl_Meta := (cl_Meta c)\<lparr>om_Annotations := updated_annotations req (om_Annotations (cl_Meta c)),
     om_Labels := updated_labels req (om_Labels (cl_Meta c))\<rparr>\<rparr>"

definition update_answer :: "UpdateClusterRequest \<Rightarrow> Cluster \<Rightarrow> string \<Rightarrow> UpdateClusterResponse" where
  "update_answer req c ts =
    \<lparr>ucr_ClusterID = uc_ClusterID req, ucr_Name = mget0 '''' (om_Annotations (cl_Meta c)) AnnotationName,
     ucr_Description = mget0 '''' (om_Annotations (cl_Meta c)) AnnotationDescription,
     ucr_Provider = mget0 '''' (om_Labels (cl_Meta c)) ''provider'', ucr_Labels = om_Labels (cl_Meta c), ucr_UpdatedAt = ts\<rparr>"

definition cluster_failure :: "api_err \<Rightarrow> 'a reply" where
  "cluster_failure err = (if IsNotFound err then Fail 404 ''cluster not found'' else Fail 500 ''get cluster failed'')"

definition UpdateCluster ::
  "rest_env \<Rightarrow> env \<Rightarrow> server_lib \<Rightarrow> string \<Rightarrow> string + UpdateClusterRequest \<Rightarrow> UpdateClusterResponse reply io" where
  "UpdateCluster R E V ns bound = (case bound of
      Inl err \<Rightarrow> State_Monad.return (Fail 400 err)
    | Inr req \<Rightarrow> do {
        g \<leftarrow> GetTypedClusterCR E ns (uc_ClusterID req);
        case g of
          Inl err \<Rightarrow> State_Monad.return (cluster_failure err)
        | Inr cr \<Rightarrow>
            (let cr = updated_cluster req cr in do {
               r \<leftarrow> ApplyTypedClusterCR R E ns cr;
               case r of
                 Some _ \<Rightarrow> State_Monad.return (Fail 500 ''update cluster failed'')
               | None \<Rightarrow> do {
                   latest \<leftarrow> GetTypedClusterCR E ns (uc_ClusterID req);
                   State_Monad.return (Answer 200 (case latest of
                     Inl _ \<Rightarrow> update_answer req cr ''''
                   | Inr cr \<Rightarrow> update_answer req cr (updated_at V cr)))
                 }
             })
      })"

subsection \<open>One cluster\<close>

record ResourceSummary =
  rs_CPU :: string
  rs_Memory :: string

record NodeItem =
  ni_Name :: string
  ni_UID :: string
  ni_Ready :: bool
  ni_Labels :: "(string, string) gomap"
  ni_Allocatable :: ResourceSummary
  ni_Requested :: ResourceSummary
  ni_Free :: ResourceSummary

record GetClusterResponse =
  gcr_Cluster :: ClusterItem
  gcr_Kubeconfig :: string
  gcr_Nodes :: "NodeItem list"
  gcr_Capacity :: ResourceSummary
  gcr_Allocatable :: ResourceSummary
  gcr_NodeCount :: int64
  gcr_PodCount :: int64
  gcr_SecretName :: string
  gcr_APIEndpoint :: string

definition resource_summary :: "server_lib \<Rightarrow> quantity \<Rightarrow> quantity \<Rightarrow> ResourceSummary" where
  "resource_summary V cpu mem = \<lparr>rs_CPU = srv_quantity V cpu, rs_Memory = srv_quantity V mem\<rparr>"

definition node_item :: "server_lib \<Rightarrow> NodeSummary \<Rightarrow> NodeItem" where
  "node_item V n =
    (let summary = \<lambda>r. resource_summary V (nr_CPU r) (nr_Memory r) in
     \<lparr>ni_Name = cn_Name n, ni_UID = cn_UID n, ni_Ready = cn_Ready n, ni_Labels = copy_labels (cn_Labels n) [],
      ni_Allocatable = summary (cn_Allocatable n), ni_Requested = summary (cn_Requested n), ni_Free = summary (cn_Free n)\<rparr>)"

definition cluster_answer :: "server_lib \<Rightarrow> Cluster \<Rightarrow> (string, string) gomap \<Rightarrow> GetClusterResponse" where
  "cluster_answer V cr data =
    (let res = cl_Resources cr in
     \<lparr>gcr_Cluster = cluster_item V cr, gcr_Kubeconfig = mget0 '''' data ''kubeconfig'', gcr_Nodes = map (node_item V) (cl_Nodes cr),
      gcr_Capacity = resource_summary V (res_CapacityCPU res) (res_CapacityMemory res),
      gcr_Allocatable = resource_summary V (res_AllocatableCPU res) (res_AllocatableMemory res),
      gcr_NodeCount = res_NodeCount res, gcr_PodCount = res_PodCount res,
      gcr_SecretName = cl_SecretRef cr, gcr_APIEndpoint = cl_APIEndpoint cr\<rparr>)"

definition GetClusterHandler :: "env \<Rightarrow> server_lib \<Rightarrow> string \<Rightarrow> string + string \<Rightarrow> GetClusterResponse reply io" where
  "GetClusterHandler E V ns bound = (case bound of
      Inl err \<Rightarrow> State_Monad.return (Fail 400 err)
    | Inr clusterID \<Rightarrow> do {
        g \<leftarrow> GetTypedClusterCR E ns clusterID;
        case g of
          Inl err \<Rightarrow> State_Monad.return (cluster_failure err)
        | Inr cr \<Rightarrow> do {
            s \<leftarrow> GetSecretData E ns (cl_SecretRef cr);
            State_Monad.return (case s of
              Inl err \<Rightarrow> if IsNotFound err then Fail 404 ''cluster secret not found'' else Fail 500 ''get cluster secret failed''
            | Inr data \<Rightarrow> Answer 200 (cluster_answer V cr data))
          }
      })"

subsection \<open>Import\<close>

text \<open>\<open>src/server/internal/kube/kubeconfig.go\<close>.\<close>

definition ExtractServerFromKubeconfig :: "server_lib \<Rightarrow> string \<Rightarrow> api_err + string" where
  "ExtractServerFromKubeconfig V yaml =
    (if yaml = '''' then Inl (OtherErr ''kubeconfig is empty'')
     else case srv_load V yaml of
       Inl err \<Rightarrow> Inl (OtherErr (''load kubeconfig: '' @ err_text err))
     | Inr cfg \<Rightarrow>
         (let currentCtx = kc_CurrentContext cfg in
          if currentCtx = '''' then Inl (OtherErr ''kubeconfig.current-context is empty'')
          else case mget0 None (kc_Contexts cfg) currentCtx of
            None \<Rightarrow> Inl (OtherErr (''kubeconfig context '' @ go_quote currentCtx @ '' not found''))
          | Some cluster \<Rightarrow>
              if cluster = '''' then Inl (OtherErr (''kubeconfig context '' @ go_quote currentCtx @ '' has empty cluster''))
              else case mget0 None (kc_Clusters cfg) cluster of
                None \<Rightarrow> Inl (OtherErr (''kubeconfig cluster '' @ go_quote cluster @ '' not found''))
              | Some server \<Rightarrow>
                  if server = '''' then Inl (OtherErr (''kubeconfig cluster '' @ go_quote cluster @ '' has empty server''))
                  else Inr server))"

record ImportClusterRequest =
  ic_Name :: string
  ic_Description :: string
  ic_Provider :: string
  ic_Kubeconfig :: string
  ic_Labels :: "(string, string) gomap"

record ImportClusterResponse =
  icr_ClusterID :: string
  icr_Name :: string
  icr_Status :: string

definition fresh_id :: "server_lib \<Rightarrow> string io" where
  "fresh_id V = State (\<lambda>w. (srv_uuid V (hist w), w))"

definition imported_cluster :: "string \<Rightarrow> ImportClusterRequest \<Rightarrow> string \<Rightarrow> string \<Rightarrow> Cluster" where
  "imported_cluster ns req clusterID apiEndpoint =
    (let anns = (if ic_Description req \<noteq> '''' then [(AnnotationDescription, ic_Description req)] else []) in
     \<lparr>cl_Meta = \<lparr>om_Name = clusterID, om_Namespace = ns, om_UID = '''', om_ResourceVersion = '''', om_Generation = 0,
        om_CreationTimestamp = zero_time, om_Labels = with_provider (ic_Provider req) (copy_labels (ic_Labels req) []),
        om_Annotations = mput AnnotationName (ic_Name req) anns, om_DeletionTimestamp = None, om_Finalizers = [],
        om_OwnerReferences = []\<rparr>,
      cl_APIEndpoint = apiEndpoint, cl_SecretRef = clusterID, cl_Phase = ClusterPhaseNone, cl_UpdatedAt = None,
      cl_LastProbeTime = None, cl_Conditions = [], cl_Resources = no_resources, cl_Nodes = []\<rparr>)"

definition cluster_secret :: "string \<Rightarrow> string \<Rightarrow> string \<times> string \<Rightarrow> Cluster \<Rightarrow> string \<Rightarrow> Secret" where
  "cluster_secret ns clusterID tm applied kubeconfig =
    \<lparr>sec_Name = clusterID, sec_Namespace = ns, sec_ResourceVersion = '''',
     sec_Owners = [\<lparr>so_APIVersion = fst tm, so_Kind = snd tm, so_Name = om_Name (cl_Meta applied), so_UID = om_UID (cl_Meta applied),
       so_Controller = True, so_BlockOwnerDeletion = True\<rparr>],
     sec_Data = [(''kubeconfig'', kubeconfig)]\<rparr>"

definition import_secret ::
  "rest_env \<Rightarrow> string \<Rightarrow> ImportClusterRequest \<Rightarrow> string \<Rightarrow> string \<times> string \<Rightarrow> Cluster \<Rightarrow> ImportClusterResponse reply io" where
  "import_secret R ns req clusterID tm applied = do {
     r \<leftarrow> CreateSecret R ns (cluster_secret ns clusterID tm applied (ic_Kubeconfig req));
     State_Monad.return (case r of
       Some _ \<Rightarrow> Fail 500 ''create secret failed''
     | None \<Rightarrow> Answer 200 \<lparr>icr_ClusterID = clusterID, icr_Name = ic_Name req, icr_Status = ''Importing''\<rparr>)
   }"

definition read_applied :: "rest_env \<Rightarrow> env \<Rightarrow> nskey \<Rightarrow> (api_err + (string \<times> string) \<times> Cluster) io" where
  "read_applied R E k = call (GetCluster k) (\<lambda>h. map_sum (\<lambda>e. e) (\<lambda>c. (rest_type_meta R h k, c)) (env_get_cluster E h k))"

definition ImportCluster ::
  "rest_env \<Rightarrow> env \<Rightarrow> server_lib \<Rightarrow> string \<Rightarrow> string + ImportClusterRequest \<Rightarrow> ImportClusterResponse reply io" where
  "ImportCluster R E V ns bound = (case bound of
      Inl err \<Rightarrow> State_Monad.return (Fail 400 err)
    | Inr req \<Rightarrow> do {
        clusterID \<leftarrow> fresh_id V;
        case ExtractServerFromKubeconfig V (ic_Kubeconfig req) of
          Inl _ \<Rightarrow> State_Monad.return (Fail 400 ''invalid kubeconfig: cannot extract cluster server'')
        | Inr apiEndpoint \<Rightarrow> do {
            r \<leftarrow> ApplyTypedClusterCR R E ns (imported_cluster ns req clusterID apiEndpoint);
            case r of
              Some _ \<Rightarrow> State_Monad.return (Fail 500 ''apply cluster failed'')
            | None \<Rightarrow> do {
                g \<leftarrow> read_applied R E (ns_key ns clusterID);
                case g of
                  Inl _ \<Rightarrow> State_Monad.return (Fail 500 ''get cluster failed'')
                | Inr (tm, applied) \<Rightarrow> import_secret R ns req clusterID tm applied
              }
          }
      })"

subsection \<open>Pages are a partition\<close>

lemma weak_order_key: "weak_order A (\<lambda>a b. str_less (f a) (f b))"
  unfolding weak_order_def by (metis str_less_asym str_less_total str_less_trans)

lemma page_size_bounds: "0 < page_size s" "page_size s \<le> 100"
  by (simp_all add: page_size_def)

lemma page_number_pos [simp]: "0 < p \<Longrightarrow> page_number p = p"
  by (simp add: page_number_def)

lemma page_window_in:
  assumes "0 \<le> start" and "start \<le> int (length items)" and "0 < s" and "s \<le> 100" and "length items < 2 ^ 62"
  shows "page_window start s items = Some (take (nat s) (drop (nat start) items))"
proof -
  have "wrap64 (start + s) = start + s" using assms by (intro wrap64_id) (simp add: in_int64_def)
  moreover have "take (nat (int (length items) - start)) (drop (nat start) items) = take (nat s) (drop (nat start) items)"
    if "int (length items) < start + s"
    using that assms by (subst (1 2) take_all) (auto simp: nat_le_iff)
  ultimately show ?thesis using assms by (simp add: page_window_def go_slice_def Let_def)
qed

lemma cluster_page_in:
  assumes "0 \<le> page_start page s" and "0 < s" and "s \<le> 100" and "length items < 2 ^ 62"
  shows "cluster_page page s items = Some (take (nat s) (drop (nat (page_start page s)) items))"
  using assms by (simp add: cluster_page_def Let_def page_window_in)

lemma list_page_in:
  assumes "0 \<le> page_start page s" and "0 < s" and "s \<le> 100" and "length items < 2 ^ 62"
  shows "list_page page s items = Some (take (nat s) (drop (nat (page_start page s)) items))"
  using assms by (simp add: list_page_def Let_def page_window_in)

lemma page_start_exact: "int n * s < 2 ^ 63 \<Longrightarrow> 0 < s \<Longrightarrow> page_start (int (Suc n)) s = int n * s"
  unfolding page_start_def by (rule trans [OF _ wrap64_id]) (auto simp: in_int64_def intro: order.trans [of _ 0])

lemma pages_concat: "concat (map (\<lambda>n. take s (drop (n * s) xs)) [0..<k]) = take (k * s) xs"
proof (induction k)
  case (Suc k)
  have "take (k * s + s) xs = take (k * s) xs @ take s (drop (k * s) xs)" by (rule take_add)
  with Suc show ?case by (simp add: add.commute)
qed simp

lemma wrapped_start_panics: "start < 0 \<Longrightarrow> page_window start s items = None"
  by (simp add: page_window_def go_slice_def Let_def)

lemma overflow_panics:
  assumes "page_start page s < 0"
  shows "cluster_page page s items = None" and "list_page page s items = None"
  using assms by (simp_all add: cluster_page_def list_page_def Let_def wrapped_start_panics)

fun items_of :: "ListClustersResponse reply \<Rightarrow> ClusterItem list" where
  "items_of (Answer _ r) = lcr_Items r"
| "items_of _ = []"

lemma cluster_listed_page [simp]: "cluster_listed (req\<lparr>lc_Page := p\<rparr>) = cluster_listed req"
  by (simp add: cluster_listed_def fun_eq_iff)

lemma cluster_items_page [simp]: "cluster_items V (req\<lparr>lc_Page := p\<rparr>) cs = cluster_items V req cs"
  by (simp add: cluster_items_def)

lemma list_clusters_answer:
  assumes "rest_list_clusters R (hist w) ns = Inr cs"
  shows "result (ListClustersHandler R V ns (Inr req)) w =
    (let items = cluster_items V req cs; page = page_number (lc_Page req); s = page_size (lc_PageSize req) in
     case cluster_page page s items of None \<Rightarrow> Panic
     | Some sel \<Rightarrow> Answer 200 \<lparr>lcr_Total = int (length items), lcr_Page = page, lcr_PageSize = s, lcr_Items = sel\<rparr>)"
  using assms by (simp add: ListClustersHandler_def ListTypedClusterCRs_def call_def result_def State_Monad.bind_def
      State_Monad.return_def Let_def)

lemma length_cluster_items: "length (cluster_items V req cs) \<le> length cs"
  by (simp add: cluster_items_def)

text \<open>
  C34: The pages of the cluster list are a partition of the matching clusters. While the server answers with the same
  clusters, the items of the pages 1, 2, ... one after the other are all matching clusters, each once, sorted by
  display name; a page has at most 100 items, whatever size was asked for, and every page but the last is full.
\<close>

theorem cluster_pages_partition:
  assumes "\<And>h. rest_list_clusters R h ns = Inr cs" and "length cs < 2 ^ 62" and "s = page_size (lc_PageSize req)"
    and "int (length cs) \<le> int k * s" and "int k * s < 2 ^ 63"
    and "page = (\<lambda>n w. items_of (result (ListClustersHandler R V ns (Inr (req\<lparr>lc_Page := int (Suc n)\<rparr>))) w))"
  shows "concat (map (\<lambda>n. page n (ws n)) [0..<k]) = cluster_items V req cs \<and>
    mset (cluster_items V req cs) = image_mset (cluster_item V) (filter_mset (cluster_listed req) (mset cs)) \<and>
    sorted_wrt (\<lambda>a b. \<not> str_less (ci_Name b) (ci_Name a)) (cluster_items V req cs) \<and>
    (\<forall>n<k. length (page n (ws n)) = min (nat s) (length (cluster_items V req cs) - n * nat s)) \<and> s \<le> 100"
proof -
  let ?items = "cluster_items V req cs"
  have s: "0 < s" "s \<le> 100" using assms(3) page_size_bounds by simp_all
  have len: "length ?items < 2 ^ 62" using assms(2) length_cluster_items [of V req cs] by simp
  have page: "page n w = take (nat s) (drop (n * nat s) ?items)" if "n < k" for n w
  proof -
    have "int n * s \<le> int k * s" using that s by (intro mult_right_mono) simp_all
    then have start: "page_start (int (Suc n)) s = int n * s" using assms(5) s(1) by (intro page_start_exact) linarith+

    have "page_number (1 + int n) = 1 + int n" by simp
    with start s len show ?thesis
      by (simp add: assms(6) list_clusters_answer [OF assms(1)] assms(3) [symmetric] Let_def cluster_page_in nat_mult_distrib)
  qed
  have "concat (map (\<lambda>n. page n (ws n)) [0..<k]) = concat (map (\<lambda>n. take (nat s) (drop (n * nat s) ?items)) [0..<k])"
    by (intro arg_cong [where f = concat] map_cong) (simp_all add: page)
  also have "\<dots> = ?items"
  proof -
    have "int (length ?items) \<le> int k * s" using assms(4) length_cluster_items [of V req cs] by linarith
    also have "int k * s = int (k * nat s)" using s(1) by simp
    finally have "length ?items \<le> k * nat s" by linarith
    then show ?thesis unfolding pages_concat by simp
  qed
  finally have all: "concat (map (\<lambda>n. page n (ws n)) [0..<k]) = ?items" .
  moreover have "mset ?items = image_mset (cluster_item V) (filter_mset (cluster_listed req) (mset cs))"
    by (simp add: cluster_items_def mset_filter)
  moreover have "sorted_wrt (\<lambda>a b. \<not> str_less (ci_Name b) (ci_Name a)) ?items"
    unfolding cluster_items_def by (rule sort_slice_sorted) (rule weak_order_key)
  moreover have "length (page n (ws n)) = min (nat s) (length ?items - n * nat s)" if "n < k" for n
    using page [OF that] by simp
  ultimately show ?thesis using s(2) by blast
qed

text \<open>
  A page number so large that the product with the page size leaves the range of \<open>int64\<close> and becomes negative makes
  the handler panic: the index of the first item is not checked from below.
\<close>

lemma cluster_list_panics:
  assumes "rest_list_clusters R (hist w) ns = Inr cs"
    and "page_start (page_number (lc_Page req)) (page_size (lc_PageSize req)) < 0"
  shows "result (ListClustersHandler R V ns (Inr req)) w = Panic"
  using assms by (simp add: list_clusters_answer Let_def overflow_panics)

subsection \<open>Imported clusters\<close>

text \<open>The Secret of an import as it is stored: named like the cluster, owned by it, with the kubeconfig of the request.\<close>

definition secret_of_import :: "env \<Rightarrow> string \<Rightarrow> string \<Rightarrow> string \<Rightarrow> Secret \<Rightarrow> bool" where
  "secret_of_import E ns clusterID kubeconfig s \<longleftrightarrow> sec_Name s = clusterID \<and> sec_Namespace s = ns \<and>
     sec_Data s = [(''kubeconfig'', kubeconfig)] \<and>
     (\<exists>h applied. env_get_cluster E h (ns_key ns clusterID) = Inr applied \<and> map so_UID (sec_Owners s) = [om_UID (cl_Meta applied)])"

definition secret_stored :: "rest_env \<Rightarrow> (Secret \<Rightarrow> bool) \<Rightarrow> history \<Rightarrow> bool" where
  "secret_stored R P h \<longleftrightarrow> (\<exists>pre c s. h = pre @ [Rest c] \<and> (c = CreateSecretCall s \<or> c = UpdateSecretCall s) \<and> P s \<and> rest_write R pre c = None)"

lemma secret_of_import_version [simp]:
  "secret_of_import E ns i k (s\<lparr>sec_ResourceVersion := v\<rparr>) = secret_of_import E ns i k s"
  by (simp add: secret_of_import_def)

lemma CreateSecret_stores:
  assumes "\<And>v. P (s\<lparr>sec_ResourceVersion := v\<rparr>)" and "P s"
  shows "wp (CreateSecret R ns s) (\<lambda>r w'. (r = None \<longrightarrow> secret_stored R P (hist w')) \<and> (\<exists>tr. hist w' = hist w @ tr)) w"
  using assms by (auto simp: CreateSecret_def rest_def vcg secret_stored_def split: option.split sum.split)

text \<open>The cluster object of an import was stored at some point of the history.\<close>

definition cluster_stored :: "rest_env \<Rightarrow> Cluster \<Rightarrow> history \<Rightarrow> bool" where
  "cluster_stored R c h \<longleftrightarrow> (\<exists>pre post. h = pre @ post \<and> cluster_kind.stored R c pre)"

definition import_done :: "rest_env \<Rightarrow> env \<Rightarrow> string \<Rightarrow> ImportClusterRequest \<Rightarrow> ImportClusterResponse reply \<Rightarrow> history \<Rightarrow> bool" where
  "import_done R E ns req r h \<longleftrightarrow> (\<forall>st resp. r = Answer st resp \<longrightarrow>
     secret_stored R (secret_of_import E ns (icr_ClusterID resp) (ic_Kubeconfig req)) h \<and>
     (\<exists>apiEndpoint. cluster_stored R (imported_cluster ns req (icr_ClusterID resp) apiEndpoint) h))"

lemma imported_in_namespace [simp]: "cl_Meta_update (in_namespace ns) (imported_cluster ns req i e) = imported_cluster ns req i e"
  by (simp add: imported_cluster_def in_namespace_def Let_def)

lemma import_secret_ok:
  assumes "cluster_stored R (imported_cluster ns req i e) (hist w)" and "env_get_cluster E h (ns_key ns i) = Inr applied"
  shows "wp (import_secret R ns req i tm applied) (\<lambda>r w'. import_done R E ns req r (hist w')) w"
proof -
  let ?s = "cluster_secret ns i tm applied (ic_Kubeconfig req)"
  have s: "secret_of_import E ns i (ic_Kubeconfig req) ?s"
    using assms(2) by (auto simp: secret_of_import_def cluster_secret_def)
  show ?thesis unfolding import_secret_def wp_bind
  proof (rule wp_mono [OF CreateSecret_stores [where P = "secret_of_import E ns i (ic_Kubeconfig req)"]])
    fix r :: "api_err option" and w' :: world
    assume r: "(r = None \<longrightarrow> secret_stored R (secret_of_import E ns i (ic_Kubeconfig req)) (hist w')) \<and> (\<exists>tr. hist w' = hist w @ tr)"
    then have "cluster_stored R (imported_cluster ns req i e) (hist w')"
      using assms(1) unfolding cluster_stored_def by (metis append.assoc)
    with r show "wp (State_Monad.return (case r of None \<Rightarrow> Answer 200 \<lparr>icr_ClusterID = i, icr_Name = ic_Name req, icr_Status = ''Importing''\<rparr>
        | Some x \<Rightarrow> Fail 500 ''create secret failed'')) (\<lambda>r w'. import_done R E ns req r (hist w')) w'"
      by (auto simp: wp_return import_done_def split: option.split)
  qed (use s in simp_all)
qed

lemma import_failed [simp]: "import_done R E ns req (Fail n m) h"
  by (simp add: import_done_def)

lemma wp_fresh_id [vcg]: "wp (fresh_id V) Q w = Q (srv_uuid V (hist w)) w"
  by (simp add: fresh_id_def wp_def)

lemma import_ok: "wp (ImportCluster R E V ns (Inr req)) (\<lambda>r w'. import_done R E ns req r (hist w')) w"
proof (cases "ExtractServerFromKubeconfig V (ic_Kubeconfig req)")
  case (Inl err)
  then show ?thesis by (simp add: ImportCluster_def wp_bind wp_fresh_id wp_return)
next
  case (Inr e)
  let ?i = "srv_uuid V (hist w)"
  let ?c = "imported_cluster ns req ?i e"

  have "wp (ApplyTypedClusterCR R E ns ?c) (\<lambda>r. wp (case r of Some x \<Rightarrow> State_Monad.return (Fail 500 ''apply cluster failed'')
      | None \<Rightarrow> State_Monad.bind (read_applied R E (ns_key ns ?i)) (\<lambda>g. case g of Inl _ \<Rightarrow> State_Monad.return (Fail 500 ''get cluster failed'')
          | Inr (tm, applied) \<Rightarrow> import_secret R ns req ?i tm applied)) (\<lambda>r w'. import_done R E ns req r (hist w'))) w"
    unfolding ApplyTypedClusterCR_def
  proof (rule wp_mono [OF cluster_kind.apply_stores])
    fix r :: "api_err option" and w' :: world
    assume r: "r = None \<longrightarrow> cluster_kind.stored R (cl_Meta_update (in_namespace ns) ?c) (hist w')"
    have "wp (case g of Inl _ \<Rightarrow> State_Monad.return (Fail 500 ''get cluster failed'') | Inr (tm, applied) \<Rightarrow> import_secret R ns req ?i tm applied)
        (\<lambda>r w'. import_done R E ns req r (hist w')) (w'\<lparr>hist := hist w' @ [GetCluster (ns_key ns ?i)]\<rparr>)"
      if "r = None" "g = map_sum (\<lambda>e. e) (\<lambda>c. (rest_type_meta R (hist w') (ns_key ns ?i), c)) (env_get_cluster E (hist w') (ns_key ns ?i))" for g
    proof (cases "env_get_cluster E (hist w') (ns_key ns ?i)")
      case (Inr applied)
      from r that(1) have "cluster_stored R ?c (hist w' @ [GetCluster (ns_key ns ?i)])" by (auto simp: cluster_stored_def)
      with Inr that(2) show ?thesis
        by (simp add: import_secret_ok [where e = e and h = "hist w'"])
    qed (simp add: that(2) wp_return)
    then show "wp (case r of Some x \<Rightarrow> State_Monad.return (Fail 500 ''apply cluster failed'')
        | None \<Rightarrow> State_Monad.bind (read_applied R E (ns_key ns ?i)) (\<lambda>g. case g of Inl _ \<Rightarrow> State_Monad.return (Fail 500 ''get cluster failed'')
            | Inr (tm, applied) \<Rightarrow> import_secret R ns req ?i tm applied)) (\<lambda>r w'. import_done R E ns req r (hist w')) w'"
      by (simp add: read_applied_def wp_bind wp_call wp_return split: option.split)
  qed
  with Inr show ?thesis by (simp add: ImportCluster_def wp_bind wp_fresh_id)
qed

text \<open>The two objects have the same specification; metadata and status may differ.\<close>

definition same_spec :: "Cluster \<Rightarrow> Cluster \<Rightarrow> bool" where
  "same_spec c d \<longleftrightarrow> cl_APIEndpoint c = cl_APIEndpoint d \<and> cl_SecretRef c = cl_SecretRef d"

text \<open>
  C7: A cluster whose import is answered with success can be connected to. The server has accepted the Cluster
  object, and after it a Secret of the same name and namespace that the object refers to; the Secret holds exactly
  the kubeconfig of the request and is owned by the cluster under the UID that was read. From a control namespace
  in which that name gives a cluster with the specification of this object (its metadata and its status may have
  changed since) and the data of this Secret, the controllers build a client with that kubeconfig.
\<close>

theorem imported_cluster_connects:
  assumes "result (ImportCluster R E V ns (Inr req)) w = Answer st resp"
    and "i = icr_ClusterID resp" and "i \<noteq> []" and "ns \<noteq> []" and "ic_Kubeconfig req \<noteq> []"
    and "env_get_cluster E' (hist w') (ns_key ns i) = Inr c" and "same_spec c (imported_cluster ns req i apiEndpoint)"
    and "secret_of_import E ns i (ic_Kubeconfig req) s"
    and "\<And>h. env_get_secret E' h (ns_key (sec_Namespace s) (sec_Name s)) = Inr (sec_Data s)"
    and "env_rest_config E' (ic_Kubeconfig req) = None" and "env_new_client E' (ic_Kubeconfig req) = None"
    and "mget (clients w') i = None"
  shows "import_done R E ns req (Answer st resp) (hist (exec (ImportCluster R E V ns (Inr req)) w)) \<and>
    result (GetOrBuild E' ns i) w' = Inr \<lparr>cs_Cluster = i, cs_Kubeconfig = ic_Kubeconfig req\<rparr>"
proof
  show "import_done R E ns req (Answer st resp) (hist (exec (ImportCluster R E V ns (Inr req)) w))"
    using import_ok [of R E V ns req w] assms(1) by (simp add: wp_result)
  have "cl_SecretRef c = i"
    using assms(7) by (simp add: same_spec_def imported_cluster_def Let_def)
  moreover have "sec_Name s = i" "sec_Namespace s = ns" "mget0 [] (sec_Data s) ''kubeconfig'' = ic_Kubeconfig req"
    using assms(8) by (auto simp: secret_of_import_def mget0_def)
  ultimately have "wp (GetOrBuild E' ns i) (\<lambda>r _. r = Inr \<lparr>cs_Cluster = i, cs_Kubeconfig = ic_Kubeconfig req\<rparr>) w'"
    using assms(3-6,9-12) by (simp add: GetOrBuild_def get_cluster_def get_secret_def vcg ns_key_def Let_def)
  then show "result (GetOrBuild E' ns i) w' = Inr \<lparr>cs_Cluster = i, cs_Kubeconfig = ic_Kubeconfig req\<rparr>" by (simp add: wp_result)
qed

subsection \<open>Updated clusters\<close>

lemma copy_labels_get:
  assumes "wf_map from"
  shows "mget (copy_labels from to) k = (case mget from k of Some v \<Rightarrow> Some v | None \<Rightarrow> mget to k)"
  using assms unfolding copy_labels_def wf_map_def
proof (induction "from" arbitrary: to)
  case (Cons kv "from")
  then have "fst kv = k \<Longrightarrow> mget from k = None" by (auto simp: map_of_eq_None_iff)
  with Cons show ?case by (cases kv) (auto split: option.split)
qed simp

lemma updated_labels_get:
  assumes "wf_map (uc_Labels req)" and "wf_map labels"
  shows "mget (updated_labels req labels) k =
    (if k = ''provider'' \<and> uc_Provider req \<noteq> '''' then Some (uc_Provider req)
     else case mget (uc_Labels req) k of Some v \<Rightarrow> Some v | None \<Rightarrow> mget labels k)"
  using assms by (simp add: updated_labels_def with_provider_def copy_labels_get split: option.split)

lemma updated_annotations_get:
  "mget (updated_annotations req anns) k =
    (if k = AnnotationDescription then (if uc_Description req = '''' then None else Some (uc_Description req))
     else if k = AnnotationName \<and> uc_Name req \<noteq> '''' then Some (uc_Name req) else mget anns k)"
  by (auto simp: updated_annotations_def AnnotationDescription_def AnnotationName_def Let_def)

text \<open>The write calls of the server.\<close>

fun cluster_write :: "event \<Rightarrow> Cluster option" where
  "cluster_write (Rest (PostCluster c)) = Some c"
| "cluster_write (Rest (PutCluster c)) = Some c"
| "cluster_write e = None"

definition labels_replaced :: "string \<Rightarrow> UpdateClusterRequest \<Rightarrow> Cluster \<Rightarrow> Cluster \<Rightarrow> bool" where
  "labels_replaced ns req old c \<longleftrightarrow>
     c = old\<lparr>cl_Meta := (cl_Meta old)\<lparr>om_Namespace := ns, om_ResourceVersion := om_ResourceVersion (cl_Meta c),
        om_Annotations := om_Annotations (cl_Meta c), om_Labels := om_Labels (cl_Meta c)\<rparr>\<rparr> \<and>
     (\<forall>k. mget (om_Annotations (cl_Meta c)) k =
        (if k = AnnotationDescription then (if uc_Description req = '''' then None else Some (uc_Description req))
         else if k = AnnotationName \<and> uc_Name req \<noteq> '''' then Some (uc_Name req) else mget (om_Annotations (cl_Meta old)) k)) \<and>
     (wf_map (uc_Labels req) \<and> wf_map (om_Labels (cl_Meta old)) \<longrightarrow> (\<forall>k. mget (om_Labels (cl_Meta c)) k =
        (if k = ''provider'' \<and> uc_Provider req \<noteq> '''' then Some (uc_Provider req)
         else case mget (uc_Labels req) k of Some v \<Rightarrow> Some v | None \<Rightarrow> mget (om_Labels (cl_Meta old)) k)))"

lemma versions_replaced:
  assumes "c \<in> cluster_kind.versions (cl_Meta_update (in_namespace ns) (updated_cluster req old))"
  shows "labels_replaced ns req old c"
  using assms unfolding cluster_kind.versions_def labels_replaced_def
  by (auto simp: updated_cluster_def in_namespace_def with_version_def updated_annotations_get updated_labels_get)

text \<open>
  A write of the cluster follows a read of it: the requested changes to the copy \<open>old\<close>, with the version that this
  read answered.
\<close>

definition update_write :: "env \<Rightarrow> string \<Rightarrow> UpdateClusterRequest \<Rightarrow> Cluster \<Rightarrow> history \<Rightarrow> event \<Rightarrow> bool" where
  "update_write E ns req old h e \<longleftrightarrow> (\<forall>c. cluster_write e = Some c \<longrightarrow> labels_replaced ns req old c \<and>
     (\<exists>h0. h = h0 @ [GetCluster (ns_key ns (om_Name (cl_Meta old)))] \<and>
        (case env_get_cluster E h0 (ns_key ns (om_Name (cl_Meta old))) of
           Inl err \<Rightarrow> IsNotFound err \<and> e = Rest (PostCluster c)
         | Inr cur \<Rightarrow> e = Rest (PutCluster c) \<and> om_ResourceVersion (cl_Meta c) = om_ResourceVersion (cl_Meta cur))))"

lemma write_cases: "cluster_write e = Some c \<Longrightarrow> e = Rest (PostCluster c) \<or> e = Rest (PutCluster c)"
  by (cases e rule: cluster_write.cases) simp_all

lemma version_update_write:
  assumes "cluster_kind.writes_version E (ns_key ns (om_Name (cl_Meta old))) (cl_Meta_update (in_namespace ns) (updated_cluster req old)) h e"
  shows "update_write E ns req old h e"
  unfolding update_write_def
proof (intro allI impI)
  let ?k = "ns_key ns (om_Name (cl_Meta old))" and ?obj = "cl_Meta_update (in_namespace ns) (updated_cluster req old)"
  fix c assume c: "cluster_write e = Some c"
  then have "e \<noteq> GetCluster ?k" by auto
  with assms obtain h0 where h0: "h = h0 @ [GetCluster ?k]" and e: "case env_get_cluster E h0 ?k of
      Inl err \<Rightarrow> IsNotFound err \<and> (\<exists>x \<in> cluster_kind.versions ?obj. e = Rest (PostCluster x))
    | Inr cur \<Rightarrow> e = Rest (PutCluster (cl_Meta_update (with_version (om_ResourceVersion (cl_Meta cur))) ?obj))"
    by (auto simp: cluster_kind.writes_version_def)
  have "cl_Meta_update (with_version v) ?obj \<in> cluster_kind.versions ?obj" for v by (simp add: cluster_kind.versions_def)
  then have v: "labels_replaced ns req old (cl_Meta_update (with_version v) ?obj)" for v by (rule versions_replaced)
  have "om_ResourceVersion (cl_Meta (cl_Meta_update (with_version v) ?obj)) = v" for v by (simp add: with_version_def)
  then show "labels_replaced ns req old c \<and> (\<exists>h0. h = h0 @ [GetCluster ?k] \<and> (case env_get_cluster E h0 ?k of
        Inl err \<Rightarrow> IsNotFound err \<and> e = Rest (PostCluster c)
      | Inr cur \<Rightarrow> e = Rest (PutCluster c) \<and> om_ResourceVersion (cl_Meta c) = om_ResourceVersion (cl_Meta cur)))"
    using h0 e c v versions_replaced by (cases "env_get_cluster E h0 ?k") auto
qed

lemma wp_get_typed_cluster: "wp (GetTypedClusterCR E ns i) Q w =
    Q (env_get_cluster E (hist w) (ns_key ns i)) (w\<lparr>hist := hist w @ [GetCluster (ns_key ns i)]\<rparr>)"
  by (simp add: GetTypedClusterCR_def get_cluster_def wp_call)

lemma updated_name [simp]: "om_Name (cl_Meta (updated_cluster req old)) = om_Name (cl_Meta old)"
  by (simp add: updated_cluster_def)

lemma cluster_calls [guar_intros]:
  "guar (update_write E ns req old) (GetTypedClusterCR E ns' i)"
  "guar (update_write E ns req old) (ApplyTypedClusterCR R E ns (updated_cluster req old))"
proof -
  show "guar (update_write E ns req old) (GetTypedClusterCR E ns' i)"
    unfolding GetTypedClusterCR_def get_cluster_def by (rule guar_call) (simp add: update_write_def)
  show "guar (update_write E ns req old) (ApplyTypedClusterCR R E ns (updated_cluster req old))"
    unfolding ApplyTypedClusterCR_def
    by (rule guar_mono [OF cluster_kind.apply_writes_versions]) (rule version_update_write, simp)
qed

lemma update_writes:
  assumes "env_get_cluster E (hist w) (ns_key ns (uc_ClusterID req)) = Inr old"
  shows "guarded (update_write E ns req old) (hist w) (trace (UpdateCluster R E V ns (Inr req)) w)"
proof -
  let ?w = "w\<lparr>hist := hist w @ [GetCluster (ns_key ns (uc_ClusterID req))]\<rparr>"
  let ?rest = "State_Monad.bind (ApplyTypedClusterCR R E ns (updated_cluster req old)) (\<lambda>r. case r of
      Some _ \<Rightarrow> State_Monad.return (Fail 500 ''update cluster failed'')
    | None \<Rightarrow> State_Monad.bind (GetTypedClusterCR E ns (uc_ClusterID req)) (\<lambda>latest. State_Monad.return (Answer 200 (case latest of
         Inl _ \<Rightarrow> update_answer req (updated_cluster req old) ''''
       | Inr cr \<Rightarrow> update_answer req cr (updated_at V cr)))))"
  have "ok (update_write E ns req old) (hist w) (hist ?w)" by (simp add: update_write_def)
  moreover have "guar (update_write E ns req old) ?rest" by (intro guar_intros)
  ultimately have "wp ?rest (\<lambda>_ w'. ok (update_write E ns req old) (hist w) (hist w')) ?w"
    by (metis (no_types, lifting) guar_ok_wp ok_trans)
  with assms have "wp (UpdateCluster R E V ns (Inr req)) (\<lambda>_ w'. ok (update_write E ns req old) (hist w) (hist w')) w"
    by (simp add: UpdateCluster_def wp_bind wp_get_typed_cluster Let_def)
  then show ?thesis by (auto simp: wp_result ok_iff trace_def)
qed

text \<open>
  C36: An update of a cluster writes back what it read first, under the version it read last. Every object that the
  run writes is the cluster as the first call returned it, with the requested name, description, provider and
  labels; other labels and annotations, the specification, the status and everything else are those of that copy,
  except the version: the call just before the write reads the cluster again, and a PUT carries the version of
  that answer (a POST follows only when there is no such cluster any more). This is also so after a conflict: the
  retry takes nothing but the version from the newer object, so a change that someone else made to the cluster in
  the meantime is overwritten by a write that the server has no reason to refuse.
\<close>

theorem cluster_update_writes_first_read:
  assumes "env_get_cluster E (hist w) (ns_key ns (uc_ClusterID req)) = Inr old"
    and "trace (UpdateCluster R E V ns (Inr req)) w = pre @ e # post" and "cluster_write e = Some c"
  shows "labels_replaced ns req old c \<and>
    (\<exists>h0. hist w @ pre = h0 @ [GetCluster (ns_key ns (om_Name (cl_Meta old)))] \<and>
      (case env_get_cluster E h0 (ns_key ns (om_Name (cl_Meta old))) of
         Inl err \<Rightarrow> IsNotFound err \<and> e = Rest (PostCluster c)
       | Inr cur \<Rightarrow> e = Rest (PutCluster c) \<and> om_ResourceVersion (cl_Meta c) = om_ResourceVersion (cl_Meta cur)))"
proof -
  from update_writes [OF assms(1), of R V] have "update_write E ns req old (hist w @ pre) e"
    unfolding assms(2) by (simp add: guarded_append)
  with assms(3) show ?thesis unfolding update_write_def by blast
qed

subsection \<open>Selectors\<close>

definition plain :: "string \<Rightarrow> bool" where
  "plain s \<longleftrightarrow> (\<forall>c \<in> set s. \<not> is_space c \<and> c \<noteq> CHR '','')"

lemma trim_plain: "(\<And>c. c \<in> set s \<Longrightarrow> \<not> is_space c) \<Longrightarrow> trim_space s = s"
  unfolding trim_space_def by (metis dropWhile_eq_self_iff hd_in_set rev_rev_ident set_rev)

lemma split_plain: "d \<notin> set s \<Longrightarrow> str_split d s = [s]"
  by (induction s) auto

lemma split_at: "d \<notin> set s \<Longrightarrow> str_split d (s @ d # t) = s # str_split d t"
  by (induction s) auto

lemma split_first_at: "d \<notin> set k \<Longrightarrow> split_first d (k @ d # v) = Some (k, v)"
  by (induction k) (auto simp: split_first_def split: list.split)

definition selector_text :: "(string, string) gomap \<Rightarrow> string" where
  "selector_text kvs = join '','' (map (\<lambda>(k, v). k @ ''='' @ v) kvs)"

definition selector_ok :: "string \<times> string \<Rightarrow> bool" where
  "selector_ok kv \<longleftrightarrow> fst kv \<noteq> '''' \<and> plain (fst kv) \<and> CHR ''='' \<notin> set (fst kv) \<and> plain (snd kv)"

lemma split_join:
  assumes "\<And>p. p \<in> set ps \<Longrightarrow> d \<notin> set p" and "ps \<noteq> []"
  shows "str_split d (join [d] ps) = ps"
  using assms
proof (induction ps rule: induct_list012)
  case (2 p)
  then show ?case by (simp add: split_plain)
next
  case (3 p q ps)
  have "str_split d (p @ d # join [d] (q # ps)) = p # str_split d (join [d] (q # ps))" by (rule split_at) (simp add: "3.prems")
  with 3 show ?case by simp
qed simp

lemma is_space_eq [simp]: "\<not> is_space (CHR ''='')"
  by (simp add: is_space_def)

lemma plain_trim: "plain s \<Longrightarrow> trim_space s = s"
  by (rule trim_plain) (simp add: plain_def)

lemma selector_part_put:
  assumes "selector_ok (k, v)"
  shows "selector_part (k @ ''='' @ v) res = mput k v res"
proof -
  have p: "plain k" "plain v" using assms by (simp_all add: selector_ok_def)
  then have "plain (k @ ''='' @ v)" by (auto simp: plain_def)
  with p have "trim_space (k @ ''='' @ v) = k @ ''='' @ v" "trim_space k = k" "trim_space v = v"
    by (simp_all only: plain_trim)
  moreover have "split_first (CHR ''='') (k @ CHR ''='' # v) = Some (k, v)"
    using assms by (intro split_first_at) (simp add: selector_ok_def)
  ultimately show ?thesis using assms by (simp add: selector_part_def selector_ok_def Let_def)
qed

lemma join_plain: "\<forall>p \<in> set ps. \<forall>c \<in> set p. \<not> is_space c \<Longrightarrow> c \<in> set (join '','' ps) \<Longrightarrow> \<not> is_space c"
proof (induction ps rule: induct_list012)
  case (3 p q ps)
  have "\<not> is_space (CHR '','')" by (simp add: is_space_def)
  with 3 show ?case by auto
qed simp_all

lemma fold_put_fresh: "distinct (map fst kvs) \<Longrightarrow> mkeys kvs \<inter> mkeys m = {} \<Longrightarrow> fold (\<lambda>(k, v). mput k v) kvs m = m @ kvs"
proof (induction kvs arbitrary: m)
  case (Cons kv kvs)
  obtain k v where kv: "kv = (k, v)" by (cases kv)
  have "mput k v m = m @ [(k, v)]" using Cons.prems(2) kv by (induction m) auto
  with Cons kv show ?case by auto
qed simp

text \<open>
  C35: A label selector is read as it was written: printing pairs with distinct non-empty keys as \<open>k=v\<close>, separated by
  commas, and parsing the text gives the same pairs, when keys and values contain neither white space nor commas
  and keys no equals sign. The empty text matches every cluster. A cluster matches any other text exactly when it
  has some label and, for each pair, carries the key with that value, or does not carry the key at all and the
  value is empty.
\<close>

theorem selector_roundtrip:
  assumes "distinct (map fst kvs)" and "list_all selector_ok kvs"
  shows "parseLabelSelector (selector_text kvs) = kvs \<and>
    (matchLabels labels (parseLabelSelector (selector_text kvs)) \<longleftrightarrow> kvs = [] \<or>
       labels \<noteq> [] \<and> (\<forall>(k, v) \<in> set kvs. mget labels k = Some v \<or> mget labels k = None \<and> v = ''''))"
proof -
  have "mget0 [] labels k = v \<longleftrightarrow> mget labels k = Some v \<or> mget labels k = None \<and> v = []" for k v
    by (auto simp: mget0_def split: option.split)
  then have "matchLabels labels kvs \<longleftrightarrow> kvs = [] \<or>
      labels \<noteq> [] \<and> (\<forall>(k, v) \<in> set kvs. mget labels k = Some v \<or> mget labels k = None \<and> v = [])"
    unfolding matchLabels_def list_all_iff case_prod_unfold by auto
  moreover
  have "parseLabelSelector (selector_text kvs) = kvs"
  proof (cases "kvs = []")
    case False
    let ?ps = "map (\<lambda>(k, v). k @ ''='' @ v) kvs"
    have ok: "selector_ok (k, v)" if "(k, v) \<in> set kvs" for k v using that assms(2) by (auto simp: list_all_iff)
    have parts: "plain p" if p: "p \<in> set ?ps" for p
    proof -
      from p obtain k v where "(k, v) \<in> set kvs" "p = k @ CHR ''='' # v" by auto
      with ok [of k v] show ?thesis by (auto simp: selector_ok_def plain_def)
    qed
    have trim: "trim_space (selector_text kvs) = selector_text kvs"
      unfolding selector_text_def by (intro trim_plain join_plain [of ?ps]) (use parts in \<open>auto simp: plain_def\<close>)
    have "str_split (CHR '','') (join [CHR '',''] ?ps) = ?ps"
      by (rule split_join) (use parts False in \<open>auto simp: plain_def\<close>)
    then have "str_split (CHR '','') (selector_text kvs) = ?ps" by (simp only: selector_text_def)
    moreover have "selector_text kvs \<noteq> []" using False ok by (cases kvs; cases "tl kvs") (auto simp: selector_text_def)
    moreover have "fold selector_part ?ps m = fold (\<lambda>(k, v). mput k v) kvs m" for m
      using ok by (induction kvs arbitrary: m) (auto simp: selector_part_put [simplified])
    ultimately show ?thesis using assms(1) by (simp add: parseLabelSelector_def trim Let_def fold_put_fresh)
  qed (simp add: selector_text_def parseLabelSelector_def trim_space_def)
  ultimately show ?thesis by simp
qed

subsection \<open>Witnesses\<close>

definition sample_server :: server_lib where
  "sample_server = \<lparr>srv_uuid = (\<lambda>_. ''east''), srv_rfc3339 = (\<lambda>_. ''2024-01-01T00:00:00Z''), srv_quantity = (\<lambda>_. ''1''),
     srv_load = (\<lambda>_. Inr \<lparr>kc_CurrentContext = ''ctx'', kc_Contexts = [(''ctx'', Some ''c'')], kc_Clusters = [(''c'', Some ''https://east'')]\<rparr>)\<rparr>"

definition named_cluster :: "string \<Rightarrow> string \<Rightarrow> Cluster" where
  "named_cluster i n = (let c = sample_cluster i [] in c\<lparr>cl_Meta := (cl_Meta c)\<lparr>om_Annotations := [(AnnotationName, n)]\<rparr>\<rparr>)"

text \<open>An API server on which the first update meets a conflict.\<close>

definition sample_rest :: rest_env where
  "sample_rest = \<lparr>rest_list_clusters = (\<lambda>_ _. Inr [named_cluster ''c1'' ''west'', named_cluster ''c2'' ''east'', named_cluster ''c3'' ''north'']),
     rest_list_gd = (\<lambda>_ _. Inr [sample_gd]), rest_list_policies = (\<lambda>_ _. Inr []), rest_list_plans = (\<lambda>_ _. Inr []),
     rest_write = (\<lambda>h c. case c of PutCluster _ \<Rightarrow> if length h < 3 then Some (Conflict ''conflict'') else None | _ \<Rightarrow> None),
     rest_secret_version = (\<lambda>_ _. Inl gone), rest_type_meta = (\<lambda>_ _. (''core.kubex.io/v1alpha1'', ''Cluster'')), rest_retries = 4\<rparr>"

definition list_req :: ListClustersRequest where
  "list_req = \<lparr>lc_Page = 1, lc_PageSize = 2, lc_Name = '''', lc_Provider = '''', lc_Status = '''', lc_LabelSelector = ''''\<rparr>"

theorem cluster_pages_partition_witness:
  "let cs = [named_cluster ''c1'' ''west'', named_cluster ''c2'' ''east'', named_cluster ''c3'' ''north''];
       page = (\<lambda>n w. items_of (result (ListClustersHandler sample_rest sample_server ''ns'' (Inr (list_req\<lparr>lc_Page := int (Suc n)\<rparr>))) w)) in
    map ci_Name (concat (map (\<lambda>n. page n fresh_world) [0..<2])) = [''east'', ''north'', ''west''] \<and>
    concat (map (\<lambda>n. page n fresh_world) [0..<2]) = cluster_items sample_server list_req cs"
proof -
  let ?cs = "[named_cluster ''c1'' ''west'', named_cluster ''c2'' ''east'', named_cluster ''c3'' ''north'']"
  let ?page = "\<lambda>n w. items_of (result (ListClustersHandler sample_rest sample_server ''ns'' (Inr (list_req\<lparr>lc_Page := int (Suc n)\<rparr>))) w)"
  have "concat (map (\<lambda>n. ?page n fresh_world) [0..<2]) = cluster_items sample_server list_req ?cs"
    using cluster_pages_partition [of sample_rest "''ns''" ?cs 2 list_req 2 ?page sample_server "\<lambda>_. fresh_world"]
    by (simp add: sample_rest_def list_req_def page_size_def)
  moreover have "map ci_Name (cluster_items sample_server list_req ?cs) = [''east'', ''north'', ''west'']" by code_simp
  ultimately show ?thesis by (simp add: Let_def)
qed

definition import_req :: ImportClusterRequest where
  "import_req = \<lparr>ic_Name = ''East'', ic_Description = '''', ic_Provider = ''aws'', ic_Kubeconfig = ''config'', ic_Labels = []\<rparr>"

definition imported_secret :: Secret where
  "imported_secret = cluster_secret ''ns'' ''east'' (''core.kubex.io/v1alpha1'', ''Cluster'') (sample_cluster ''east'' []) ''config''"

text \<open>The cluster some time later: the server has filled in its metadata and the controller its status.\<close>

definition running_cluster :: Cluster where
  "running_cluster = (let c = imported_cluster ''ns'' import_req ''east'' ''https://east'' in
     c\<lparr>cl_Meta := (cl_Meta c)\<lparr>om_UID := ''u-1'', om_ResourceVersion := ''42'', om_Generation := 1, om_CreationTimestamp := 5\<rparr>,
       cl_Phase := ClusterReady, cl_LastProbeTime := Some 6\<rparr>)"

definition imported_env :: env where
  "imported_env = (sample_env Running)\<lparr>env_get_cluster := \<lambda>_ _. Inr running_cluster,
     env_get_secret := \<lambda>_ _. Inr (sec_Data imported_secret)\<rparr>"

theorem imported_cluster_connects_witness:
  "import_done sample_rest (sample_env Running) ''ns'' import_req
      (Answer 200 \<lparr>icr_ClusterID = ''east'', icr_Name = ''East'', icr_Status = ''Importing''\<rparr>)
      (hist (exec (ImportCluster sample_rest (sample_env Running) sample_server ''ns'' (Inr import_req)) fresh_world)) \<and>
    result (GetOrBuild imported_env ''ns'' ''east'') fresh_world = Inr \<lparr>cs_Cluster = ''east'', cs_Kubeconfig = ''config''\<rparr>"
proof -
  have run: "result (ImportCluster sample_rest (sample_env Running) sample_server ''ns'' (Inr import_req)) fresh_world =
      Answer 200 \<lparr>icr_ClusterID = ''east'', icr_Name = ''East'', icr_Status = ''Importing''\<rparr>" by code_simp
  have "secret_of_import (sample_env Running) ''ns'' ''east'' (ic_Kubeconfig import_req) imported_secret"
    by (auto simp: secret_of_import_def imported_secret_def cluster_secret_def import_req_def sample_env_def ns_key_def)
  moreover have "same_spec running_cluster (imported_cluster ''ns'' import_req ''east'' ''https://east'')"
    by (simp add: same_spec_def running_cluster_def Let_def)
  ultimately show ?thesis
    using imported_cluster_connects [OF run, where i = "''east''" and E' = imported_env and w' = fresh_world and s = imported_secret
        and c = running_cluster and apiEndpoint = "''https://east''"]
    by (simp add: import_req_def imported_env_def sample_env_def fresh_world_def)
qed

definition update_req :: UpdateClusterRequest where
  "update_req = \<lparr>uc_ClusterID = ''east'', uc_Name = ''East'', uc_Description = '''', uc_Provider = ''aws'', uc_Labels = [(''zone'', ''a'')]\<rparr>"

text \<open>
  A server on which the cluster gets another label and a newer version after the first update was refused; the
  second update, with that version, removes the label again.
\<close>

definition relabelled :: Cluster where
  "relabelled = (let c = sample_cluster ''east'' [] in
     c\<lparr>cl_Meta := (cl_Meta c)\<lparr>om_ResourceVersion := ''2'', om_Labels := [(''team'', ''blue'')]\<rparr>\<rparr>)"

definition relabelling_env :: env where
  "relabelling_env = (sample_env Running)\<lparr>env_get_cluster := \<lambda>h _. Inr (if length h < 3 then sample_cluster ''east'' [] else relabelled)\<rparr>"

definition overwritten :: Cluster where
  "overwritten = cl_Meta_update (with_version ''2'') (cl_Meta_update (in_namespace ''ns'') (updated_cluster update_req (sample_cluster ''east'' [])))"

theorem cluster_update_writes_first_read_witness:
  "\<exists>pre post. trace (UpdateCluster sample_rest relabelling_env sample_server ''ns'' (Inr update_req)) fresh_world =
      pre @ Rest (PutCluster overwritten) # post \<and> length pre = 4 \<and>
    mget (om_Labels (cl_Meta relabelled)) ''team'' = Some ''blue'' \<and> mget (om_Labels (cl_Meta overwritten)) ''team'' = None \<and>
    labels_replaced ''ns'' update_req (sample_cluster ''east'' []) overwritten \<and>
    (\<exists>h0. pre = h0 @ [GetCluster (ns_key ''ns'' ''east'')] \<and>
      (case env_get_cluster relabelling_env h0 (ns_key ''ns'' ''east'') of
         Inl err \<Rightarrow> IsNotFound err
       | Inr cur \<Rightarrow> om_ResourceVersion (cl_Meta overwritten) = om_ResourceVersion (cl_Meta cur)))"
proof -
  let ?k = "ns_key ''ns'' ''east''" and ?tr = "trace (UpdateCluster sample_rest relabelling_env sample_server ''ns'' (Inr update_req)) fresh_world"
  let ?first = "cl_Meta_update (with_version (om_ResourceVersion (cl_Meta (sample_cluster ''east'' []))))
    (cl_Meta_update (in_namespace ''ns'') (updated_cluster update_req (sample_cluster ''east'' [])))"
  let ?pre = "[GetCluster ?k, GetCluster ?k, Rest (PutCluster ?first), GetCluster ?k]"
  have run: "?tr = ?pre @ Rest (PutCluster overwritten) # [GetCluster ?k]" by code_simp
  have old: "env_get_cluster relabelling_env (hist fresh_world) (ns_key ''ns'' (uc_ClusterID update_req)) = Inr (sample_cluster ''east'' [])"
    by (simp add: relabelling_env_def fresh_world_def)
  have "om_Name (cl_Meta (sample_cluster ''east'' [])) = ''east''" "hist fresh_world = []"
    by (simp_all add: sample_cluster_def sample_meta_def fresh_world_def)
  moreover have "mget (om_Labels (cl_Meta relabelled)) ''team'' = Some ''blue''" "mget (om_Labels (cl_Meta overwritten)) ''team'' = None" by code_simp+
  ultimately show ?thesis
    using run cluster_update_writes_first_read [OF old run, of overwritten]
    by (intro exI [of _ ?pre] exI [of _ "[GetCluster ?k]"]) (auto split: sum.splits)
qed

theorem selector_roundtrip_witness:
  "parseLabelSelector ''zone=a,tier='' = [(''zone'', ''a''), (''tier'', '''')] \<and>
    matchLabels [(''zone'', ''a'')] (parseLabelSelector ''zone=a,tier='') \<and>
    \<not> matchLabels [(''zone'', ''a''), (''tier'', ''web'')] (parseLabelSelector ''zone=a,tier='')"
proof -
  have "distinct (map fst [(''zone'', ''a''), (''tier'', '''')])" "list_all selector_ok [(''zone'', ''a''), (''tier'', '''')]"
    and printed: "selector_text [(''zone'', ''a''), (''tier'', '''')] = ''zone=a,tier=''" by code_simp+
  note rt = selector_roundtrip [OF this(1,2), unfolded printed]
  from rt [of "[(''zone'', ''a'')]"] rt [of "[(''zone'', ''a''), (''tier'', ''web'')]"] show ?thesis by auto
qed

end
