(* ===== verification/Workload_Handlers.thy ===== *)
theory Workload_Handlers
  imports Cluster_Handlers Replica_Binding Plan_Controller
begin

section \<open>The REST server: deployments, policies, plans and the key-value store\<close>

text \<open>
  \<open>globaldeployment_handler.go\<close>, \<open>globaldeployment_list_handler.go\<close>, \<open>globaldeployment_get_handler.go\<close>,
  \<open>globaldeployment_delete_handler.go\<close>, \<open>optimization_handler.go\<close>, \<open>topology_list.go\<close> and \<open>kv_handler.go\<close> of
  \<open>src/server/internal/api\<close>, and \<open>src/server/internal/storage\<close>. The conventions are those of
  \<open>Cluster_Handlers\<close>. \<open>workload_lib\<close> holds the parsers: \<open>yaml.Unmarshal\<close> of a Deployment (kind, name, namespace and
  spec), \<open>json.Marshal\<close> of a spec, \<open>json.Unmarshal\<close> of a template for display (\<open>None\<close> for nil), the environment
  variable of the server's kubeconfig and what building a client from it gives, and the answers of etcd. The
  type assertions on the access layer always succeed, because the server is built with \<open>ClusterApplier\<close>.
\<close>

record YamlDeployment =
  yd_Kind :: string
  yd_Name :: string
  yd_Namespace :: string
  yd_Spec :: DeploymentSpec

record workload_lib =
  wl_yaml :: "string \<Rightarrow> api_err + YamlDeployment"
  wl_marshal :: "DeploymentSpec \<Rightarrow> api_err + string"
  wl_view :: "string \<Rightarrow> string option"
  wl_kubeconfig :: string
  wl_build_config :: "string \<Rightarrow> api_err option"
  wl_new_client :: "string \<Rightarrow> api_err option"
  wl_configmaps :: "history \<Rightarrow> string \<Rightarrow> api_err + (string \<times> string \<times> time) list"
  wl_etcd_put :: "history \<Rightarrow> string \<Rightarrow> string \<Rightarrow> api_err option"
  wl_etcd_get :: "history \<Rightarrow> string \<Rightarrow> api_err + string list"
  wl_etcd_delete :: "history \<Rightarrow> string \<Rightarrow> api_err + int"

subsection \<open>Creating a deployment\<close>

definition validateDeploymentSpec :: "DeploymentSpec \<Rightarrow> string option" where
  "validateDeploymentSpec s =
    (if ds_Containers s = [] then Some ''invalid templateYAML: spec.template.spec.containers must not be empty'' else None)"

definition parseDeploymentYAML ::
  "workload_lib \<Rightarrow> string \<Rightarrow> string \<Rightarrow> string + string \<times> string \<times> int32 option \<times> DeploymentSpec" where
  "parseDeploymentYAML W y defaultNamespace =
    (let s = trim_space y in
     if s = '''' then Inl ''yaml is required''
     else case wl_yaml W s of
       Inl _ \<Rightarrow> Inl ''invalid yaml: must be a Kubernetes Deployment YAML''
     | Inr dep \<Rightarrow>
         if to_lower (yd_Kind dep) \<noteq> to_lower ''Deployment'' then Inl ''invalid yaml: kind must be Deployment''
         else (let name = trim_space (yd_Name dep) in
           if name = '''' then Inl ''invalid yaml: metadata.name is required''
           else (let ns = trim_space (yd_Namespace dep);
                     ns = (if ns = '''' then defaultNamespace else ns);
                     ns = (if ns = '''' then ''default'' else ns) in
             case validateDeploymentSpec (yd_Spec dep) of
               Some err \<Rightarrow> Inl err
             | None \<Rightarrow> Inr (name, ns, ds_Replicas (yd_Spec dep), yd_Spec dep))))"

definition created_gd :: "string \<Rightarrow> string \<Rightarrow> int32 option \<Rightarrow> string \<Rightarrow> GlobalDeployment" where
  "created_gd name ns replicas template =
    \<lparr>gd_Meta = \<lparr>om_Name = name, om_Namespace = ns, om_UID = '''', om_ResourceVersion = '''', om_Generation = 0,
       om_CreationTimestamp = zero_time, om_Labels = [], om_Annotations = [], om_DeletionTimestamp = None, om_Finalizers = [],
       om_OwnerReferences = []\<rparr>,
     gd_Spec = \<lparr>gd_Replicas = replicas, gd_Template = template\<rparr>,
     gd_Status = \<lparr>gd_Phase = GDPhaseNone, gd_Running = 0, gd_Failed = 0, gd_Pending = 0, gd_UpdatedAt = None,
       gd_ObservedRevision = ''''\<rparr>\<rparr>"

record CreateGDResponse =
  cgr_Name :: string
  cgr_Namespace :: string
  cgr_Replicas :: int32

definition CreateGlobalDeployment ::
  "rest_env \<Rightarrow> env \<Rightarrow> workload_lib \<Rightarrow> string \<Rightarrow> string + string \<Rightarrow> CreateGDResponse reply io" where
  "CreateGlobalDeployment R E W cfgNs bound = (case bound of
      Inl err \<Rightarrow> State_Monad.return (Fail 400 err)
    | Inr yaml \<Rightarrow>
        (case parseDeploymentYAML W yaml cfgNs of
           Inl err \<Rightarrow> State_Monad.return (Fail 400 err)
         | Inr (name, ns, replicas, depSpec) \<Rightarrow>
             (case wl_marshal W depSpec of
                Inl _ \<Rightarrow> State_Monad.return (Fail 400 ''invalid templateYAML: cannot encode as json'')
              | Inr template \<Rightarrow> do {
                  r \<leftarrow> ApplyTypedGlobalDeploymentCR R E ns (created_gd name ns replicas template);
                  State_Monad.return (case r of
                    Some err \<Rightarrow> if IsAlreadyExists err then Fail 409 ''globalDeployment already exists''
                                else Fail 500 ''create globalDeployment failed''
                  | None \<Rightarrow> Answer 200 \<lparr>cgr_Name = name, cgr_Namespace = ns,
                      cgr_Replicas = (case replicas of None \<Rightarrow> 1 | Some r \<Rightarrow> r)\<rparr>)
                })))"

subsection \<open>Lists\<close>

record ListRequest =
  lr_Namespace :: string
  lr_Name :: string
  lr_Page :: int64
  lr_PageSize :: int64

definition or_default :: "string \<Rightarrow> string \<Rightarrow> string" where
  "or_default ns cfgNs = (let ns = trim_space ns in if ns = '''' then cfgNs else ns)"

text \<open>The end of the three list handlers: newest first, then the page; with the number of all items.\<close>

definition newest_first :: "('a \<Rightarrow> time) \<Rightarrow> 'a list \<Rightarrow> 'a list" where
  "newest_first created items = sort_slice (\<lambda>a b. created b < created a) items"

definition page_reply :: "ListRequest \<Rightarrow> 'a list \<Rightarrow> (int64 \<times> 'a list) reply" where
  "page_reply req items = (case list_page (page_number (lr_Page req)) (page_size (lr_PageSize req)) items of
      None \<Rightarrow> Panic
    | Some sel \<Rightarrow> Answer 200 (int (length items), sel))"

record GlobalDeploymentItem =
  gi_Name :: string
  gi_Namespace :: string
  gi_Replicas :: int32
  gi_Running :: int32
  gi_Failed :: int32
  gi_Phase :: string
  gi_Created :: time

fun gd_phase_text :: "GlobalDeploymentPhase \<Rightarrow> string" where
  "gd_phase_text GDPhaseNone = ''''"
| "gd_phase_text GDPending = ''Pending''"
| "gd_phase_text GDProgressing = ''Progressing''"
| "gd_phase_text GDRunning = ''Running''"
| "gd_phase_text GDDegraded = ''Degraded''"
| "gd_phase_text GDScaling = ''Scaling''"
| "gd_phase_text GDDeleting = ''Deleting''"
| "gd_phase_text GDFailed = ''Failed''"
| "gd_phase_text (GDPhaseOther s) = s"

definition gd_replicas_or_1 :: "GlobalDeployment \<Rightarrow> int32" where
  "gd_replicas_or_1 gd = (case gd_Replicas (gd_Spec gd) of None \<Rightarrow> 1 | Some r \<Rightarrow> r)"

definition gd_item :: "GlobalDeployment \<Rightarrow> GlobalDeploymentItem" where
  "gd_item gd = \<lparr>gi_Name = om_Name (gd_Meta gd), gi_Namespace = om_Namespace (gd_Meta gd), gi_Replicas = gd_replicas_or_1 gd,
     gi_Running = gd_Running (gd_Status gd), gi_Failed = gd_Failed (gd_Status gd), gi_Phase = gd_phase_text (gd_Phase (gd_Status gd)),
     gi_Created = om_CreationTimestamp (gd_Meta gd)\<rparr>"

definition name_matches :: "ListRequest \<Rightarrow> ObjectMeta \<Rightarrow> bool" where
  "name_matches req m \<longleftrightarrow> (let f = trim_space (lr_Name req) in \<not> (f \<noteq> '''' \<and> \<not> str_contains (om_Name m) f))"

definition ListGlobalDeployments ::
  "rest_env \<Rightarrow> string \<Rightarrow> string + ListRequest \<Rightarrow> (int64 \<times> GlobalDeploymentItem list) reply io" where
  "ListGlobalDeployments R cfgNs bound = (case bound of
      Inl err \<Rightarrow> State_Monad.return (Fail 400 err)
    | Inr req \<Rightarrow> do {
        l \<leftarrow> ListTypedGlobalDeploymentCRs R (or_default (lr_Namespace req) cfgNs);
        State_Monad.return (case l of
          Inl _ \<Rightarrow> Fail 500 ''list globaldeployments failed''
        | Inr gds \<Rightarrow> page_reply req (newest_first gi_Created (map gd_item (filter (\<lambda>gd. name_matches req (gd_Meta gd)) gds))))
      })"

record OptimizationPolicyItem =
  pi_Name :: string
  pi_Namespace :: string
  pi_Enabled :: bool
  pi_RunMode :: string
  pi_RebalancePoint :: string
  pi_Strategy :: string
  pi_ThresholdPercent :: int32
  pi_Phase :: string
  pi_LastEvaluationTime :: "time option"
  pi_Created :: time

fun policy_phase_text :: "OptimizationPolicyPhase \<Rightarrow> string" where
  "policy_phase_text PolicyPhaseNone = ''''"
| "policy_phase_text PolicyPending = ''Pending''"
| "policy_phase_text PolicyActive = ''Active''"
| "policy_phase_text PolicyFailed = ''Failed''"
| "policy_phase_text PolicyDisabled = ''Disabled''"
| "policy_phase_text (PolicyPhaseOther s) = s"

definition policy_item :: "OptimizationPolicy \<Rightarrow> OptimizationPolicyItem" where
  "policy_item pol = \<lparr>pi_Name = om_Name (pol_Meta pol), pi_Namespace = om_Namespace (pol_Meta pol),
     pi_Enabled = pol_Enabled (pol_Spec pol), pi_RunMode = pol_RunMode (pol_Spec pol),
     pi_RebalancePoint = pol_RebalancePoint (pol_Spec pol), pi_Strategy = pol_Strategy (pol_Spec pol),
     pi_ThresholdPercent = pol_ImprovementThresholdPercent (pol_Spec pol), pi_Phase = policy_phase_text (pol_Phase (pol_Status pol)),
     pi_LastEvaluationTime = pol_LastEvaluationTime (pol_Status pol), pi_Created = om_CreationTimestamp (pol_Meta pol)\<rparr>"

definition ListOptimizationPolicies ::
  "rest_env \<Rightarrow> string \<Rightarrow> string + ListRequest \<Rightarrow> (int64 \<times> OptimizationPolicyItem list) reply io" where
  "ListOptimizationPolicies R cfgNs bound = (case bound of
      Inl err \<Rightarrow> State_Monad.return (Fail 400 err)
    | Inr req \<Rightarrow> do {
        l \<leftarrow> ListTypedOptimizationPolicyCRs R (or_default (lr_Namespace req) cfgNs);
        State_Monad.return (case l of
          Inl _ \<Rightarrow> Fail 500 ''list optimizationpolicies failed''
        | Inr pols \<Rightarrow> page_reply req (newest_first pi_Created (map policy_item (filter (\<lambda>p. name_matches req (pol_Meta p)) pols))))
      })"

record ReOrchestrationPlanItem =
  ri_Name :: string
  ri_Namespace :: string
  ri_PolicyName :: string
  ri_Phase :: string
  ri_Moves :: int64
  ri_Created :: time

definition plan_policy :: "ReOrchestrationPlan \<Rightarrow> string" where
  "plan_policy p = (let pn = trim_space (plan_PolicyName (plan_Spec p)) in
     if pn = '''' then (case mget (om_Labels (plan_Meta p)) ''kubex.io/policy'' of Some v \<Rightarrow> trim_space v | None \<Rightarrow> pn) else pn)"

definition plan_item :: "ReOrchestrationPlan \<Rightarrow> ReOrchestrationPlanItem" where
  "plan_item p = \<lparr>ri_Name = om_Name (plan_Meta p), ri_Namespace = om_Namespace (plan_Meta p), ri_PolicyName = plan_policy p,
     ri_Phase = plan_phase_text (plan_Phase (plan_Status p)), ri_Moves = int (length (plan_Moves (plan_Spec p))),
     ri_Created = om_CreationTimestamp (plan_Meta p)\<rparr>"

text \<open>The field \<open>lr_Name\<close> is the policy name here.\<close>

definition ListReOrchestrationPlans ::
  "rest_env \<Rightarrow> string \<Rightarrow> string + ListRequest \<Rightarrow> (int64 \<times> ReOrchestrationPlanItem list) reply io" where
  "ListReOrchestrationPlans R cfgNs bound = (case bound of
      Inl err \<Rightarrow> State_Monad.return (Fail 400 err)
    | Inr req \<Rightarrow>
        (let policyName = trim_space (lr_Name req) in do {
           l \<leftarrow> ListTypedReOrchestrationPlanCRs R (or_default (lr_Namespace req) cfgNs);
           State_Monad.return (case l of
             Inl _ \<Rightarrow> Fail 500 ''list plans failed''
           | Inr ps \<Rightarrow> page_reply req (newest_first ri_Created
               (map plan_item (filter (\<lambda>p. \<not> (policyName \<noteq> '''' \<and> plan_policy p \<noteq> policyName)) ps))))
         }))"

subsection \<open>One deployment\<close>

record BindingItem =
  bi_ReplicaIndex :: int32
  bi_ClusterID :: string
  bi_ClusterName :: string
  bi_NodeName :: string
  bi_Phase :: string
  bi_LastError :: string
  bi_LastTransitionTime :: string

record GetGDResponse =
  ggr_Name :: string
  ggr_Namespace :: string
  ggr_Labels :: "(string, string) gomap"
  ggr_Annotations :: "(string, string) gomap"
  ggr_Replicas :: int32
  ggr_Running :: int32
  ggr_Failed :: int32
  ggr_Phase :: string
  ggr_Template :: "string option"
  ggr_Bindings :: "BindingItem list"

fun rb_phase_text :: "ReplicaBindingPhase \<Rightarrow> string" where
  "rb_phase_text PhaseNone = ''''"
| "rb_phase_text Pending = ''Pending''"
| "rb_phase_text Assigned = ''Assigned''"
| "rb_phase_text Applying = ''Applying''"
| "rb_phase_text Running = ''Running''"
| "rb_phase_text Failed = ''Failed''"
| "rb_phase_text Rescheduling = ''Rescheduling''"
| "rb_phase_text Deleting = ''Deleting''"
| "rb_phase_text (PhaseOther s) = s"

definition refers_to :: "GlobalDeployment \<Rightarrow> ReplicaBinding \<Rightarrow> bool" where
  "refers_to gd rb \<longleftrightarrow> ref_Name (rb_GlobalDeploymentRef (rb_Spec rb)) = om_Name (gd_Meta gd) \<and>
     ref_Namespace (rb_GlobalDeploymentRef (rb_Spec rb)) = om_Namespace (gd_Meta gd)"

definition template_view :: "workload_lib \<Rightarrow> string \<Rightarrow> string option" where
  "template_view W raw = (if raw = '''' then None else case wl_view W raw of None \<Rightarrow> Some raw | v \<Rightarrow> v)"

definition shown_cluster :: "string \<Rightarrow> api_err + Cluster \<Rightarrow> string" where
  "shown_cluster clusterID g = (case g of
      Inl _ \<Rightarrow> clusterID
    | Inr cr \<Rightarrow> (let n = trim_space (mget0 '''' (om_Annotations (cl_Meta cr)) AnnotationName) in if n = '''' then clusterID else n))"

definition cluster_name ::
  "env \<Rightarrow> string \<Rightarrow> string \<Rightarrow> (string, string) gomap \<Rightarrow> (string \<times> (string, string) gomap) io" where
  "cluster_name E cfgNs clusterID cache =
    (if clusterID = '''' then State_Monad.return ('''', cache)
     else case mget cache clusterID of
       Some v \<Rightarrow> State_Monad.return (v, cache)
     | None \<Rightarrow> do {
         g \<leftarrow> GetTypedClusterCR E cfgNs clusterID;
         State_Monad.return (shown_cluster clusterID g, mput clusterID (shown_cluster clusterID g) cache)
       })"

definition binding_item :: "server_lib \<Rightarrow> string \<Rightarrow> ReplicaBinding \<Rightarrow> BindingItem" where
  "binding_item V clusterName rb =
    \<lparr>bi_ReplicaIndex = rb_ReplicaIndex (rb_Spec rb), bi_ClusterID = rb_TargetCluster (rb_Spec rb), bi_ClusterName = clusterName,
     bi_NodeName = rb_TargetNodeName (rb_Spec rb), bi_Phase = rb_phase_text (rb_Phase (rb_Status rb)),
     bi_LastError = rb_LastError (rb_Status rb),
     bi_LastTransitionTime = (case rb_LastTransitionTime (rb_Status rb) of None \<Rightarrow> '''' | Some t \<Rightarrow> srv_rfc3339 V t)\<rparr>"

fun binding_items ::
  "env \<Rightarrow> server_lib \<Rightarrow> string \<Rightarrow> GlobalDeployment \<Rightarrow> ReplicaBinding list \<Rightarrow> (string, string) gomap \<Rightarrow> BindingItem list io" where
  "binding_items E V cfgNs gd [] cache = State_Monad.return []"
| "binding_items E V cfgNs gd (rb # rbs) cache =
    (if \<not> refers_to gd rb then binding_items E V cfgNs gd rbs cache
     else do {
       (n, cache) \<leftarrow> cluster_name E cfgNs (rb_TargetCluster (rb_Spec rb)) cache;
       items \<leftarrow> binding_items E V cfgNs gd rbs cache;
       State_Monad.return (binding_item V n rb # items)
     })"

definition gd_answer :: "workload_lib \<Rightarrow> GlobalDeployment \<Rightarrow> BindingItem list \<Rightarrow> GetGDResponse" where
  "gd_answer W gd items =
    \<lparr>ggr_Name = om_Name (gd_Meta gd), ggr_Namespace = om_Namespace (gd_Meta gd), ggr_Labels = om_Labels (gd_Meta gd),
     ggr_Annotations = om_Annotations (gd_Meta gd), ggr_Replicas = gd_replicas_or_1 gd, ggr_Running = gd_Running (gd_Status gd),
     ggr_Failed = gd_Failed (gd_Status gd), ggr_Phase = gd_phase_text (gd_Phase (gd_Status gd)),
     ggr_Template = template_view W (gd_Template (gd_Spec gd)), ggr_Bindings = items\<rparr>"

definition GetGlobalDeployment ::
  "env \<Rightarrow> server_lib \<Rightarrow> workload_lib \<Rightarrow> string \<Rightarrow> string + string \<times> string \<Rightarrow> GetGDResponse reply io" where
  "GetGlobalDeployment E V W cfgNs bound = (case bound of
      Inl err \<Rightarrow> State_Monad.return (Fail 400 err)
    | Inr (name0, ns0) \<Rightarrow>
        (let name = trim_space name0; ns = trim_space ns0 in
         if name = '''' \<or> ns = '''' then State_Monad.return (Fail 400 ''name and namespace are required'')
         else do {
           g \<leftarrow> GetTypedGlobalDeploymentCR E ns name;
           case g of
             Inl _ \<Rightarrow> State_Monad.return (Fail 500 ''get globaldeployment failed'')
           | Inr gd \<Rightarrow> do {
               l \<leftarrow> ListTypedReplicaBindingCRs E ns;
               case l of
                 Inl _ \<Rightarrow> State_Monad.return (Fail 500 ''list replicabindings failed'')
               | Inr rbs \<Rightarrow> do {
                   items \<leftarrow> binding_items E V cfgNs gd rbs [];
                   State_Monad.return (Answer 200 (gd_answer W gd items))
                 }
             }
         }))"

subsection \<open>Deleting a deployment\<close>

definition buildMemberClientset :: "env \<Rightarrow> string \<Rightarrow> string \<Rightarrow> api_err + Clientset" where
  "buildMemberClientset E clusterID kubeconfig = (case env_rest_config E kubeconfig of
      Some err \<Rightarrow> Inl (OtherErr (''build rest config from kubeconfig: '' @ err_text err))
    | None \<Rightarrow> (case env_new_client E kubeconfig of
        Some err \<Rightarrow> Inl (OtherErr (''new clientset: '' @ err_text err))
      | None \<Rightarrow> Inr \<lparr>cs_Cluster = clusterID, cs_Kubeconfig = kubeconfig\<rparr>))"

definition secret_kubeconfig :: "(string, string) gomap \<Rightarrow> string" where
  "secret_kubeconfig data = (let k = mget0 '''' data ''kubeconfig'' in if k = '''' then mget0 '''' data ''value'' else k)"

definition delete_from_member :: "env \<Rightarrow> string \<Rightarrow> string \<Rightarrow> api_err + Clientset \<Rightarrow> api_err option io" where
  "delete_from_member E workloadNS depName c = (case c of
      Inl err \<Rightarrow> State_Monad.return (Some err)
    | Inr cs \<Rightarrow> do {
        r \<leftarrow> dep_delete E cs workloadNS depName;
        State_Monad.return (case r of
          None \<Rightarrow> None
        | Some err \<Rightarrow> if IsNotFound err then None
            else Some (OtherErr (''delete deployment '' @ workloadNS @ ''/'' @ depName @ '': '' @ err_text err)))
      })"

definition deleteMemberDeployment :: "env \<Rightarrow> string \<Rightarrow> string \<Rightarrow> string \<Rightarrow> string \<Rightarrow> api_err option io" where
  "deleteMemberDeployment E cfgNs clusterID workloadNS depName =
    (let controlNS = (if cfgNs = '''' then workloadNS else cfgNs) in do {
       g \<leftarrow> GetTypedClusterCR E controlNS clusterID;
       case g of
         Inl err \<Rightarrow> State_Monad.return (Some (OtherErr (''get cluster CR: '' @ err_text err)))
       | Inr cr \<Rightarrow> do {
           s \<leftarrow> GetSecretData E controlNS (cl_SecretRef cr);
           case s of
             Inl err \<Rightarrow> State_Monad.return (Some (OtherErr (''get cluster secret: '' @ err_text err)))
           | Inr data \<Rightarrow>
               if secret_kubeconfig data = '''' then
                 State_Monad.return (Some (OtherErr (''kubeconfig is empty in secret '' @ controlNS @ ''/'' @ cl_SecretRef cr)))
               else delete_from_member E workloadNS depName (buildMemberClientset E clusterID (secret_kubeconfig data))
         }
     })"

definition delete_binding :: "rest_env \<Rightarrow> env \<Rightarrow> string \<Rightarrow> string \<Rightarrow> GlobalDeployment \<Rightarrow> ReplicaBinding \<Rightarrow> unit io" where
  "delete_binding R E cfgNs ns gd rb =
    (if \<not> refers_to gd rb then State_Monad.return ()
     else do {
       _ \<leftarrow> (if rb_TargetCluster (rb_Spec rb) \<noteq> '''' then
               deleteMemberDeployment E cfgNs (rb_TargetCluster (rb_Spec rb)) (om_Namespace (gd_Meta gd))
                 (om_Name (gd_Meta gd) @ ''-r'' @ itoa (rb_ReplicaIndex (rb_Spec rb)))
             else State_Monad.return None);
       _ \<leftarrow> DeleteTypedReplicaBindingCR R ns (om_Name (rb_Meta rb));
       State_Monad.return ()
     })"

definition DeleteGlobalDeployment :: "rest_env \<Rightarrow> env \<Rightarrow> string \<Rightarrow> string + string \<times> string \<Rightarrow> string reply io" where
  "DeleteGlobalDeployment R E cfgNs bound = (case bound of
      Inl err \<Rightarrow> State_Monad.return (Fail 400 err)
    | Inr (name0, ns0) \<Rightarrow>
        (let name = trim_space name0; ns = trim_space ns0 in
         if name = '''' \<or> ns = '''' then State_Monad.return (Fail 400 ''name and namespace are required'')
         else do {
           g \<leftarrow> GetTypedGlobalDeploymentCR E ns name;
           case g of
             Inl err \<Rightarrow> State_Monad.return
               (if IsNotFound err then Fail 404 ''globaldeployment not found'' else Fail 500 ''get globaldeployment failed'')
           | Inr gd \<Rightarrow> do {
               l \<leftarrow> ListTypedReplicaBindingCRs E ns;
               case l of
                 Inl _ \<Rightarrow> State_Monad.return (Fail 500 ''list replicabindings failed'')
               | Inr rbs \<Rightarrow> do {
                   _ \<leftarrow> io_each (delete_binding R E cfgNs ns gd) rbs;
                   r \<leftarrow> DeleteTypedGlobalDeploymentCR R ns (om_Name (gd_Meta gd));
                   State_Monad.return (case r of
                     None \<Rightarrow> Answer 200 ''GlobalDeployment deletion started''
                   | Some err \<Rightarrow> if IsNotFound err then Answer 200 ''GlobalDeployment deletion started''
                       else Fail 500 ''delete globaldeployment failed'')
                 }
             }
         }))"

subsection \<open>Policies and plans\<close>

text \<open>\<open>NewOptimizationHandler\<close>: the namespaces are never empty.\<close>

definition optimization_namespace :: "string \<Rightarrow> string" where
  "optimization_namespace ns = (if ns = '''' then ''default'' else ns)"

definition topology_namespace :: "string \<Rightarrow> string" where
  "topology_namespace ns = (if ns = '''' then ''kubex-system'' else ns)"

definition GetOptimizationPolicy :: "env \<Rightarrow> string \<Rightarrow> string + string \<times> string \<Rightarrow> OptimizationPolicy reply io" where
  "GetOptimizationPolicy E cfgNs bound = (case bound of
      Inl err \<Rightarrow> State_Monad.return (Fail 400 err)
    | Inr (ns, name0) \<Rightarrow>
        (let name = trim_space name0 in
         if name = '''' then State_Monad.return (Fail 400 ''name is required'')
         else do {
           g \<leftarrow> GetTypedOptimizationPolicyCR E (or_default ns cfgNs) name;
           State_Monad.return (case g of
             Inl err \<Rightarrow> if IsNotFound err then Fail 404 ''optimizationPolicy not found'' else Fail 500 ''get optimizationPolicy failed''
           | Inr pol \<Rightarrow> Answer 200 pol)
         }))"

definition policy_in_namespace :: "string \<Rightarrow> OptimizationPolicy \<Rightarrow> OptimizationPolicy" where
  "policy_in_namespace cfgNs pol =
    (let ns = om_Namespace (pol_Meta pol);
         ns = (if trim_space ns = '''' then cfgNs else ns);
         ns = (if trim_space ns = '''' then ''default'' else ns)
     in pol\<lparr>pol_Meta := (pol_Meta pol)\<lparr>om_Namespace := ns\<rparr>\<rparr>)"

definition applyOptimizationPolicy ::
  "rest_env \<Rightarrow> env \<Rightarrow> string \<Rightarrow> bool \<Rightarrow> string + OptimizationPolicy option \<Rightarrow> string reply io" where
  "applyOptimizationPolicy R E cfgNs create bound = (case bound of
      Inl err \<Rightarrow> State_Monad.return (Fail 400 err)
    | Inr None \<Rightarrow> State_Monad.return (Fail 400 ''policy is required'')
    | Inr (Some p) \<Rightarrow>
        (let pol = policy_in_namespace cfgNs p in
         if trim_space (om_Name (pol_Meta pol)) = '''' then State_Monad.return (Fail 400 ''policy.metadata.name is required'')
         else do {
           r \<leftarrow> ApplyTypedOptimizationPolicyCR R E (om_Namespace (pol_Meta pol)) pol;
           State_Monad.return (case r of
             Some err \<Rightarrow> if create \<and> IsAlreadyExists err then Fail 409 ''optimizationPolicy already exists''
                         else Fail 500 ''apply optimizationPolicy failed''
           | None \<Rightarrow> Answer 200 (if create then ''OptimizationPolicy created successfully'' else ''OptimizationPolicy updated successfully''))
         }))"

definition CreateOptimizationPolicy :: "rest_env \<Rightarrow> env \<Rightarrow> string \<Rightarrow> string + OptimizationPolicy option \<Rightarrow> string reply io" where
  "CreateOptimizationPolicy R E cfgNs = applyOptimizationPolicy R E cfgNs True"

definition UpdateOptimizationPolicy :: "rest_env \<Rightarrow> env \<Rightarrow> string \<Rightarrow> string + OptimizationPolicy option \<Rightarrow> string reply io" where
  "UpdateOptimizationPolicy R E cfgNs = applyOptimizationPolicy R E cfgNs False"

definition DeleteOptimizationPolicy :: "rest_env \<Rightarrow> string \<Rightarrow> string + string \<times> string \<Rightarrow> string reply io" where
  "DeleteOptimizationPolicy R cfgNs bound = (case bound of
      Inl err \<Rightarrow> State_Monad.return (Fail 400 err)
    | Inr (ns, name0) \<Rightarrow>
        (let name = trim_space name0 in
         if name = '''' then State_Monad.return (Fail 400 ''name is required'')
         else do {
           r \<leftarrow> DeleteTypedOptimizationPolicyCR R (or_default ns cfgNs) name;
           State_Monad.return (case r of
             None \<Rightarrow> Answer 200 ''deleted''
           | Some err \<Rightarrow> if IsNotFound err then Answer 200 ''already deleted'' else Fail 500 ''delete optimizationPolicy failed'')
         }))"

definition GetReOrchestrationPlan :: "env \<Rightarrow> string \<Rightarrow> string + string \<times> string \<Rightarrow> ReOrchestrationPlan reply io" where
  "GetReOrchestrationPlan E cfgNs bound = (case bound of
      Inl err \<Rightarrow> State_Monad.return (Fail 400 err)
    | Inr (ns, name0) \<Rightarrow>
        (let name = trim_space name0 in
         if name = '''' then State_Monad.return (Fail 400 ''name is required'')
         else do {
           g \<leftarrow> GetTypedReOrchestrationPlanCR E (or_default ns cfgNs) name;
           State_Monad.return (case g of
             Inl err \<Rightarrow> if IsNotFound err then Fail 404 ''plan not found'' else Fail 500 ''get plan failed''
           | Inr p \<Rightarrow> Answer 200 p)
         }))"

definition listConfigMapsByPrefix :: "workload_lib \<Rightarrow> string \<Rightarrow> string \<Rightarrow> (api_err + (string \<times> string \<times> time) list) io" where
  "listConfigMapsByPrefix W namespace namePrefix =
    (let kubeconfig = trim_space (wl_kubeconfig W) in
     if kubeconfig = '''' then State_Monad.return (Inr [])
     else case wl_build_config W kubeconfig of
       Some _ \<Rightarrow> State_Monad.return (Inr [])
     | None \<Rightarrow> (case wl_new_client W kubeconfig of
         Some err \<Rightarrow> State_Monad.return (Inl (OtherErr (''init kubernetes client failed: '' @ err_text err)))
       | None \<Rightarrow> do {
           l \<leftarrow> call (Rest (ListConfigMapsIn namespace)) (\<lambda>h. wl_configmaps W h namespace);
           State_Monad.return (case l of
             Inl err \<Rightarrow> Inl (OtherErr (''list configmaps failed: '' @ err_text err))
           | Inr cms \<Rightarrow> Inr (newest_first (\<lambda>(_, _, t). t)
               (filter (\<lambda>(n, _, _). \<not> (namePrefix \<noteq> '''' \<and> \<not> has_prefix n namePrefix)) cms)))
         }))"

definition ListTopologyConfigs :: "workload_lib \<Rightarrow> string \<Rightarrow> string + string \<Rightarrow> (string \<times> string \<times> time) list reply io" where
  "ListTopologyConfigs W cfgNs bound = (case bound of
      Inl err \<Rightarrow> State_Monad.return (Fail 400 err)
    | Inr ns \<Rightarrow> do {
        l \<leftarrow> listConfigMapsByPrefix W (or_default ns cfgNs) ''topology-'';
        State_Monad.return (case l of Inl err \<Rightarrow> Fail 500 (err_text err) | Inr items \<Rightarrow> Answer 200 items)
      })"

subsection \<open>The key-value store\<close>

definition kv_key :: "string \<Rightarrow> string \<Rightarrow> string" where
  "kv_key prefix k = prefix @ ''/kv/'' @ k"

definition KVStore_Put :: "workload_lib \<Rightarrow> string \<Rightarrow> string \<Rightarrow> string \<Rightarrow> api_err option io" where
  "KVStore_Put W prefix key v = call (Rest (KvPut (kv_key prefix key) v)) (\<lambda>h. wl_etcd_put W h (kv_key prefix key) v)"

definition KVStore_Get :: "workload_lib \<Rightarrow> string \<Rightarrow> string \<Rightarrow> (api_err + string option) io" where
  "KVStore_Get W prefix key = do {
     g \<leftarrow> call (Rest (KvGet (kv_key prefix key))) (\<lambda>h. wl_etcd_get W h (kv_key prefix key));
     State_Monad.return (case g of Inl err \<Rightarrow> Inl err | Inr [] \<Rightarrow> Inr None | Inr (v # _) \<Rightarrow> Inr (Some v))
   }"

definition KVStore_Delete :: "workload_lib \<Rightarrow> string \<Rightarrow> string \<Rightarrow> (api_err + bool) io" where
  "KVStore_Delete W prefix key = do {
     r \<leftarrow> call (Rest (KvDelete (kv_key prefix key))) (\<lambda>h. wl_etcd_delete W h (kv_key prefix key));
     State_Monad.return (case r of Inl err \<Rightarrow> Inl err | Inr n \<Rightarrow> Inr (n > 0))
   }"

definition kv_create :: "workload_lib \<Rightarrow> string \<Rightarrow> string + string \<times> string \<Rightarrow> string reply io" where
  "kv_create W prefix bound = (case bound of
      Inl err \<Rightarrow> State_Monad.return (Fail 400 err)
    | Inr (k, v) \<Rightarrow> do {
        r \<leftarrow> KVStore_Put W prefix k v;
        State_Monad.return (case r of Some _ \<Rightarrow> Fail 500 ''store put failed'' | None \<Rightarrow> Answer 201 k)
      })"

definition kv_get :: "workload_lib \<Rightarrow> string \<Rightarrow> string \<Rightarrow> (string \<times> string) reply io" where
  "kv_get W prefix key = do {
     g \<leftarrow> KVStore_Get W prefix key;
     State_Monad.return (case g of
       Inl _ \<Rightarrow> Fail 500 ''store get failed''
     | Inr None \<Rightarrow> Fail 404 ''not found''
     | Inr (Some v) \<Rightarrow> Answer 200 (key, v))
   }"

definition kv_update :: "workload_lib \<Rightarrow> string \<Rightarrow> string \<Rightarrow> string + string \<Rightarrow> string reply io" where
  "kv_update W prefix key bound = (case bound of
      Inl err \<Rightarrow> State_Monad.return (Fail 400 err)
    | Inr v \<Rightarrow> do {
        r \<leftarrow> KVStore_Put W prefix key v;
        State_Monad.return (case r of Some _ \<Rightarrow> Fail 500 ''store put failed'' | None \<Rightarrow> Answer 200 key)
      })"

definition kv_delete :: "workload_lib \<Rightarrow> string \<Rightarrow> string \<Rightarrow> unit reply io" where
  "kv_delete W prefix key = do {
     r \<leftarrow> KVStore_Delete W prefix key;
     State_Monad.return (case r of
       Inl _ \<Rightarrow> Fail 500 ''store delete failed''
     | Inr deleted \<Rightarrow> if deleted then Answer 204 () else Fail 404 ''not found'')
   }"

subsection \<open>Creating over an existing object\<close>

text \<open>
  Creating a policy that exists replaces it. When the API server has a policy of that name, a create request reads
  it and puts the new one in its place with the version just read; the answer is 200 and says created. The
  answer 409 for an existing policy can only come from a policy that appeared between the two calls.
\<close>

theorem create_policy_replaces_existing:
  assumes "pol = policy_in_namespace cfgNs p" and "k = ns_key (om_Namespace (pol_Meta pol)) (om_Name (pol_Meta pol))"
    and "trim_space (om_Name (pol_Meta pol)) \<noteq> ''''" and "env_get_policy E (hist w) k = Inr old"
    and "new = pol\<lparr>pol_Meta := (pol_Meta pol)\<lparr>om_ResourceVersion := om_ResourceVersion (pol_Meta old)\<rparr>\<rparr>"
    and "rest_write R (hist w @ [GetPolicy k]) (PutPolicy new) = None"
  shows "run_state (CreateOptimizationPolicy R E cfgNs (Inr (Some p))) w =
    (Answer 200 ''OptimizationPolicy created successfully'', w\<lparr>hist := hist w @ [GetPolicy k, Rest (PutPolicy new)]\<rparr>)"
proof -
  have "new = pol_Meta_update (with_version (om_ResourceVersion (pol_Meta old))) (pol_Meta_update (in_namespace (om_Namespace (pol_Meta pol))) pol)"
    by (simp add: assms(5) with_version_def in_namespace_def)
  then have "run_state (ApplyTypedOptimizationPolicyCR R E (om_Namespace (pol_Meta pol)) pol) w =
      (None, w\<lparr>hist := hist w @ [GetPolicy k, Rest (PutPolicy new)]\<rparr>)"
    unfolding ApplyTypedOptimizationPolicyCR_def assms(2)
    by (intro policy_kind.apply_replaces) (use assms in simp_all)
  with assms(1,3) show ?thesis
    by (simp add: CreateOptimizationPolicy_def applyOptimizationPolicy_def Let_def State_Monad.bind_def State_Monad.return_def)
qed

text \<open>
  C37: Creating a deployment that exists replaces it and takes its metadata: the object that is put has no labels,
  annotations, owner references or finalizers, so the finalizer with which the controller guards the cleanup of
  the replicas is lost until the next run adds it again.
\<close>

theorem create_deployment_drops_finalizers:
  assumes "parseDeploymentYAML W yaml cfgNs = Inr (name, ns, replicas, spec)" and "wl_marshal W spec = Inr template"
    and "env_get_gd E (hist w) (ns_key ns name) = Inr old"
    and "new = gd_Meta_update (with_version (om_ResourceVersion (gd_Meta old))) (created_gd name ns replicas template)"
    and "rest_write R (hist w @ [GetGD (ns_key ns name)]) (PutGD new) = None"
  shows "trace (CreateGlobalDeployment R E W cfgNs (Inr yaml)) w = [GetGD (ns_key ns name), Rest (PutGD new)] \<and>
    result (CreateGlobalDeployment R E W cfgNs (Inr yaml)) w =
      Answer 200 \<lparr>cgr_Name = name, cgr_Namespace = ns, cgr_Replicas = (case replicas of None \<Rightarrow> 1 | Some r \<Rightarrow> r)\<rparr> \<and>
    om_Finalizers (gd_Meta new) = [] \<and> om_Labels (gd_Meta new) = [] \<and> om_Annotations (gd_Meta new) = []"
proof -
  let ?gd = "created_gd name ns replicas template"
  have gd: "om_Name (gd_Meta ?gd) = name" "gd_Meta_update (in_namespace ns) ?gd = ?gd" by (simp_all add: created_gd_def in_namespace_def)
  have "run_state (apply_typed R (get_gd E) gd_Meta gd_Meta_update PostGD PutGD ns ?gd) w =
      (None, w\<lparr>hist := hist w @ [GetGD (ns_key ns (om_Name (gd_Meta ?gd))), Rest (PutGD new)]\<rparr>)"
    by (rule gd_kind.apply_replaces) (use assms gd in simp_all)
  then have "run_state (CreateGlobalDeployment R E W cfgNs (Inr yaml)) w =
      (Answer 200 \<lparr>cgr_Name = name, cgr_Namespace = ns, cgr_Replicas = (case replicas of None \<Rightarrow> 1 | Some r \<Rightarrow> r)\<rparr>,
       w\<lparr>hist := hist w @ [GetGD (ns_key ns name), Rest (PutGD new)]\<rparr>)"
    using assms(1,2) gd(1)
    by (simp add: CreateGlobalDeployment_def ApplyTypedGlobalDeploymentCR_def State_Monad.bind_def State_Monad.return_def)
  then show ?thesis by (simp add: trace_def exec_def result_def assms(4) created_gd_def with_version_def)
qed

subsection \<open>From the request to the member cluster\<close>

lemma parsed_deployment:
  assumes "parseDeploymentYAML W y cfgNs = Inr (name, ns, replicas, spec)"
  shows "name \<noteq> ''''" "ns \<noteq> ''''" "ds_Containers spec \<noteq> []" "replicas = ds_Replicas spec"
  using assms by (auto simp: parseDeploymentYAML_def validateDeploymentSpec_def Let_def split: sum.splits if_splits option.splits)

text \<open>
  C33: A deployment runs as it was submitted. When the server accepts a Deployment and the template it stores decodes
  to what was encoded, the controller's member Deployment for any replica is in the namespace of the created
  object, has exactly the containers and volumes of the submitted one, of which there is at least one, and one
  replica, pinned to its node; the number of replicas is the submitted one.
\<close>

theorem submitted_deployment_runs:
  assumes "parseDeploymentYAML W y cfgNs = Inr (name, ns, replicas, spec)" and "wl_marshal W spec = Inr template"
    and "env_decode E template = (None, spec)"
    and "d = buildMemberDeployment E (created_gd name ns replicas template) (member_dep_name name i) node"
  shows "dep_Namespace d = ns \<and> ds_Containers (dep_Spec d) = ds_Containers spec \<and> ds_Containers spec \<noteq> [] \<and>
    ds_Volumes (dep_Spec d) = ds_Volumes spec \<and> ds_Replicas (dep_Spec d) = Some 1 \<and>
    gd_Replicas (gd_Spec (created_gd name ns replicas template)) = ds_Replicas spec \<and>
    na_Required (the (aff_NodeAffinity (the (ds_Affinity (dep_Spec d))))) = Some [[(''kubernetes.io/hostname'', ''In'', [node])]]"
  using parsed_deployment [OF assms(1)] assms(3)
  by (simp add: assms(4) created_gd_def) (simp add: buildMemberDeployment_def Let_def)

subsection \<open>Deleting a deployment\<close>

text \<open>A call that deletes, or looks up, what a replica of the deployment left in its member cluster.\<close>

definition member_call :: "GlobalDeployment \<Rightarrow> ReplicaBinding list \<Rightarrow> event \<Rightarrow> bool" where
  "member_call gd rbs e = (case e of
      DepDelete cs ns n \<Rightarrow> (\<exists>rb \<in> set rbs. refers_to gd rb \<and> cs_Cluster cs = rb_TargetCluster (rb_Spec rb) \<and>
        ns = om_Namespace (gd_Meta gd) \<and> n = member_dep_name (om_Name (gd_Meta gd)) (rb_ReplicaIndex (rb_Spec rb)))
    | GetCluster _ \<Rightarrow> True | GetSecret _ \<Rightarrow> True | Rest (RemoveRB _) \<Rightarrow> True | _ \<Rightarrow> False)"

fun removed_bindings :: "history \<Rightarrow> nskey list" where
  "removed_bindings [] = []"
| "removed_bindings (Rest (RemoveRB k) # es) = k # removed_bindings es"
| "removed_bindings (_ # es) = removed_bindings es"

lemma removed_append [simp]: "removed_bindings (xs @ ys) = removed_bindings xs @ removed_bindings ys"
  by (induction xs rule: removed_bindings.induct) auto

lemma member_call_simps [simp]:
  "member_call gd rbs (GetCluster k)" "member_call gd rbs (GetSecret k)" "member_call gd rbs (Rest (RemoveRB k))"
  by (simp_all add: member_call_def)

text \<open>Between two histories exactly the bindings \<open>ks\<close> are removed, in this order, with member calls in between.\<close>

definition removes :: "GlobalDeployment \<Rightarrow> ReplicaBinding list \<Rightarrow> nskey list \<Rightarrow> history \<Rightarrow> history \<Rightarrow> bool" where
  "removes gd rbs ks h h' \<longleftrightarrow> (\<exists>tr. h' = h @ tr \<and> removed_bindings tr = ks \<and> list_all (member_call gd rbs) tr)"

lemma removes_trans: "removes gd rbs ks h h1 \<Longrightarrow> removes gd rbs ks' h1 h2 \<Longrightarrow> removes gd rbs (ks @ ks') h h2"
  unfolding removes_def by (metis append.assoc list_all_append removed_append)

lemma delete_from_member_removes:
  assumes "\<And>kc. member_call gd rbs (DepDelete \<lparr>cs_Cluster = c, cs_Kubeconfig = kc\<rparr> ns n)" and "removes gd rbs [] h (hist w)"
  shows "wp (delete_from_member E ns n (buildMemberClientset E c kc)) (\<lambda>_ w'. removes gd rbs [] h (hist w')) w"
  using assms
  by (auto simp: delete_from_member_def buildMemberClientset_def dep_delete_def wp_funs removes_def split: sum.split option.split)

lemma delete_member_removes:
  assumes "\<And>kc. member_call gd rbs (DepDelete \<lparr>cs_Cluster = c, cs_Kubeconfig = kc\<rparr> ns n)"
  shows "wp (deleteMemberDeployment E cfgNs c ns n) (\<lambda>_ w'. removes gd rbs [] (hist w) (hist w')) w"
proof -
  have look: "removes gd rbs [] h (h @ [GetCluster k])" "removes gd rbs [] h (h @ [GetCluster k, GetSecret k'])" for h k k'
    by (simp_all add: removes_def)
  show ?thesis unfolding deleteMemberDeployment_def Let_def GetTypedClusterCR_def GetSecretData_def get_cluster_def get_secret_def
    by (auto simp: wp_funs look intro!: delete_from_member_removes [OF assms] split: sum.split)
qed

lemma replica_member_call:
  assumes "rb \<in> set rbs" and "refers_to gd rb"
  shows "member_call gd rbs (DepDelete \<lparr>cs_Cluster = rb_TargetCluster (rb_Spec rb), cs_Kubeconfig = kc\<rparr> (om_Namespace (gd_Meta gd))
      (om_Name (gd_Meta gd) @ ''-r'' @ itoa (rb_ReplicaIndex (rb_Spec rb))))"
  using assms by (auto simp: member_call_def member_dep_name_def)

lemma delete_binding_removes:
  assumes "rb \<in> set rbs"
  shows "wp (delete_binding R E cfgNs ns gd rb)
    (\<lambda>_ w'. removes gd rbs (if refers_to gd rb then [ns_key ns (om_Name (rb_Meta rb))] else []) (hist w) (hist w')) w"
proof (cases "refers_to gd rb")
  case True
  let ?k = "ns_key ns (om_Name (rb_Meta rb))"
  let ?m = "if rb_TargetCluster (rb_Spec rb) \<noteq> '''' then deleteMemberDeployment E cfgNs (rb_TargetCluster (rb_Spec rb))
      (om_Namespace (gd_Meta gd)) (om_Name (gd_Meta gd) @ ''-r'' @ itoa (rb_ReplicaIndex (rb_Spec rb))) else State_Monad.return None"
  have "wp ?m (\<lambda>_ w'. removes gd rbs [] (hist w) (hist w')) w"
    using delete_member_removes [OF replica_member_call [OF assms True]] by (simp add: wp_return removes_def)
  moreover have "removes gd rbs [?k] (hist w) (hist w' @ [Rest (RemoveRB ?k)])" if "removes gd rbs [] (hist w) (hist w')" for w' :: world
    using that by (auto simp: removes_def)
  ultimately have "wp ?m (\<lambda>_ w'. removes gd rbs [?k] (hist w) (hist w' @ [Rest (RemoveRB ?k)])) w"
    by (rule wp_mono)
  with True show ?thesis unfolding delete_binding_def
    by (simp add: wp_funs DeleteTypedReplicaBindingCR_def rest_def)
qed (simp add: delete_binding_def wp_return removes_def)

lemma delete_loop_removes:
  assumes "set xs \<subseteq> set rbs"
  shows "wp (io_each (delete_binding R E cfgNs ns gd) xs)
    (\<lambda>_ w'. removes gd rbs (map (\<lambda>rb. ns_key ns (om_Name (rb_Meta rb))) (filter (refers_to gd) xs)) (hist w) (hist w')) w"
  using assms
proof (induction xs arbitrary: w)
  case (Cons rb xs)
  show ?case unfolding io_each.simps wp_bind
  proof (rule wp_mono [OF delete_binding_removes])
    fix u and w' :: world
    assume step: "removes gd rbs (if refers_to gd rb then [ns_key ns (om_Name (rb_Meta rb))] else []) (hist w) (hist w')"
    show "wp (io_each (delete_binding R E cfgNs ns gd) xs)
      (\<lambda>_ w'. removes gd rbs (map (\<lambda>rb. ns_key ns (om_Name (rb_Meta rb))) (filter (refers_to gd) (rb # xs))) (hist w) (hist w')) w'"
      by (rule wp_mono [OF Cons.IH]) (use Cons.prems removes_trans [OF step] in \<open>auto split: if_splits\<close>)
  qed (use Cons.prems in simp)
qed (simp add: wp_return removes_def)

text \<open>
  C6: Deleting a deployment covers all of its replicas before the deployment. The run reads the deployment and the
  bindings; then, for every binding that refers to it and no other, in order, it asks for the deletion of the
  binding, and the only workloads it deletes in member clusters are the Deployments of these replicas, under the
  names, in the namespace and in the clusters the ReplicaBinding controller uses; last it deletes the deployment.
\<close>

theorem deployment_deletion_covers_replicas:
  assumes "name = trim_space name0" and "ns = trim_space ns0" and "name \<noteq> ''''" and "ns \<noteq> ''''"
    and "env_get_gd E (hist w) (ns_key ns name) = Inr gd" and "env_list_rb E (hist w @ [GetGD (ns_key ns name)]) ns = Inr rbs"
  shows "\<exists>tr. trace (DeleteGlobalDeployment R E cfgNs (Inr (name0, ns0))) w =
      GetGD (ns_key ns name) # ListRB ns # tr @ [Rest (RemoveGD (ns_key ns (om_Name (gd_Meta gd))))] \<and>
    removed_bindings tr = map (\<lambda>rb. ns_key ns (om_Name (rb_Meta rb))) (filter (refers_to gd) rbs) \<and>
    list_all (member_call gd rbs) tr"
proof -
  let ?w = "w\<lparr>hist := hist w @ [GetGD (ns_key ns name), ListRB ns]\<rparr>"
  let ?ks = "map (\<lambda>rb. ns_key ns (om_Name (rb_Meta rb))) (filter (refers_to gd) rbs)"
  let ?last = "Rest (RemoveGD (ns_key ns (om_Name (gd_Meta gd))))"
  have "wp (io_each (delete_binding R E cfgNs ns gd) rbs) (\<lambda>_ w'. removes gd rbs ?ks (hist ?w) (hist w')) ?w"
    by (rule delete_loop_removes) simp
  then have "wp (io_each (delete_binding R E cfgNs ns gd) rbs)
      (\<lambda>_ w'. \<exists>tr. hist w' @ [?last] = hist w @ GetGD (ns_key ns name) # ListRB ns # tr @ [?last] \<and>
        removed_bindings tr = ?ks \<and> list_all (member_call gd rbs) tr) ?w"
    by (rule wp_mono) (auto simp: removes_def)
  then have "wp (DeleteGlobalDeployment R E cfgNs (Inr (name0, ns0)))
      (\<lambda>_ w'. \<exists>tr. hist w' = hist w @ GetGD (ns_key ns name) # ListRB ns # tr @ [?last] \<and>
        removed_bindings tr = ?ks \<and> list_all (member_call gd rbs) tr) w"
    using assms by (simp add: DeleteGlobalDeployment_def GetTypedGlobalDeploymentCR_def ListTypedReplicaBindingCRs_def get_gd_def list_rb_def
        DeleteTypedGlobalDeploymentCR_def rest_def wp_funs Let_def)
  then show ?thesis by (auto simp: wp_result trace_def)
qed

subsection \<open>Pages out of range\<close>

text \<open>
  C38: No list handler checks the first index of a page from below. Whenever the product of page number and page size
  leaves the range of 64-bit integers and becomes negative, the handlers for clusters, deployments, policies and
  plans panic in the slice expression, however many objects are stored.
\<close>

theorem list_handlers_panic_on_overflow:
  assumes "page_start (page_number page) (page_size n) < 0"
    and "rest_list_clusters R (hist w) cfgNs = Inr cs" and "rest_list_gd R (hist w) (or_default ns cfgNs) = Inr gds"
    and "rest_list_policies R (hist w) (or_default ns cfgNs) = Inr pols" and "rest_list_plans R (hist w) (or_default ns cfgNs) = Inr ps"
    and "req = \<lparr>lr_Namespace = ns, lr_Name = name, lr_Page = page, lr_PageSize = n\<rparr>"
    and "lc_Page creq = page" and "lc_PageSize creq = n"
  shows "result (ListClustersHandler R V cfgNs (Inr creq)) w = Panic \<and> result (ListGlobalDeployments R cfgNs (Inr req)) w = Panic \<and>
    result (ListOptimizationPolicies R cfgNs (Inr req)) w = Panic \<and> result (ListReOrchestrationPlans R cfgNs (Inr req)) w = Panic"
proof (intro conjI)
  show "result (ListClustersHandler R V cfgNs (Inr creq)) w = Panic"
    by (rule cluster_list_panics) (use assms in simp_all)
  note defs = page_reply_def overflow_panics result_def call_def State_Monad.bind_def State_Monad.return_def
  show "result (ListGlobalDeployments R cfgNs (Inr req)) w = Panic"
    using assms by (simp add: ListGlobalDeployments_def ListTypedGlobalDeploymentCRs_def defs)
  show "result (ListOptimizationPolicies R cfgNs (Inr req)) w = Panic"
    using assms by (simp add: ListOptimizationPolicies_def ListTypedOptimizationPolicyCRs_def defs)
  show "result (ListReOrchestrationPlans R cfgNs (Inr req)) w = Panic"
    using assms by (simp add: ListReOrchestrationPlans_def ListTypedReOrchestrationPlanCRs_def Let_def defs)
qed

subsection \<open>Witnesses\<close>

definition sample_workload :: workload_lib where
  "sample_workload = \<lparr>wl_yaml = (\<lambda>_. Inr \<lparr>yd_Kind = ''Deployment'', yd_Name = '' web '', yd_Namespace = '''', yd_Spec = sample_spec\<rparr>),
     wl_marshal = (\<lambda>_. Inr ''template''), wl_view = Some, wl_kubeconfig = '''', wl_build_config = (\<lambda>_. None), wl_new_client = (\<lambda>_. None),
     wl_configmaps = (\<lambda>_ _. Inr []), wl_etcd_put = (\<lambda>_ _ _. None), wl_etcd_get = (\<lambda>_ _. Inr []), wl_etcd_delete = (\<lambda>_ _. Inr 0)\<rparr>"

lemma sample_parsed: "parseDeploymentYAML sample_workload ''kind: Deployment'' '''' = Inr (''web'', ''default'', ds_Replicas sample_spec, sample_spec)"
  by code_simp

definition submitted_policy :: OptimizationPolicy where
  "submitted_policy = \<lparr>pol_Meta = (sample_meta ''policy'' [])\<lparr>om_Namespace := '' '', om_ResourceVersion := ''''\<rparr>,
     pol_Spec = \<lparr>pol_Enabled = True, pol_TargetSelector = None, pol_OptimizationGoals = [], pol_RunMode = ''Once'', pol_RebalancePoint = '''',
       pol_Strategy = ''Conservative'', pol_ImprovementThresholdPercent = 10\<rparr>,
     pol_Status = \<lparr>pol_Phase = PolicyPhaseNone, pol_ObservedDeployments = 0, pol_ObservedReplicas = 0, pol_CurrentLayout = [],
       pol_StableReplicas = 0, pol_UnstableReplicas = 0, pol_UnstableReasonsCount = [], pol_LastEvaluationTime = None,
       pol_LatestPlanRef = None, pol_Conditions = []\<rparr>\<rparr>"

definition stored_policy :: OptimizationPolicy where
  "stored_policy = submitted_policy\<lparr>pol_Meta := (sample_meta ''policy'' [])\<lparr>om_ResourceVersion := ''7''\<rparr>\<rparr>"

definition policy_store :: env where
  "policy_store = (sample_env Running)\<lparr>env_get_policy := \<lambda>_ _. Inr stored_policy, env_list_rb := \<lambda>_ _. Inr [sample_rb Running]\<rparr>"

theorem create_policy_replaces_existing_witness:
  "result (CreateOptimizationPolicy sample_rest policy_store ''ns'' (Inr (Some submitted_policy))) fresh_world =
    Answer 200 ''OptimizationPolicy created successfully''"
proof -
  let ?pol = "policy_in_namespace ''ns'' submitted_policy"
  have "trim_space (om_Name (pol_Meta ?pol)) \<noteq> ''''" by code_simp
  from create_policy_replaces_existing [OF refl refl this, where E = policy_store and w = fresh_world and old = stored_policy and R = sample_rest]
  show ?thesis by (simp add: policy_store_def sample_rest_def result_def)
qed

theorem create_deployment_drops_finalizers_witness:
  "om_Finalizers (gd_Meta sample_gd) \<noteq> [] \<and>
    trace (CreateGlobalDeployment sample_rest (sample_env Running) sample_workload '''' (Inr ''kind: Deployment'')) fresh_world =
    [GetGD (ns_key ''default'' ''web''),
     Rest (PutGD (gd_Meta_update (with_version ''1'') (created_gd ''web'' ''default'' (Some 3) ''template'')))]"
proof -
  have "wl_marshal sample_workload sample_spec = Inr ''template''" "env_get_gd (sample_env Running) h k = Inr sample_gd"
    "om_ResourceVersion (gd_Meta sample_gd) = ''1''" "rest_write sample_rest h (PutGD g) = None" "ds_Replicas sample_spec = Some 3" for h k g
    by (simp_all add: sample_workload_def sample_env_def sample_gd_def sample_meta_def sample_rest_def sample_spec_def)
  with create_deployment_drops_finalizers [OF sample_parsed _ _ refl, where E = "sample_env Running" and w = fresh_world
      and template = "''template''" and old = sample_gd and R = sample_rest]
  show ?thesis by (simp add: sample_gd_def sample_meta_def)
qed

theorem submitted_deployment_runs_witness:
  "dep_Namespace (buildMemberDeployment (sample_env Running) (created_gd ''web'' ''default'' (Some 3) ''template'')
      (member_dep_name ''web'' 0) ''node-1'') = ''default''"
  using submitted_deployment_runs [OF sample_parsed _ _ refl, where E = "sample_env Running" and template = "''template''" and i = 0
      and node = "''node-1''"]
  by (simp add: sample_workload_def sample_env_def sample_spec_def)

theorem deployment_deletion_covers_replicas_witness:
  "\<exists>tr. trace (DeleteGlobalDeployment sample_rest policy_store ''ns'' (Inr ('' web'', ''ns''))) fresh_world =
      GetGD (ns_key ''ns'' ''web'') # ListRB ''ns'' # tr @ [Rest (RemoveGD (ns_key ''ns'' ''web''))] \<and>
    removed_bindings tr = [ns_key ''ns'' ''web-rb-0''] \<and> list_all (member_call sample_gd [sample_rb Running]) tr"
proof -
  have "''web'' = trim_space '' web''" "''ns'' = trim_space ''ns''" by code_simp+
  from deployment_deletion_covers_replicas [OF this, where E = policy_store and w = fresh_world and gd = sample_gd and R = sample_rest
      and cfgNs = "''ns''" and rbs = "[sample_rb Running]"]
  show ?thesis
    by (simp add: policy_store_def sample_env_def sample_gd_def sample_rb_def sample_meta_def refers_to_def)
qed

theorem list_handlers_panic_on_overflow_witness:
  "result (ListGlobalDeployments sample_rest ''ns'' (Inr \<lparr>lr_Namespace = '''', lr_Name = '''', lr_Page = 100000000000000001, lr_PageSize = 100\<rparr>))
    fresh_world = Panic"
proof -
  have "page_start (page_number 100000000000000001) (page_size 100) < 0" by code_simp
  from list_handlers_panic_on_overflow [OF this, where R = sample_rest and w = fresh_world and cfgNs = "''ns''" and ns = "''''" and name = "''''"
      and creq = "list_req\<lparr>lc_Page := 100000000000000001, lc_PageSize := 100\<rparr>"]
  show ?thesis by (simp add: sample_rest_def)
qed

end
