(* ===== verification/Router.thy ===== *)
theory Router
  imports Workload_Handlers
begin

section \<open>The REST server: routes\<close>

text \<open>
  \<open>src/server/internal/api/router.go\<close> and the \<open>Register\<close> methods of the handlers: one constructor per route, with
  what gin makes of the request, and one clause per registered handler. The answer is the HTTP status; a panic of
  a handler is turned into status 500 by \<open>gin.Recovery\<close>. The request logger of \<open>middleware.go\<close> only logs. The
  matching of paths is gin's.
\<close>

record server =
  sv_Rest :: rest_env
  sv_Lib :: server_lib
  sv_Work :: workload_lib
  sv_ClusterNamespace :: string
  sv_DeploymentNamespace :: string
  sv_OptimizationNamespace :: string
  sv_TopologyNamespace :: string
  sv_EtcdPrefix :: string
  sv_EtcdEndpoints :: "string list"
  sv_EtcdStatus :: "history \<Rightarrow> string \<Rightarrow> api_err option"

fun status_code :: "'a reply \<Rightarrow> nat" where
  "status_code (Fail c _) = c"
| "status_code (Answer c _) = c"
| "status_code Panic = 500"

definition answered :: "'a reply io \<Rightarrow> nat io" where
  "answered m = do { r \<leftarrow> m; State_Monad.return (status_code r) }"

subsection \<open>Health\<close>

definition readyz :: "server \<Rightarrow> unit reply io" where
  "readyz S = (case sv_EtcdEndpoints S of
      [] \<Rightarrow> State_Monad.return (Fail 503 ''no etcd endpoints'')
    | endpoint # _ \<Rightarrow> State (\<lambda>w. (case sv_EtcdStatus S (hist w) endpoint of
        Some err \<Rightarrow> Fail 503 (err_text err)
      | None \<Rightarrow> Answer 200 (), w)))"

subsection \<open>The groups of routes\<close>

datatype kv_route =
    PostKv "string + string \<times> string" | GetKv string | PutKv string "string + string" | DeleteKv string

fun serve_kv :: "server \<Rightarrow> kv_route \<Rightarrow> nat io" where
  "serve_kv S (PostKv b) = answered (kv_create (sv_Work S) (sv_EtcdPrefix S) b)"
| "serve_kv S (GetKv k) = answered (kv_get (sv_Work S) (sv_EtcdPrefix S) k)"
| "serve_kv S (PutKv k b) = answered (kv_update (sv_Work S) (sv_EtcdPrefix S) k b)"
| "serve_kv S (DeleteKv k) = answered (kv_delete (sv_Work S) (sv_EtcdPrefix S) k)"

datatype cluster_route =
    PostImportCluster "string + ImportClusterRequest"
  | GetListClusters "string + ListClustersRequest"
  | GetGetCluster "string + string"
  | PostDeleteClusters "string + string list"
  | PostUpdateCluster "string + UpdateClusterRequest"

fun serve_clusters :: "server \<Rightarrow> env \<Rightarrow> cluster_route \<Rightarrow> nat io" where
  "serve_clusters S E (PostImportCluster b) = answered (ImportCluster (sv_Rest S) E (sv_Lib S) (sv_ClusterNamespace S) b)"
| "serve_clusters S E (GetListClusters b) = answered (ListClustersHandler (sv_Rest S) (sv_Lib S) (sv_ClusterNamespace S) b)"
| "serve_clusters S E (GetGetCluster b) = answered (GetClusterHandler E (sv_Lib S) (sv_ClusterNamespace S) b)"
| "serve_clusters S E (PostDeleteClusters b) = answered (DeleteClusters (sv_Rest S) (sv_ClusterNamespace S) b)"
| "serve_clusters S E (PostUpdateCluster b) = answered (UpdateCluster (sv_Rest S) E (sv_Lib S) (sv_ClusterNamespace S) b)"

datatype deployment_route =
    PostCreateGlobalDeployment "string + string"
  | PostGetGlobalDeployment "string + string \<times> string"
  | PostListGlobalDeployments "string + ListRequest"
  | PostDeleteGlobalDeployment "string + string \<times> string"

fun serve_deployments :: "server \<Rightarrow> env \<Rightarrow> deployment_route \<Rightarrow> nat io" where
  "serve_deployments S E (PostCreateGlobalDeployment b) =
    answered (CreateGlobalDeployment (sv_Rest S) E (sv_Work S) (sv_DeploymentNamespace S) b)"
| "serve_deployments S E (PostGetGlobalDeployment b) = answered (GetGlobalDeployment E (sv_Lib S) (sv_Work S) (sv_DeploymentNamespace S) b)"
| "serve_deployments S E (PostListGlobalDeployments b) = answered (ListGlobalDeployments (sv_Rest S) (sv_DeploymentNamespace S) b)"
| "serve_deployments S E (PostDeleteGlobalDeployment b) = answered (DeleteGlobalDeployment (sv_Rest S) E (sv_DeploymentNamespace S) b)"

datatype optimization_route =
    PostListOptimizationPolicies "string + ListRequest"
  | PostGetOptimizationPolicy "string + string \<times> string"
  | PostCreateOptimizationPolicy "string + OptimizationPolicy option"
  | PostUpdateOptimizationPolicy "string + OptimizationPolicy option"
  | PostDeleteOptimizationPolicy "string + string \<times> string"
  | PostListReOrchestrationPlans "string + ListRequest"
  | PostGetReOrchestrationPlan "string + string \<times> string"
  | PostListTopologyConfigs "string + string"

fun serve_optimization :: "server \<Rightarrow> env \<Rightarrow> optimization_route \<Rightarrow> nat io" where
  "serve_optimization S E (PostListOptimizationPolicies b) =
    answered (ListOptimizationPolicies (sv_Rest S) (optimization_namespace (sv_OptimizationNamespace S)) b)"
| "serve_optimization S E (PostGetOptimizationPolicy b) =
    answered (GetOptimizationPolicy E (optimization_namespace (sv_OptimizationNamespace S)) b)"
| "serve_optimization S E (PostCreateOptimizationPolicy b) =
    answered (CreateOptimizationPolicy (sv_Rest S) E (optimization_namespace (sv_OptimizationNamespace S)) b)"
| "serve_optimization S E (PostUpdateOptimizationPolicy b) =
    answered (UpdateOptimizationPolicy (sv_Rest S) E (optimization_namespace (sv_OptimizationNamespace S)) b)"
| "serve_optimization S E (PostDeleteOptimizationPolicy b) =
    answered (DeleteOptimizationPolicy (sv_Rest S) (optimization_namespace (sv_OptimizationNamespace S)) b)"
| "serve_optimization S E (PostListReOrchestrationPlans b) =
    answered (ListReOrchestrationPlans (sv_Rest S) (optimization_namespace (sv_OptimizationNamespace S)) b)"
| "serve_optimization S E (PostGetReOrchestrationPlan b) =
    answered (GetReOrchestrationPlan E (optimization_namespace (sv_OptimizationNamespace S)) b)"
| "serve_optimization S E (PostListTopologyConfigs b) =
    answered (ListTopologyConfigs (sv_Work S) (topology_namespace (sv_TopologyNamespace S)) b)"

datatype http_request =
    Healthz | Readyz | KvRoute kv_route | ClusterRoute cluster_route | DeploymentRoute deployment_route
  | OptimizationRoute optimization_route

fun serve :: "server \<Rightarrow> env \<Rightarrow> http_request \<Rightarrow> nat io" where
  "serve S E Healthz = State_Monad.return 200"
| "serve S E Readyz = answered (readyz S)"
| "serve S E (KvRoute r) = serve_kv S r"
| "serve S E (ClusterRoute r) = serve_clusters S E r"
| "serve S E (DeploymentRoute r) = serve_deployments S E r"
| "serve S E (OptimizationRoute r) = serve_optimization S E r"

subsection \<open>What a request may do\<close>

text \<open>The calls of the server: reads, its own writes, and the deletion of Deployments in member clusters.\<close>

fun server_event :: "event \<Rightarrow> bool" where
  "server_event (GetCluster _) = True"
| "server_event (GetSecret _) = True"
| "server_event (GetGD _) = True"
| "server_event (GetPolicy _) = True"
| "server_event (GetPlan _) = True"
| "server_event (ListRB _) = True"
| "server_event (DepDelete _ _ _) = True"
| "server_event (Rest _) = True"
| "server_event _ = False"

abbreviation served :: "history \<Rightarrow> event \<Rightarrow> bool" where
  "served \<equiv> \<lambda>_. server_event"

text \<open>
  A program of the server keeps to these calls and, because it has no state of its own, keeps every invariant of the
  local state that does not look at the history.
\<close>

definition server_program :: "'a io \<Rightarrow> bool" where
  "server_program m \<longleftrightarrow> guar served m \<and> (\<forall>I. (\<forall>w h. I (w\<lparr>hist := h\<rparr>) = I w) \<longrightarrow> preserves I m)"

named_theorems serve_intros \<open>programs of the server\<close>

lemma serve_return [serve_intros]: "server_program (State_Monad.return x)"
  by (simp add: server_program_def guar_intros keep_intros)

lemma serve_read [serve_intros]: "server_program (State (\<lambda>w. (f (hist w), w)))"
  by (simp add: server_program_def guar_def preserves_def exec_def)

lemma serve_call [serve_intros]: "server_event e \<Longrightarrow> server_program (call e a)"
  by (simp add: server_program_def guar_call preserves_call)

lemma serve_bind [serve_intros]: "server_program m \<Longrightarrow> (\<And>x. server_program (f x)) \<Longrightarrow> server_program (State_Monad.bind m f)"
  unfolding server_program_def by (intro conjI allI impI guar_bind preserves_bind) blast+

lemma serve_cases [serve_intros]:
  "(b \<Longrightarrow> server_program m) \<Longrightarrow> (\<not> b \<Longrightarrow> server_program m') \<Longrightarrow> server_program (if b then m else m')"
  "server_program m \<Longrightarrow> (\<And>y. server_program (f y)) \<Longrightarrow> server_program (case x of None \<Rightarrow> m | Some y \<Rightarrow> f y)"
  "(\<And>y. server_program (f' y)) \<Longrightarrow> (\<And>y. server_program (g y)) \<Longrightarrow> server_program (case s of Inl y \<Rightarrow> f' y | Inr y \<Rightarrow> g y)"
  "(\<And>a b. server_program (k a b)) \<Longrightarrow> server_program (case p of (a, b) \<Rightarrow> k a b)"
  "server_program m \<Longrightarrow> (\<And>y ys. server_program (l y ys)) \<Longrightarrow> server_program (case zs of [] \<Rightarrow> m | y # ys \<Rightarrow> l y ys)"
  by (simp_all split: option.split sum.split prod.split list.split)

lemma serve_each [serve_intros]: "(\<And>x. server_program (f x)) \<Longrightarrow> server_program (io_each f xs)"
  by (induction xs) (auto intro!: serve_intros)

lemma serve_retry [serve_intros]: "(\<And>s. server_program (fn s)) \<Longrightarrow> server_program (retry_on_conflict n fn s)"
  by (induction n arbitrary: s) (auto intro!: serve_intros)

lemmas access_layer = GetTypedClusterCR_def GetSecretData_def ListTypedClusterCRs_def DeleteTypedClusterCR_def CreateSecret_def
  ListTypedGlobalDeploymentCRs_def GetTypedGlobalDeploymentCR_def ListTypedReplicaBindingCRs_def DeleteTypedReplicaBindingCR_def
  DeleteTypedGlobalDeploymentCR_def get_policy_cr_def GetTypedOptimizationPolicyCR_def ListTypedOptimizationPolicyCRs_def
  DeleteTypedOptimizationPolicyCR_def GetTypedReOrchestrationPlanCR_def ListTypedReOrchestrationPlanCRs_def
  ApplyTypedClusterCR_def ApplyTypedGlobalDeploymentCR_def ApplyTypedOptimizationPolicyCR_def apply_typed_def apply_attempt_def
  rest_def get_cluster_def get_secret_def get_gd_def get_plan_def list_rb_def dep_delete_def

lemma serve_delete_clusters [serve_intros]: "server_program (delete_clusters R ns ids resp)"
  by (induction ids arbitrary: resp) (auto simp: access_layer intro!: serve_intros)

lemma serve_binding_items [serve_intros]: "server_program (binding_items E V ns gd rbs cache)"
  by (induction rbs arbitrary: cache) (auto simp: cluster_name_def access_layer intro!: serve_intros)

lemma serve_kv_ok: "server_program (serve_kv S r)"
  by (cases r) (auto simp: answered_def kv_create_def kv_get_def kv_update_def kv_delete_def KVStore_Put_def KVStore_Get_def KVStore_Delete_def
      intro!: serve_intros)

lemma serve_clusters_ok: "server_program (serve_clusters S E r)"
  by (cases r) (auto simp: answered_def ImportCluster_def ListClustersHandler_def GetClusterHandler_def DeleteClusters_def UpdateCluster_def
      fresh_id_def import_secret_def read_applied_def access_layer Let_def intro!: serve_intros)

lemma serve_deployments_ok: "server_program (serve_deployments S E r)"
  by (cases r) (auto simp: answered_def CreateGlobalDeployment_def GetGlobalDeployment_def ListGlobalDeployments_def DeleteGlobalDeployment_def
      delete_binding_def deleteMemberDeployment_def delete_from_member_def access_layer Let_def intro!: serve_intros)

lemma serve_optimization_ok: "server_program (serve_optimization S E r)"
  by (cases r) (auto simp: answered_def ListOptimizationPolicies_def GetOptimizationPolicy_def CreateOptimizationPolicy_def
      UpdateOptimizationPolicy_def applyOptimizationPolicy_def DeleteOptimizationPolicy_def ListReOrchestrationPlans_def
      GetReOrchestrationPlan_def ListTopologyConfigs_def listConfigMapsByPrefix_def access_layer Let_def intro!: serve_intros)

lemma readyz_ok: "server_program (answered (readyz S))"
  unfolding answered_def readyz_def by (intro serve_intros)

lemma serve_ok: "server_program (serve S E r)"
  by (cases r) (auto simp: readyz_ok serve_kv_ok serve_clusters_ok serve_deployments_ok serve_optimization_ok intro: serve_intros)

end
