(* ===== verification/Whole_System.thy ===== *)
theory Whole_System
  imports Control_Plane Cluster_Controller Policy_Plans Router
begin

section \<open>The whole system\<close>

text \<open>
  The manager and the server over one API server: any sequence of reconcile runs of the five controllers, of
  evaluations started by the timers of the policies and of requests to the REST server, in one growing history.
  The reachable states are an inductive relation. The theorem proved by rule induction over it joins the
  guarantees of all components: what may appear in the history of the system, and after what.
\<close>

record system =
  sys_Server :: server
  sys_Policy :: policy_lib
  sys_Config :: policy_cfg

datatype activity = Reconcile reconcile_request | ReconcileCluster nskey | ReconcilePolicy nskey | Evaluate nskey | Serve http_request

definition ignoring :: "'a io \<Rightarrow> unit io" where
  "ignoring m = do { _ \<leftarrow> m; State_Monad.return () }"

fun act :: "system \<Rightarrow> env \<Rightarrow> activity \<Rightarrow> unit io" where
  "act S E (Reconcile r) = ignoring (reconcile E r)"
| "act S E (ReconcileCluster k) = ignoring (cluster_Reconcile E k)"
| "act S E (ReconcilePolicy k) = ignoring (policy_Reconcile (sys_Config S) E k)"
| "act S E (Evaluate k) = ignoring (defaultEvaluate (sys_Policy S) (sys_Config S) E k)"
| "act S E (Serve r) = ignoring (serve (sys_Server S) E r)"

inductive system_reachable :: "system \<Rightarrow> env \<Rightarrow> world \<Rightarrow> bool" for S E where
  start: "system_reachable S E \<lparr>hist = [], clients = [], cursors = [], policy_clients = [], kube_clients = [], timers = []\<rparr>"
| run: "system_reachable S E w \<Longrightarrow> system_reachable S E (exec (act S E a) w)"

lemma exec_ignoring [simp]: "exec (ignoring m) w = exec m w"
  by (simp add: ignoring_def exec_bind) (simp add: exec_def State_Monad.return_def)

subsection \<open>The client caches\<close>

text \<open>The process keeps three caches of clients; in each, a client belongs to the cluster under which it is stored.\<close>

definition caches_ok :: "world \<Rightarrow> bool" where
  "caches_ok w \<longleftrightarrow> cache_ok w \<and> kube_ok w \<and> policy_cache_ok w"

lemmas cache_invariants = caches_ok_def cache_ok_def kube_ok_def policy_cache_ok_def

lemma caches_ok_hist [simp]: "caches_ok (w\<lparr>hist := h\<rparr>) = caches_ok w"
  by (simp add: caches_ok_def)

lemma caches_basic [keep_intros]:
  "preserves caches_ok (call e a)" "preserves caches_ok (getCursor key)" "preserves caches_ok (setCursor key v)"
  "preserves caches_ok (cancelTimer k)" "preserves caches_ok (startTimer k d)" "preserves caches_ok (clearClient c)"
  "preserves caches_ok (solvePlacement L C pol p)" "preserves caches_ok (random_suffix E)"
  by (simp_all add: preserves_call)
    (simp_all add: preserves_def exec_def getCursor_def setCursor_def cancelTimer_def startTimer_def clearClient_def solvePlacement_def
      random_suffix_def cache_invariants clients_ok_mdel)

lemma GetOrBuild_caches [keep_intros]: "preserves caches_ok (GetOrBuild E ns c)"
  unfolding preserves_def
proof (intro allI impI)
  fix w assume "caches_ok w"
  then have "wp (GetOrBuild E ns c) (\<lambda>_. caches_ok) w"
    by (simp add: GetOrBuild_vcg cache_invariants clients_ok_mput split: option.split sum.split)
  then show "caches_ok (exec (GetOrBuild E ns c) w)" by (simp add: wp_result)
qed

lemma getOrBuildClient_caches [keep_intros]: "preserves caches_ok (getOrBuildClient E c n data)"
  unfolding preserves_def
proof (intro allI impI)
  fix w assume "caches_ok w"
  then have "wp (getOrBuildClient E c n data) (\<lambda>_. caches_ok) w"
    by (simp add: getOrBuildClient_vcg cache_invariants clients_ok_mput split: option.split)
  then show "caches_ok (exec (getOrBuildClient E c n data) w)" by (simp add: wp_result)
qed

lemma swap_caches_ok: "caches_ok (swap_caches w) = caches_ok w"
  by (auto simp: cache_invariants swap_caches_def)

lemma with_policy_cache_caches [keep_intros]: "preserves caches_ok m \<Longrightarrow> preserves caches_ok (with_policy_cache m)"
  by (simp add: preserves_def exec_def with_policy_cache_def swap_caches_ok split: prod.split) (metis snd_conv swap_caches_ok)

lemma rb_caches: "preserves caches_ok (rb_Reconcile E cns req)"
  unfolding rb_Reconcile_def rb_execute_def rb_deleting_def rb_delete_requested_def rb_add_finalizer_def rb_assigned_def
    rb_rescheduling_def rb_applying_def failBinding_def patch_phase_def ensureNamespace_def find_actual_node_def getMemberClient_def
    io_defs Let_def
  by (auto intro!: keep_intros split: ReplicaBindingPhase.split)

lemma plan_caches: "preserves caches_ok (plan_Reconcile E req)"
  unfolding plan_bodies io_defs Let_def by (intro keep_intros)

lemma gd_caches: "preserves caches_ok (gd_Reconcile E req)"
  unfolding gd_bodies io_defs Let_def by (intro keep_intros status_loop_keeps)

lemma preserves_phase [keep_intros]:
  "preserves I a \<Longrightarrow> preserves I b \<Longrightarrow> preserves I c \<Longrightarrow> preserves I d \<Longrightarrow> preserves I e \<Longrightarrow> (\<And>s. preserves I (f s)) \<Longrightarrow>
   preserves I (case ph of ClusterPhaseNone \<Rightarrow> a | Importing \<Rightarrow> b | ClusterReady \<Rightarrow> c | NotReady \<Rightarrow> d | ClusterFailed \<Rightarrow> e
     | ClusterPhaseOther s \<Rightarrow> f s)"
  by (cases ph) simp_all

lemma cluster_caches: "preserves caches_ok (cluster_Reconcile E req)"
  unfolding cluster_Reconcile_def invalid_spec_def reconcileImporting_def reconcileReady_def reconcileNotReady_def sync_resources_def
    report_and_retry_def import_failed_def not_ready_def still_not_ready_def update_cluster_def server_version_def nodes_list_def
    pods_list_def getKubeconfigSecret_def get_secret_def get_cluster_def Let_def
  by (intro keep_intros)

lemmas policy_bodies = policy_Reconcile_def policy_enabled_def policy_active_def policy_conflict_def tryAcquirePolicyLease_def
  setStatusPhaseAndCondition_def reconcileObservedDeployments_def reconcileCurrentLayout_def report_layout_def ensureTimer_def
  get_policy_def get_lease_def write_lease_def list_gd_def list_rb_def record_event_def patch_policy_def

lemma policy_caches: "preserves caches_ok (policy_Reconcile C E req)"
  unfolding policy_bodies io_defs Let_def
  by (auto intro!: keep_intros)

lemmas evaluation_bodies = defaultEvaluate_def evaluate_policy_def evaluate_active_def create_plan_def report_solver_failure_def
  finish_evaluation_def persist_plan_def record_success_def optimise_def solve_and_plan_def report_too_many_def plan_assignment_def
  move_step_def getClusterName_def computeImprovementPct_def gather_def gather_rest_def candidate_nodes_def buildNodeContexts_def
  context_step_def context_read_def policy_member_client_def loadProfilesFromConfigMaps_def communication_data_def
  loadTopologyFromConfigMap_def setStatusPhaseAndCondition_def get_policy_def record_event_def patch_policy_def list_gd_def
  get_configmap_def get_cluster_def

lemma evaluation_caches: "preserves caches_ok (defaultEvaluate L C E key)"
  unfolding evaluation_bodies io_defs Let_def
  by (intro keep_intros) (auto intro!: keep_intros split: opt_error.split)

lemma act_caches: "preserves caches_ok (act S E a)"
proof -
  have "preserves caches_ok (reconcile E r)" for r
    by (cases r) (simp_all add: rb_caches plan_caches gd_caches)
  moreover have "preserves caches_ok (serve T E q)" for T q
    using serve_ok unfolding server_program_def by (metis caches_ok_hist)
  ultimately show ?thesis
    by (cases a) (simp_all add: ignoring_def keep_intros cluster_caches policy_caches evaluation_caches)
qed

lemma system_caches_ok: "system_reachable S E w \<Longrightarrow> caches_ok w"
  by (induction rule: system_reachable.induct) (simp_all add: act_caches [unfolded preserves_def], simp add: cache_invariants clients_ok_def)

subsection \<open>One guarantee for all components\<close>

text \<open>
  What the evaluation of a policy does: it reads, creates plans, and writes the status of the policy without a change of
  its phase.
\<close>

definition evaluation_guard :: "event \<Rightarrow> bool" where
  "evaluation_guard e = (case e of
     CreatePlan _ \<Rightarrow> True
   | StatusPatchPolicy base new \<Rightarrow> pol_Meta new = pol_Meta base \<and> pol_Spec new = pol_Spec base \<and>
       pol_Phase (pol_Status new) = pol_Phase (pol_Status base)
   | _ \<Rightarrow> eval_event e)"

lemma evaluation_guard_simps [simp]:
  "evaluation_guard (CreatePlan p)" "evaluation_guard (StatusUpdatePolicy q)" "evaluation_guard (RecordEvent r m)"
  "evaluation_guard PlansCreatedInc" "evaluation_guard ActivePolicySet" "evaluation_guard CalculationObserve"
  "evaluation_guard (StatusPatchPlan a b)" "evaluation_guard (GetPolicy k)"
  by (simp_all add: evaluation_guard_def)

lemma eval_read_guard: "eval_read e \<Longrightarrow> evaluation_guard e"
  by (cases e) (simp_all add: evaluation_guard_def)

lemma evaluation_gathers: "guar (\<lambda>_. evaluation_guard) (gather L C E svc pol)"
  by (rule guar_mono [OF gather_reads eval_read_guard])

lemma evaluation_silent [guar_intros]: "guar G (solvePlacement L C pol p)" "guar G (random_suffix E)"
  by (simp_all add: guar_def exec_def solvePlacement_def random_suffix_def)

lemma evaluate_policy_guar: "guar (\<lambda>_. evaluation_guard) (evaluate_policy L C E key)"
  unfolding evaluate_policy_def evaluate_active_def create_plan_def report_solver_failure_def
    finish_evaluation_def persist_plan_def record_success_def optimise_def solve_and_plan_def report_too_many_def plan_assignment_def
    move_step_def getClusterName_def computeImprovementPct_def setStatusPhaseAndCondition_def get_policy_def record_event_def
    patch_policy_def get_cluster_def with_condition_def io_defs Let_def
  by (intro guar_intros evaluation_gathers)
    (auto intro!: guar_intros simp: evaluation_guard_def split: opt_error.split)

lemma evaluation_guar: "guar (\<lambda>_. evaluation_guard) (defaultEvaluate L C E key)"
  unfolding defaultEvaluate_def get_policy_def by (intro guar_intros evaluate_policy_guar) simp

text \<open>
  The guarantee of the system adds to that of the bindings: a cluster status is written along the phase machine from
  a state that was read before, and Ready only after a successful probe; the lease is created only when it was just
  read as missing, and taken over only when the copy just read had expired; a policy becomes Active only when it is
  enabled and just wrote itself as holder of the lease; and a plan is created only for a policy that was read as
  Active before, with the moves that the solver calls for.
\<close>

definition read_before :: "(history \<Rightarrow> nskey \<Rightarrow> api_err + 'o) \<Rightarrow> history \<Rightarrow> 'o \<Rightarrow> bool" where
  "read_before get h x \<longleftrightarrow> (\<exists>h0 h1 k. h = h0 @ h1 \<and> get h0 k = Inr x)"

definition management_guard :: "system \<Rightarrow> env \<Rightarrow> history \<Rightarrow> event \<Rightarrow> bool" where
  "management_guard S E h e = (case e of
     StatusUpdateCluster c \<Rightarrow> \<exists>c0. read_before (env_get_cluster E) h c0 \<and> cluster_write_ok E c0 h c
   | CreateLease l \<Rightarrow> (case lease_read E (lease_key (sys_Config S)) h of Some (Inl err) \<Rightarrow> IsNotFound err | _ \<Rightarrow> False)
   | PatchLease base new \<Rightarrow> \<exists>pol. read_before (env_get_policy E) h pol \<and> lease_write_ok (sys_Config S) E pol h base new
   | StatusPatchPolicy base new \<Rightarrow> pol_Meta new = pol_Meta base \<and> pol_Spec new = pol_Spec base \<and>
       (pol_Phase (pol_Status new) = PolicyActive \<and> pol_Phase (pol_Status base) \<noteq> PolicyActive \<longrightarrow>
          pol_Enabled (pol_Spec base) \<and> lease_held E (self_id E base) h)
   | CreatePlan p \<Rightarrow> \<exists>h0 h1 k. h = h0 @ h1 \<and> plan_of_active (sys_Policy S) (sys_Config S) E k h0 h p
   | _ \<Rightarrow> True)"

definition whole_guard :: "system \<Rightarrow> env \<Rightarrow> history \<Rightarrow> event \<Rightarrow> bool" where
  "whole_guard S E h e \<longleftrightarrow> system_guard E h e \<and> management_guard S E h e"

lemmas whole_defs = whole_guard_def system_guard_def management_guard_def

text \<open>A guarantee may use that the history begins with the one at the start of the run.\<close>

lemma ok_from: "ok G h h' \<Longrightarrow> (\<And>xs e. G (h @ xs) e \<Longrightarrow> H (h @ xs) e) \<Longrightarrow> ok H h h'"
proof (unfold ok_iff, elim exE conjE)
  fix tr
  assume "h' = h @ tr" and "guarded G h tr" and step: "\<And>xs e. G (h @ xs) e \<Longrightarrow> H (h @ xs) e"
  have "guarded G (h @ xs) tr \<Longrightarrow> guarded H (h @ xs) tr" for xs
  proof (induction tr arbitrary: xs)
    case (Cons e tr)
    then show ?case using step Cons.IH [of "xs @ [e]"] by simp
  qed simp
  from this [of "[]"] \<open>guarded G h tr\<close> \<open>h' = h @ tr\<close> show "\<exists>tr. h' = h @ tr \<and> guarded H h tr" by simp
qed

lemma rb_guard_whole: "finalizer_laws E \<Longrightarrow> rb_guard E rb h e \<Longrightarrow> whole_guard S E h e"
  unfolding whole_guard_def by (rule conjI [OF rb_guard_system], assumption+) (cases e, simp_all add: management_guard_def rb_guard_def)

lemma plan_guard_whole: "plan_guard e \<Longrightarrow> whole_guard S E h e"
  unfolding whole_guard_def by (rule conjI [OF plan_guard_system], assumption) (cases e, simp_all add: management_guard_def plan_guard_def)

lemma gd_guard_whole: "finalizer_laws E \<Longrightarrow> gd_guard E gd h e \<Longrightarrow> whole_guard S E h e"
  unfolding whole_guard_def by (rule conjI [OF gd_guard_system], assumption+) (cases e, simp_all add: management_guard_def gd_guard_def)

lemma cluster_guard_whole:
  "cluster_guard E c0 h e \<Longrightarrow> read_before (env_get_cluster E) h c0 \<Longrightarrow> whole_guard S E h e"
  by (cases e) (auto simp: whole_defs cluster_guard_def)

lemma policy_guard_whole:
  "policy_guard (sys_Config S) E pol h e \<Longrightarrow> read_before (env_get_policy E) h pol \<Longrightarrow> whole_guard S E h e"
  by (cases e) (auto simp: whole_defs policy_guard_def policy_write_ok_def)

lemma server_event_whole: "server_event e \<Longrightarrow> whole_guard S E h e"
  by (cases e) (simp_all add: whole_defs)

lemma evaluation_guard_whole: "evaluation_guard e \<Longrightarrow> \<forall>p. e \<noteq> CreatePlan p \<Longrightarrow> whole_guard S E h e"
  by (cases e) (simp_all add: whole_defs evaluation_guard_def)

subsection \<open>Every activity keeps the guarantee\<close>

lemma cluster_run_ok:
  assumes "kube_ok w"
  shows "ok (whole_guard S E) (hist w) (hist (exec (cluster_Reconcile E k) w))"
proof (cases "env_get_cluster E (hist w) k")
  case (Inl err)
  then have "hist (exec (cluster_Reconcile E k) w) = hist w @ [GetCluster k]"
    by (simp add: cluster_Reconcile_def get_cluster_def call_def exec_def State_Monad.bind_def State_Monad.return_def)
  then show ?thesis by (simp add: whole_defs)
next
  case (Inr c0)
  have "ok (cluster_guard E c0) (hist w) (hist (exec (cluster_Reconcile E k) w))"
    using cluster_Reconcile_ok [OF assms Inr] by (simp add: wp_result)
  then show ?thesis
    by (rule ok_from) (rule cluster_guard_whole, simp, use Inr in \<open>auto simp: read_before_def\<close>)
qed

lemma policy_run_ok: "ok (whole_guard S E) (hist w) (hist (exec (policy_Reconcile (sys_Config S) E k) w))"
proof (cases "env_get_policy E (hist w) k")
  case (Inl err)
  then have "hist (exec (policy_Reconcile (sys_Config S) E k) w) = hist w @ [GetPolicy k]"
    by (simp add: policy_Reconcile_def get_policy_def call_def now_def cancelTimer_def done_ok_def exec_def State_Monad.bind_def
        State_Monad.return_def)
  then show ?thesis by (simp add: whole_defs)
next
  case (Inr pol)
  have "ok (policy_guard (sys_Config S) E pol) (hist w) (hist (exec (policy_Reconcile (sys_Config S) E k) w))"
    using policy_Reconcile_ok [OF Inr] by (simp add: wp_result)
  then show ?thesis
    by (rule ok_from) (rule policy_guard_whole, simp, use Inr in \<open>auto simp: read_before_def\<close>)
qed

lemma guardedI: "(\<And>xs e ys. tr = xs @ e # ys \<Longrightarrow> G (h @ xs) e) \<Longrightarrow> guarded G h tr"
proof (induction tr arbitrary: h)
  case (Cons e tr)
  have "G h e" using Cons.prems [of "[]" e tr] by simp
  moreover have "guarded G (h @ [e]) tr" by (rule Cons.IH) (use Cons.prems [of "e # _"] in simp)
  ultimately show ?case by simp
qed simp

lemma evaluation_first:
  assumes "trace (defaultEvaluate L C E k) w = xs @ CreatePlan p # ys"
  shows "\<exists>zs. xs = GetPolicy k # zs"
proof -
  let ?h = "hist w @ [GetPolicy k]"
  have "wp (evaluate_policy L C E k) (\<lambda>_ w'. ok (\<lambda>_ _. True) ?h (hist w')) (w\<lparr>hist := ?h\<rparr>)"
    by (rule guar_ok_wp [OF evaluate_policy_guar]) (auto intro: ok_mono)
  then have "wp (defaultEvaluate L C E k) (\<lambda>_ w'. ok (\<lambda>_ _. True) ?h (hist w')) w"
    by (simp add: defaultEvaluate_def get_policy_def vcg)
  then obtain tr where "hist (exec (defaultEvaluate L C E k) w) = (hist w @ [GetPolicy k]) @ tr" by (auto simp: wp_result ok_iff)
  with assms have "GetPolicy k # tr = xs @ CreatePlan p # ys" by (simp add: trace_def)
  then show ?thesis by (cases xs) simp_all
qed

lemma evaluation_run_ok:
  assumes "policy_cache_ok w" and "own_plan_law E"
  shows "ok (whole_guard S E) (hist w) (hist (exec (defaultEvaluate (sys_Policy S) (sys_Config S) E k) w))"
proof -
  let ?m = "defaultEvaluate (sys_Policy S) (sys_Config S) E k"
  have ok: "ok (\<lambda>_. evaluation_guard) (hist w) (hist (exec ?m w))" using evaluation_guar by (simp add: guar_def)
  then have hist: "hist (exec ?m w) = hist w @ trace ?m w" by (auto simp: ok_iff trace_def)
  have "guarded (whole_guard S E) (hist w) (trace ?m w)"
  proof (rule guardedI)
    fix xs e ys
    assume tr: "trace ?m w = xs @ e # ys"
    have "evaluation_guard e" using ok_trace_plain [OF ok] tr by simp
    show "whole_guard S E (hist w @ xs) e"
    proof (cases "\<exists>p. e = CreatePlan p")
      case True
      then obtain p where e: "e = CreatePlan p" by blast
      let ?h = "hist w @ [GetPolicy k]"
      have "plan_of_active (sys_Policy S) (sys_Config S) E k ?h (hist w @ xs) p"
        using evaluation_creates [OF assms, of "sys_Policy S" "sys_Config S" k xs p ys] tr e by simp
      moreover obtain xs' where "xs = GetPolicy k # xs'" using evaluation_first [OF tr [unfolded e]] by blast
      then have "hist w @ xs = ?h @ xs'" by simp
      ultimately have "\<exists>h0 h1 k. hist w @ xs = h0 @ h1 \<and> plan_of_active (sys_Policy S) (sys_Config S) E k h0 (hist w @ xs) p" by metis
      then show ?thesis unfolding e by (simp add: whole_defs)
    qed (use \<open>evaluation_guard e\<close> in \<open>simp add: evaluation_guard_whole\<close>)
  qed
  then show ?thesis by (simp add: hist)
qed

lemma act_ok:
  assumes "caches_ok w" and "finalizer_laws E" and "own_plan_law E"
  shows "ok (whole_guard S E) (hist w) (hist (exec (act S E a) w))"
proof (cases a)
  case (Reconcile r)
  have "ok (whole_guard S E) (hist w) (hist (exec (reconcile E r) w))"
    by (rule reconcile_ok [OF _ rb_guard_whole [OF assms(2)] plan_guard_whole gd_guard_whole [OF assms(2)]])
      (use assms(1) in \<open>simp_all add: caches_ok_def whole_defs\<close>)
  with Reconcile show ?thesis by simp
next
  case (Serve r)
  have "ok served (hist w) (hist (exec (serve (sys_Server S) E r) w))"
    using serve_ok by (simp add: server_program_def guar_def)
  with Serve show ?thesis by (simp add: ok_mono [OF _ server_event_whole])
qed (use assms in \<open>simp_all add: cluster_run_ok policy_run_ok evaluation_run_ok caches_ok_def\<close>)

lemma system_guarded:
  assumes "system_reachable S E w" and "finalizer_laws E" and "own_plan_law E"
  shows "guarded (whole_guard S E) [] (hist w)"
  using assms(1)
proof (induction rule: system_reachable.induct)
  case (run w a)
  with act_ok [OF system_caches_ok assms(2,3), of S E w S a] show ?case
    by (auto simp: ok_iff guarded_append)
qed simp

text \<open>
  C2: The guarantees of all components hold together. However the runs of the five controllers, the evaluations of
  policies and the requests to the REST server follow each other, and whatever the API servers answer, every call in
  the history satisfies \<open>whole_guard\<close> at its place: one phase machine of the bindings, with evidence from the member
  clusters, finalizers of bindings and deployments removed after the cleanup only, and the rules for cluster status,
  lease, active policy and created plans.
\<close>

theorem system_follows_guarantees:
  assumes "system_reachable S E w" and "finalizer_laws E" and "own_plan_law E"
    and "hist w = pre @ e # post"
  shows "whole_guard S E pre e"
  using system_guarded [OF assms(1-3)] unfolding assms(4) by (simp add: guarded_append)

definition sample_system :: system where
  "sample_system = \<lparr>sys_Server = \<lparr>sv_Rest = sample_rest, sv_Lib = sample_server, sv_Work = sample_workload, sv_ClusterNamespace = ''ns'', sv_DeploymentNamespace = ''ns'',
       sv_OptimizationNamespace = '''', sv_TopologyNamespace = '''', sv_EtcdPrefix = ''/kubex'', sv_EtcdEndpoints = [], sv_EtcdStatus = \<lambda>_ _. None\<rparr>,
     sys_Policy = spread_lib, sys_Config = sample_cfg\<rparr>"

text \<open>An API server whose member cluster runs the Deployment and on which every write of a deployment gives a new version.\<close>

definition ready_env :: env where
  "ready_env = (sample_env Applying)\<lparr>env_dep_get := \<lambda>_ _ _ _. Inr (sample_dep 1), env_get_gd := \<lambda>_ _. Inr leaving_gd,
     env_list_rb := \<lambda>_ _. Inr [], env_write_gd := \<lambda>_ e. written_gd e\<rparr>"

lemma ready_laws: "finalizer_laws ready_env" "own_plan_law ready_env"
  using sample_finalizer_laws [of Applying] by (simp_all add: finalizer_laws_def own_plan_law_def ready_env_def sample_env_def)

text \<open>A cluster is read through the server, a deployment is deleted, then a binding is reconciled.\<close>

definition busy_world :: world where
  "busy_world = exec (act sample_system ready_env (Reconcile (ReplicaBindingRequest [] sample_key)))
    (exec (act sample_system ready_env (Reconcile (GlobalDeploymentRequest gd_req)))
      (exec (act sample_system ready_env (Serve (ClusterRoute (GetGetCluster (Inr ''east''))))) fresh_world))"

lemma busy_reachable: "system_reachable sample_system ready_env busy_world"
  unfolding busy_world_def fresh_world_def by (intro system_reachable.intros)

fun writes_gd :: "event \<Rightarrow> bool" where
  "writes_gd (StatusPatchGD _ _) = True"
| "writes_gd (PatchGD _ _) = True"
| "writes_gd _ = False"

theorem system_follows_guarantees_witness:
  "length (filter writes_gd (hist busy_world)) = 2 \<and>
    (\<exists>pre. hist busy_world = pre @ [StatusPatchRB (sample_rb Applying) (set_running [] 7 (sample_rb Applying))] \<and>
      whole_guard sample_system ready_env pre (StatusPatchRB (sample_rb Applying) (set_running [] 7 (sample_rb Applying))))"
proof -
  let ?e = "StatusPatchRB (sample_rb Applying) (set_running [] 7 (sample_rb Applying))"
  have "length (filter writes_gd (hist busy_world)) = 2" by code_simp
  moreover have "hist busy_world = butlast (hist busy_world) @ [?e]" by code_simp
  ultimately show ?thesis
    using system_follows_guarantees [OF busy_reachable ready_laws, of "butlast (hist busy_world)" ?e "[]"] by metis
qed

end
