(* ===== verification/Rolling_Migration.thy ===== *)
theory Rolling_Migration
  imports Replica_Binding Global_Deployment
begin

section \<open>Rolling migration\<close>

text \<open>
  The migration handlers of \<open>src/controller/internal/controller/globaldeployment_controller.go\<close>: a binding whose
  reschedule flag is set triggers the creation of a second binding for the same replica, a revision, and the
  other revisions are deleted when the new one runs. \<open>handleRescheduleMVP\<close> looks at the phase of the new binding,
  \<open>handleRescheduleRolling\<close> at the Deployment and the pods in the member cluster. The reconcile loop calls neither.

  A handler returns whether it acted beside the result of the run; the deployment is never nil. The client cache is
  that of the reconciler. The label selector of the pods is put together in the order of the map.
\<close>

type_synonym handled = "reconcile_out \<times> bool"

definition revisionLabelKey :: string where
  "revisionLabelKey = ''kubex.io/revision''"

definition replicaIndexLabelKey :: string where
  "replicaIndexLabelKey = ''kubex.io/replicaIndex''"

definition acted :: "reconcile_out \<Rightarrow> handled io" where
  "acted out = State_Monad.return (out, True)"

subsection \<open>Revisions\<close>

definition bumpRevision :: "string \<Rightarrow> string" where
  "bumpRevision cur =
    (if cur = '''' then ''v1''
     else if has_prefix cur ''v'' then (case atoi (drop 1 cur) of Some n \<Rightarrow> ''v'' @ itoa (wrap64 (n + 1)) | None \<Rightarrow> ''v2'')
     else ''v2'')"

definition revision_of :: "ReplicaBinding \<Rightarrow> string" where
  "revision_of b = mget0 '''' (om_Labels (rb_Meta b)) revisionLabelKey"

definition revision_step :: "int32 \<Rightarrow> ReplicaBinding \<Rightarrow> int64 \<Rightarrow> int64" where
  "revision_step i b maxN =
    (let r = revision_of b in
     if rb_ReplicaIndex (rb_Spec b) \<noteq> i then maxN
     else if r = '''' then maxN
     else if length r < 2 \<or> hd r \<noteq> CHR ''v'' then maxN
     else case atoi (drop 1 r) of None \<Rightarrow> maxN | Some n \<Rightarrow> if n > maxN then n else maxN)"

definition nextRevisionForReplicaIndex :: "ReplicaBinding list \<Rightarrow> int32 \<Rightarrow> string" where
  "nextRevisionForReplicaIndex owned i = ''v'' @ itoa (wrap64 (fold (revision_step i) owned 0 + 1))"

definition revision_name :: "GlobalDeployment \<Rightarrow> int32 \<Rightarrow> string \<Rightarrow> string" where
  "revision_name gd i r = om_Name (gd_Meta gd) @ ''-rb-'' @ itoa i @ ''-'' @ r"

definition revision_binding ::
  "GlobalDeployment \<Rightarrow> ReplicaBinding \<Rightarrow> string \<Rightarrow> (string, string) gomap \<Rightarrow> string \<Rightarrow> ReplicaBinding" where
  "revision_binding gd trigger n labels request =
    (let b = new_binding gd (rb_ReplicaIndex (rb_Spec trigger)) in
     b\<lparr>rb_Meta := (rb_Meta b)\<lparr>om_Name := n, om_Labels := labels\<rparr>,
       rb_Spec := (rb_Spec b)\<lparr>rb_TargetCluster := rb_TargetCluster (rb_Spec trigger),
         rb_TargetNodeName := rb_TargetNodeName (rb_Spec trigger), rb_RescheduleRequest := request\<rparr>\<rparr>)"

text \<open>Create and status update of a revision; both handlers have these lines.\<close>

definition create_revision :: "env \<Rightarrow> GlobalDeployment \<Rightarrow> int \<Rightarrow> ReplicaBinding \<Rightarrow> handled io" where
  "create_revision E gd delay b = (case env_set_owner E gd b of
      Inl err \<Rightarrow> acted (0, Some err)
    | Inr b \<Rightarrow> do {
        t \<leftarrow> now E;
        r \<leftarrow> write_rb E (CreateRB (b\<lparr>rb_Status := (rb_Status b)\<lparr>rb_Phase := Assigned, rb_LastTransitionTime := Some t\<rparr>\<rparr>));
        case r of
          Inl err \<Rightarrow> acted (0, Some err)
        | Inr b \<Rightarrow> do {
            r \<leftarrow> write_rb E (StatusUpdateRB b);
            case r of Inl err \<Rightarrow> acted (0, Some err) | Inr _ \<Rightarrow> acted (delay, None)
          }
      })"

definition with_flag_down :: "ReplicaBinding \<Rightarrow> ReplicaBinding" where
  "with_flag_down b = b\<lparr>rb_Spec := (rb_Spec b)\<lparr>rb_Reschedule := False\<rparr>\<rparr>"

text \<open>Lowers the flag of the trigger, as far as it is still there and raised; the error of the patch.\<close>

definition reset_trigger :: "env \<Rightarrow> ReplicaBinding \<Rightarrow> api_err option io" where
  "reset_trigger E trigger = do {
     g \<leftarrow> get_rb E (rb_key trigger);
     case g of
       Inl _ \<Rightarrow> State_Monad.return None
     | Inr latest \<Rightarrow>
         if rb_Reschedule (rb_Spec latest) then do {
           r \<leftarrow> write_rb E (PatchRB latest (with_flag_down latest));
           State_Monad.return (case r of Inl err \<Rightarrow> Some err | Inr _ \<Rightarrow> None)
         } else State_Monad.return None
   }"

subsection \<open>The first version\<close>

definition mvp_trigger :: "ReplicaBinding \<Rightarrow> bool" where
  "mvp_trigger rb \<longleftrightarrow> rb_Reschedule (rb_Spec rb) \<and> \<not> (rb_TargetCluster (rb_Spec rb) = '''' \<or> rb_TargetNodeName (rb_Spec rb) = '''')"

definition mvp_outdated :: "GlobalDeployment \<Rightarrow> ReplicaBinding \<Rightarrow> string \<Rightarrow> ReplicaBinding \<Rightarrow> bool" where
  "mvp_outdated gd rb newName b \<longleftrightarrow> \<not> (om_Name (rb_Meta b) = om_Name (rb_Meta rb) \<or> om_Name (rb_Meta b) = newName) \<and>
     rb_ReplicaIndex (rb_Spec b) = rb_ReplicaIndex (rb_Spec rb) \<and>
     has_prefix (om_Name (rb_Meta b)) (om_Name (gd_Meta gd) @ ''-rb-'' @ itoa (rb_ReplicaIndex (rb_Spec rb)) @ ''-'')"

definition advance_revision :: "env \<Rightarrow> GlobalDeployment \<Rightarrow> string \<Rightarrow> api_err option io" where
  "advance_revision E gd nextRev = do {
     g \<leftarrow> get_gd E (gd_key gd);
     case g of
       Inl _ \<Rightarrow> State_Monad.return None
     | Inr gd2 \<Rightarrow> do {
         r \<leftarrow> write_gd E (StatusPatchGD gd2 (gd2\<lparr>gd_Status := (gd_Status gd2)\<lparr>gd_ObservedRevision := nextRev\<rparr>\<rparr>));
         State_Monad.return (case r of Inl err \<Rightarrow> Some err | Inr _ \<Rightarrow> None)
       }
   }"

definition mvp_finish :: "env \<Rightarrow> GlobalDeployment \<Rightarrow> ReplicaBinding list \<Rightarrow> ReplicaBinding \<Rightarrow> string \<Rightarrow> string \<Rightarrow> handled io" where
  "mvp_finish E gd owned rb nextRev newName = do {
     _ \<leftarrow> io_each (\<lambda>b. State_Monad.bind (delete_rb E b) (\<lambda>_. State_Monad.return ())) (filter (mvp_outdated gd rb newName) owned);
     err \<leftarrow> reset_trigger E rb;
     case err of
       Some e \<Rightarrow> acted (0, Some e)
     | None \<Rightarrow> do {
         err \<leftarrow> advance_revision E gd nextRev;
         case err of Some e \<Rightarrow> acted (0, Some e) | None \<Rightarrow> acted (200 * Millisecond, None)
       }
   }"

definition mvp_migrate :: "env \<Rightarrow> GlobalDeployment \<Rightarrow> ReplicaBinding list \<Rightarrow> ReplicaBinding \<Rightarrow> handled io" where
  "mvp_migrate E gd owned rb = do {
     let nextRev = bumpRevision (gd_ObservedRevision (gd_Status gd));
     let newName = revision_name gd (rb_ReplicaIndex (rb_Spec rb)) nextRev;
     g \<leftarrow> get_rb E \<lparr>key_Name = newName, key_Namespace = om_Namespace (gd_Meta gd)\<rparr>;
     case g of
       Inl err \<Rightarrow>
         if \<not> IsNotFound err then acted (0, Some err)
         else create_revision E gd (200 * Millisecond) (revision_binding gd rb newName
           [(revisionLabelKey, nextRev), (replicaIndexLabelKey, itoa (rb_ReplicaIndex (rb_Spec rb)))] '''')
     | Inr newRB \<Rightarrow>
         if rb_Phase (rb_Status newRB) \<noteq> Running then acted (500 * Millisecond, None)
         else mvp_finish E gd owned rb nextRev newName
   }"

definition handleRescheduleMVP :: "env \<Rightarrow> GlobalDeployment \<Rightarrow> ReplicaBinding list \<Rightarrow> handled io" where
  "handleRescheduleMVP E gd owned = (case find mvp_trigger owned of
      None \<Rightarrow> State_Monad.return ((0, None), False)
    | Some rb \<Rightarrow> mvp_migrate E gd owned rb)"

subsection \<open>The rolling version\<close>

definition rolling_trigger :: "ReplicaBinding \<Rightarrow> bool" where
  "rolling_trigger b \<longleftrightarrow>
    (let s = rb_Spec b; rs = rb_RescheduleStatus (rb_Status b) in
     rb_RescheduleRequest s \<noteq> '''' \<and> rb_Reschedule s \<and>
     \<not> (rs_LastHandledRequest rs = rb_RescheduleRequest s \<and> rs_LastResult rs = ''Succeeded'') \<and>
     \<not> (rb_TargetCluster s = '''' \<or> rb_TargetNodeName s = ''''))"

definition existing_revision :: "ReplicaBinding \<Rightarrow> ReplicaBinding \<Rightarrow> bool" where
  "existing_revision trigger cand \<longleftrightarrow> rb_ReplicaIndex (rb_Spec cand) = rb_ReplicaIndex (rb_Spec trigger) \<and>
     om_Name (rb_Meta cand) \<noteq> om_Name (rb_Meta trigger) \<and>
     rb_RescheduleRequest (rb_Spec cand) = rb_RescheduleRequest (rb_Spec trigger) \<and> revision_of cand \<noteq> ''''"

definition container_ready :: "Pod \<Rightarrow> bool" where
  "container_ready p \<longleftrightarrow> pod_Phase p = ''Running'' \<and> pod_ContainerReady p \<noteq> [] \<and> list_all (\<lambda>r. r) (pod_ContainerReady p)"

definition match_selector :: "Deployment \<Rightarrow> string" where
  "match_selector dep = join '','' (map (\<lambda>(k, v). k @ ''='' @ v) (ds_MatchLabels (dep_Spec dep)))"

text \<open>The ready gate: the delay until the next check, or the name of the first ready pod.\<close>

definition ready_pod :: "env \<Rightarrow> Clientset \<Rightarrow> GlobalDeployment \<Rightarrow> string \<Rightarrow> Deployment \<Rightarrow> (int + string) io" where
  "ready_pod E cs gd depName dep = do {
     r \<leftarrow> pods_list E cs (om_Namespace (gd_Meta gd)) (match_selector dep);
     case r of
       Inl _ \<Rightarrow> State_Monad.return (Inl (800 * Millisecond))
     | Inr items \<Rightarrow> do {
         items \<leftarrow> (if items = [] then do {
             r2 \<leftarrow> pods_list E cs (om_Namespace (gd_Meta gd)) (''core.kubex.io/globaldeploy='' @ om_Name (gd_Meta gd));
             State_Monad.return (case r2 of Inl _ \<Rightarrow> items | Inr ps \<Rightarrow> own_pods depName ps)
           } else State_Monad.return items);
         State_Monad.return (case find container_ready items of None \<Rightarrow> Inl (800 * Millisecond) | Some p \<Rightarrow> Inr (pod_Name p))
       }
   }"

definition ready_gate :: "env \<Rightarrow> string \<Rightarrow> GlobalDeployment \<Rightarrow> ReplicaBinding \<Rightarrow> (int + string) io" where
  "ready_gate E controlNS gd newRB = do {
     c \<leftarrow> GetOrBuild E controlNS (rb_TargetCluster (rb_Spec newRB));
     case c of
       Inl _ \<Rightarrow> State_Monad.return (Inl (2 * Second))
     | Inr cs \<Rightarrow> do {
         let depName = member_dep_name (om_Name (gd_Meta gd)) (rb_ReplicaIndex (rb_Spec newRB));
         d \<leftarrow> dep_get E cs (om_Namespace (gd_Meta gd)) depName;
         case d of
           Inl _ \<Rightarrow> State_Monad.return (Inl (1 * Second))
         | Inr dep \<Rightarrow>
             if AvailableReplicas (dep_Status dep) < 1 \<or> UpdatedReplicas (dep_Status dep) < 1
             then State_Monad.return (Inl (800 * Millisecond))
             else ready_pod E cs gd depName dep
       }
   }"

definition rolling_outdated :: "ReplicaBinding \<Rightarrow> string \<Rightarrow> string \<Rightarrow> ReplicaBinding \<Rightarrow> bool" where
  "rolling_outdated trigger newName nextRev b \<longleftrightarrow>
     \<not> (om_Name (rb_Meta b) = om_Name (rb_Meta trigger) \<or> om_Name (rb_Meta b) = newName) \<and>
     rb_ReplicaIndex (rb_Spec b) = rb_ReplicaIndex (rb_Spec trigger) \<and> \<not> (revision_of b = '''' \<or> revision_of b = nextRev)"

definition succeeded_status :: "string \<Rightarrow> time \<Rightarrow> ReplicaBinding \<Rightarrow> ReplicaBindingRescheduleStatus" where
  "succeeded_status podName t b =
    (let rs = rb_RescheduleStatus (rb_Status b); loc = rs_ObservedLocation rs in
     rs\<lparr>rs_LastHandledRequest := rb_RescheduleRequest (rb_Spec b), rs_LastHandledTime := Some t, rs_LastResult := ''Succeeded'',
       rs_Message := ''reschedule completed'', rs_LastError := '''',
       rs_ObservedLocation := \<lparr>ol_ClusterId = rb_TargetCluster (rb_Spec b), ol_NodeName = rb_TargetNodeName (rb_Spec b),
         ol_PodName = (if podName \<noteq> '''' then podName else ol_PodName loc)\<rparr>\<rparr>)"

definition markRescheduleStatusSucceeded :: "env \<Rightarrow> ReplicaBinding \<Rightarrow> string \<Rightarrow> api_err option io" where
  "markRescheduleStatusSucceeded E trigger podName = do {
     g \<leftarrow> get_rb E (rb_key trigger);
     case g of
       Inl err \<Rightarrow> State_Monad.return (ignore_not_found err)
     | Inr latest \<Rightarrow> do {
         t \<leftarrow> now E;
         r \<leftarrow> write_rb E (StatusPatchRB latest (latest\<lparr>rb_Status := (rb_Status latest)\<lparr>rb_RescheduleStatus :=
           succeeded_status podName t latest\<rparr>\<rparr>));
         State_Monad.return (case r of Inl err \<Rightarrow> Some err | Inr _ \<Rightarrow> None)
       }
   }"

definition rolling_finish ::
  "env \<Rightarrow> ReplicaBinding list \<Rightarrow> ReplicaBinding \<Rightarrow> string \<Rightarrow> string \<Rightarrow> string \<Rightarrow> handled io" where
  "rolling_finish E owned trigger newName nextRev podName = do {
     _ \<leftarrow> io_each (\<lambda>b. State_Monad.bind (delete_rb E b) (\<lambda>_. State_Monad.return ())) (filter (rolling_outdated trigger newName nextRev) owned);
     err \<leftarrow> markRescheduleStatusSucceeded E trigger podName;
     case err of
       Some e \<Rightarrow> acted (0, Some e)
     | None \<Rightarrow> do {
         _ \<leftarrow> (if rb_Reschedule (rb_Spec trigger) then reset_trigger E trigger else State_Monad.return None);
         acted (300 * Millisecond, None)
       }
   }"

definition rolling_migrate :: "env \<Rightarrow> string \<Rightarrow> GlobalDeployment \<Rightarrow> ReplicaBinding list \<Rightarrow> ReplicaBinding \<Rightarrow> handled io" where
  "rolling_migrate E controlNS gd owned trigger = do {
     let i = rb_ReplicaIndex (rb_Spec trigger);
     let nextRev = nextRevisionForReplicaIndex owned i;
     let newName = (case find (existing_revision trigger) owned of
           Some cand \<Rightarrow> if om_Name (rb_Meta cand) \<noteq> '''' then om_Name (rb_Meta cand) else revision_name gd i nextRev
         | None \<Rightarrow> revision_name gd i nextRev);
     g \<leftarrow> get_rb E \<lparr>key_Name = newName, key_Namespace = om_Namespace (gd_Meta gd)\<rparr>;
     case g of
       Inl err \<Rightarrow>
         if \<not> IsNotFound err then acted (0, Some err)
         else create_revision E gd (300 * Millisecond) (revision_binding gd trigger newName
           [(''core.kubex.io/globaldeploy'', om_Name (gd_Meta gd)), (revisionLabelKey, nextRev), (replicaIndexLabelKey, itoa i)]
           (rb_RescheduleRequest (rb_Spec trigger)))
     | Inr newRB \<Rightarrow> do {
         p \<leftarrow> ready_gate E controlNS gd newRB;
         case p of
           Inl delay \<Rightarrow> acted (delay, None)
         | Inr podName \<Rightarrow> rolling_finish E owned trigger newName nextRev podName
       }
   }"

definition handleRescheduleRolling :: "env \<Rightarrow> string \<Rightarrow> GlobalDeployment \<Rightarrow> ReplicaBinding list \<Rightarrow> handled io" where
  "handleRescheduleRolling E controlNS gd owned = do {
     l \<leftarrow> list_rb E (om_Namespace (gd_Meta gd));
     let owned = (case l of Inl _ \<Rightarrow> owned | Inr latest \<Rightarrow> owned_of gd latest);
     case find rolling_trigger owned of
       None \<Rightarrow> State_Monad.return ((0, None), False)
     | Some trigger \<Rightarrow> rolling_migrate E (control_ns controlNS (om_Namespace (gd_Meta gd))) gd owned trigger
   }"

fun bump_loop :: "env \<Rightarrow> GlobalDeployment \<Rightarrow> string \<Rightarrow> nat \<Rightarrow> api_err option io" where
  "bump_loop E gd nextRev 0 =
    State_Monad.return (Some (OtherErr (''failed to bump observedRevision to '' @ nextRev @ '' due to repeated conflict'')))"
| "bump_loop E gd nextRev (Suc n) = do {
     g \<leftarrow> get_gd E (gd_key gd);
     case g of
       Inl err \<Rightarrow> State_Monad.return (Some err)
     | Inr latest \<Rightarrow>
         if gd_ObservedRevision (gd_Status latest) = nextRev then State_Monad.return None
         else do {
           r \<leftarrow> write_gd E (StatusUpdateGD (latest\<lparr>gd_Status := (gd_Status latest)\<lparr>gd_ObservedRevision := nextRev\<rparr>\<rparr>));
           case r of
             Inl err \<Rightarrow>
               if IsConflict err then do {
                 _ \<leftarrow> call (Sleep (30 * Millisecond)) (\<lambda>_. ());
                 bump_loop E gd nextRev n
               } else State_Monad.return (Some err)
           | Inr _ \<Rightarrow> State_Monad.return None
         }
   }"

definition bumpObservedRevision :: "env \<Rightarrow> GlobalDeployment \<Rightarrow> string \<Rightarrow> api_err option io" where
  "bumpObservedRevision E gd nextRev = bump_loop E gd nextRev 10"

subsection \<open>Revisions are fresh\<close>

lemma revision_step_ge: "maxN \<le> revision_step i b maxN"
  by (auto simp: revision_step_def Let_def split: option.split)

lemma revisions_ge: "maxN \<le> fold (revision_step i) bs maxN"
  by (induction bs arbitrary: maxN) (auto intro: order_trans [OF revision_step_ge])

lemma revision_counted:
  assumes "b \<in> set bs" and "rb_ReplicaIndex (rb_Spec b) = i" and "revision_of b = ''v'' @ itoa n" and "in_int64 n"
  shows "n \<le> fold (revision_step i) bs maxN"
  using assms(1)
proof (induction bs arbitrary: maxN)
  case (Cons b' bs)
  show ?case
  proof (cases "b' = b")
    case True
    have "itoa n \<noteq> ''''" by (simp add: itoa_def nat_digits_ne)
    then have "n \<le> revision_step i b maxN"
      using assms(2-4) by (simp add: revision_step_def Let_def atoi_itoa Suc_le_eq)
    also have "\<dots> \<le> fold (revision_step i) bs (revision_step i b maxN)" by (rule revisions_ge)
    finally show ?thesis using True by simp
  qed (use Cons in simp)
qed simp

text \<open>
  The revision chosen for a replica is not carried by any binding of that replica, as long as the numbers stay below
  the largest 64-bit integer.
\<close>

theorem next_revision_fresh:
  assumes "b \<in> set owned" and "rb_ReplicaIndex (rb_Spec b) = i" and "fold (revision_step i) owned 0 < 2 ^ 63 - 1"
  shows "revision_of b \<noteq> nextRevisionForReplicaIndex owned i"
proof
  let ?m = "fold (revision_step i) owned 0"
  have "in_int64 (?m + 1)" using assms(3) revisions_ge [of 0 i owned] by (simp add: in_int64_def)
  moreover assume "revision_of b = nextRevisionForReplicaIndex owned i"
  ultimately have "?m + 1 \<le> ?m"
    using revision_counted [OF assms(1,2), of "?m + 1" 0] by (simp add: nextRevisionForReplicaIndex_def wrap64_id)
  then show False by simp
qed

lemma bump_revision_next: "in_int64 n \<Longrightarrow> bumpRevision (''v'' @ itoa n) = ''v'' @ itoa (wrap64 (n + 1))"
  by (simp add: bumpRevision_def has_prefix_def atoi_itoa)

text \<open>The revision of a deployment is written at most ten times, and a deployment that already has it is left alone.\<close>

lemma bump_loop_bounded: "wp (bump_loop E gd r n) (\<lambda>_ w'. status_updates (hist w') \<le> n + status_updates (hist w)) w"
proof (induction n arbitrary: w)
  case (Suc n)
  then show ?case
    by (auto simp: get_gd_def write_gd_def vcg split: sum.split intro!: wp_mono [OF Suc.IH])
qed (simp add: vcg)

lemma bump_observed_bounded: "status_updates (hist (exec (bumpObservedRevision E gd r) w)) \<le> 10 + status_updates (hist w)"
  using bump_loop_bounded [of E gd r 10 w] by (simp add: wp_result bumpObservedRevision_def)

lemma bump_observed_idle:
  assumes "env_get_gd E (hist w) (gd_key gd) = Inr latest" and "gd_ObservedRevision (gd_Status latest) = r"
  shows "trace (bumpObservedRevision E gd r) w = [GetGD (gd_key gd)]"
proof -
  have "bumpObservedRevision E gd r = bump_loop E gd r (Suc 9)" by (simp add: bumpObservedRevision_def)
  then show ?thesis using assms unfolding bump_loop.simps
    by (simp add: get_gd_def trace_def exec_def call_def State_Monad.bind_def State_Monad.return_def)
qed

subsection \<open>Old revisions go last\<close>

fun is_delete :: "event \<Rightarrow> bool" where
  "is_delete (DeleteRB _) = True"
| "is_delete _ = False"

definition before_deletes :: "history \<Rightarrow> history" where
  "before_deletes h = rev (dropWhile is_delete (rev h))"

lemma before_deletes_simps [simp]:
  "before_deletes (h @ [DeleteRB b]) = before_deletes h" "\<not> is_delete e \<Longrightarrow> before_deletes (h @ [e]) = h @ [e]"
  by (simp_all add: before_deletes_def)

text \<open>
  A binding that the migration of \<open>trigger\<close> deletes is another revision of the same replica, and just before
  the deletions the Deployment of the new revision was seen available in its target cluster.
\<close>

definition rolling_guard :: "env \<Rightarrow> ReplicaBinding list \<Rightarrow> ReplicaBinding \<Rightarrow> history \<Rightarrow> event \<Rightarrow> bool" where
  "rolling_guard E owned trigger h e = (case e of
     DeleteRB b \<Rightarrow> b \<in> set owned \<and> rb_ReplicaIndex (rb_Spec b) = rb_ReplicaIndex (rb_Spec trigger) \<and>
       om_Name (rb_Meta b) \<noteq> om_Name (rb_Meta trigger) \<and> revision_of b \<noteq> '''' \<and>
       (\<exists>h0 h1 k newRB. h = h0 @ h1 \<and> env_get_rb E h0 k = Inr newRB \<and> om_Name (rb_Meta b) \<noteq> key_Name k \<and>
          observed_available E (before_deletes h) (rb_TargetCluster (rb_Spec newRB)))
   | _ \<Rightarrow> True)"

lemma rolling_guard_other: "\<not> is_delete e \<Longrightarrow> rolling_guard E owned trigger h e"
  by (cases e) (simp_all add: rolling_guard_def)

lemma client_read_not_delete: "client_read e \<Longrightarrow> \<not> is_delete e"
  by (cases e) simp_all

lemma rolling_reads:
  assumes G: "\<And>h e. \<not> is_delete e \<Longrightarrow> G h e"
  shows "guar G (create_revision E gd d b)" "guar G (markRescheduleStatusSucceeded E t p)" "guar G (reset_trigger E t)"
    "guar G (ready_gate E ns gd nrb)"
proof -
  note defs = create_revision_def markRescheduleStatusSucceeded_def reset_trigger_def ready_gate_def ready_pod_def acted_def io_defs Let_def
  note reads = G client_read_not_delete
  show "guar G (create_revision E gd d b)" unfolding defs by (intro guar_intros) (simp_all add: reads)
  show "guar G (markRescheduleStatusSucceeded E t p)" unfolding defs by (intro guar_intros) (simp_all add: reads)
  show "guar G (reset_trigger E t)" unfolding defs by (intro guar_intros) (simp_all add: reads)
  show "guar G (ready_gate E ns gd nrb)" unfolding defs by (intro guar_intros cache.get_guar) (simp_all add: reads)
qed

lemma ready_gate_available:
  assumes "cache_ok w"
  shows "wp (ready_gate E ns gd newRB) (\<lambda>r w'. (\<forall>p. r = Inr p \<longrightarrow> observed_available E (hist w') (rb_TargetCluster (rb_Spec newRB)) \<and>
    \<not> is_delete (last (hist w')) \<and> hist w' \<noteq> [])) w"
  unfolding ready_gate_def ready_pod_def
  by (subst wp_bind, rule cache.get_wp [OF assms]) (auto simp: run evidence split: sum.split option.split)

lemma rolling_finish_ok:
  assumes "observed_available E (hist w) (rb_TargetCluster (rb_Spec newRB))" and "\<not> is_delete (last (hist w))" and "hist w \<noteq> []"
    and "hist w = h0 @ h1" and "env_get_rb E h0 k = Inr newRB" and "key_Name k = newName"
  shows "wp (rolling_finish E owned trigger newName nextRev p) (\<lambda>_ w'. ok (rolling_guard E owned trigger) (hist w) (hist w')) w"
proof -
  let ?G = "rolling_guard E owned trigger"
  let ?I = "\<lambda>w'. ok ?G (hist w) (hist w') \<and> before_deletes (hist w') = hist w"
  let ?bs = "filter (rolling_outdated trigger newName nextRev) owned"
  have start: "before_deletes (hist w) = hist w"
    using assms(2,3) before_deletes_simps(2) [of "last (hist w)" "butlast (hist w)"] by simp
  have "wp (io_each (\<lambda>b. State_Monad.bind (delete_rb E b) (\<lambda>_. State_Monad.return ())) ?bs) (\<lambda>_. ?I) w"
  proof (rule wp_each)
    fix b and w' :: world
    assume b: "b \<in> set ?bs" and inv: "?I w'"
    then obtain xs where "hist w' = hist w @ xs" by (auto simp: ok_iff)
    then have "hist w' = h0 @ h1 @ xs" by (simp add: assms(4))
    then have "?G (hist w') (DeleteRB b)"
      using b inv assms(1,5,6) by (auto simp: rolling_guard_def rolling_outdated_def)
    with inv show "wp (State_Monad.bind (delete_rb E b) (\<lambda>_. State_Monad.return ())) (\<lambda>_. ?I) w'"
      by (simp add: delete_rb_def vcg)
  qed (use start in simp)
  moreover have "guar ?G (State_Monad.bind (markRescheduleStatusSucceeded E trigger p) (\<lambda>err. case err of Some e \<Rightarrow> acted (0, Some e)
      | None \<Rightarrow> State_Monad.bind (if rb_Reschedule (rb_Spec trigger) then reset_trigger E trigger else State_Monad.return None)
          (\<lambda>_. acted (300 * Millisecond, None))))"
    unfolding acted_def by (intro guar_intros rolling_reads rolling_guard_other)
  ultimately show ?thesis unfolding rolling_finish_def
    by (subst wp_bind, elim wp_mono) (rule guar_ok_wp, assumption, blast intro: ok_trans)
qed

lemma rolling_migrate_ok:
  assumes "cache_ok w"
  shows "wp (rolling_migrate E cns gd owned trigger) (\<lambda>_ w'. ok (rolling_guard E owned trigger) (hist w) (hist w')) w"
proof -
  let ?G = "rolling_guard E owned trigger"
  let ?rev = "nextRevisionForReplicaIndex owned (rb_ReplicaIndex (rb_Spec trigger))"
  obtain n where run: "rolling_migrate E cns gd owned trigger = State_Monad.bind (get_rb E \<lparr>key_Name = n, key_Namespace = om_Namespace (gd_Meta gd)\<rparr>)
      (\<lambda>g. case g of
        Inl err \<Rightarrow> if \<not> IsNotFound err then acted (0, Some err)
          else create_revision E gd (300 * Millisecond) (revision_binding gd trigger n
            [(''core.kubex.io/globaldeploy'', om_Name (gd_Meta gd)), (revisionLabelKey, ?rev),
             (replicaIndexLabelKey, itoa (rb_ReplicaIndex (rb_Spec trigger)))] (rb_RescheduleRequest (rb_Spec trigger)))
      | Inr newRB \<Rightarrow> State_Monad.bind (ready_gate E cns gd newRB) (\<lambda>p. case p of
          Inl delay \<Rightarrow> acted (delay, None)
        | Inr podName \<Rightarrow> rolling_finish E owned trigger n ?rev podName))"
    unfolding rolling_migrate_def Let_def by blast
  let ?k = "\<lparr>key_Name = n, key_Namespace = om_Namespace (gd_Meta gd)\<rparr>"
  let ?w = "w\<lparr>hist := hist w @ [GetRB ?k]\<rparr>"
  have start: "ok ?G (hist w) (hist ?w)" by (simp add: rolling_guard_def)
  show ?thesis
  proof (cases "env_get_rb E (hist w) ?k")
    case (Inl err)
    have "guar ?G (if \<not> IsNotFound err then acted (0, Some err) else create_revision E gd d b)" for d b
      unfolding acted_def by (intro guar_intros rolling_reads rolling_guard_other)
    then have "wp (if \<not> IsNotFound err then acted (0, Some err) else create_revision E gd d b) (\<lambda>_ w'. ok ?G (hist w) (hist w')) ?w" for d b
      by (rule guar_ok_wp) (rule ok_trans [OF start])
    then show ?thesis unfolding run get_rb_def by (simp only: wp_bind wp_call Inl sum.case)
  next
    case (Inr newRB)
    have gate: "wp (ready_gate E cns gd newRB) (\<lambda>r w'. ok ?G (hist ?w) (hist w') \<and> (\<forall>p. r = Inr p \<longrightarrow>
        observed_available E (hist w') (rb_TargetCluster (rb_Spec newRB)) \<and> \<not> is_delete (last (hist w')) \<and> hist w' \<noteq> [])) ?w"
      unfolding wp_conj
    proof
      show "wp (ready_gate E cns gd newRB) (\<lambda>_ w'. ok ?G (hist ?w) (hist w')) ?w"
        by (rule guar_ok_wp [OF rolling_reads(4)]) (simp_all add: rolling_guard_other)
      show "wp (ready_gate E cns gd newRB) (\<lambda>r w'. \<forall>p. r = Inr p \<longrightarrow>
          observed_available E (hist w') (rb_TargetCluster (rb_Spec newRB)) \<and> \<not> is_delete (last (hist w')) \<and> hist w' \<noteq> []) ?w"
        by (rule ready_gate_available) (use assms in simp)
    qed
    have "wp (case r of Inl delay \<Rightarrow> acted (delay, None) | Inr podName \<Rightarrow> rolling_finish E owned trigger n ?rev podName)
        (\<lambda>_ w''. ok ?G (hist w) (hist w'')) w'"
      if r: "ok ?G (hist ?w) (hist w')" "\<forall>p. r = Inr p \<longrightarrow> observed_available E (hist w') (rb_TargetCluster (rb_Spec newRB)) \<and>
        \<not> is_delete (last (hist w')) \<and> hist w' \<noteq> []" for r w'
    proof (cases r)
      case (Inl d)
      with ok_trans [OF start r(1)] show ?thesis by (simp add: acted_def wp_return)
    next
      case p: (Inr p)
      from r(1) obtain xs where xs: "hist w' = hist w @ GetRB ?k # xs" by (auto simp: ok_iff)
      have "wp (rolling_finish E owned trigger n ?rev p) (\<lambda>_ w''. ok ?G (hist w') (hist w'')) w'"
        by (rule rolling_finish_ok [OF _ _ _ xs Inr]) (use r(2) p in simp_all)
      then show ?thesis unfolding p sum.case
        by (rule wp_mono) (blast intro: ok_trans start r(1))
    qed
    then have "wp (State_Monad.bind (ready_gate E cns gd newRB) (\<lambda>p. case p of Inl delay \<Rightarrow> acted (delay, None)
        | Inr podName \<Rightarrow> rolling_finish E owned trigger n ?rev podName)) (\<lambda>_ w''. ok ?G (hist w) (hist w'')) ?w"
      unfolding wp_bind by (rule wp_mono [OF gate, rotated]) auto
    then show ?thesis unfolding run get_rb_def by (simp add: wp_bind wp_call Inr)
  qed
qed

text \<open>
  A rolling migration takes down an old replica only for a new one that runs. Every binding that a run deletes belongs
  to the deployment, is another revision of the replica of a binding with a pending request, and just before the
  deletions the Deployment of the new revision was seen available in the cluster it is meant for.
\<close>

theorem rolling_deletes_after_ready:
  assumes "cache_ok w" and "env_list_rb E (hist w) (om_Namespace (gd_Meta gd)) = Inr latest"
    and "trace (handleRescheduleRolling E cns gd owned) w = pre @ DeleteRB b # post"
  shows "\<exists>trigger. trigger \<in> set (owned_of gd latest) \<and> rolling_trigger trigger \<and>
    rolling_guard E (owned_of gd latest) trigger (hist w @ pre) (DeleteRB b)"
proof -
  let ?ns = "om_Namespace (gd_Meta gd)" and ?owned = "owned_of gd latest"
  let ?w = "w\<lparr>hist := hist w @ [ListRB ?ns]\<rparr>"
  show ?thesis
  proof (cases "find rolling_trigger ?owned")
    case None
    then have "wp (handleRescheduleRolling E cns gd owned) (\<lambda>_ w'. hist w' = hist w @ [ListRB ?ns]) w"
      using assms(2) by (simp add: handleRescheduleRolling_def list_rb_def vcg)
    with assms(3) show ?thesis by (auto simp: wp_result trace_def Cons_eq_append_conv)
  next
    case (Some trigger)
    let ?G = "rolling_guard E ?owned trigger"
    have "wp (rolling_migrate E (control_ns cns ?ns) gd ?owned trigger) (\<lambda>_ w'. ok ?G (hist ?w) (hist w')) ?w"
      by (rule rolling_migrate_ok) (use assms(1) in simp)
    then have "wp (handleRescheduleRolling E cns gd owned) (\<lambda>_ w'. ok ?G (hist ?w) (hist w')) w"
      using assms(2) Some by (simp add: handleRescheduleRolling_def list_rb_def vcg)
    then have "ok ?G (hist w) (hist (exec (handleRescheduleRolling E cns gd owned) w))"
      unfolding wp_result by (rule ok_trans [rotated]) (simp add: rolling_guard_def)
    then have "?G (hist w @ pre) (DeleteRB b)"
      using guarded_at [of ?G "hist w" pre "DeleteRB b" post] assms(3) ok_trace by metis
    moreover have "trigger \<in> set ?owned" "rolling_trigger trigger" using Some by (auto simp: find_Some_iff)
    ultimately show ?thesis by blast
  qed
qed

text \<open>A request that was handled is not handled again: without another pending request a run only lists the bindings.\<close>

lemma rolling_handled_once:
  assumes "env_list_rb E (hist w) (om_Namespace (gd_Meta gd)) = Inr latest"
    and "\<And>b. b \<in> set (owned_of gd latest) \<Longrightarrow> \<not> rolling_trigger b"
  shows "run_state (handleRescheduleRolling E cns gd owned) w =
    (((0, None), False), w\<lparr>hist := hist w @ [ListRB (om_Namespace (gd_Meta gd))]\<rparr>)"
proof -
  have "find rolling_trigger (owned_of gd latest) = None" using assms(2) by (simp add: find_None_iff)
  with assms(1) show ?thesis
    by (simp add: handleRescheduleRolling_def list_rb_def call_def State_Monad.bind_def State_Monad.return_def Let_def)
qed

lemma succeeded_no_trigger:
  "\<not> rolling_trigger (b\<lparr>rb_Status := (rb_Status b)\<lparr>rb_RescheduleStatus := succeeded_status p t b\<rparr>\<rparr>)"
  by (simp add: rolling_trigger_def succeeded_status_def Let_def)

end
