(* ===== verification/Spec2Isabelle.thy ===== *)
theory Spec2Isabelle
  imports Whole_System Rolling_Migration
begin

section \<open>KubeMorph: a verified model of the optimizer, the controllers and the server\<close>

text \<open>
  \<^bold>\<open>The program.\<close> KubeMorph runs replicas of a deployment over several Kubernetes clusters and moves them
  when another placement is better. Users talk to a REST server, which stores Clusters, GlobalDeployments and
  OptimizationPolicies in the control cluster. The Cluster controller probes the member clusters and summarises
  their nodes. The GlobalDeployment controller creates one ReplicaBinding per replica and assigns it to a node. The
  ReplicaBinding controller realises a binding as a member Deployment with one replica in the target cluster. The
  OptimizationPolicy controller holds a lease so that one policy is active, observes where the replicas run and starts
  evaluations by timer. An evaluation gathers nodes, prices, power curves, latencies and topologies, scores
  placements by weighted goals, solves an integer program for a better placement and stores the difference as the
  moves of a ReOrchestrationPlan. The plan controller writes the moves into the bindings as reschedule intents and
  closes the plan when all of them have ended.

  \<^bold>\<open>Theories and sources\<close> (paths below \<open>src/controller\<close>, those of the server below \<open>src/server/internal\<close>).
  \<^item> \<open>Go_Prelude\<close>: Go maps as association lists, integer wrap-around, results, loops, \<open>sort\<close>, \<open>strconv\<close> and \<open>strings\<close>.
  \<^item> \<open>Float64\<close>: IEEE binary64 arithmetic on rationals, round to nearest even, with infinities and NaN.
  \<^item> \<open>Optimizer_Base\<close> (\<open>internal/optimizer/types.go\<close>, \<open>plugins.go\<close>), \<open>Node_Scoring\<close> (\<open>plugin_cost.go\<close>,
    \<open>plugin_latency.go\<close>, \<open>plugin_migration.go\<close>), \<open>Matrix_Scoring\<close> and \<open>Energy\<close> (\<open>plugin_energy.go\<close>),
    \<open>Communication\<close> (\<open>plugin_communication.go\<close>), \<open>Objective\<close> (\<open>objective.go\<close>), \<open>Plan\<close> (\<open>plan.go\<close>,
    \<open>end_to_end.go\<close>), \<open>Readable\<close> (\<open>human_readable.go\<close>, \<open>human_readable_impl.go\<close>), \<open>ILP\<close> (\<open>ilp.go\<close>,
    \<open>ortools_solver_cgo.go\<close>, \<open>ortools_solver_stub.go\<close>): the optimizer, function by function.
  \<^item> \<open>Kube_Model\<close>: the API objects (\<open>api/v1alpha1\<close>), the API servers as a parameter, the effects of a run, and the
    calculus for what a run may do.
  \<^item> \<open>Member_Clients\<close> (\<open>internal/controller/multicluster/member_client_cache.go\<close>): the cache of cluster clients.
  \<^item> \<open>Replica_Binding\<close> (\<open>internal/controller/replicabinding_controller.go\<close>), \<open>Plan_Controller\<close>
    (\<open>reorchestrationplan_controller.go\<close>), \<open>Scheduler\<close> and \<open>Global_Deployment\<close>
    (\<open>globaldeployment_controller.go\<close>), \<open>Rolling_Migration\<close> (its handlers handleRescheduleMVP and
    handleRescheduleRolling), \<open>Cluster_Controller\<close> (\<open>cluster_controller.go\<close>), \<open>Policy_Status\<close>
    (\<open>optimizationpolicy_controller.go\<close>): the controllers, one definition per branch of their Reconcile.
  \<^item> \<open>Profiles\<close> (\<open>profiles_configmaps.go\<close>), \<open>Policy_Evaluation\<close> (\<open>defaultEvaluate\<close> of
    \<open>optimizationpolicy_controller.go\<close>, \<open>optimizationpolicy_solver_wiring.go\<close>): the evaluation of a policy;
    \<open>Policy_Plans\<close>: the evaluation together with the solver.
  \<^item> \<open>Rest_Applier\<close> (\<open>kube/cluster_apply.go\<close>), \<open>Cluster_Handlers\<close> (\<open>api/cluster_handler.go\<close>, \<open>kube/kubeconfig.go\<close>),
    \<open>Workload_Handlers\<close> (the other handlers of \<open>api\<close> and \<open>storage/kv.go\<close>), \<open>Router\<close> (\<open>api/router.go\<close>): the server.
  \<^item> \<open>Control_Plane\<close>: the controllers of the bindings together; \<open>Whole_System\<close>: all controllers and the server together.

  \<^bold>\<open>State and effects.\<close> The optimizer is pure: its errors are the left values of a sum. A reconcile run, an
  evaluation or a request is a program of \<open>State_Monad\<close> over \<open>world\<close>: the history of calls, the three client caches,
  the scheduler cursors and the timers. The answers of the API servers are functions of the history before the
  call, in the records \<open>env\<close> and \<open>rest_env\<close>, so that other actors may change anything between two calls; library
  functions the code calls (finalizer helpers, conditions, owner references, YAML, client construction, gin's
  binding of requests) are parameters too. What a theorem relies on is a named hypothesis about them:
  \<open>finalizer_laws\<close>, \<open>owner_laws\<close> and \<open>own_plan_law\<close> for library functions, \<open>identity_kept\<close> (a status patch keeps name,
  namespace and UID), \<open>token_stable\<close>, \<open>single_writer\<close>, \<open>in_time\<close>, \<open>overdue_store\<close> and \<open>bindings_writable\<close> for the answers
  of the API server during one run. The server may give an object a new version with every write. MPSolver is
  the parameter of \<open>ILP\<close>, with its documented meaning of a solution as hypothesis.

  \<^bold>\<open>What is shown.\<close>
  \<^item> Optimizer: scores are normalised monotonically and within bounds; the objective is the documented weighted
    sum and fails exactly on bad weights, unknown goals or failing plugins; the program handed to MPSolver has
    the size that the validation reports, and any placement decoded from a solution covers every replica and
    overloads no node; the moves of a plan are the exact difference of two placements and carry one into the
    other; the readable metrics agree with the plan.
  \<^item> Controllers: each run satisfies a guarantee, a predicate on every call at its place in the history,
    proved once per controller (\<open>rb_guard\<close>, \<open>plan_guard\<close>, \<open>gd_guard\<close>, \<open>cluster_guard\<close>, \<open>policy_guard\<close>). From it: a
    reschedule creates the new Deployment only after the old one is gone; finalizers are removed only after cleanup;
    Running, Ready and Succeeded are only reported on evidence; targets are candidates that fit (a template without
    requests fits everywhere); the clusters take turns in the candidate list; a lease is taken over only when expired;
    a run on a plan whose bindings run closes it. Of the rolling migration, which Reconcile does not
    call: revisions are fresh, and other revisions of a replica are deleted only after a Deployment of the replica
    was seen available in the new target cluster.
  \<^item> Evaluation: the gathered problem is well formed whatever the API servers answer; a plan is created for an
    active policy only, its moves are the difference to the solver's assignment, and after carrying them out the
    requests of the replicas stay within the allocatable resources of their nodes, as templates and nodes were read in
    the run; the loaded profiles are those of the ConfigMaps.
  \<^item> Server: an imported cluster can be reached by the controllers; a submitted deployment runs with its containers
    and volumes; a deletion covers all replicas; pages partition the list; label selectors are parsed back.
  \<^item> System: by rule induction over all sequences of runs, evaluations and requests, the history follows the
    guarantees of all components at once (\<open>whole_guard\<close>).
  \<^item> Behaviour that looks unintended is proved as it is: after its timeout a plan records no end of a move, a status report drops the
    observed revision, deletion waits on unsettled bindings, an existing Deployment blocks an assigned binding, a plan
    below the threshold is executed, an update through the server overwrites concurrent changes under their own version, creating over an
    existing deployment drops its finalizers, large page numbers make the list handlers panic.

  \<^bold>\<open>Interfaces.\<close> Locales state what components rely on: client caches (\<open>client_provider\<close>, interpreted for all
  three caches), scoring plugins, solvers, and the kinds of objects the server writes (\<open>typed_resource\<close>, interpreted
  for clusters, deployments and policies).

  \<^bold>\<open>Bounds.\<close> int32 and int64 are \<open>int\<close> with wrap-around written out; the status update loop of the
  GlobalDeployment controller runs at most five times and that of the revision at most ten, as in the code; the retries of the server are bounded by a
  parameter (\<open>retry.DefaultRetry\<close>); all other loops are recursions on lists, and no definition needs fuel.

  \<^bold>\<open>Not modelled.\<close> Log output and the diagnostics that are only logged, metrics registration, manager wiring and
  flags, configuration, construction of the server's clients, generated deep copies, the C++ shim of MPSolver and the
  web UI have no entry: they are I/O, glue or generated. ApplyClusterCR and GetNodesFromKubeconfig of the server are called from nowhere.
  Fused multiply-add, the sign of zero, the order of equal elements under \<open>sort.Slice\<close>, nil checks of arguments that
  are never nil, and locks are abstracted.
\<close>

end
